(* ===== verification/Base_Lib.thy ===== *)
theory Base_Lib
  imports Complex_Main "HOL-Library.Word" "HOL-Library.Product_Lexorder" "HOL-Library.List_Lexorder"
    "HOL-Library.Code_Target_Numeral"
begin

text \<open>
  The prelude of the development: the result type of code that can raise, with its bind,
  traversal and fold; slices of lists (Python's \<open>xs[a:b]\<close> on non-negative bounds); the
  zero-based numbering that \<open>enumerate\<close> gives; generic facts about lists that the
  components share. The collections \<open>result_simps\<close> and \<open>slice_simps\<close> hold the
  rewrite rules for the two, for \<open>simp add:\<close> and \<open>auto simp:\<close>.
\<close>

named_theorems result_simps "inversion rules of the result combinators"
named_theorems slice_simps "rewrite rules for slices"

section \<open>Results: a value or a raised error\<close>

text \<open>
  \<open>Inl e\<close> is a raised exception, \<open>Inr a\<close> a returned value. \<open>rbind m f\<close> runs \<open>f\<close> on
  the value of \<open>m\<close> and passes an exception on, as a Python statement sequence does.
\<close>

definition rbind :: "'e + 'a \<Rightarrow> ('a \<Rightarrow> 'e + 'b) \<Rightarrow> 'e + 'b" where
  "rbind m f = (case m of Inl e \<Rightarrow> Inl e | Inr a \<Rightarrow> f a)"

definition ensure :: "bool \<Rightarrow> 'e \<Rightarrow> 'e + unit" where
  "ensure b e = (if b then Inr () else Inl e)"

primrec traverse :: "('a \<Rightarrow> 'e + 'b) \<Rightarrow> 'a list \<Rightarrow> 'e + 'b list" where
  "traverse f [] = Inr []"
| "traverse f (x # xs) = rbind (f x) (\<lambda>y. rbind (traverse f xs) (\<lambda>ys. Inr (y # ys)))"

primrec rfold :: "('s \<Rightarrow> 'a \<Rightarrow> 'e + 's) \<Rightarrow> 's \<Rightarrow> 'a list \<Rightarrow> 'e + 's" where
  "rfold f s [] = Inr s"
| "rfold f s (x # xs) = rbind (f s x) (\<lambda>t. rfold f t xs)"

lemma rbind_simps [simp]:
  "rbind (Inl e) f = Inl e"
  "rbind (Inr a) f = f a"
  by (simp_all add: rbind_def)

lemma rbind_Inr_iff [result_simps]:
  "rbind m f = Inr b \<longleftrightarrow> (\<exists>a. m = Inr a \<and> f a = Inr b)"
  by (cases m) auto

lemma rbind_Inl_iff [result_simps]:
  "rbind m f = Inl e \<longleftrightarrow> m = Inl e \<or> (\<exists>a. m = Inr a \<and> f a = Inl e)"
  by (cases m) auto

lemma ensure_Inr_iff [simp, result_simps]: "ensure b e = Inr u \<longleftrightarrow> b"
  by (simp add: ensure_def)

lemma ensure_Inl_iff [simp, result_simps]: "ensure b e = Inl e' \<longleftrightarrow> \<not> b \<and> e' = e"
  by (auto simp: ensure_def)

lemma rbind_ensure [simp]: "rbind (ensure b e) f = (if b then f () else Inl e)"
  by (simp add: ensure_def)

lemma if_Inl_Inr_iff [result_simps]:
  "(if b then Inl e else m) = Inr a \<longleftrightarrow> \<not> b \<and> m = Inr a"
  by simp

lemma traverse_Inr_iff:
  "traverse f xs = Inr ys \<longleftrightarrow> list_all2 (\<lambda>x y. f x = Inr y) xs ys"
proof (induction xs arbitrary: ys)
  case Nil
  then show ?case by auto
next
  case (Cons x xs)
  then show ?case by (cases ys) (auto simp: result_simps)
qed

lemma traverse_length: "traverse f xs = Inr ys \<Longrightarrow> length ys = length xs"
  by (auto simp: traverse_Inr_iff dest: list_all2_lengthD)

lemma traverse_member:
  assumes "traverse f xs = Inr ys" and "y \<in> set ys"
  shows "\<exists>x \<in> set xs. f x = Inr y"
  using assms by (auto simp: traverse_Inr_iff list_all2_conv_all_nth set_conv_nth)

lemma traverse_nth:
  "traverse f xs = Inr ys \<Longrightarrow> i < length xs \<Longrightarrow> f (xs ! i) = Inr (ys ! i)"
  by (auto simp: traverse_Inr_iff list_all2_conv_all_nth)

lemma traverse_total: "(\<And>x. x \<in> set xs \<Longrightarrow> \<exists>y. f x = Inr y) \<Longrightarrow> \<exists>ys. traverse f xs = Inr ys"
proof (induction xs)
  case Nil
  then show ?case by simp
next
  case (Cons x xs)
  then obtain y ys where "f x = Inr y" "traverse f xs = Inr ys"
    by (metis list.set_intros(1,2))
  then show ?case by simp
qed

lemma rfold_invariant:
  assumes "rfold f s xs = Inr t" and "P s"
    and "\<And>u x v. P u \<Longrightarrow> x \<in> set xs \<Longrightarrow> f u x = Inr v \<Longrightarrow> P v"
  shows "P t"
  using assms
proof (induction xs arbitrary: s)
  case Nil
  then show ?case by simp
next
  case (Cons x xs)
  from Cons.prems(1) obtain u where u: "f s x = Inr u" "rfold f u xs = Inr t"
    by (auto simp: result_simps)
  have "P u" using Cons.prems(2,3) u(1) by (metis list.set_intros(1))
  with u(2) Cons.prems(3) Cons.IH show ?case by (metis list.set_intros(2))
qed

lemma rfold_append: "rfold f s (xs @ ys) = rbind (rfold f s xs) (\<lambda>t. rfold f t ys)"
  by (induction xs arbitrary: s) (auto simp: rbind_def split: sum.splits)

section \<open>Slices\<close>

definition slice :: "'a list \<Rightarrow> nat \<Rightarrow> nat \<Rightarrow> 'a list" where
  "slice xs a b = take (b - a) (drop a xs)"

lemma length_slice [simp, slice_simps]: "length (slice xs a b) = min (b - a) (length xs - a)"
  by (simp add: slice_def)

lemma slice_empty_iff [slice_simps]: "slice xs a b = [] \<longleftrightarrow> b \<le> a \<or> length xs \<le> a"
  by (auto simp: slice_def)

lemma nth_slice [slice_simps]: "i < b - a \<Longrightarrow> a + i < length xs \<Longrightarrow> slice xs a b ! i = xs ! (a + i)"
  by (simp add: slice_def)

lemma slice_slice [slice_simps]:
  assumes "d \<le> b - a"
  shows "slice (slice xs a b) c d = slice xs (a + c) (a + d)"
proof -
  have eq: "min (b - (a + c)) (d - c) = d - c" "a + d - (a + c) = d - c"
    using assms by auto
  have "slice (slice xs a b) c d = take (d - c) (take (b - a - c) (drop (c + a) xs))"
    by (simp add: slice_def drop_take add.commute)
  also have "\<dots> = take (min (d - c) (b - a - c)) (drop (c + a) xs)" by simp
  also have "min (d - c) (b - a - c) = d - c" using assms by simp
  finally show ?thesis using eq by (simp add: slice_def add.commute)
qed

lemma slice_all [simp]: "slice xs 0 (length xs) = xs"
  by (simp add: slice_def)

lemma take_eq_slice: "take n xs = slice xs 0 n"
  by (simp add: slice_def)

lemma slice_append: "a \<le> b \<Longrightarrow> b \<le> c \<Longrightarrow> slice xs a b @ slice xs b c = slice xs a c"
proof -
  assume "a \<le> b" "b \<le> c"
  then have "slice xs b c = take (c - b) (drop (b - a) (drop a xs))"
    by (simp add: slice_def)
  moreover have "c - a = (b - a) + (c - b)" using \<open>a \<le> b\<close> \<open>b \<le> c\<close> by simp
  ultimately show ?thesis by (simp only: slice_def take_add)
qed

text \<open>
  Python's \<open>xs[i]\<close> and \<open>xs[i:j]\<close> with integer bounds: a negative bound counts from the end, a
  slice bound beyond the end stops there, and \<open>None\<close> is the \<open>IndexError\<close> of an index.
\<close>

definition py_index :: "'a list \<Rightarrow> int \<Rightarrow> 'a option" where
  "py_index xs i =
     (let n = int (length xs); j = (if i < 0 then i + n else i)
      in if 0 \<le> j \<and> j < n then Some (xs ! nat j) else None)"

definition py_bound :: "nat \<Rightarrow> int \<Rightarrow> nat" where
  "py_bound n i = (if i < 0 then nat (i + int n) else min n (nat i))"

definition py_slice :: "'a list \<Rightarrow> int \<Rightarrow> int \<Rightarrow> 'a list" where
  "py_slice xs i j = slice xs (py_bound (length xs) i) (py_bound (length xs) j)"

lemma py_index_nat [slice_simps]: "py_index xs (int i) = (if i < length xs then Some (xs ! i) else None)"
  by (simp add: py_index_def Let_def)

lemma py_slice_nat [slice_simps]:
  "a \<le> length xs \<Longrightarrow> b \<le> length xs \<Longrightarrow> py_slice xs (int a) (int b) = slice xs a b"
  by (simp add: py_slice_def py_bound_def)

section \<open>Lists\<close>

text \<open>\<open>enumerate(xs, start=n)\<close>.\<close>

abbreviation enum_from :: "nat \<Rightarrow> 'a list \<Rightarrow> (nat \<times> 'a) list" where
  "enum_from n xs \<equiv> List.enumerate n xs"

text \<open>Cutting a list into pieces of length \<open>n\<close>: \<open>xs[i : i + n] for i in range(0, len(xs), n)\<close>.\<close>

function batches :: "nat \<Rightarrow> 'a list \<Rightarrow> 'a list list" where
  "batches n xs = (if xs = [] \<or> n = 0 then [] else take n xs # batches n (drop n xs))"
  by pat_completeness auto
termination
  by (relation "measure (\<lambda>(n, xs). length xs)") auto

declare batches.simps [simp del]

lemma batches_Nil [simp]: "batches n [] = []"
  by (simp add: batches.simps)

lemma concat_batches: "0 < n \<Longrightarrow> concat (batches n xs) = xs"
proof (induction n xs rule: batches.induct)
  case (1 n xs)
  then show ?case by (subst batches.simps) (auto simp: append_take_drop_id)
qed

lemma batches_bounds: "0 < n \<Longrightarrow> b \<in> set (batches n xs) \<Longrightarrow> b \<noteq> [] \<and> length b \<le> n"
proof (induction n xs rule: batches.induct)
  case (1 n xs)
  show ?case
  proof (cases "xs = []")
    case True
    with "1.prems" show ?thesis by simp
  next
    case False
    with "1.prems" have "b = take n xs \<or> b \<in> set (batches n (drop n xs))"
      by (simp add: batches.simps [of n xs])
    then show ?thesis
    proof
      assume "b = take n xs"
      with False "1.prems"(1) show ?thesis by simp
    next
      assume "b \<in> set (batches n (drop n xs))"
      with False "1.prems"(1) "1.IH" show ?thesis by simp
    qed
  qed
qed

lemma takeWhile_all_or_drop:
  "length (takeWhile P xs) = n \<Longrightarrow> take n xs = takeWhile P xs \<and> drop n xs = dropWhile P xs"
  by (metis takeWhile_eq_take dropWhile_eq_drop)

lemma sort_key_set [simp]: "set (sort_key f xs) = set xs"
  by simp

lemma sorted_wrt_map_key: "sorted (map f (sort_key f xs))"
  by simp

lemma find_SomeD: "find P xs = Some x \<Longrightarrow> x \<in> set xs \<and> P x"
  by (auto simp: find_Some_iff in_set_conv_nth)

lemma find_NoneD: "find P xs = None \<Longrightarrow> x \<in> set xs \<Longrightarrow> \<not> P x"
  by (auto simp: find_None_iff)

lemma sum_list_mono_nat: "(\<And>x. x \<in> set xs \<Longrightarrow> f x \<le> g x) \<Longrightarrow>
    sum_list (map f xs) \<le> sum_list (map (g :: 'a \<Rightarrow> nat) xs)"
  by (induction xs) (auto intro: add_mono)

text \<open>What a cut of a sorted list leaves out does not come before what it keeps.\<close>

lemma sorted_take_le:
  assumes "x \<in> set (take n (sort_key k xs))" "y \<in> set xs" "y \<notin> set (take n (sort_key k xs))"
  shows "k x \<le> k y" "length (take n (sort_key k xs)) = n"
proof -
  let ?L = "sort_key k xs"
  from assms(2) obtain b where b: "b < length ?L" "?L ! b = y" by (metis in_set_conv_nth set_sort)
  have nb: "n \<le> b"
  proof (rule ccontr)
    assume "\<not> n \<le> b"
    with b assms(3) show False by (metis in_set_conv_nth length_take min_less_iff_conj not_le nth_take)
  qed
  from assms(1) obtain a where a: "a < n" "a < length ?L" "?L ! a = x" by (auto simp: in_set_conv_nth)
  have "sorted (map k ?L)" by simp
  then have "map k ?L ! a \<le> map k ?L ! b" using a nb b by (intro sorted_nth_mono) auto
  with a b show "k x \<le> k y" by simp
  show "length (take n ?L) = n" using nb b by simp
qed

end
