(* ===== verification/Py_Text.thy ===== *)
theory Py_Text
  imports Base_Lib
begin

text \<open>
  Python's \<open>str\<close> and \<open>bytes\<close>, as far as the program uses them. A \<open>str\<close> is a list of code
  points (\<open>pystr\<close>), so \<open>len\<close>, slices and comparison (\<open><\<close> on lists, lexicographic) are
  Python's; a \<open>bytes\<close> is a list of numbers below 256. What the interpreter answers from its
  Unicode tables for code points outside ASCII is a parameter, the record \<open>unicode\<close>; the
  white-space set and everything about ASCII are written out.
\<close>

section \<open>Code points and strings\<close>

type_synonym cp = nat
type_synonym pystr = "cp list"
type_synonym pybytes = "nat list"

text \<open>A literal of the source.\<close>

definition lit :: "string \<Rightarrow> pystr" where
  "lit s = map of_char s"

lemma lit_simps:
  "lit [] = []"
  "lit (c # s) = of_char c # lit s"
  by (simp_all add: lit_def)

lemma length_lit [simp]: "length (lit s) = length s"
  by (simp add: lit_def)

lemma lit_eq_iff [simp]: "lit s = lit t \<longleftrightarrow> s = t"
  by (auto simp: lit_def inj_map_eq_map inj_def)

record unicode =
  uc_word :: "cp \<Rightarrow> bool"          \<comment> \<open>alphanumeric or underscore, outside ASCII\<close>
  uc_alnum :: "cp \<Rightarrow> bool"         \<comment> \<open>\<open>str.isalnum\<close>, outside ASCII\<close>
  uc_isdigit :: "cp \<Rightarrow> bool"       \<comment> \<open>\<open>str.isdigit\<close>, outside ASCII\<close>
  uc_decimal :: "cp \<Rightarrow> nat option" \<comment> \<open>decimal digit value (category Nd), outside ASCII\<close>
  uc_islower :: "cp \<Rightarrow> bool"       \<comment> \<open>\<open>str.islower\<close>, outside ASCII\<close>
  uc_printable :: "cp \<Rightarrow> bool"     \<comment> \<open>\<open>str.isprintable\<close>, outside ASCII\<close>
  uc_fold :: "cp \<Rightarrow> pystr"         \<comment> \<open>full case folding, outside ASCII\<close>
  uc_lower :: "pystr \<Rightarrow> pystr"     \<comment> \<open>\<open>str.lower\<close> of a string that is not pure ASCII\<close>
  uc_nfkc :: "pystr \<Rightarrow> pystr"      \<comment> \<open>NFKC of a string that is not pure ASCII\<close>

text \<open>An instance that knows no character outside ASCII, for evaluation.\<close>

definition ascii_only :: unicode where
  "ascii_only = \<lparr>uc_word = (\<lambda>_. False), uc_alnum = (\<lambda>_. False), uc_isdigit = (\<lambda>_. False),
     uc_decimal = (\<lambda>_. None), uc_islower = (\<lambda>_. False), uc_printable = (\<lambda>_. False),
     uc_fold = (\<lambda>c. [c]), uc_lower = (\<lambda>s. s), uc_nfkc = (\<lambda>s. s)\<rparr>"

section \<open>Character classes\<close>

text \<open>\<open>str.isspace\<close>, which is also the regular expression class \<open>\s\<close>.\<close>

definition is_space :: "cp \<Rightarrow> bool" where
  "is_space c \<longleftrightarrow> (9 \<le> c \<and> c \<le> 13) \<or> (28 \<le> c \<and> c \<le> 32) \<or> c = 133 \<or> c = 160 \<or> c = 5760
     \<or> (8192 \<le> c \<and> c \<le> 8202) \<or> c = 8232 \<or> c = 8233 \<or> c = 8239 \<or> c = 8287 \<or> c = 12288"

definition is_ascii :: "cp \<Rightarrow> bool" where
  "is_ascii c \<longleftrightarrow> c < 128"

definition ascii_digit :: "cp \<Rightarrow> bool" where
  "ascii_digit c \<longleftrightarrow> 48 \<le> c \<and> c \<le> 57"

definition ascii_upper :: "cp \<Rightarrow> bool" where
  "ascii_upper c \<longleftrightarrow> 65 \<le> c \<and> c \<le> 90"

definition ascii_lower :: "cp \<Rightarrow> bool" where
  "ascii_lower c \<longleftrightarrow> 97 \<le> c \<and> c \<le> 122"

definition is_alnum :: "unicode \<Rightarrow> cp \<Rightarrow> bool" where
  "is_alnum U c = (if is_ascii c then ascii_digit c \<or> ascii_upper c \<or> ascii_lower c else uc_alnum U c)"

text \<open>The class \<open>\w\<close>. No white space is a word character.\<close>

definition is_word :: "unicode \<Rightarrow> cp \<Rightarrow> bool" where
  "is_word U c = (if is_ascii c then ascii_digit c \<or> ascii_upper c \<or> ascii_lower c \<or> c = 95
     else \<not> is_space c \<and> uc_word U c)"

definition is_digit :: "unicode \<Rightarrow> cp \<Rightarrow> bool" where
  "is_digit U c = (if is_ascii c then ascii_digit c else uc_isdigit U c)"

text \<open>The class \<open>\d\<close> and the digits \<open>int()\<close> accepts: decimal digits.\<close>

definition decimal_value :: "unicode \<Rightarrow> cp \<Rightarrow> nat option" where
  "decimal_value U c =
     (if is_ascii c then (if ascii_digit c then Some (c - 48) else None) else uc_decimal U c)"

definition is_lower :: "unicode \<Rightarrow> cp \<Rightarrow> bool" where
  "is_lower U c = (if is_ascii c then ascii_lower c else uc_islower U c)"

definition is_printable :: "unicode \<Rightarrow> cp \<Rightarrow> bool" where
  "is_printable U c = (if is_ascii c then 32 \<le> c \<and> c \<noteq> 127 else uc_printable U c)"

definition ascii_fold :: "cp \<Rightarrow> cp" where
  "ascii_fold c = (if ascii_upper c then c + 32 else c)"

text \<open>\<open>str.casefold\<close> works character by character; \<open>str.lower\<close> looks at the whole string.\<close>

definition casefold :: "unicode \<Rightarrow> pystr \<Rightarrow> pystr" where
  "casefold U s = concat (map (\<lambda>c. if is_ascii c then [ascii_fold c] else uc_fold U c) s)"

definition lower :: "unicode \<Rightarrow> pystr \<Rightarrow> pystr" where
  "lower U s = (if list_all is_ascii s then map ascii_fold s else uc_lower U s)"

definition nfkc :: "unicode \<Rightarrow> pystr \<Rightarrow> pystr" where
  "nfkc U s = (if list_all is_ascii s then s else uc_nfkc U s)"

lemma word_not_space: "is_word U c \<Longrightarrow> \<not> is_space c"
  by (auto simp: is_word_def is_space_def ascii_digit_def ascii_upper_def ascii_lower_def split: if_splits)

lemma space_not_word [simp]: "is_space c \<Longrightarrow> \<not> is_word U c"
  using word_not_space by blast

lemma is_space_blank [simp]: "is_space 32" "is_space 10"
  by (simp_all add: is_space_def)

section \<open>Stripping\<close>

definition lstrip_by :: "(cp \<Rightarrow> bool) \<Rightarrow> pystr \<Rightarrow> pystr" where
  "lstrip_by P s = dropWhile P s"

definition rstrip_by :: "(cp \<Rightarrow> bool) \<Rightarrow> pystr \<Rightarrow> pystr" where
  "rstrip_by P s = rev (dropWhile P (rev s))"

definition strip_by :: "(cp \<Rightarrow> bool) \<Rightarrow> pystr \<Rightarrow> pystr" where
  "strip_by P s = rstrip_by P (lstrip_by P s)"

abbreviation strip :: "pystr \<Rightarrow> pystr" where
  "strip s \<equiv> strip_by is_space s"

text \<open>A string with no \<open>P\<close>-character at either end.\<close>

definition trimmed :: "(cp \<Rightarrow> bool) \<Rightarrow> pystr \<Rightarrow> bool" where
  "trimmed P s \<longleftrightarrow> (s = [] \<or> \<not> P (hd s) \<and> \<not> P (last s))"

lemma trimmedI: "(\<And>c. c \<in> set s \<Longrightarrow> \<not> P c) \<Longrightarrow> trimmed P s"
  by (cases "s = []") (auto simp: trimmed_def)

lemma last_rstrip: "rstrip_by P s \<noteq> [] \<Longrightarrow> \<not> P (last (rstrip_by P s))"
  by (simp add: rstrip_by_def last_rev hd_dropWhile)

lemma rstrip_prefix: "\<exists>t. s = rstrip_by P s @ t \<and> list_all P t"
proof
  have "rev s = takeWhile P (rev s) @ dropWhile P (rev s)" by simp
  then have "s = rev (dropWhile P (rev s)) @ rev (takeWhile P (rev s))"
    by (metis rev_append rev_rev_ident)
  moreover have "list_all P (rev (takeWhile P (rev s)))"
    by (auto simp: list_all_iff dest: set_takeWhileD)
  ultimately show "s = rstrip_by P s @ rev (takeWhile P (rev s)) \<and> list_all P (rev (takeWhile P (rev s)))"
    by (simp add: rstrip_by_def)
qed

lemma hd_rstrip: "rstrip_by P s \<noteq> [] \<Longrightarrow> hd (rstrip_by P s) = hd s"
  using rstrip_prefix [of s P] by (metis hd_append2)

lemma trimmed_strip [simp]: "trimmed P (strip_by P s)"
proof -
  have "strip_by P s \<noteq> [] \<Longrightarrow> \<not> P (hd (strip_by P s))"
    unfolding strip_by_def lstrip_by_def
    by (metis hd_dropWhile hd_rstrip rstrip_by_def dropWhile.simps(1) rev.simps(1))
  moreover have "strip_by P s \<noteq> [] \<Longrightarrow> \<not> P (last (strip_by P s))"
    unfolding strip_by_def by (rule last_rstrip)
  ultimately show ?thesis by (auto simp: trimmed_def)
qed

lemma strip_trimmed [simp]: "trimmed P s \<Longrightarrow> strip_by P s = s"
proof (cases "s = []")
  case True
  then show ?thesis by (simp add: strip_by_def lstrip_by_def rstrip_by_def)
next
  case False
  assume "trimmed P s"
  with False have h: "\<not> P (hd s)" and l: "\<not> P (hd (rev s))"
    by (auto simp: trimmed_def hd_rev)
  have "dropWhile P s = s" using h by (cases s) auto
  moreover have "dropWhile P (rev s) = rev s" using l False by (cases "rev s") auto
  ultimately show ?thesis by (simp add: strip_by_def lstrip_by_def rstrip_by_def)
qed

lemma strip_idem [simp]: "strip_by P (strip_by P s) = strip_by P s"
  by simp

lemma set_strip: "set (strip_by P s) \<subseteq> set s"
  unfolding strip_by_def lstrip_by_def rstrip_by_def
  by (auto dest!: set_dropWhileD)

lemma length_strip: "length (strip_by P s) \<le> length s"
  unfolding strip_by_def lstrip_by_def rstrip_by_def
  by (metis length_dropWhile_le length_rev le_trans)

lemma strip_Nil [simp]: "strip_by P [] = []"
  by (simp add: strip_by_def lstrip_by_def rstrip_by_def)

lemma strip_eq_Nil_iff: "strip_by P s = [] \<longleftrightarrow> list_all P s"
proof
  assume "strip_by P s = []"
  then have "dropWhile P (rev (dropWhile P s)) = []"
    by (simp add: strip_by_def rstrip_by_def lstrip_by_def)
  then have "\<forall>x \<in> set (dropWhile P s). P x"
    by (auto simp: dropWhile_eq_Nil_conv dest: set_dropWhileD)
  then have "dropWhile P s = []" by (metis hd_dropWhile hd_in_set)
  then show "list_all P s" by (auto simp: dropWhile_eq_Nil_conv list_all_iff)
next
  assume "list_all P s"
  then have "dropWhile P s = []" by (auto simp: dropWhile_eq_Nil_conv list_all_iff)
  then show "strip_by P s = []"
    unfolding strip_by_def rstrip_by_def lstrip_by_def by (metis dropWhile.simps(1) rev.simps(1))
qed

section \<open>Searching, splitting, joining\<close>

definition starts_with :: "pystr \<Rightarrow> pystr \<Rightarrow> bool" where
  "starts_with p s \<longleftrightarrow> take (length p) s = p"

definition ends_with :: "pystr \<Rightarrow> pystr \<Rightarrow> bool" where
  "ends_with p s \<longleftrightarrow> length p \<le> length s \<and> drop (length s - length p) s = p"

text \<open>\<open>p in s\<close>.\<close>

fun contains :: "pystr \<Rightarrow> pystr \<Rightarrow> bool" where
  "contains p [] \<longleftrightarrow> p = []"
| "contains p (c # s) \<longleftrightarrow> starts_with p (c # s) \<or> contains p s"

text \<open>\<open>s.split(c)\<close> for a one-character separator.\<close>

fun split_on :: "cp \<Rightarrow> pystr \<Rightarrow> pystr list" where
  "split_on d [] = [[]]"
| "split_on d (c # s) =
     (if c = d then [] # split_on d s
      else (case split_on d s of [] \<Rightarrow> [[c]] | w # ws \<Rightarrow> (c # w) # ws))"

text \<open>\<open>s.split(c, 1)\<close>: the part before the first separator, and the rest if there is one.\<close>

definition split_once :: "cp \<Rightarrow> pystr \<Rightarrow> pystr \<times> pystr option" where
  "split_once d s = (takeWhile (\<lambda>c. c \<noteq> d) s,
     (case dropWhile (\<lambda>c. c \<noteq> d) s of [] \<Rightarrow> None | _ # t \<Rightarrow> Some t))"

fun join_with :: "pystr \<Rightarrow> pystr list \<Rightarrow> pystr" where
  "join_with sep [] = []"
| "join_with sep [x] = x"
| "join_with sep (x # y # xs) = x @ sep @ join_with sep (y # xs)"

text \<open>\<open>s.replace(a, b)\<close> for a one-character \<open>a\<close>, and for the two-character \<open>"\r\n"\<close>.\<close>

definition replace_char :: "cp \<Rightarrow> pystr \<Rightarrow> pystr \<Rightarrow> pystr" where
  "replace_char a b s = concat (map (\<lambda>c. if c = a then b else [c]) s)"

fun unix_newlines :: "pystr \<Rightarrow> pystr" where
  "unix_newlines [] = []"
| "unix_newlines [c] = [c]"
| "unix_newlines (c # d # s) =
     (if c = 13 \<and> d = 10 then 10 # unix_newlines s else c # unix_newlines (d # s))"

lemma split_on_nonempty [simp]: "split_on d s \<noteq> []"
  by (cases s) (auto split: list.splits)

lemma split_on_no_sep: "w \<in> set (split_on d s) \<Longrightarrow> d \<notin> set w"
proof (induction s arbitrary: w)
  case Nil
  then show ?case by simp
next
  case (Cons c s)
  show ?case
  proof (cases "split_on d s")
    case Nil
    then show ?thesis by simp
  next
    case (Cons v vs)
    with Cons.IH Cons.prems show ?thesis by (auto split: if_splits)
  qed
qed

lemma split_on_absent: "d \<notin> set s \<Longrightarrow> split_on d s = [s]"
  by (induction s) auto

lemma split_once_append: "d \<notin> set a \<Longrightarrow> split_once d (a @ d # b) = (a, Some b)"
proof -
  assume "d \<notin> set a"
  then have "takeWhile (\<lambda>c. c \<noteq> d) (a @ d # b) = a \<and> dropWhile (\<lambda>c. c \<noteq> d) (a @ d # b) = d # b"
    by (induction a) auto
  then show ?thesis by (simp add: split_once_def)
qed

lemma join_with_Cons: "xs \<noteq> [] \<Longrightarrow> join_with sep (x # xs) = x @ sep @ join_with sep xs"
  by (cases xs) auto

lemma set_join_with: "set (join_with sep xs) \<subseteq> set sep \<union> (\<Union>x\<in>set xs. set x)"
  by (induction sep xs rule: join_with.induct) auto

lemma join_with_eq_Nil: "join_with sep xs = [] \<Longrightarrow> x \<in> set xs \<Longrightarrow> x = []"
  by (induction sep xs rule: join_with.induct) auto

section \<open>Decimal numerals\<close>

fun decimal :: "nat \<Rightarrow> pystr" where
  "decimal n = (if n < 10 then [48 + n] else decimal (n div 10) @ [48 + n mod 10])"

declare decimal.simps [simp del]

text \<open>The format specification \<open>06d\<close>.\<close>

definition pad6 :: "nat \<Rightarrow> pystr" where
  "pad6 n = replicate (6 - length (decimal n)) 48 @ decimal n"

text \<open>Reading a digit string back, the left inverse of both.\<close>

definition digits_value :: "pystr \<Rightarrow> nat" where
  "digits_value s = foldl (\<lambda>a c. 10 * a + (c - 48)) 0 s"

lemma digits_value_append: "digits_value (s @ [c]) = 10 * digits_value s + (c - 48)"
  by (simp add: digits_value_def)

lemma digits_value_decimal [simp]: "digits_value (decimal n) = n"
proof (induction n rule: decimal.induct)
  case (1 n)
  then show ?case
    by (subst decimal.simps) (auto simp: digits_value_append digits_value_def)
qed

lemma digits_value_zeros: "digits_value (replicate k 48 @ s) = digits_value s"
  by (induction k) (auto simp: digits_value_def)

lemma digits_value_pad6 [simp]: "digits_value (pad6 n) = n"
  by (simp add: pad6_def digits_value_zeros)

lemma decimal_inject: "decimal m = decimal n \<Longrightarrow> m = n"
  by (metis digits_value_decimal)

lemma pad6_inject: "pad6 m = pad6 n \<longleftrightarrow> m = n"
  by (metis digits_value_pad6)

lemma decimal_nonempty [simp]: "decimal n \<noteq> []"
  by (subst decimal.simps) simp

lemma decimal_digits: "c \<in> set (decimal n) \<Longrightarrow> ascii_digit c"
proof (induction n rule: decimal.induct)
  case (1 n)
  then show ?case
    by (subst (asm) decimal.simps) (auto simp: ascii_digit_def split: if_splits)
qed

end
