(* ===== verification/Errors.thy ===== *)
theory Errors
  imports Py_Text
begin

text \<open>
  The exceptions the program raises and handles: the \<open>DomainError\<close> hierarchy of
  \<open>packages/domain/errors.py\<close> with its status codes, the built-in exceptions the code
  raises or catches, and the ones its libraries raise at it. \<open>'a result\<close> is the type of
  code that may raise.
\<close>

section \<open>packages/domain/errors.py\<close>

datatype domain_error_class =
    DomainError | ConflictError | NotFoundError | AuthenticationError | AuthorizationError
  | UploadRejectedError | UploadTooLargeError | RetrievalUnavailableError | InvalidQueryError

fun status_code :: "domain_error_class \<Rightarrow> nat" where
  "status_code DomainError = 400"
| "status_code ConflictError = 409"
| "status_code NotFoundError = 404"
| "status_code AuthenticationError = 401"
| "status_code AuthorizationError = 403"
| "status_code UploadRejectedError = 422"
| "status_code UploadTooLargeError = 413"
| "status_code RetrievalUnavailableError = 503"
| "status_code InvalidQueryError = 422"

fun error_code_of :: "domain_error_class \<Rightarrow> pystr" where
  "error_code_of DomainError = lit ''domain_error''"
| "error_code_of ConflictError = lit ''conflict''"
| "error_code_of NotFoundError = lit ''not_found''"
| "error_code_of AuthenticationError = lit ''authentication_failed''"
| "error_code_of AuthorizationError = lit ''forbidden''"
| "error_code_of UploadRejectedError = lit ''upload_rejected''"
| "error_code_of UploadTooLargeError = lit ''upload_too_large''"
| "error_code_of RetrievalUnavailableError = lit ''retrieval_unavailable''"
| "error_code_of InvalidQueryError = lit ''invalid_query''"

section \<open>Exceptions\<close>

text \<open>
  \<open>Domain c m\<close> is an instance of the class \<open>c\<close> above with message \<open>m\<close>; \<open>HttpError\<close> is
  FastAPI's \<open>HTTPException\<close>; \<open>TokenError\<close> is the subclass of \<open>ValueError\<close> of
  \<open>packages/security/tokens.py\<close>; \<open>IntegrityError\<close> is a violated table constraint and
  \<open>DatabaseError\<close> any other refusal of the database (a trigger, a row-level-security check).
\<close>

datatype exn =
    Domain domain_error_class pystr
  | HttpError nat pystr
  | ValueError pystr
  | TokenError pystr
  | RuntimeError pystr
  | KeyError
  | TypeError
  | IntegrityError
  | DatabaseError
  | FileExistsError
  | FileNotFoundError
  | NotADirectoryError
  | IsADirectoryError

type_synonym 'a result = "exn + 'a"

text \<open>\<open>except ValueError\<close> also catches \<open>TokenError\<close>; \<open>except RuntimeError\<close> only its own.\<close>

definition is_value_error :: "exn \<Rightarrow> bool" where
  "is_value_error e = (case e of ValueError _ \<Rightarrow> True | TokenError _ \<Rightarrow> True | _ \<Rightarrow> False)"

definition is_runtime_error :: "exn \<Rightarrow> bool" where
  "is_runtime_error e = (case e of RuntimeError _ \<Rightarrow> True | _ \<Rightarrow> False)"

abbreviation raise_value :: "string \<Rightarrow> 'a result" where
  "raise_value m \<equiv> Inl (ValueError (lit m))"

abbreviation raise_runtime :: "string \<Rightarrow> 'a result" where
  "raise_runtime m \<equiv> Inl (RuntimeError (lit m))"

abbreviation raise_domain :: "domain_error_class \<Rightarrow> string \<Rightarrow> 'a result" where
  "raise_domain c m \<equiv> Inl (Domain c (lit m))"

text \<open>\<open>str(exc)\<close> for the exceptions whose message the program passes on.\<close>

fun message_of :: "exn \<Rightarrow> pystr" where
  "message_of (Domain _ m) = m"
| "message_of (HttpError _ m) = m"
| "message_of (ValueError m) = m"
| "message_of (TokenError m) = m"
| "message_of (RuntimeError m) = m"
| "message_of _ = []"

text \<open>The class name, which the worker records for an exception with an empty message.\<close>

fun class_name :: "exn \<Rightarrow> pystr" where
  "class_name (Domain DomainError _) = lit ''DomainError''"
| "class_name (Domain ConflictError _) = lit ''ConflictError''"
| "class_name (Domain NotFoundError _) = lit ''NotFoundError''"
| "class_name (Domain AuthenticationError _) = lit ''AuthenticationError''"
| "class_name (Domain AuthorizationError _) = lit ''AuthorizationError''"
| "class_name (Domain UploadRejectedError _) = lit ''UploadRejectedError''"
| "class_name (Domain UploadTooLargeError _) = lit ''UploadTooLargeError''"
| "class_name (Domain RetrievalUnavailableError _) = lit ''RetrievalUnavailableError''"
| "class_name (Domain InvalidQueryError _) = lit ''InvalidQueryError''"
| "class_name (HttpError _ _) = lit ''HTTPException''"
| "class_name (ValueError _) = lit ''ValueError''"
| "class_name (TokenError _) = lit ''TokenError''"
| "class_name (RuntimeError _) = lit ''RuntimeError''"
| "class_name KeyError = lit ''KeyError''"
| "class_name TypeError = lit ''TypeError''"
| "class_name IntegrityError = lit ''IntegrityError''"
| "class_name DatabaseError = lit ''DBAPIError''"
| "class_name FileExistsError = lit ''FileExistsError''"
| "class_name FileNotFoundError = lit ''FileNotFoundError''"
| "class_name NotADirectoryError = lit ''NotADirectoryError''"
| "class_name IsADirectoryError = lit ''IsADirectoryError''"

text \<open>
  \<open>handle_domain_error\<close> of \<open>apps/api/main.py\<close>: the response of a request that raised a
  \<open>DomainError\<close>: status, body, and the \<open>WWW-Authenticate\<close> header.
\<close>

record error_response =
  resp_status :: nat
  resp_code :: pystr
  resp_message :: pystr
  resp_request_id :: "pystr option"
  resp_authenticate :: "pystr option"

definition handle_domain_error :: "pystr option \<Rightarrow> domain_error_class \<Rightarrow> pystr \<Rightarrow> error_response" where
  "handle_domain_error request_id c m =
     \<lparr>resp_status = status_code c, resp_code = error_code_of c, resp_message = m,
      resp_request_id = request_id,
      resp_authenticate = (if status_code c = 401 then Some (lit ''Bearer'') else None)\<rparr>"

text \<open>
  \<open>request_context\<close>: the request identifier (the client's header or a fresh UUID, cut to 128
  characters) and the headers every response carries.
\<close>

definition request_id_of :: "pystr option \<Rightarrow> pystr \<Rightarrow> pystr" where
  "request_id_of header fresh = take 128 (case header of None \<Rightarrow> fresh | Some h \<Rightarrow> h)"

definition response_headers :: "pystr \<Rightarrow> (pystr \<times> pystr) list" where
  "response_headers request_id =
     [(lit ''X-Request-ID'', request_id), (lit ''X-Content-Type-Options'', lit ''nosniff''),
      (lit ''X-Frame-Options'', lit ''DENY''), (lit ''Referrer-Policy'', lit ''no-referrer'')]"

end
