(* ===== verification/Digests.thy ===== *)
theory Digests
  imports Errors
begin

unbundle bit_operations_syntax

text \<open>
  The standard-library encodings the program computes with: strict UTF-8, SHA-256
  (\<open>hashlib.sha256(...).hexdigest()\<close>, as FIPS 180-4 defines it), \<open>str(uuid)\<close> and
  \<open>UUID(text)\<close>, and the JSON text that \<open>json.dumps\<close> gives for the identity of a chunk.
\<close>

section \<open>UTF-8\<close>

definition is_cont :: "nat \<Rightarrow> bool" where
  "is_cont b \<longleftrightarrow> 128 \<le> b \<and> b < 192"

text \<open>Unicode scalar values: the code points UTF-8 can encode.\<close>

definition is_scalar :: "cp \<Rightarrow> bool" where
  "is_scalar c \<longleftrightarrow> c < 0xD800 \<or> 0xE000 \<le> c \<and> c < 0x110000"

definition utf8_encode_char :: "cp \<Rightarrow> pybytes" where
  "utf8_encode_char c =
     (if c < 0x80 then [c]
      else if c < 0x800 then [0xC0 + c div 64, 0x80 + c mod 64]
      else if c < 0x10000 then [0xE0 + c div 4096, 0x80 + (c div 64) mod 64, 0x80 + c mod 64]
      else [0xF0 + c div 262144, 0x80 + (c div 4096) mod 64, 0x80 + (c div 64) mod 64, 0x80 + c mod 64])"

definition utf8_encode :: "pystr \<Rightarrow> pybytes" where
  "utf8_encode s = concat (map utf8_encode_char s)"

text \<open>
  The first character of a byte string and the bytes after it; \<open>None\<close> where the strict codec
  raises \<open>UnicodeDecodeError\<close>: a stray continuation byte, a truncated or overlong sequence, a
  surrogate, a value beyond 10FFFF.
\<close>

fun utf8_next :: "pybytes \<Rightarrow> (cp \<times> pybytes) option" where
  "utf8_next [] = None"
| "utf8_next (b # bs) =
     (if b < 0x80 then Some (b, bs)
      else if b < 0xC2 then None
      else if b < 0xE0 then
        (case bs of b1 # r \<Rightarrow>
           if is_cont b1 then Some ((b - 0xC0) * 64 + (b1 - 0x80), r) else None
         | _ \<Rightarrow> None)
      else if b < 0xF0 then
        (case bs of b1 # b2 # r \<Rightarrow>
           let c = (b - 0xE0) * 4096 + (b1 - 0x80) * 64 + (b2 - 0x80) in
           if is_cont b1 \<and> is_cont b2 \<and> 0x800 \<le> c \<and> is_scalar c then Some (c, r) else None
         | _ \<Rightarrow> None)
      else if b < 0xF5 then
        (case bs of b1 # b2 # b3 # r \<Rightarrow>
           let c = (b - 0xF0) * 262144 + (b1 - 0x80) * 4096 + (b2 - 0x80) * 64 + (b3 - 0x80) in
           if is_cont b1 \<and> is_cont b2 \<and> is_cont b3 \<and> 0x10000 \<le> c \<and> is_scalar c
           then Some (c, r) else None
         | _ \<Rightarrow> None)
      else None)"

lemma utf8_next_shorter: "utf8_next bs = Some (c, r) \<Longrightarrow> length r < length bs"
  by (cases bs) (auto simp: Let_def split: if_splits list.splits)

declare utf8_next.simps(2) [simp del]

function utf8_decode :: "pybytes \<Rightarrow> pystr option" where
  "utf8_decode bs =
     (if bs = [] then Some []
      else (case utf8_next bs of
              None \<Rightarrow> None
            | Some (c, r) \<Rightarrow> map_option (\<lambda>s. c # s) (utf8_decode r)))"
  by pat_completeness auto
termination
  by (relation "measure length") (auto dest: utf8_next_shorter)

declare utf8_decode.simps [simp del]

lemma utf8_decode_Nil [simp]: "utf8_decode [] = Some []"
  by (simp add: utf8_decode.simps)

lemma utf8_decode_step:
  "utf8_next bs = Some (c, r) \<Longrightarrow> utf8_decode bs = map_option (\<lambda>s. c # s) (utf8_decode r)"
  by (cases bs) (simp_all add: utf8_decode.simps [of "_ # _"])

lemma utf8_decode_stuck: "bs \<noteq> [] \<Longrightarrow> utf8_next bs = None \<Longrightarrow> utf8_decode bs = None"
  by (simp add: utf8_decode.simps [of bs])

lemma div_mod_parts:
  "c div 64 * 64 + c mod 64 = (c :: nat)"
  "c div 4096 * 4096 + (c div 64) mod 64 * 64 + c mod 64 = c"
  "c div 262144 * 262144 + (c div 4096) mod 64 * 4096 + (c div 64) mod 64 * 64 + c mod 64 = c"
proof -
  show 1: "c div 64 * 64 + c mod 64 = c" by simp
  have d: "c div 4096 = c div 64 div 64" "c div 262144 = c div 64 div 64 div 64"
    by (simp_all flip: div_mult2_eq)
  have e: "\<And>x :: nat. 64 * (x div 64) + x mod 64 = x" by simp
  show 2: "c div 4096 * 4096 + (c div 64) mod 64 * 64 + c mod 64 = c"
    using e [of c] e [of "c div 64"] unfolding d by linarith
  show "c div 262144 * 262144 + (c div 4096) mod 64 * 4096 + (c div 64) mod 64 * 64 + c mod 64 = c"
    using 2 e [of "c div 4096"] unfolding d by linarith
qed

lemma is_cont_low: "is_cont (0x80 + x mod 64)"
  by (simp add: is_cont_def)

lemma utf8_next_encode:
  assumes "is_scalar c"
  shows "utf8_next (utf8_encode_char c @ r) = Some (c, r)"
proof (cases "c < 0x80")
  case True
  then show ?thesis by (simp add: utf8_encode_char_def utf8_next.simps)
next
  case c1: False
  note cont = is_cont_low [unfolded is_cont_def]
  show ?thesis
  proof (cases "c < 0x800")
    case True
    define q where "q = c div 64"
    have "q < 32" "2 \<le> q" "q * 64 + c mod 64 = c"
      using True c1 div_mod_parts(1) [of c] by (simp_all add: q_def)
    with True c1 show ?thesis
      by (simp add: utf8_encode_char_def utf8_next.simps is_cont_low flip: q_def)
  next
    case c2: False
    show ?thesis
    proof (cases "c < 0x10000")
      case True
      then have "c div 4096 < 16" by auto
      with True c1 c2 assms show ?thesis
        using div_mod_parts(2) [of c] by (simp add: utf8_encode_char_def utf8_next.simps is_cont_low Let_def)
    next
      case False
      then have "c div 262144 < 5" using assms by (auto simp: is_scalar_def)
      with False c1 c2 assms show ?thesis
        using div_mod_parts(3) [of c] by (simp add: utf8_encode_char_def utf8_next.simps is_cont_low Let_def)
    qed
  qed
qed

theorem utf8_roundtrip: "list_all is_scalar s \<Longrightarrow> utf8_decode (utf8_encode s) = Some s"
proof (induction s)
  case Nil
  then show ?case by (simp add: utf8_encode_def)
next
  case (Cons c s)
  then have "utf8_next (utf8_encode (c # s)) = Some (c, utf8_encode s)"
    by (simp add: utf8_encode_def utf8_next_encode)
  with Cons show ?case by (simp add: utf8_decode_step)
qed

section \<open>SHA-256\<close>

type_synonym w32 = "32 word"

text \<open>The round constants and the initial state of FIPS 180-4, in decimal.\<close>

definition sha_k :: "w32 list" where
  "sha_k =
     [1116352408, 1899447441, 3049323471, 3921009573, 961987163, 1508970993, 2453635748,
      2870763221, 3624381080, 310598401, 607225278, 1426881987, 1925078388, 2162078206,
      2614888103, 3248222580, 3835390401, 4022224774, 264347078, 604807628, 770255983,
      1249150122, 1555081692, 1996064986, 2554220882, 2821834349, 2952996808, 3210313671,
      3336571891, 3584528711, 113926993, 338241895, 666307205, 773529912, 1294757372,
      1396182291, 1695183700, 1986661051, 2177026350, 2456956037, 2730485921, 2820302411,
      3259730800, 3345764771, 3516065817, 3600352804, 4094571909, 275423344, 430227734,
      506948616, 659060556, 883997877, 958139571, 1322822218, 1537002063, 1747873779,
      1955562222, 2024104815, 2227730452, 2361852424, 2428436474, 2756734187, 3204031479,
      3329325298]"

definition sha_h0 :: "w32 list" where
  "sha_h0 =
     [1779033703, 3144134277, 1013904242, 2773480762, 1359893119, 2600822924, 528734635,
      1541459225]"

text \<open>Padding: a 1 bit, zeros up to 56 modulo 64, the bit length in eight bytes.\<close>

definition be_bytes :: "nat \<Rightarrow> nat \<Rightarrow> nat list" where
  "be_bytes k n = map (\<lambda>i. (n div 256 ^ (k - 1 - i)) mod 256) [0..<k]"

definition sha_pad :: "pybytes \<Rightarrow> pybytes" where
  "sha_pad m = m @ [128] @ replicate ((119 - length m mod 64) mod 64) 0 @ be_bytes 8 (8 * length m)"

fun be_words :: "pybytes \<Rightarrow> w32 list" where
  "be_words (a # b # c # d # r) = of_nat (((a * 256 + b) * 256 + c) * 256 + d) # be_words r"
| "be_words _ = []"

definition sha_schedule :: "w32 list \<Rightarrow> w32 list" where
  "sha_schedule ws = fold (\<lambda>t w.
     let x = w ! (t - 15); y = w ! (t - 2);
         s0 = word_rotr 7 x XOR word_rotr 18 x XOR drop_bit 3 x;
         s1 = word_rotr 17 y XOR word_rotr 19 y XOR drop_bit 10 y
     in w @ [w ! (t - 16) + s0 + w ! (t - 7) + s1]) [16..<64] ws"

fun sha_round :: "w32 list \<Rightarrow> w32 \<times> w32 \<Rightarrow> w32 list" where
  "sha_round [a, b, c, d, e, f, g, h] (k, w) =
     (let t1 = h + (word_rotr 6 e XOR word_rotr 11 e XOR word_rotr 25 e)
                 + ((e AND f) XOR (NOT e AND g)) + k + w;
          t2 = (word_rotr 2 a XOR word_rotr 13 a XOR word_rotr 22 a)
                 + ((a AND b) XOR (a AND c) XOR (b AND c))
      in [t1 + t2, a, b, c, d + t1, e, f, g])"
| "sha_round xs _ = xs"

definition sha_block :: "w32 list \<Rightarrow> pybytes \<Rightarrow> w32 list" where
  "sha_block h m = map2 (+) h (foldl sha_round h (zip sha_k (sha_schedule (be_words m))))"

definition sha256 :: "pybytes \<Rightarrow> w32 list" where
  "sha256 m = foldl sha_block sha_h0 (batches 64 (sha_pad m))"

definition hex_digit :: "nat \<Rightarrow> cp" where
  "hex_digit n = (if n < 10 then 48 + n else 87 + n)"

text \<open>The \<open>k\<close> low hexadecimal digits of a number.\<close>

definition hex_digits :: "nat \<Rightarrow> nat \<Rightarrow> pystr" where
  "hex_digits k n = map (\<lambda>i. hex_digit ((n div 16 ^ (k - 1 - i)) mod 16)) [0..<k]"

definition sha256_hexdigest :: "pybytes \<Rightarrow> pystr" where
  "sha256_hexdigest m = concat (map (\<lambda>w. hex_digits 8 (unat w)) (sha256 m))"

lemma length_hex_digits [simp]: "length (hex_digits k n) = k"
  by (simp add: hex_digits_def)

lemma length_sha_round: "length xs = 8 \<Longrightarrow> length (sha_round xs p) = 8"
  by (induction xs p rule: sha_round.induct) (auto simp: Let_def)

lemma length_sha_rounds: "length xs = 8 \<Longrightarrow> length (foldl sha_round xs ps) = 8"
  by (induction ps arbitrary: xs) (auto simp: length_sha_round)

lemma length_sha_blocks: "length h = 8 \<Longrightarrow> length (foldl sha_block h bs) = 8"
  by (induction bs arbitrary: h) (auto simp: sha_block_def length_sha_rounds)

lemma length_sha256 [simp]: "length (sha256 m) = 8"
  by (simp add: sha256_def length_sha_blocks sha_h0_def)

lemma length_sha256_hexdigest [simp]: "length (sha256_hexdigest m) = 64"
proof -
  have "map length (map (\<lambda>w. hex_digits 8 (unat w)) (sha256 m)) = replicate 8 8"
    by (rule nth_equalityI) auto
  then show ?thesis
    by (simp add: sha256_hexdigest_def length_concat) (simp add: eval_nat_numeral)
qed

end
