(* ===== verification/Identifiers.thy ===== *)
theory Identifiers
  imports Digests
begin

text \<open>
  UUIDs as text (\<open>str(uuid)\<close> and the constructor \<open>UUID(text)\<close>, which raises
  \<open>ValueError\<close> on text it cannot read), and JSON values with the text that
  \<open>json.dumps(..., sort_keys=True, separators=(",", ":"))\<close> gives for them. The theorem of
  the first part is the round trip of a UUID through its text.
\<close>

type_synonym uuid = "128 word"

section \<open>str(uuid)\<close>

definition uuid_str :: "uuid \<Rightarrow> pystr" where
  "uuid_str u = (let h = hex_digits 32 (unat u) in
     slice h 0 8 @ [45] @ slice h 8 12 @ [45] @ slice h 12 16 @ [45] @ slice h 16 20 @ [45] @ slice h 20 32)"

section \<open>UUID(text)\<close>

text \<open>\<open>s.replace(p, "")\<close> for a non-empty \<open>p\<close>.\<close>

function remove_all :: "pystr \<Rightarrow> pystr \<Rightarrow> pystr" where
  "remove_all p s =
     (if p = [] then s
      else case s of [] \<Rightarrow> []
        | c # t \<Rightarrow> if starts_with p s then remove_all p (drop (length p) s) else c # remove_all p t)"
  by pat_completeness auto
termination
  by (relation "measure (\<lambda>(p, s). length s)") auto

declare remove_all.simps [simp del]

definition hex_value :: "cp \<Rightarrow> nat option" where
  "hex_value c = (if ascii_digit c then Some (c - 48)
     else if 97 \<le> c \<and> c \<le> 102 then Some (c - 87)
     else if 65 \<le> c \<and> c \<le> 70 then Some (c - 55) else None)"

text \<open>Digits with single underscores between them, most significant first.\<close>

fun hex_run :: "nat \<Rightarrow> pystr \<Rightarrow> nat option" where
  "hex_run a [] = None"
| "hex_run a [c] = map_option (\<lambda>v. 16 * a + v) (hex_value c)"
| "hex_run a (c # d # s) =
     (case hex_value c of None \<Rightarrow> None
      | Some v \<Rightarrow> if d = 95 then hex_run (16 * a + v) s else hex_run (16 * a + v) (d # s))"

text \<open>
  \<open>int(s, 16)\<close> for text without a minus sign: decimal digits of any script count, white
  space around the number, a plus sign and a \<open>0x\<close> prefix are accepted.
\<close>

definition normal_digit :: "unicode \<Rightarrow> cp \<Rightarrow> cp" where
  "normal_digit U c = (if is_ascii c then c else if is_space c then 32
     else case decimal_value U c of Some v \<Rightarrow> 48 + v | None \<Rightarrow> 63)"

definition int16 :: "unicode \<Rightarrow> pystr \<Rightarrow> nat option" where
  "int16 U s =
     (let t = strip (map (normal_digit U) s);
          t = (if starts_with [43] t then drop 1 t else t);
          t = (if starts_with (lit ''0x'') t \<or> starts_with (lit ''0X'') t
               then (if starts_with [95] (drop 2 t) then drop 3 t else drop 2 t) else t)
      in hex_run 0 t)"

definition uuid_parse :: "unicode \<Rightarrow> pystr \<Rightarrow> uuid result" where
  "uuid_parse U s =
     (let h = remove_all (lit ''uuid:'') (remove_all (lit ''urn:'') s);
          h = replace_char 45 [] (strip_by (\<lambda>c. c = 123 \<or> c = 125) h)
      in if length h \<noteq> 32 then raise_value ''badly formed hexadecimal UUID string''
         else case int16 U h of
             None \<Rightarrow> raise_value ''invalid literal for int() with base 16''
           | Some n \<Rightarrow> if n < 2 ^ 128 then Inr (of_nat n) else raise_value ''int is out of range (need a 128-bit value)'')"

section \<open>The round trip\<close>

definition lower_hex :: "cp \<Rightarrow> bool" where
  "lower_hex c \<longleftrightarrow> ascii_digit c \<or> 97 \<le> c \<and> c \<le> 102"

lemma hex_digit_facts:
  assumes "v < 16"
  shows "lower_hex (hex_digit v)" "hex_value (hex_digit v) = Some v"
  using assms by (auto simp: lower_hex_def hex_digit_def hex_value_def ascii_digit_def)

lemma lower_hex_facts:
  assumes "lower_hex c"
  shows "c \<noteq> 45" "c \<noteq> 58" "c \<noteq> 46" "c \<noteq> 95" "c \<noteq> 43" "c \<noteq> 123" "c \<noteq> 125" "c \<noteq> 120" "c \<noteq> 88" "\<not> is_space c" "is_ascii c"
  using assms by (auto simp: lower_hex_def ascii_digit_def is_space_def is_ascii_def)

lemma not_lower_hex [simp]:
  "\<not> lower_hex 45" "\<not> lower_hex 58" "\<not> lower_hex 46" "\<not> lower_hex 123" "\<not> lower_hex 125"
  by (simp_all add: lower_hex_def ascii_digit_def)

lemma hex_digits_Suc: "hex_digits (Suc k) n = hex_digits k (n div 16) @ [hex_digit (n mod 16)]"
proof -
  have "n div 16 ^ (k - i) = n div 16 div 16 ^ (k - 1 - i)" if "i < k" for i
  proof -
    from that have "k - i = Suc (k - 1 - i)" by simp
    then show ?thesis by (simp add: div_mult2_eq)
  qed
  then show ?thesis by (simp add: hex_digits_def)
qed

lemma hex_digits_lower: "c \<in> set (hex_digits k n) \<Longrightarrow> lower_hex c"
  by (auto simp: hex_digits_def hex_digit_facts)

lemma hex_run_snoc:
  "list_all lower_hex s \<Longrightarrow> s \<noteq> [] \<Longrightarrow> v < 16 \<Longrightarrow>
    hex_run a (s @ [hex_digit v]) = map_option (\<lambda>x. 16 * x + v) (hex_run a s)"
proof (induction a s rule: hex_run.induct)
  case (2 a c)
  then show ?case
    by (auto simp: hex_digit_facts split: option.split dest: lower_hex_facts(4) hex_digit_facts(1) [THEN lower_hex_facts(4)])
next
  case (3 a c d s)
  then show ?case by (auto split: option.split dest: lower_hex_facts(4))
qed simp

lemma hex_run_digits: "hex_run 0 (hex_digits (Suc k) n) = Some (n mod 16 ^ Suc k)"
proof (induction k arbitrary: n)
  case 0
  then show ?case by (simp add: hex_digits_def hex_digit_facts)
next
  case (Suc k)
  have "list_all lower_hex (hex_digits (Suc k) (n div 16))" "hex_digits (Suc k) (n div 16) \<noteq> []"
    by (auto simp: list_all_iff hex_digits_lower simp flip: length_greater_0_conv)
  with Suc.IH [of "n div 16"]
  have "hex_run 0 (hex_digits (Suc (Suc k)) n) = Some (16 * ((n div 16) mod 16 ^ Suc k) + n mod 16)"
    by (subst hex_digits_Suc) (simp add: hex_run_snoc)
  moreover have "16 * ((n div 16) mod 16 ^ Suc k) + n mod 16 = n mod 16 ^ Suc (Suc k)"
    using mod_mult2_eq [of n 16 "16 ^ Suc k"] by simp
  ultimately show ?case by simp
qed

lemma remove_all_absent: "58 \<in> set p \<Longrightarrow> 58 \<notin> set s \<Longrightarrow> remove_all p s = s"
proof (induction s)
  case Nil
  then show ?case by (simp add: remove_all.simps)
next
  case (Cons c s)
  have "\<not> starts_with p (c # s)"
  proof
    assume "starts_with p (c # s)"
    then have "set p \<subseteq> set (c # s)" by (metis starts_with_def set_take_subset)
    with Cons.prems show False by auto
  qed
  moreover have "p \<noteq> []" using Cons.prems(1) by auto
  ultimately show ?case using Cons by (simp add: remove_all.simps [of p "c # s"])
qed

lemma replace_char_remove: "replace_char a [] s = filter (\<lambda>c. c \<noteq> a) s"
  by (induction s) (auto simp: replace_char_def)

lemma uuid_str_chars: "c \<in> set (uuid_str u) \<Longrightarrow> lower_hex c \<or> c = 45"
  by (auto simp: uuid_str_def Let_def slice_def dest!: in_set_takeD in_set_dropD hex_digits_lower)

lemma uuid_str_no_dot [simp]: "46 \<notin> set (uuid_str u)"
  using uuid_str_chars [of 46 u] by auto

lemma uuid_str_digits: "filter (\<lambda>c. c \<noteq> 45) (uuid_str u) = hex_digits 32 (unat u)"
proof -
  let ?h = "hex_digits 32 (unat u)"
  have keep: "filter (\<lambda>c. c \<noteq> 45) (slice ?h a b) = slice ?h a b" for a b
    by (rule filter_True) (auto simp: slice_def dest!: in_set_takeD in_set_dropD hex_digits_lower)
  have "slice ?h 0 8 @ slice ?h 8 12 @ slice ?h 12 16 @ slice ?h 16 20 @ slice ?h 20 32 = slice ?h 0 32"
    by (simp add: slice_append)
  also have "\<dots> = ?h" using slice_all [of ?h] by simp
  finally show ?thesis by (simp add: uuid_str_def Let_def keep)
qed

lemma int16_hex: "int16 U (hex_digits 32 n) = Some (n mod 16 ^ 32)"
proof -
  let ?h = "hex_digits 32 n"
  have low: "\<And>c. c \<in> set ?h \<Longrightarrow> lower_hex c" by (rule hex_digits_lower)
  have ne: "?h \<noteq> []" by (simp flip: length_greater_0_conv)
  have map: "map (normal_digit U) ?h = ?h"
    by (rule map_idI) (auto simp: normal_digit_def dest!: low lower_hex_facts(11))
  have "trimmed is_space ?h"
    by (rule trimmedI) (auto dest!: low lower_hex_facts(10))
  then have st: "strip (map (normal_digit U) ?h) = ?h" by (simp add: map)
  obtain a b r where h: "?h = a # b # r"
    using length_hex_digits [of 32 n] by (cases ?h rule: remdups_adj.cases) auto
  have ab: "a \<noteq> 43" "b \<noteq> 120" "b \<noteq> 88" using low h lower_hex_facts by (metis list.set_intros)+
  have "int16 U ?h = hex_run 0 ?h"
    unfolding int16_def Let_def st using ab by (simp add: h starts_with_def lit_simps)
  then show ?thesis using hex_run_digits [of 31 n] by simp
qed

text \<open>Reading the text of a UUID gives the UUID back.\<close>

lemma uuid_parse_str [simp]: "uuid_parse U (uuid_str u) = Inr u"
proof -
  let ?s = "uuid_str u"
  have colon: "58 \<notin> set ?s" using uuid_str_chars [of 58 u] by auto
  have braces: "strip_by (\<lambda>c. c = 123 \<or> c = 125) ?s = ?s"
  proof (rule strip_trimmed)
    have "123 \<notin> set ?s" "125 \<notin> set ?s"
      using uuid_str_chars [of 123 u] uuid_str_chars [of 125 u] by auto
    then show "trimmed (\<lambda>c. c = 123 \<or> c = 125) ?s"
      by (intro trimmedI) metis
  qed
  have rm: "remove_all (lit ''uuid:'') (remove_all (lit ''urn:'') ?s) = ?s"
    using colon by (simp add: remove_all_absent lit_simps)
  have bound: "unat u < 16 ^ 32"
    using unsigned_less [of u, where ?'a = nat] by simp
  then show ?thesis
    by (simp add: uuid_parse_def rm braces replace_char_remove uuid_str_digits int16_hex Let_def)
qed

lemma uuid_str_inject: "uuid_str u = uuid_str v \<longleftrightarrow> u = v"
  by (metis uuid_parse_str Inr_inject)

section \<open>JSON\<close>

datatype json = JNull | JBool bool | JInt int | JStr pystr | JList "json list" | JObj "(pystr \<times> json) list"

definition u_escape :: "nat \<Rightarrow> pystr" where
  "u_escape n = [92, 117] @ hex_digits 4 n"

text \<open>Strings with \<open>ensure_ascii\<close>: characters beyond the basic plane become surrogate pairs.\<close>

definition json_char :: "cp \<Rightarrow> pystr" where
  "json_char c =
     (if c = 34 then [92, 34] else if c = 92 then [92, 92]
      else if c = 10 then [92, 110] else if c = 13 then [92, 114] else if c = 9 then [92, 116]
      else if c = 12 then [92, 102] else if c = 8 then [92, 98]
      else if 32 \<le> c \<and> c \<le> 126 then [c]
      else if c < 0x10000 then u_escape c
      else u_escape (0xD800 + (c - 0x10000) div 1024) @ u_escape (0xDC00 + (c - 0x10000) mod 1024))"

definition json_string :: "pystr \<Rightarrow> pystr" where
  "json_string s = [34] @ concat (map json_char s) @ [34]"

definition int_text :: "int \<Rightarrow> pystr" where
  "int_text i = (if i < 0 then 45 # decimal (nat (- i)) else decimal (nat i))"

fun json_dumps :: "json \<Rightarrow> pystr" where
  "json_dumps JNull = lit ''null''"
| "json_dumps (JBool b) = (if b then lit ''true'' else lit ''false'')"
| "json_dumps (JInt i) = int_text i"
| "json_dumps (JStr s) = json_string s"
| "json_dumps (JList xs) = [91] @ join_with [44] (map json_dumps xs) @ [93]"
| "json_dumps (JObj kvs) =
     [123] @ join_with [44] (map (\<lambda>(k, v). json_string k @ [58] @ v)
        (sort_key fst (map (\<lambda>(k, v). (k, json_dumps v)) kvs))) @ [125]"

text \<open>\<open>d.get(k)\<close> and \<open>d[k]\<close> on a decoded object; Python's \<open>None\<close> is \<open>JNull\<close>.\<close>

definition json_get :: "(pystr \<times> json) list \<Rightarrow> pystr \<Rightarrow> json" where
  "json_get d k = (case map_of d k of None \<Rightarrow> JNull | Some v \<Rightarrow> v)"

definition json_item :: "(pystr \<times> json) list \<Rightarrow> pystr \<Rightarrow> json result" where
  "json_item d k = (case map_of d k of None \<Rightarrow> Inl KeyError | Some v \<Rightarrow> Inr v)"

end
