(* ===== verification/Rag_Models.thy ===== *)
theory Rag_Models
  imports Identifiers
begin

text \<open>
  \<open>packages/rag/config.py\<close> and \<open>packages/rag/models.py\<close>: the constants of the one
  production pipeline, and the values that pass between its stages (canonical blocks and
  documents, source locators, chunks, search results) with the checks their constructors
  make. The lemmas say what a constructed value satisfies and when \<open>resolve\<close> succeeds.
\<close>

section \<open>The pipeline configuration\<close>

record pipeline_config =
  pipeline_version :: pystr
  parser_version :: pystr
  chunk_target_tokens :: nat
  chunk_max_tokens :: nat
  chunk_overlap_tokens :: nat
  embedding_model_id :: pystr
  embedding_artifact_id :: pystr
  embedding_artifact_revision :: pystr
  embedding_dimension :: nat
  embedding_input_limit :: nat
  embedding_query_prefix :: pystr
  lexical_scorer :: pystr
  bm25_k1 :: real
  bm25_b :: real
  heading_weight :: real
  title_weight :: real
  exact_identifier_bonus :: real
  phrase_bonus :: real
  dense_candidates :: nat
  lexical_candidates :: nat
  rrf_constant :: nat
  default_result_count :: nat
  maximum_result_count :: nat

definition PIPELINE :: pipeline_config where
  "PIPELINE = \<lparr>
     pipeline_version = lit ''rag-v1-c1-e1'',
     parser_version = lit ''canonical-parser-v2-layout'',
     chunk_target_tokens = 350,
     chunk_max_tokens = 500,
     chunk_overlap_tokens = 60,
     embedding_model_id = lit ''snowflake/snowflake-arctic-embed-xs'',
     embedding_artifact_id = lit ''snowflake/snowflake-arctic-embed-xs'',
     embedding_artifact_revision = lit ''d8c86521100d3556476a063fc2342036d45c106f'',
     embedding_dimension = 384,
     embedding_input_limit = 512,
     embedding_query_prefix = lit ''Represent this sentence for searching relevant passages: '',
     lexical_scorer = lit ''bm25-structural-v1'',
     bm25_k1 = 12 / 10,
     bm25_b = 75 / 100,
     heading_weight = 75 / 100,
     title_weight = 5 / 10,
     exact_identifier_bonus = 15 / 10,
     phrase_bonus = 25 / 100,
     dense_candidates = 20,
     lexical_candidates = 20,
     rrf_constant = 60,
     default_result_count = 5,
     maximum_result_count = 10\<rparr>"

lemma PIPELINE_simps [simp]:
  "chunk_target_tokens PIPELINE = 350"
  "chunk_max_tokens PIPELINE = 500"
  "chunk_overlap_tokens PIPELINE = 60"
  "embedding_dimension PIPELINE = 384"
  "embedding_input_limit PIPELINE = 512"
  "bm25_k1 PIPELINE = 12 / 10"
  "bm25_b PIPELINE = 75 / 100"
  "heading_weight PIPELINE = 75 / 100"
  "title_weight PIPELINE = 5 / 10"
  "exact_identifier_bonus PIPELINE = 15 / 10"
  "phrase_bonus PIPELINE = 25 / 100"
  "dense_candidates PIPELINE = 20"
  "lexical_candidates PIPELINE = 20"
  "rrf_constant PIPELINE = 60"
  "maximum_result_count PIPELINE = 10"
  by (simp_all add: PIPELINE_def)

section \<open>Source locators\<close>

record source_locator =
  loc_block_id :: pystr
  loc_block_index :: int
  loc_char_start :: int
  loc_char_end :: int
  loc_page_number :: "int option"

definition page_ok :: "int option \<Rightarrow> bool" where
  "page_ok p \<longleftrightarrow> (case p of None \<Rightarrow> True | Some n \<Rightarrow> 1 \<le> n)"

definition SourceLocator :: "pystr \<Rightarrow> int \<Rightarrow> int \<Rightarrow> int \<Rightarrow> int option \<Rightarrow> source_locator result" where
  "SourceLocator bid idx cs ce page =
     (if bid = [] \<or> idx < 0 then raise_value ''source locator block identity is invalid''
      else if cs < 0 \<or> ce \<le> cs then raise_value ''source locator must contain a non-empty span''
      else if \<not> page_ok page then raise_value ''PDF page numbers are one-based''
      else Inr \<lparr>loc_block_id = bid, loc_block_index = idx, loc_char_start = cs, loc_char_end = ce,
                loc_page_number = page\<rparr>)"

definition json_of_page :: "int option \<Rightarrow> json" where
  "json_of_page p = (case p of None \<Rightarrow> JNull | Some n \<Rightarrow> JInt n)"

definition locator_as_dict :: "source_locator \<Rightarrow> (pystr \<times> json) list" where
  "locator_as_dict l =
     [(lit ''block_id'', JStr (loc_block_id l)),
      (lit ''block_index'', JInt (loc_block_index l)),
      (lit ''char_start'', JInt (loc_char_start l)),
      (lit ''char_end'', JInt (loc_char_end l)),
      (lit ''page_number'', json_of_page (loc_page_number l))]"

section \<open>Canonical blocks and documents\<close>

datatype block_kind = HEADING | PARAGRAPH | LIST_ITEM

record canonical_block =
  blk_id :: pystr
  blk_order :: int
  blk_kind :: block_kind
  blk_text :: pystr
  blk_heading_path :: "pystr list"
  blk_page_number :: "int option"

definition CanonicalBlock ::
    "pystr \<Rightarrow> int \<Rightarrow> block_kind \<Rightarrow> pystr \<Rightarrow> pystr list \<Rightarrow> int option \<Rightarrow> canonical_block result" where
  "CanonicalBlock bid ord kind text path page =
     (if bid = [] \<or> ord < 0 then raise_value ''canonical block identity is invalid''
      else if strip text = [] \<or> text \<noteq> strip text
        then raise_value ''canonical block text must be non-empty and normalized''
      else if \<not> page_ok page then raise_value ''PDF page numbers are one-based''
      else Inr \<lparr>blk_id = bid, blk_order = ord, blk_kind = kind, blk_text = text,
                blk_heading_path = path, blk_page_number = page\<rparr>)"

record canonical_document =
  doc_id :: uuid
  doc_version_id :: uuid
  doc_title :: pystr
  doc_media_type :: pystr
  doc_blocks :: "canonical_block list"

definition CanonicalDocument ::
    "uuid \<Rightarrow> uuid \<Rightarrow> pystr \<Rightarrow> pystr \<Rightarrow> canonical_block list \<Rightarrow> canonical_document result" where
  "CanonicalDocument did vid title media blocks =
     (if media = [] \<or> blocks = [] then raise_value ''canonical document requires a media type and blocks''
      else if card (set (map blk_id blocks)) \<noteq> length blocks
        then raise_value ''canonical block identifiers must be unique''
      else if map blk_order blocks \<noteq> map int [0..<length blocks]
        then raise_value ''canonical block order must be contiguous''
      else Inr \<lparr>doc_id = did, doc_version_id = vid, doc_title = title, doc_media_type = media,
                doc_blocks = blocks\<rparr>)"

definition resolve :: "canonical_document \<Rightarrow> source_locator \<Rightarrow> pystr result" where
  "resolve doc loc =
     (case py_index (doc_blocks doc) (loc_block_index loc) of
        None \<Rightarrow> raise_value ''source locator references a missing block''
      | Some block \<Rightarrow>
          if blk_id block \<noteq> loc_block_id loc \<or> blk_page_number block \<noteq> loc_page_number loc
            then raise_value ''source locator identity does not match its block''
          else if loc_char_end loc > int (length (blk_text block))
            then raise_value ''source locator extends beyond its block''
          else Inr (py_slice (blk_text block) (loc_char_start loc) (loc_char_end loc)))"

section \<open>Chunks\<close>

record chunk =
  chk_id :: pystr
  chk_document_id :: uuid
  chk_version_id :: uuid
  chk_order :: int
  chk_text :: pystr
  chk_embedding_text :: pystr
  chk_token_count :: int
  chk_locators :: "source_locator list"
  chk_heading_path :: "pystr list"
  chk_page_number :: "int option"
  chk_document_title :: pystr

text \<open>\<open>Chunk.__post_init__\<close>: the checks on a constructed chunk.\<close>

definition Chunk :: "chunk \<Rightarrow> chunk result" where
  "Chunk c =
     (if length (chk_id c) \<noteq> 64 \<or> chk_order c < 0 then raise_value ''chunk identity is invalid''
      else if strip (chk_text c) = [] \<or> strip (chk_embedding_text c) = []
        then raise_value ''chunk text and embedding input cannot be empty''
      else if chk_token_count c < 1 \<or> chk_locators c = []
        then raise_value ''chunk requires tokens and source locators''
      else Inr c)"

definition chunk_identity :: "uuid \<Rightarrow> uuid \<Rightarrow> pystr \<Rightarrow> source_locator list \<Rightarrow> json" where
  "chunk_identity did vid text locs = JObj
     [(lit ''document_id'', JStr (uuid_str did)), (lit ''version_id'', JStr (uuid_str vid)),
      (lit ''text'', JStr text), (lit ''locators'', JList (map (\<lambda>l. JObj (locator_as_dict l)) locs))]"

definition chunk_create ::
    "uuid \<Rightarrow> uuid \<Rightarrow> int \<Rightarrow> pystr \<Rightarrow> int \<Rightarrow> source_locator list \<Rightarrow> pystr list \<Rightarrow> int option \<Rightarrow> pystr
     \<Rightarrow> chunk result" where
  "chunk_create did vid ord text tokens locs path page title =
     Chunk \<lparr>chk_id = sha256_hexdigest (utf8_encode (json_dumps (chunk_identity did vid text locs))),
       chk_document_id = did, chk_version_id = vid, chk_order = ord, chk_text = text,
       chk_embedding_text = text, chk_token_count = tokens, chk_locators = locs,
       chk_heading_path = path, chk_page_number = page, chk_document_title = title\<rparr>"

text \<open>
  Floating-point numbers. Finite values are real numbers (rounding is not modelled); the
  infinities and NaN are there for the finiteness checks of the code.
\<close>

datatype pyfloat = Finite real | PosInf | NegInf | NaN

definition isfinite :: "pyfloat \<Rightarrow> bool" where
  "isfinite x \<longleftrightarrow> (case x of Finite _ \<Rightarrow> True | _ \<Rightarrow> False)"

record search_result =
  res_chunk :: chunk
  res_fused_score :: real
  res_dense_rank :: "nat option"
  res_lexical_rank :: "nat option"

record embedded_chunk =
  emb_chunk :: chunk
  emb_vector :: "pyfloat list"

definition EmbeddedChunk :: "chunk \<Rightarrow> pyfloat list \<Rightarrow> embedded_chunk result" where
  "EmbeddedChunk c v =
     (if v = [] then raise_value ''embedded chunk requires a vector''
      else Inr \<lparr>emb_chunk = c, emb_vector = v\<rparr>)"

section \<open>What constructed values satisfy\<close>

definition block_ok :: "canonical_block \<Rightarrow> bool" where
  "block_ok b \<longleftrightarrow> blk_id b \<noteq> [] \<and> 0 \<le> blk_order b \<and> blk_text b \<noteq> [] \<and> trimmed is_space (blk_text b)
     \<and> page_ok (blk_page_number b)"

definition document_ok :: "canonical_document \<Rightarrow> bool" where
  "document_ok d \<longleftrightarrow> doc_blocks d \<noteq> [] \<and> list_all block_ok (doc_blocks d)
     \<and> distinct (map blk_id (doc_blocks d))
     \<and> map blk_order (doc_blocks d) = map int [0..<length (doc_blocks d)]"

lemma strip_eq_iff: "s = strip_by P s \<longleftrightarrow> trimmed P s"
  by (metis strip_trimmed trimmed_strip)

lemma CanonicalBlock_Inr:
  "CanonicalBlock bid ord kind text path page = Inr b \<longleftrightarrow>
     bid \<noteq> [] \<and> 0 \<le> ord \<and> text \<noteq> [] \<and> trimmed is_space text \<and> page_ok page
     \<and> b = \<lparr>blk_id = bid, blk_order = ord, blk_kind = kind, blk_text = text,
           blk_heading_path = path, blk_page_number = page\<rparr>"
  unfolding CanonicalBlock_def by (auto simp flip: strip_eq_iff)

lemma CanonicalBlock_ok: "CanonicalBlock bid ord kind text path page = Inr b \<Longrightarrow> block_ok b"
  by (simp add: CanonicalBlock_Inr block_ok_def)

lemma CanonicalDocument_ok:
  assumes "CanonicalDocument did vid title media blocks = Inr d" "list_all block_ok blocks"
  shows "document_ok d"
  using assms
  by (auto simp: CanonicalDocument_def document_ok_def card_distinct split: if_splits)

lemma document_block_order:
  assumes "document_ok d" "i < length (doc_blocks d)"
  shows "blk_order (doc_blocks d ! i) = int i"
proof -
  have "map blk_order (doc_blocks d) ! i = map int [0..<length (doc_blocks d)] ! i"
    using assms(1) by (simp add: document_ok_def)
  then show ?thesis using assms(2) by simp
qed

text \<open>A locator into block \<open>i\<close> with a span inside its text resolves to that span.\<close>

lemma resolve_span:
  assumes "document_ok d" "b \<in> set (doc_blocks d)" "m \<le> n" "n \<le> length (blk_text b)"
  shows "resolve d \<lparr>loc_block_id = blk_id b, loc_block_index = blk_order b, loc_char_start = int m,
      loc_char_end = int n, loc_page_number = blk_page_number b\<rparr> = Inr (slice (blk_text b) m n)"
proof -
  from assms(2) obtain i where i: "i < length (doc_blocks d)" "doc_blocks d ! i = b"
    by (auto simp: in_set_conv_nth)
  then have "blk_order b = int i" using document_block_order [OF assms(1)] by blast
  with i assms(3,4) show ?thesis by (simp add: resolve_def slice_simps)
qed

lemma Chunk_Inr [result_simps]:
  "Chunk c = Inr c' \<longleftrightarrow> length (chk_id c) = 64 \<and> 0 \<le> chk_order c \<and> strip (chk_text c) \<noteq> []
     \<and> strip (chk_embedding_text c) \<noteq> [] \<and> 1 \<le> chk_token_count c \<and> chk_locators c \<noteq> [] \<and> c' = c"
  by (auto simp: Chunk_def)

lemma locator_as_dict_lookup [simp]:
  "map_of (locator_as_dict l) (lit ''block_id'') = Some (JStr (loc_block_id l))"
  "map_of (locator_as_dict l) (lit ''block_index'') = Some (JInt (loc_block_index l))"
  "map_of (locator_as_dict l) (lit ''char_start'') = Some (JInt (loc_char_start l))"
  "map_of (locator_as_dict l) (lit ''char_end'') = Some (JInt (loc_char_end l))"
  "map_of (locator_as_dict l) (lit ''page_number'') = Some (json_of_page (loc_page_number l))"
  by (simp_all add: locator_as_dict_def)

end
