(* ===== verification/Db_Tables.thy ===== *)
theory Db_Tables
  imports Rag_Models
begin

text \<open>
  The database: the tables of \<open>packages/database/models.py\<close> as records and lists of rows, the
  enumerations of \<open>packages/domain/enums.py\<close>, the transaction-local tenant settings of
  \<open>packages/database/tenant.py\<close>, and the constraints, triggers and row-level-security
  policies that the migrations create. A statement that a policy or a trigger refuses raises
  \<open>DatabaseError\<close>, one that a constraint refuses \<open>IntegrityError\<close>. Times are integers
  (microseconds). The columns \<open>updated_at\<close> and the indexes, which no code reads, are left out,
  and the limits of \<open>varchar(n)\<close>, which the request schemas keep.
\<close>

section \<open>Enumerations\<close>

datatype workspace_role = OWNER | ADMIN | AGENT | VIEWER

datatype version_status = V_QUEUED | V_PROCESSING | V_ACTIVE | V_FAILED

datatype job_type = PROCESS_DOCUMENT | DELETE_OBJECT

datatype job_state = QUEUED | LEASED | PROCESSING | RETRYING | FAILED | DEAD_LETTER | COMPLETED

type_synonym timestamp = int

definition seconds :: "int \<Rightarrow> int" where
  "seconds n = n * 1000000"

section \<open>Rows\<close>

record user =
  usr_id :: uuid
  usr_email :: pystr
  usr_display_name :: pystr
  usr_password_hash :: pystr
  usr_is_active :: bool

record workspace =
  ws_id :: uuid
  ws_name :: pystr
  ws_slug :: pystr
  ws_created_by :: uuid
  ws_created_at :: timestamp

record membership =
  mem_id :: uuid
  mem_workspace_id :: uuid
  mem_user_id :: uuid
  mem_role :: workspace_role
  mem_created_at :: timestamp

record document =
  dcm_id :: uuid
  dcm_workspace_id :: uuid
  dcm_display_name :: pystr
  dcm_active_version_id :: "uuid option"
  dcm_created_by :: uuid
  dcm_deleted_at :: "timestamp option"
  dcm_created_at :: timestamp

record document_version =
  ver_id :: uuid
  ver_workspace_id :: uuid
  ver_document_id :: uuid
  ver_version_number :: int
  ver_object_key :: pystr
  ver_original_filename :: pystr
  ver_media_type :: pystr
  ver_byte_size :: int
  ver_sha256 :: pystr
  ver_status :: version_status
  ver_created_by :: uuid

record document_chunk =
  row_chunk_id :: pystr
  row_workspace_id :: uuid
  row_document_id :: uuid
  row_version_id :: uuid
  row_pipeline_version :: pystr
  row_chunk_order :: int
  row_original_text :: pystr
  row_token_count :: int
  row_locators :: "(pystr \<times> json) list list"
  row_heading_path :: "pystr list"
  row_page_number :: "int option"
  row_document_title :: pystr
  row_embedding :: "pyfloat list"

record job =
  job_id :: uuid
  job_workspace_id :: uuid
  job_job_type :: job_type
  job_payload :: "(pystr \<times> pystr) list"
  job_state :: job_state
  job_idempotency_key :: pystr
  job_available_at :: timestamp
  job_lease_owner :: "pystr option"
  job_lease_expires_at :: "timestamp option"
  job_attempt_count :: int
  job_max_attempts :: int
  job_error_code :: "pystr option"
  job_error_message :: "pystr option"
  job_created_at :: timestamp

record refresh_session =
  rs_id :: uuid
  rs_user_id :: uuid
  rs_family_id :: uuid
  rs_token_hash :: pystr
  rs_user_agent :: "pystr option"
  rs_ip_address :: "pystr option"
  rs_created_at :: timestamp
  rs_expires_at :: timestamp
  rs_used_at :: "timestamp option"
  rs_revoked_at :: "timestamp option"
  rs_replaced_by_id :: "uuid option"

record db =
  db_users :: "user list"
  db_workspaces :: "workspace list"
  db_memberships :: "membership list"
  db_documents :: "document list"
  db_versions :: "document_version list"
  db_chunks :: "document_chunk list"
  db_jobs :: "job list"
  db_sessions :: "refresh_session list"

section \<open>The tenant settings of a transaction\<close>

text \<open>
  \<open>app_current_user_id()\<close>, \<open>app_current_workspace_id()\<close>, \<open>app_current_worker_id()\<close>: null where
  the setting is absent or empty. The settings end with the transaction.
\<close>

record tenant =
  cur_user :: "uuid option"
  cur_workspace :: "uuid option"
  cur_worker :: "pystr option"

definition no_tenant :: tenant where
  "no_tenant = \<lparr>cur_user = None, cur_workspace = None, cur_worker = None\<rparr>"

definition set_tenant_context :: "uuid \<Rightarrow> uuid option \<Rightarrow> tenant \<Rightarrow> tenant" where
  "set_tenant_context user_id workspace_id t = t\<lparr>cur_user := Some user_id, cur_workspace := workspace_id\<rparr>"

definition set_worker_context :: "pystr \<Rightarrow> tenant \<Rightarrow> tenant" where
  "set_worker_context worker_id t =
     t\<lparr>cur_worker := (if take 128 worker_id = [] then None else Some (take 128 worker_id))\<rparr>"

section \<open>Row-level security\<close>

text \<open>The rows a \<open>SELECT\<close> sees under each policy.\<close>

definition in_workspace :: "tenant \<Rightarrow> uuid \<Rightarrow> bool" where
  "in_workspace t w \<longleftrightarrow> cur_workspace t = Some w"

definition membership_visible :: "tenant \<Rightarrow> membership \<Rightarrow> bool" where
  "membership_visible t m \<longleftrightarrow> in_workspace t (mem_workspace_id m) \<or> cur_user t = Some (mem_user_id m)"

definition workspace_visible :: "tenant \<Rightarrow> db \<Rightarrow> workspace \<Rightarrow> bool" where
  "workspace_visible t d w \<longleftrightarrow> in_workspace t (ws_id w)
     \<or> (\<exists>m \<in> set (db_memberships d). membership_visible t m \<and> mem_workspace_id m = ws_id w
          \<and> cur_user t = Some (mem_user_id m))"

definition job_visible :: "tenant \<Rightarrow> job \<Rightarrow> bool" where
  "job_visible t j \<longleftrightarrow> in_workspace t (job_workspace_id j) \<or> cur_worker t \<noteq> None"

definition select_workspaces :: "tenant \<Rightarrow> db \<Rightarrow> workspace list" where
  "select_workspaces t d = filter (workspace_visible t d) (db_workspaces d)"

definition select_memberships :: "tenant \<Rightarrow> db \<Rightarrow> membership list" where
  "select_memberships t d = filter (membership_visible t) (db_memberships d)"

definition select_documents :: "tenant \<Rightarrow> db \<Rightarrow> document list" where
  "select_documents t d = filter (\<lambda>x. in_workspace t (dcm_workspace_id x)) (db_documents d)"

definition select_versions :: "tenant \<Rightarrow> db \<Rightarrow> document_version list" where
  "select_versions t d = filter (\<lambda>x. in_workspace t (ver_workspace_id x)) (db_versions d)"

definition select_chunks :: "tenant \<Rightarrow> db \<Rightarrow> document_chunk list" where
  "select_chunks t d = filter (\<lambda>x. in_workspace t (row_workspace_id x)) (db_chunks d)"

definition select_jobs :: "tenant \<Rightarrow> db \<Rightarrow> job list" where
  "select_jobs t d = filter (job_visible t) (db_jobs d)"

section \<open>Inserting\<close>

text \<open>
  Each insert checks the policy and the triggers, then the constraints of the table.
\<close>

definition insert_user :: "user \<Rightarrow> db \<Rightarrow> db result" where
  "insert_user u d =
     (if usr_id u \<in> usr_id ` set (db_users d) \<or> usr_email u \<in> usr_email ` set (db_users d)
      then Inl IntegrityError else Inr (d\<lparr>db_users := db_users d @ [u]\<rparr>))"

definition insert_workspace :: "tenant \<Rightarrow> workspace \<Rightarrow> db \<Rightarrow> db result" where
  "insert_workspace t w d =
     (if \<not> (in_workspace t (ws_id w) \<and> cur_user t = Some (ws_created_by w)) then Inl DatabaseError
      else if length (ws_name w) < 2 \<or> ws_id w \<in> ws_id ` set (db_workspaces d)
           \<or> ws_slug w \<in> ws_slug ` set (db_workspaces d) \<or> ws_created_by w \<notin> usr_id ` set (db_users d)
        then Inl IntegrityError
      else Inr (d\<lparr>db_workspaces := db_workspaces d @ [w]\<rparr>))"

definition insert_membership :: "tenant \<Rightarrow> membership \<Rightarrow> db \<Rightarrow> db result" where
  "insert_membership t m d =
     (if \<not> in_workspace t (mem_workspace_id m) then Inl DatabaseError
      else if mem_id m \<in> mem_id ` set (db_memberships d)
           \<or> (\<exists>x \<in> set (db_memberships d). mem_workspace_id x = mem_workspace_id m \<and> mem_user_id x = mem_user_id m)
           \<or> mem_workspace_id m \<notin> ws_id ` set (db_workspaces d) \<or> mem_user_id m \<notin> usr_id ` set (db_users d)
        then Inl IntegrityError
      else Inr (d\<lparr>db_memberships := db_memberships d @ [m]\<rparr>))"

text \<open>The trigger \<open>documents_active_version_valid\<close>. Its query runs under the same policies.\<close>

definition active_version_valid :: "tenant \<Rightarrow> db \<Rightarrow> document \<Rightarrow> bool" where
  "active_version_valid t d x \<longleftrightarrow> (case dcm_active_version_id x of None \<Rightarrow> True
     | Some v \<Rightarrow> \<exists>r \<in> set (select_versions t d). ver_id r = v \<and> ver_document_id r = dcm_id x
         \<and> ver_workspace_id r = dcm_workspace_id x \<and> ver_status r = V_ACTIVE)"

definition insert_document :: "tenant \<Rightarrow> document \<Rightarrow> db \<Rightarrow> db result" where
  "insert_document t x d =
     (if \<not> active_version_valid t d x \<or> \<not> in_workspace t (dcm_workspace_id x) then Inl DatabaseError
      else if dcm_display_name x = [] \<or> dcm_id x \<in> dcm_id ` set (db_documents d)
           \<or> dcm_workspace_id x \<notin> ws_id ` set (db_workspaces d) \<or> dcm_created_by x \<notin> usr_id ` set (db_users d)
        then Inl IntegrityError
      else Inr (d\<lparr>db_documents := db_documents d @ [x]\<rparr>))"

definition insert_version :: "tenant \<Rightarrow> document_version \<Rightarrow> db \<Rightarrow> db result" where
  "insert_version t v d =
     (if \<not> in_workspace t (ver_workspace_id v) then Inl DatabaseError
      else if ver_version_number v \<le> 0 \<or> ver_byte_size v < 0 \<or> length (ver_sha256 v) \<noteq> 64
           \<or> ver_id v \<in> ver_id ` set (db_versions d) \<or> ver_object_key v \<in> ver_object_key ` set (db_versions d)
           \<or> (\<exists>x \<in> set (db_versions d). ver_document_id x = ver_document_id v
                \<and> (ver_version_number x = ver_version_number v
                   \<or> ver_workspace_id x = ver_workspace_id v \<and> ver_sha256 x = ver_sha256 v))
           \<or> ver_workspace_id v \<notin> ws_id ` set (db_workspaces d)
           \<or> ver_document_id v \<notin> dcm_id ` set (db_documents d) \<or> ver_created_by v \<notin> usr_id ` set (db_users d)
        then Inl IntegrityError
      else Inr (d\<lparr>db_versions := db_versions d @ [v]\<rparr>))"

definition insert_job :: "tenant \<Rightarrow> job \<Rightarrow> db \<Rightarrow> db result" where
  "insert_job t j d =
     (if \<not> in_workspace t (job_workspace_id j) then Inl DatabaseError
      else if job_attempt_count j < 0 \<or> job_max_attempts j \<le> 0 \<or> job_id j \<in> job_id ` set (db_jobs d)
           \<or> (\<exists>x \<in> set (db_jobs d). job_workspace_id x = job_workspace_id j
                \<and> job_job_type x = job_job_type j \<and> job_idempotency_key x = job_idempotency_key j)
           \<or> job_workspace_id j \<notin> ws_id ` set (db_workspaces d)
        then Inl IntegrityError
      else Inr (d\<lparr>db_jobs := db_jobs d @ [j]\<rparr>))"

text \<open>The trigger \<open>document_chunks_validate_scope\<close>.\<close>

definition chunk_scope_valid :: "tenant \<Rightarrow> db \<Rightarrow> document_chunk \<Rightarrow> bool" where
  "chunk_scope_valid t d c \<longleftrightarrow> (\<exists>v \<in> set (select_versions t d). \<exists>x \<in> set (select_documents t d).
     dcm_id x = ver_document_id v \<and> ver_id v = row_version_id c \<and> ver_document_id v = row_document_id c
     \<and> ver_workspace_id v = row_workspace_id c \<and> dcm_workspace_id x = row_workspace_id c)"

definition insert_chunk :: "tenant \<Rightarrow> db \<Rightarrow> document_chunk \<Rightarrow> db result" where
  "insert_chunk t d c =
     (if \<not> chunk_scope_valid t d c \<or> \<not> in_workspace t (row_workspace_id c) then Inl DatabaseError
      else if row_chunk_id c \<in> row_chunk_id ` set (db_chunks d)
           \<or> (\<exists>x \<in> set (db_chunks d). row_version_id x = row_version_id c
                \<and> row_pipeline_version x = row_pipeline_version c \<and> row_chunk_order x = row_chunk_order c)
           \<or> length (row_chunk_id c) \<noteq> 64 \<or> row_pipeline_version c \<noteq> pipeline_version PIPELINE
           \<or> row_chunk_order c < 0 \<or> row_original_text c = [] \<or> row_token_count c \<le> 0
           \<or> \<not> page_ok (row_page_number c) \<or> length (row_embedding c) \<noteq> embedding_dimension PIPELINE
        then Inl IntegrityError
      else Inr (d\<lparr>db_chunks := db_chunks d @ [c]\<rparr>))"

definition insert_session :: "refresh_session \<Rightarrow> db \<Rightarrow> db result" where
  "insert_session s d =
     (if rs_id s \<in> rs_id ` set (db_sessions d) \<or> rs_token_hash s \<in> rs_token_hash ` set (db_sessions d)
         \<or> rs_user_id s \<notin> usr_id ` set (db_users d)
      then Inl IntegrityError else Inr (d\<lparr>db_sessions := db_sessions d @ [s]\<rparr>))"

section \<open>Updating\<close>

text \<open>
  \<open>UPDATE ... WHERE id = i\<close> on the rows a policy lets through, for rows read before in the same
  transaction.
\<close>

definition update_where :: "('r \<Rightarrow> bool) \<Rightarrow> ('r \<Rightarrow> 'r) \<Rightarrow> 'r list \<Rightarrow> 'r list" where
  "update_where P f rows = map (\<lambda>r. if P r then f r else r) rows"

definition update_job :: "tenant \<Rightarrow> uuid \<Rightarrow> (job \<Rightarrow> job) \<Rightarrow> db \<Rightarrow> db" where
  "update_job t i f d = d\<lparr>db_jobs := update_where (\<lambda>j. job_visible t j \<and> job_id j = i) f (db_jobs d)\<rparr>"

definition set_version_status :: "tenant \<Rightarrow> uuid \<Rightarrow> version_status \<Rightarrow> db \<Rightarrow> db" where
  "set_version_status t i s d = d\<lparr>db_versions :=
     update_where (\<lambda>v. in_workspace t (ver_workspace_id v) \<and> ver_id v = i) (\<lambda>v. v\<lparr>ver_status := s\<rparr>) (db_versions d)\<rparr>"

text \<open>An update of a document: the trigger on \<open>active_version_id\<close> and the check on the name.\<close>

definition update_document :: "tenant \<Rightarrow> uuid \<Rightarrow> (document \<Rightarrow> document) \<Rightarrow> db \<Rightarrow> db result" where
  "update_document t i f d =
     (let hit = filter (\<lambda>x. in_workspace t (dcm_workspace_id x) \<and> dcm_id x = i) (db_documents d) in
      if \<exists>x \<in> set hit. dcm_active_version_id (f x) \<noteq> dcm_active_version_id x \<and> \<not> active_version_valid t d (f x)
        then Inl DatabaseError
      else if \<exists>x \<in> set hit. dcm_display_name (f x) = [] then Inl IntegrityError
      else Inr (d\<lparr>db_documents :=
        update_where (\<lambda>x. in_workspace t (dcm_workspace_id x) \<and> dcm_id x = i) f (db_documents d)\<rparr>))"

definition update_session :: "uuid \<Rightarrow> (refresh_session \<Rightarrow> refresh_session) \<Rightarrow> db \<Rightarrow> db" where
  "update_session i f d = d\<lparr>db_sessions := update_where (\<lambda>s. rs_id s = i) f (db_sessions d)\<rparr>"

definition update_membership :: "tenant \<Rightarrow> uuid \<Rightarrow> (membership \<Rightarrow> membership) \<Rightarrow> db \<Rightarrow> db" where
  "update_membership t i f d = d\<lparr>db_memberships :=
     update_where (\<lambda>m. in_workspace t (mem_workspace_id m) \<and> mem_id m = i) f (db_memberships d)\<rparr>"

definition delete_membership :: "tenant \<Rightarrow> uuid \<Rightarrow> db \<Rightarrow> db" where
  "delete_membership t i d = d\<lparr>db_memberships :=
     filter (\<lambda>m. \<not> (in_workspace t (mem_workspace_id m) \<and> mem_id m = i)) (db_memberships d)\<rparr>"

section \<open>Facts\<close>

lemma update_where_simps [simp]:
  "length (update_where P f rows) = length rows"
  "i < length rows \<Longrightarrow> update_where P f rows ! i = (if P (rows ! i) then f (rows ! i) else rows ! i)"
  "update_where P f [] = []"
  "update_where P f (r # rows) = (if P r then f r else r) # update_where P f rows"
  "update_where P f (xs @ ys) = update_where P f xs @ update_where P f ys"
  by (simp_all add: update_where_def)

lemma set_update_where: "set (update_where P f rows) = f ` {r \<in> set rows. P r} \<union> {r \<in> set rows. \<not> P r}"
  by (induction rows) auto

text \<open>An update that keeps a column keeps the list of its values.\<close>

lemma map_update_where: "(\<And>r. r \<in> set rows \<Longrightarrow> P r \<Longrightarrow> g (f r) = g r) \<Longrightarrow> map g (update_where P f rows) = map g rows"
  by (induction rows) auto

lemma filter_update_where:
  "(\<And>r. r \<in> set rows \<Longrightarrow> P r \<Longrightarrow> Q (f r) = Q r) \<Longrightarrow>
    filter Q (update_where P f rows) = update_where P f (filter Q rows)"
  by (induction rows) auto

lemma set_tenant_context_simps [simp]:
  "cur_user (set_tenant_context u w t) = Some u"
  "cur_workspace (set_tenant_context u w t) = w"
  "cur_worker (set_tenant_context u w t) = cur_worker t"
  "in_workspace (set_tenant_context u (Some v) t) x \<longleftrightarrow> x = v"
  by (auto simp: set_tenant_context_def in_workspace_def)

lemma no_tenant_simps [simp]: "cur_user no_tenant = None" "cur_workspace no_tenant = None" "cur_worker no_tenant = None"
  by (simp_all add: no_tenant_def)

end
