(* ===== verification/Object_Store.thy ===== *)
theory Object_Store
  imports Db_Tables
begin

text \<open>
  \<open>packages/storage\<close>: the object store contract and \<open>LocalObjectStore\<close>, over a file system that
  is a list of files by absolute path and a list of directories. The store makes no symbolic
  links, so resolving a path is only a matter of its components. Each operation returns its
  result and the file system after it, also when it raises. The locale \<open>object_store\<close> is what the
  upload service and the worker rely on; it is interpreted on the local store.
\<close>

section \<open>Files\<close>

type_synonym path = "pystr list"

record stored_file =
  fl_bytes :: pybytes
  fl_modified :: timestamp

record file_system =
  fs_files :: "(path \<times> stored_file) list"
  fs_dirs :: "path list"

record object_metadata =
  om_key :: pystr
  om_byte_size :: int
  om_modified_at :: timestamp

definition file_at :: "file_system \<Rightarrow> path \<Rightarrow> stored_file option" where
  "file_at fs p = map_of (fs_files fs) p"

definition put_file :: "path \<Rightarrow> stored_file \<Rightarrow> file_system \<Rightarrow> file_system" where
  "put_file p f fs = fs\<lparr>fs_files := (p, f) # filter (\<lambda>(q, _). q \<noteq> p) (fs_files fs)\<rparr>"

definition remove_file :: "path \<Rightarrow> file_system \<Rightarrow> file_system" where
  "remove_file p fs = fs\<lparr>fs_files := filter (\<lambda>(q, _). q \<noteq> p) (fs_files fs)\<rparr>"

text \<open>The proper prefixes of a path, and whether one of them is a file.\<close>

definition ancestors :: "path \<Rightarrow> path list" where
  "ancestors p = map (\<lambda>n. take n p) [0..<length p]"

definition under_file :: "file_system \<Rightarrow> path \<Rightarrow> bool" where
  "under_file fs p \<longleftrightarrow> list_ex (\<lambda>q. file_at fs q \<noteq> None) (ancestors p)"

text \<open>\<open>path.mkdir(parents=True, exist_ok=True)\<close>.\<close>

definition make_dirs :: "path \<Rightarrow> file_system \<Rightarrow> unit result \<times> file_system" where
  "make_dirs p fs =
     (if under_file fs p then (Inl NotADirectoryError, fs)
      else if file_at fs p \<noteq> None then (Inl FileExistsError, fs)
      else (Inr (), fs\<lparr>fs_dirs := filter (\<lambda>q. q \<notin> set (fs_dirs fs)) (ancestors p @ [p]) @ fs_dirs fs\<rparr>))"

section \<open>LocalObjectStore\<close>

record local_store =
  ls_root :: path
  ls_read_chunk_bytes :: nat

text \<open>The constructor makes the root directory.\<close>

definition new_local_store :: "path \<Rightarrow> nat \<Rightarrow> file_system \<Rightarrow> local_store result \<times> file_system" where
  "new_local_store base read_chunk_bytes fs =
     (case make_dirs base fs of
        (Inl e, fs1) \<Rightarrow> (Inl e, fs1)
      | (Inr _, fs1) \<Rightarrow> (Inr \<lparr>ls_root = base, ls_read_chunk_bytes = read_chunk_bytes\<rparr>, fs1))"

text \<open>\<open>resolve()\<close>: the components in order, \<open>.\<close> and empty ones dropped, \<open>..\<close> going up.\<close>

definition resolve_step :: "path \<Rightarrow> pystr \<Rightarrow> path" where
  "resolve_step p c = (if c = [] \<or> c = [46] then p else if c = [46, 46] then butlast p else p @ [c])"

definition resolve_path :: "path \<Rightarrow> pystr \<Rightarrow> path" where
  "resolve_path base key = foldl resolve_step base (split_on 47 key)"

definition key_path :: "local_store \<Rightarrow> pystr \<Rightarrow> path result" where
  "key_path ls key =
     (if key = [] \<or> 92 \<in> set key \<or> starts_with [47] key then raise_value ''invalid object key''
      else let p = resolve_path (ls_root ls) key in
        if take (length (ls_root ls)) p \<noteq> ls_root ls then raise_value ''object key escapes configured root''
        else Inr p)"

definition metadata_of :: "pystr \<Rightarrow> stored_file \<Rightarrow> object_metadata" where
  "metadata_of key f = \<lparr>om_key = key, om_byte_size = int (length (fl_bytes f)), om_modified_at = fl_modified f\<rparr>"

text \<open>
  The chunks an upload yields: the ones yielded, and the exception that ends them early, if any.
\<close>

type_synonym chunk_stream = "pybytes list \<times> exn option"

definition store_write :: "local_store \<Rightarrow> timestamp \<Rightarrow> pystr \<Rightarrow> chunk_stream \<Rightarrow> file_system
    \<Rightarrow> object_metadata result \<times> file_system" where
  "store_write ls now key stream fs =
     (case key_path ls key of Inl e \<Rightarrow> (Inl e, fs)
      | Inr p \<Rightarrow>
          (case make_dirs (butlast p) fs of
             (Inl e, fs1) \<Rightarrow> (Inl e, fs1)
           | (Inr _, fs1) \<Rightarrow>
               if file_at fs1 p \<noteq> None \<or> p \<in> set (fs_dirs fs1) then (Inl FileExistsError, fs1)
               else (case snd stream of
                   Some e \<Rightarrow> (Inl e, remove_file p (put_file p \<lparr>fl_bytes = concat (fst stream), fl_modified = now\<rparr> fs1))
                 | None \<Rightarrow> let f = \<lparr>fl_bytes = concat (fst stream), fl_modified = now\<rparr> in
                     (Inr (metadata_of key f), put_file p f fs1))))"

text \<open>Opening for reading, and the parts read until the empty one.\<close>

definition open_file :: "file_system \<Rightarrow> path \<Rightarrow> stored_file result" where
  "open_file fs p = (case file_at fs p of Some f \<Rightarrow> Inr f
     | None \<Rightarrow> if p \<in> set (fs_dirs fs) then Inl IsADirectoryError
         else if under_file fs p then Inl NotADirectoryError else Inl FileNotFoundError)"

definition store_read :: "local_store \<Rightarrow> pystr \<Rightarrow> file_system \<Rightarrow> pybytes list result" where
  "store_read ls key fs = rbind (key_path ls key) (\<lambda>p. rbind (open_file fs p) (\<lambda>f.
     Inr (batches (ls_read_chunk_bytes ls) (fl_bytes f))))"

text \<open>The keys of the program name files, so the size of a directory and the renaming of one are not modelled.\<close>

definition store_stat :: "local_store \<Rightarrow> pystr \<Rightarrow> file_system \<Rightarrow> object_metadata result" where
  "store_stat ls key fs = rbind (key_path ls key) (\<lambda>p. rbind (open_file fs p) (\<lambda>f. Inr (metadata_of key f)))"

definition store_move :: "local_store \<Rightarrow> pystr \<Rightarrow> pystr \<Rightarrow> file_system \<Rightarrow> object_metadata result \<times> file_system" where
  "store_move ls source destination fs =
     (case rbind (key_path ls source) (\<lambda>p. rbind (key_path ls destination) (\<lambda>q. Inr (p, q))) of
        Inl e \<Rightarrow> (Inl e, fs)
      | Inr (p, q) \<Rightarrow>
          (case make_dirs (butlast q) fs of
             (Inl e, fs1) \<Rightarrow> (Inl e, fs1)
           | (Inr _, fs1) \<Rightarrow>
               (case open_file fs1 p of Inl e \<Rightarrow> (Inl e, fs1)
                | Inr f \<Rightarrow> if q \<in> set (fs_dirs fs1) then (Inl IsADirectoryError, fs1)
                    else (Inr (metadata_of destination f), put_file q f (remove_file p fs1)))))"

definition store_delete :: "local_store \<Rightarrow> pystr \<Rightarrow> file_system \<Rightarrow> unit result \<times> file_system" where
  "store_delete ls key fs =
     (case key_path ls key of Inl e \<Rightarrow> (Inl e, fs)
      | Inr p \<Rightarrow> (case open_file fs p of
            Inr _ \<Rightarrow> (Inr (), remove_file p fs)
          | Inl e \<Rightarrow> if e = FileNotFoundError then (Inr (), fs) else (Inl e, fs)))"

definition is_stale :: "path \<Rightarrow> timestamp \<Rightarrow> path \<times> stored_file \<Rightarrow> bool" where
  "is_stale staging older_than e \<longleftrightarrow> length staging < length (fst e) \<and> take (length staging) (fst e) = staging
     \<and> fl_modified (snd e) < older_than"

definition delete_stale_staging :: "local_store \<Rightarrow> timestamp \<Rightarrow> file_system \<Rightarrow> nat result \<times> file_system" where
  "delete_stale_staging ls older_than fs =
     (case key_path ls (lit ''staging'') of Inl e \<Rightarrow> (Inl e, fs)
      | Inr p \<Rightarrow>
          if p \<notin> set (fs_dirs fs) then (Inr 0, fs)
          else (Inr (length (filter (is_stale p older_than) (fs_files fs))),
                fs\<lparr>fs_files := filter (\<lambda>e. \<not> is_stale p older_than e) (fs_files fs)\<rparr>))"

section \<open>Facts about files\<close>

lemma map_of_filter_key:
  "map_of (filter (\<lambda>(q, _). q \<noteq> p) xs) q = (if q = p then None else map_of xs q)"
  by (induction xs) auto

lemma file_at_simps [simp]:
  "file_at (put_file p f fs) q = (if q = p then Some f else file_at fs q)"
  "file_at (remove_file p fs) q = (if q = p then None else file_at fs q)"
  "file_at (fs\<lparr>fs_dirs := ds\<rparr>) q = file_at fs q"
  by (auto simp: file_at_def put_file_def remove_file_def map_of_filter_key)

lemma dirs_simps [simp]:
  "fs_dirs (put_file p f fs) = fs_dirs fs" "fs_dirs (remove_file p fs) = fs_dirs fs"
  by (simp_all add: put_file_def remove_file_def)

lemma make_dirs_files: "file_at (snd (make_dirs p fs)) q = file_at fs q"
  by (simp add: make_dirs_def)

text \<open>A key leads to a path in the root, however it is spelled.\<close>

lemma key_path_inside: "key_path ls key = Inr p \<Longrightarrow> take (length (ls_root ls)) p = ls_root ls"
  by (auto simp: key_path_def Let_def split: if_splits)

text \<open>What a key holds.\<close>

definition store_contents :: "local_store \<Rightarrow> file_system \<Rightarrow> pystr \<Rightarrow> pybytes option" where
  "store_contents ls fs key = (case key_path ls key of Inl _ \<Rightarrow> None | Inr p \<Rightarrow> map_option fl_bytes (file_at fs p))"

text \<open>Two spellings of one path.\<close>

definition same_object :: "local_store \<Rightarrow> pystr \<Rightarrow> pystr \<Rightarrow> bool" where
  "same_object ls k k' \<longleftrightarrow> key_path ls k = key_path ls k'"

lemma store_contents_cong: "(\<And>q. file_at fs q = file_at fs' q) \<Longrightarrow> store_contents ls fs k = store_contents ls fs' k"
  by (simp add: store_contents_def split: sum.split)

lemma store_write_contents:
  assumes "store_write ls now k stream fs = (r, fs')"
  shows "case r of Inl e \<Rightarrow> (\<forall>k'. store_contents ls fs' k' = store_contents ls fs k')
    | Inr m \<Rightarrow> snd stream = None \<and> om_byte_size m = int (length (concat (fst stream)))
        \<and> store_contents ls fs k = None
        \<and> (\<forall>k'. store_contents ls fs' k' = (if same_object ls k k' then Some (concat (fst stream)) else store_contents ls fs k'))"
proof (cases "key_path ls k")
  case (Inl e)
  then show ?thesis using assms by (auto simp: store_write_def)
next
  case (Inr p)
  obtain u fs1 where m: "make_dirs (butlast p) fs = (u, fs1)" by fastforce
  have same: "file_at fs1 q = file_at fs q" for q using make_dirs_files [of "butlast p" fs q] m by simp
  note cong = store_contents_cong [OF same]
  have clean: "store_contents ls (remove_file p (put_file p f fs1)) k' = store_contents ls fs k'"
    if "file_at fs1 p = None" for f k'
    by (rule store_contents_cong) (use that same in auto)
  show ?thesis
    using assms m Inr cong clean same
    by (auto simp: store_write_def store_contents_def same_object_def metadata_of_def Let_def
        split: sum.splits option.splits if_splits)
qed


lemma store_read_contents:
  assumes "0 < ls_read_chunk_bytes ls"
  shows "case store_read ls k fs of Inl e \<Rightarrow> store_contents ls fs k = None
    | Inr parts \<Rightarrow> store_contents ls fs k = Some (concat parts)"
  using assms
  by (auto simp: store_read_def store_contents_def open_file_def rbind_def concat_batches split: sum.splits option.splits)

lemma store_stat_contents:
  "case store_stat ls k fs of Inl e \<Rightarrow> store_contents ls fs k = None
    | Inr m \<Rightarrow> \<exists>bs. store_contents ls fs k = Some bs \<and> om_byte_size m = int (length bs)"
  by (auto simp: store_stat_def store_contents_def open_file_def rbind_def metadata_of_def
      split: sum.splits option.splits if_splits)

lemma store_move_contents:
  assumes "store_move ls a b fs = (r, fs')"
  shows "case r of Inl e \<Rightarrow> (\<forall>k. store_contents ls fs' k = store_contents ls fs k)
    | Inr m \<Rightarrow> store_contents ls fs a \<noteq> None
        \<and> (\<forall>k. store_contents ls fs' k = (if same_object ls b k then store_contents ls fs a
              else if same_object ls a k then None else store_contents ls fs k))"
proof (cases "rbind (key_path ls a) (\<lambda>p. rbind (key_path ls b) (\<lambda>q. Inr (p, q)))")
  case (Inl e)
  then show ?thesis using assms by (auto simp: store_move_def)
next
  case (Inr pq)
  then obtain p q where pq: "key_path ls a = Inr p" "key_path ls b = Inr q" "pq = (p, q)"
    by (auto simp: result_simps)
  obtain u fs1 where m: "make_dirs (butlast q) fs = (u, fs1)" by fastforce
  have same: "file_at fs1 x = file_at fs x" for x using make_dirs_files [of "butlast q" fs x] m by simp
  note cong = store_contents_cong [OF same]
  show ?thesis
    using assms m pq Inr cong same
    by (auto simp: store_move_def store_contents_def same_object_def open_file_def
        split: sum.splits option.splits if_splits)
qed

lemma store_delete_contents:
  assumes "store_delete ls k fs = (r, fs')"
  shows "store_contents ls fs' k' = (if r = Inr () \<and> same_object ls k k' then None else store_contents ls fs k')"
  using assms
  by (auto simp: store_delete_def store_contents_def same_object_def open_file_def
      split: sum.splits option.splits if_splits)

section \<open>The object store as an interface\<close>

text \<open>
  What the upload service and the worker rely on: \<open>contents\<close> is what a key holds and \<open>same\<close> that two
  keys name one object. An operation that raises changes no contents.
\<close>

locale object_store =
  fixes put :: "timestamp \<Rightarrow> pystr \<Rightarrow> chunk_stream \<Rightarrow> 's \<Rightarrow> object_metadata result \<times> 's"
    and read :: "pystr \<Rightarrow> 's \<Rightarrow> pybytes list result"
    and stat :: "pystr \<Rightarrow> 's \<Rightarrow> object_metadata result"
    and move :: "pystr \<Rightarrow> pystr \<Rightarrow> 's \<Rightarrow> object_metadata result \<times> 's"
    and delete :: "pystr \<Rightarrow> 's \<Rightarrow> unit result \<times> 's"
    and contents :: "'s \<Rightarrow> pystr \<Rightarrow> pybytes option"
    and same :: "pystr \<Rightarrow> pystr \<Rightarrow> bool"
  assumes same_refl: "same k k"
    and same_contents: "same k k' \<Longrightarrow> contents s k = contents s k'"
    and write_law: "put now k stream s = (r, s') \<Longrightarrow>
      (case r of Inl e \<Rightarrow> (\<forall>k'. contents s' k' = contents s k')
       | Inr m \<Rightarrow> snd stream = None \<and> om_byte_size m = int (length (concat (fst stream))) \<and> contents s k = None
           \<and> (\<forall>k'. contents s' k' = (if same k k' then Some (concat (fst stream)) else contents s k')))"
    and read_law: "case read k s of Inl e \<Rightarrow> contents s k = None | Inr parts \<Rightarrow> contents s k = Some (concat parts)"
    and stat_law: "case stat k s of Inl e \<Rightarrow> contents s k = None
      | Inr m \<Rightarrow> \<exists>bs. contents s k = Some bs \<and> om_byte_size m = int (length bs)"
    and move_law: "move a b s = (r, s') \<Longrightarrow>
      (case r of Inl e \<Rightarrow> (\<forall>k. contents s' k = contents s k)
       | Inr m \<Rightarrow> contents s a \<noteq> None \<and> (\<forall>k. contents s' k = (if same b k then contents s a
           else if same a k then None else contents s k)))"
    and delete_law: "delete k s = (u, s') \<Longrightarrow>
      contents s' k' = (if u = Inr () \<and> same k k' then None else contents s k')"
    and delete_present: "contents s k \<noteq> None \<Longrightarrow> delete k s = (u, s') \<Longrightarrow> u = Inr ()"
begin

lemma read_write:
  assumes "put now k stream s = (Inr m, s')"
  shows "\<exists>parts. read k s' = Inr parts \<and> concat parts = concat (fst stream)"
proof -
  have "contents s' k = Some (concat (fst stream))" using write_law [OF assms] same_refl by simp
  with read_law [where k = k and s = s'] show ?thesis by (cases "read k s'") auto
qed

text \<open>Writing and then deleting the same key leaves the store as it was.\<close>

lemma write_delete:
  assumes "put now k stream s = (r, s1)" "delete k s1 = (Inr (), s2)" "contents s k = None"
  shows "contents s2 k' = contents s k'"
  using write_law [OF assms(1)] delete_law [OF assms(2), where k' = k'] assms(3) same_contents [where k = k and k' = k' and s = s]
  by (auto split: sum.splits if_splits)

text \<open>Writing under one key and moving to another stores the bytes there and nowhere else.\<close>

lemma write_move:
  assumes "put now a stream s = (Inr m, s1)" "move a b s1 = (Inr m', s2)"
  shows "contents s2 k = (if same b k then Some (concat (fst stream)) else contents s k)"
  using write_law [OF assms(1)] move_law [OF assms(2)] same_refl [of a] same_contents [where k = a and k' = k and s = s]
  by auto

text \<open>Deleting what is not there changes nothing, whether it raises or not.\<close>

lemma delete_absent: "contents s k = None \<Longrightarrow> delete k s = (u, s') \<Longrightarrow> contents s' k' = contents s k'"
  using delete_law [where k = k and k' = k'] same_contents [where k = k and k' = k' and s = s] by (auto split: if_splits)

text \<open>A write, and a write that was moved on, are undone by deleting.\<close>

lemma undo_write:
  assumes "put now a stream s = (r, s1)" "delete a s1 = (u, s2)" "contents s a = None"
  shows "contents s2 k = contents s k"
proof (cases r)
  case (Inl e)
  then have "contents s1 k' = contents s k'" for k' using write_law [OF assms(1)] by simp
  with delete_absent [OF _ assms(2)] assms(3) show ?thesis by simp
next
  case (Inr m)
  then have "contents s1 a \<noteq> None" using write_law [OF assms(1)] same_refl by simp
  then have "u = Inr ()" using assms(2) by (rule delete_present)
  with write_delete assms show ?thesis by blast
qed

lemma undo_move:
  assumes "put now a stream s = (Inr m, s1)" "move a b s1 = (Inr m', s2)" "delete b s2 = (u, s3)"
    and "contents s b = None"
  shows "contents s3 k = contents s k \<and> u = Inr ()"
proof -
  note moved = write_move [OF assms(1,2)]
  then have "contents s2 b \<noteq> None" using same_refl by simp
  then have u: "u = Inr ()" using assms(3) by (rule delete_present)
  with delete_law [OF assms(3), of k] moved [of k] assms(4) same_contents [where k = b and k' = k and s = s]
  show ?thesis by auto
qed

text \<open>Deleting again finds nothing to delete.\<close>

lemma deleted: "delete k s = (Inr (), s') \<Longrightarrow> contents s' k = None"
  using delete_law same_refl by metis

end

text \<open>The local store with a positive part size gives the interface.\<close>

definition local_at :: "path \<Rightarrow> nat \<Rightarrow> local_store" where
  "local_at base n = \<lparr>ls_root = base, ls_read_chunk_bytes = Suc n\<rparr>"

interpretation local_objects: object_store "store_write (local_at base n)" "store_read (local_at base n)"
    "store_stat (local_at base n)" "store_move (local_at base n)" "store_delete (local_at base n)"
    "store_contents (local_at base n)" "same_object (local_at base n)" for base n
proof (unfold_locales, goal_cases)
  case (2 k k' s)
  then show ?case by (simp add: same_object_def store_contents_def)
next
  case (4 k s)
  then show ?case by (rule store_read_contents) (simp add: local_at_def)
next
  case (8 s k u s')
  then show ?case by (auto simp: store_contents_def store_delete_def open_file_def split: sum.splits)
qed (auto simp: same_object_def store_write_contents store_stat_contents store_move_contents store_delete_contents)

lemma local_at_cases: "0 < ls_read_chunk_bytes ls \<Longrightarrow> ls = local_at (ls_root ls) (ls_read_chunk_bytes ls - 1)"
  by (cases ls) (simp add: local_at_def)

section \<open>Properties\<close>

definition inside :: "local_store \<Rightarrow> path \<Rightarrow> bool" where
  "inside ls q \<longleftrightarrow> take (length (ls_root ls)) q = ls_root ls"

lemma staging_path: "key_path ls (lit ''staging'') = Inr (ls_root ls @ [lit ''staging''])"
  by (simp add: key_path_def lit_simps starts_with_def resolve_path_def resolve_step_def Let_def split_on_absent)

lemma map_of_filter_same: "(\<And>v. (q, v) \<in> set xs \<Longrightarrow> P (q, v)) \<Longrightarrow> map_of (filter P xs) q = map_of xs q"
  by (induction xs) auto

lemma stale_inside: "is_stale (ls_root ls @ [c]) t e \<Longrightarrow> inside ls (fst e)"
  by (auto simp: is_stale_def inside_def dest: arg_cong [where f = "take (length (ls_root ls))"])

lemma write_confined: "\<not> inside ls q \<Longrightarrow> file_at (snd (store_write ls now key stream fs)) q = file_at fs q"
  using make_dirs_files [where fs = fs and q = q] key_path_inside [of ls key]
  by (auto simp: store_write_def inside_def Let_def split: sum.splits prod.splits option.splits) (metis snd_conv)+

lemma move_confined: "\<not> inside ls q \<Longrightarrow> file_at (snd (store_move ls a b fs)) q = file_at fs q"
proof (cases "rbind (key_path ls a) (\<lambda>p. rbind (key_path ls b) (\<lambda>q. Inr (p, q)))")
  case (Inr pq)
  assume out: "\<not> inside ls q"
  obtain p p' where pq: "key_path ls a = Inr p" "key_path ls b = Inr p'" "pq = (p, p')"
    using Inr by (auto simp: result_simps)
  then have ne: "q \<noteq> p" "q \<noteq> p'" using out key_path_inside unfolding inside_def by metis+
  obtain u fs1 where m: "make_dirs (butlast p') fs = (u, fs1)" by fastforce
  have "file_at fs1 q = file_at fs q" using make_dirs_files [of "butlast p'" fs q] m by simp
  with m pq ne Inr show ?thesis by (auto simp: store_move_def split: sum.splits)
qed (simp add: store_move_def)

lemma delete_confined: "\<not> inside ls q \<Longrightarrow> file_at (snd (store_delete ls key fs)) q = file_at fs q"
  using key_path_inside [of ls key] by (auto simp: store_delete_def inside_def split: sum.splits)

lemma stale_confined: "\<not> inside ls q \<Longrightarrow> file_at (snd (delete_stale_staging ls t fs)) q = file_at fs q"
  using stale_inside [of ls "lit ''staging''" t "(q, _)"]
  by (auto simp: delete_stale_staging_def staging_path file_at_def intro!: map_of_filter_same)

text \<open>
  C32: no operation of the local object store, whatever key it is given (\<open>..\<close> components, repeated
  slashes and all), changes a file outside the store's root directory.
\<close>

theorem store_confined:
  assumes "take (length (ls_root ls)) q \<noteq> ls_root ls"
  shows "file_at (snd (store_write ls now key stream fs)) q = file_at fs q
    \<and> file_at (snd (store_move ls key key' fs)) q = file_at fs q
    \<and> file_at (snd (store_delete ls key fs)) q = file_at fs q
    \<and> file_at (snd (delete_stale_staging ls older_than fs)) q = file_at fs q"
  using assms write_confined move_confined delete_confined stale_confined unfolding inside_def by blast

definition sample_store :: local_store where
  "sample_store = \<lparr>ls_root = [lit ''data''], ls_read_chunk_bytes = 2\<rparr>"

definition sample_files :: file_system where
  "sample_files = \<lparr>fs_files = [([lit ''etc'', lit ''keys''], \<lparr>fl_bytes = [7], fl_modified = 0\<rparr>)],
     fs_dirs = [[], [lit ''data''], [lit ''etc'']]\<rparr>"

theorem store_confined_witness:
  "file_at (snd (store_delete sample_store (lit ''../etc/keys'') sample_files)) [lit ''etc'', lit ''keys'']
    = Some \<lparr>fl_bytes = [7], fl_modified = 0\<rparr>"
  using store_confined [of sample_store "[lit ''etc'', lit ''keys'']" 0 "lit ''../etc/keys''" "([], None)" sample_files]
  by (simp add: sample_store_def sample_files_def file_at_def)

text \<open>
  An object written under a staging key and moved to its final key is read back there byte for
  byte, in parts of at most the configured size; the staging key holds nothing afterwards, its
  \<open>stat\<close> gives the size, and every other key holds what it held.
\<close>

theorem promoted_object_reads_back:
  assumes "0 < ls_read_chunk_bytes ls"
    and "store_write ls now staging (cs, None) fs = (Inr m, fs1)"
    and "store_move ls staging final fs1 = (Inr m', fs2)"
    and "\<not> same_object ls final staging"
  shows "(\<exists>parts. store_read ls final fs2 = Inr parts \<and> concat parts = concat cs
        \<and> list_all (\<lambda>part. part \<noteq> [] \<and> length part \<le> ls_read_chunk_bytes ls) parts)
    \<and> isl (store_read ls staging fs2)
    \<and> (\<exists>m''. store_stat ls final fs2 = Inr m'' \<and> om_byte_size m'' = int (length (concat cs)))
    \<and> (\<forall>k. \<not> same_object ls final k \<and> \<not> same_object ls staging k \<longrightarrow>
          store_contents ls fs2 k = store_contents ls fs k)"
proof -
  note ls = local_at_cases [OF assms(1)]
  have c: "store_contents ls fs2 k = (if same_object ls final k then Some (concat cs) else store_contents ls fs k)" for k
    using local_objects.write_move [where base = "ls_root ls" and n = "ls_read_chunk_bytes ls - 1" and stream = "(cs, None)"
        and b = final and k = k]
      assms(2,3) unfolding ls [symmetric] by simp
  have e: "store_contents ls fs staging = None" using store_write_contents [OF assms(2)] by simp
  have s: "same_object ls final final" by (simp add: same_object_def)
  have "\<exists>parts. store_read ls final fs2 = Inr parts \<and> concat parts = concat cs"
    using store_read_contents [OF assms(1), where k = final and fs = fs2] c [of final] s by (auto split: sum.splits)
  moreover have "list_all (\<lambda>part. part \<noteq> [] \<and> length part \<le> ls_read_chunk_bytes ls) parts"
    if "store_read ls final fs2 = Inr parts" for parts
    using that batches_bounds [OF assms(1)] by (auto simp: store_read_def result_simps list_all_iff)
  moreover have "isl (store_read ls staging fs2)"
    using store_read_contents [OF assms(1), where k = staging and fs = fs2] c [of staging] e assms(4) by (auto split: sum.splits)
  moreover have "\<exists>m''. store_stat ls final fs2 = Inr m'' \<and> om_byte_size m'' = int (length (concat cs))"
    using store_stat_contents [of ls fs2 final] c [of final] s by (auto split: sum.splits)
  ultimately show ?thesis using c by auto
qed

definition staged_sample :: file_system where
  "staged_sample = snd (store_write sample_store 5 (lit ''staging/a'') ([[1, 2], [3]], None) sample_files)"

definition promoted_sample :: file_system where
  "promoted_sample = snd (store_move sample_store (lit ''staging/a'') (lit ''docs/b'') staged_sample)"

theorem promoted_object_reads_back_witness:
  "\<exists>parts. store_read sample_store (lit ''docs/b'') promoted_sample = Inr parts \<and> concat parts = [1, 2, 3]"
proof -
  have "\<not> isl (fst (store_write sample_store 5 (lit ''staging/a'') ([[1, 2], [3]], None) sample_files))" by code_simp
  then obtain m where w: "store_write sample_store 5 (lit ''staging/a'') ([[1, 2], [3]], None) sample_files = (Inr m, staged_sample)"
    unfolding staged_sample_def by (metis prod.collapse sum.collapse(2))
  have "\<not> isl (fst (store_move sample_store (lit ''staging/a'') (lit ''docs/b'') staged_sample))" by code_simp
  then obtain m' where v: "store_move sample_store (lit ''staging/a'') (lit ''docs/b'') staged_sample = (Inr m', promoted_sample)"
    unfolding promoted_sample_def by (metis prod.collapse sum.collapse(2))
  have "\<not> same_object sample_store (lit ''docs/b'') (lit ''staging/a'')" by code_simp
  from promoted_object_reads_back [OF _ w v this] show ?thesis by (auto simp: sample_store_def)
qed

end
