(* ===== verification/Filenames.thy ===== *)
theory Filenames
  imports Object_Store
begin

text \<open>
  \<open>packages/documents/service.py\<close>, the checks on an uploaded file: the name it is stored under, its
  media type, and the bytes read under the size limit. The paths are \<open>pathlib.PurePosixPath\<close> as the
  code uses it. The lemmas say that a sanitised name is one path component, so that an object key
  made of identifiers and a sanitised name leads to one path below the root, and to that path only.
\<close>

section \<open>PurePath\<close>

text \<open>\<open>PurePath(s).name\<close>: the last component, empty ones and \<open>.\<close> left out.\<close>

definition pure_name :: "pystr \<Rightarrow> pystr" where
  "pure_name s = (case rev (filter (\<lambda>c. c \<noteq> [] \<and> c \<noteq> [46]) (split_on 47 s)) of [] \<Rightarrow> [] | c # _ \<Rightarrow> c)"

text \<open>\<open>stem\<close> and \<open>suffix\<close> of a name: cut at the last dot, which is neither first nor last.\<close>

definition name_parts :: "pystr \<Rightarrow> pystr \<times> pystr" where
  "name_parts name = (let after = rev (takeWhile (\<lambda>c. c \<noteq> 46) (rev name));
       before = take (length name - length after - 1) name
     in if 46 \<in> set name \<and> before \<noteq> [] \<and> after \<noteq> [] then (before, 46 # after) else (name, []))"

definition pure_stem :: "pystr \<Rightarrow> pystr" where
  "pure_stem s = fst (name_parts (pure_name s))"

definition pure_suffix :: "pystr \<Rightarrow> pystr" where
  "pure_suffix s = snd (name_parts (pure_name s))"

section \<open>sanitize_filename\<close>

text \<open>A character outside \<open>[\w.() -]\<close>, and \<open>re.sub\<close> of each run of them by one underscore.\<close>

definition safe_char :: "unicode \<Rightarrow> cp \<Rightarrow> bool" where
  "safe_char U c \<longleftrightarrow> is_word U c \<or> c = 46 \<or> c = 40 \<or> c = 41 \<or> c = 32 \<or> c = 45"

fun replace_runs :: "(cp \<Rightarrow> bool) \<Rightarrow> bool \<Rightarrow> pystr \<Rightarrow> pystr" where
  "replace_runs ok in_run [] = []"
| "replace_runs ok in_run (c # s) =
     (if ok c then c # replace_runs ok False s
      else if in_run then replace_runs ok True s else 95 # replace_runs ok True s)"

definition sanitize_filename :: "unicode \<Rightarrow> pystr option \<Rightarrow> pystr" where
  "sanitize_filename U filename =
     (let normalized = nfkc U (case filename of None \<Rightarrow> lit ''upload'' | Some f \<Rightarrow> if f = [] then lit ''upload'' else f);
          leaf = pure_name (replace_char 92 [47] normalized);
          cleaned = strip_by (\<lambda>c. c = 32 \<or> c = 46)
            (replace_runs (safe_char U) False (filter (is_printable U) leaf))
      in take 255 (if cleaned = [] then lit ''upload'' else cleaned))"

section \<open>validate_media_type\<close>

definition MEDIA_BY_EXTENSION :: "(pystr \<times> pystr list) list" where
  "MEDIA_BY_EXTENSION =
     [(lit ''.pdf'', [lit ''application/pdf'']), (lit ''.txt'', [lit ''text/plain'']),
      (lit ''.md'', [lit ''text/markdown'', lit ''text/plain'']),
      (lit ''.html'', [lit ''text/html'']), (lit ''.htm'', [lit ''text/html''])]"

definition validate_media_type :: "unicode \<Rightarrow> pystr \<Rightarrow> pystr option \<Rightarrow> pybytes \<Rightarrow> pystr result" where
  "validate_media_type U filename declared_type prefix =
     (let extension = lower U (pure_suffix filename) in
      case map_of MEDIA_BY_EXTENSION extension of
        None \<Rightarrow> raise_domain UploadRejectedError ''supported file types are PDF, Markdown, text, and HTML''
      | Some accepted_types \<Rightarrow>
          let normalized_type = lower U (strip (fst (split_once 59 (case declared_type of None \<Rightarrow> [] | Some t \<Rightarrow> t)))) in
          if normalized_type \<notin> set accepted_types
            then raise_domain UploadRejectedError ''declared media type does not match the file extension''
          else if extension = lit ''.pdf'' then
            (if \<not> starts_with (lit ''%PDF-'') prefix
             then raise_domain UploadRejectedError ''PDF signature is missing or invalid''
             else Inr (lit ''application/pdf''))
          else if 0 \<in> set prefix
            then raise_domain UploadRejectedError ''text documents cannot contain binary null bytes''
          else (case utf8_decode prefix of
              None \<Rightarrow> raise_domain UploadRejectedError ''text documents must be UTF-8 encoded''
            | Some decoded \<Rightarrow>
                if (extension = lit ''.html'' \<or> extension = lit ''.htm'') \<and> 60 \<notin> set decoded
                then raise_domain UploadRejectedError ''HTML content does not contain an HTML tag''
                else Inr (hd accepted_types)))"

section \<open>Reading the upload\<close>

text \<open>
  The variables the generator \<open>chunks()\<close> shares with the function around it: the size seen so far, the
  bytes hashed, the prefix kept for the media type, and the chunks yielded.
\<close>

record upload_progress =
  pr_byte_size :: int
  pr_hashed :: pybytes
  pr_prefix :: pybytes
  pr_yielded :: "pybytes list"

definition no_progress :: upload_progress where
  "no_progress = \<lparr>pr_byte_size = 0, pr_hashed = [], pr_prefix = [], pr_yielded = []\<rparr>"

definition too_large :: "int \<Rightarrow> exn" where
  "too_large limit = Domain UploadTooLargeError (lit ''upload exceeds the '' @ int_text limit @ lit ''-byte limit'')"

fun upload_chunks :: "int \<Rightarrow> upload_progress \<Rightarrow> pybytes list \<Rightarrow> upload_progress \<times> exn option" where
  "upload_chunks limit p [] = (p, None)"
| "upload_chunks limit p (c # cs) =
     (let size = pr_byte_size p + int (length c) in
      if limit < size then (p\<lparr>pr_byte_size := size\<rparr>, Some (too_large limit))
      else upload_chunks limit
        \<lparr>pr_byte_size = size, pr_hashed = pr_hashed p @ c,
         pr_prefix = (if length (pr_prefix p) < 8192 then pr_prefix p @ take (8192 - length (pr_prefix p)) c else pr_prefix p),
         pr_yielded = pr_yielded p @ [c]\<rparr> cs)"

text \<open>The chunks are what \<open>upload.read(n)\<close> gives until the file ends.\<close>

definition read_upload :: "int \<Rightarrow> int \<Rightarrow> pybytes \<Rightarrow> upload_progress \<times> exn option" where
  "read_upload limit n content = upload_chunks limit no_progress (batches (nat n) content)"

definition upload_stream :: "upload_progress \<times> exn option \<Rightarrow> chunk_stream" where
  "upload_stream r = (pr_yielded (fst r), snd r)"

lemma upload_chunks_result:
  assumes "upload_chunks limit p cs = (p', e)" "pr_prefix p = take 8192 (pr_hashed p)"
    "concat (pr_yielded p) = pr_hashed p" "pr_byte_size p = int (length (pr_hashed p))" "pr_byte_size p \<le> limit"
  shows "case e of
      Some x \<Rightarrow> x = too_large limit \<and> limit < int (length (pr_hashed p @ concat cs))
    | None \<Rightarrow> pr_hashed p' = pr_hashed p @ concat cs \<and> pr_prefix p' = take 8192 (pr_hashed p')
        \<and> concat (pr_yielded p') = pr_hashed p' \<and> pr_byte_size p' = int (length (pr_hashed p'))
        \<and> pr_byte_size p' \<le> limit"
  using assms
proof (induction limit p cs rule: upload_chunks.induct)
  case (2 limit p c cs)
  show ?case
  proof (cases "limit < pr_byte_size p + int (length c)")
    case True
    with "2.prems" show ?thesis by auto
  next
    case False
    let ?q = "\<lparr>pr_byte_size = pr_byte_size p + int (length c), pr_hashed = pr_hashed p @ c,
         pr_prefix = (if length (pr_prefix p) < 8192 then pr_prefix p @ take (8192 - length (pr_prefix p)) c else pr_prefix p),
         pr_yielded = pr_yielded p @ [c]\<rparr>"
    have "pr_prefix ?q = take 8192 (pr_hashed ?q)" using "2.prems"(2) by (auto simp: min_def)
    moreover have "concat (pr_yielded ?q) = pr_hashed ?q" "pr_byte_size ?q = int (length (pr_hashed ?q))"
      "pr_byte_size ?q \<le> limit" using "2.prems" False by simp_all
    moreover have "upload_chunks limit ?q cs = (p', e)" using "2.prems"(1) False by (simp add: Let_def)
    ultimately have "case e of
        Some x \<Rightarrow> x = too_large limit \<and> limit < int (length (pr_hashed ?q @ concat cs))
      | None \<Rightarrow> pr_hashed p' = pr_hashed ?q @ concat cs \<and> pr_prefix p' = take 8192 (pr_hashed p')
          \<and> concat (pr_yielded p') = pr_hashed p' \<and> pr_byte_size p' = int (length (pr_hashed p'))
          \<and> pr_byte_size p' \<le> limit"
      by (intro "2.IH" [OF refl False])
    then show ?thesis using "2.prems"(1) by (auto split: option.splits)
  qed
qed auto

lemma read_upload_result:
  assumes "read_upload limit n content = (p, e)" "0 < n" "0 \<le> limit"
  shows "if limit < int (length content) then e = Some (too_large limit)
    else e = None \<and> pr_hashed p = content \<and> pr_prefix p = take 8192 content \<and> concat (pr_yielded p) = content
      \<and> pr_byte_size p = int (length content)"
  using upload_chunks_result [of limit no_progress "batches (nat n) content" p e] assms
    concat_batches [of "nat n" content]
  by (auto simp: read_upload_def no_progress_def split: option.splits)

section \<open>A sanitised name is one component\<close>

lemma replace_runs_chars: "c \<in> set (replace_runs ok b s) \<Longrightarrow> (ok c \<and> c \<in> set s) \<or> c = 95"
  by (induction ok b s rule: replace_runs.induct) (auto split: if_splits)

lemma strip_head: "strip_by P s \<noteq> [] \<Longrightarrow> \<not> P (hd (strip_by P s))"
  using trimmed_strip [of P s] by (simp add: trimmed_def)

definition safe_name :: "unicode \<Rightarrow> pystr \<Rightarrow> bool" where
  "safe_name U s \<longleftrightarrow> s \<noteq> [] \<and> length s \<le> 255 \<and> hd s \<noteq> 46 \<and> hd s \<noteq> 32
     \<and> (\<forall>c \<in> set s. safe_char U c \<and> is_printable U c)"

lemma safe_char_separators: "\<not> safe_char U 47" "\<not> safe_char U 92" "safe_char U 95"
  by (simp_all add: safe_char_def is_word_def is_ascii_def ascii_digit_def ascii_upper_def ascii_lower_def)

lemma cleaned_name:
  assumes "c = strip_by (\<lambda>c. c = 32 \<or> c = 46) (replace_runs (safe_char U) False (filter (is_printable U) leaf))"
  shows "safe_name U (take 255 (if c = [] then lit ''upload'' else c))"
proof (cases "c = []")
  case True
  then show ?thesis
    by (simp add: safe_name_def lit_simps safe_char_def is_word_def is_printable_def is_ascii_def ascii_lower_def)
next
  case False
  have "safe_char U x \<and> is_printable U x" if "x \<in> set c" for x
  proof -
    have "x \<in> set (replace_runs (safe_char U) False (filter (is_printable U) leaf))"
      using that set_strip unfolding assms by fast
    then have "(safe_char U x \<and> x \<in> set (filter (is_printable U) leaf)) \<or> x = 95" by (rule replace_runs_chars)
    moreover have "is_printable U 95" by (simp add: is_printable_def is_ascii_def)
    ultimately show ?thesis using safe_char_separators(3) [of U] unfolding set_filter by blast
  qed
  moreover have "hd c \<noteq> 32 \<and> hd c \<noteq> 46" using strip_head False unfolding assms by blast
  ultimately show ?thesis using False by (auto simp: safe_name_def dest: in_set_takeD)
qed

lemma sanitized: "safe_name U (sanitize_filename U filename)"
  unfolding sanitize_filename_def Let_def by (rule cleaned_name [OF refl])

section \<open>Keys of components\<close>

text \<open>A component that stays a component: no slash, no backslash, and neither empty nor made of dots.\<close>

definition plain_component :: "pystr \<Rightarrow> bool" where
  "plain_component c \<longleftrightarrow> c \<noteq> [] \<and> 47 \<notin> set c \<and> 92 \<notin> set c \<and> hd c \<noteq> 46"

lemma split_on_join: "(\<And>c. c \<in> set cs \<Longrightarrow> d \<notin> set c) \<Longrightarrow> cs \<noteq> [] \<Longrightarrow> split_on d (join_with [d] cs) = cs"
proof (induction cs rule: induct_list012)
  case (3 x y cs)
  have cons: "d \<notin> set w \<Longrightarrow> split_on d (w @ d # s) = w # split_on d s" for w s
    by (induction w) (auto split: list.split)
  show ?case using 3 cons [of x "join_with [d] (y # cs)"] by simp
qed (auto simp: split_on_absent)

lemma resolve_plain: "list_all plain_component cs \<Longrightarrow> foldl resolve_step base cs = base @ cs"
  by (induction cs arbitrary: base) (auto simp: resolve_step_def plain_component_def)

lemma component_key_path:
  assumes "list_all plain_component cs" "cs \<noteq> []"
  shows "key_path ls (join_with [47] cs) = Inr (ls_root ls @ cs)"
proof -
  let ?k = "join_with [47] cs"
  obtain c rest where cs: "cs = c # rest" using assms(2) by (cases cs) auto
  with assms(1) have c: "c \<noteq> []" "47 \<notin> set c" by (auto simp: plain_component_def)
  obtain t where t: "?k = c @ t" unfolding cs by (cases rest) auto
  have "hd c \<noteq> 47" using c hd_in_set by metis
  then have "?k \<noteq> []" "\<not> starts_with [47] ?k"
    unfolding t using c by (auto simp: starts_with_def take_Suc)
  moreover have "92 \<notin> set ?k"
    using set_join_with [of "[47]" cs] assms(1) by (auto simp: list_all_iff plain_component_def)
  moreover have "resolve_path (ls_root ls) ?k = ls_root ls @ cs"
    using assms split_on_join [of cs 47] by (auto simp: resolve_path_def resolve_plain list_all_iff plain_component_def)
  ultimately show ?thesis by (simp add: key_path_def Let_def)
qed

lemma uuid_component [simp]: "plain_component (uuid_str u)"
proof -
  have "uuid_str u \<noteq> []" by (simp add: uuid_str_def Let_def)
  moreover have "47 \<notin> set (uuid_str u)" "92 \<notin> set (uuid_str u)" "46 \<notin> set (uuid_str u)"
    using uuid_str_chars [of 47 u] uuid_str_chars [of 92 u] uuid_str_chars [of 46 u]
    by (auto simp: lower_hex_def ascii_digit_def)
  ultimately show ?thesis unfolding plain_component_def by (metis hd_in_set)
qed

lemma safe_name_component: "safe_name U s \<Longrightarrow> plain_component s"
  using safe_char_separators [of U] by (auto simp: safe_name_def plain_component_def)

section \<open>The keys of an upload\<close>

definition staging_key :: "uuid \<Rightarrow> uuid \<Rightarrow> pystr" where
  "staging_key workspace_id draw = lit ''staging/'' @ uuid_str workspace_id @ [47] @ uuid_str draw"

definition final_key :: "uuid \<Rightarrow> uuid \<Rightarrow> uuid \<Rightarrow> pystr \<Rightarrow> pystr" where
  "final_key workspace_id document_id version_id safe_filename =
     lit ''workspaces/'' @ uuid_str workspace_id @ lit ''/documents/'' @ uuid_str document_id
       @ lit ''/versions/'' @ uuid_str version_id @ [47] @ safe_filename"

lemma upload_components:
  "staging_key w s = join_with [47] [lit ''staging'', uuid_str w, uuid_str s]"
  "final_key w d v f = join_with [47] [lit ''workspaces'', uuid_str w, lit ''documents'', uuid_str d, lit ''versions'', uuid_str v, f]"
  by (simp_all add: staging_key_def final_key_def lit_simps)

lemma upload_key_paths:
  "key_path ls (staging_key w s) = Inr (ls_root ls @ [lit ''staging'', uuid_str w, uuid_str s])"
  "plain_component f \<Longrightarrow> key_path ls (final_key w d v f)
    = Inr (ls_root ls @ [lit ''workspaces'', uuid_str w, lit ''documents'', uuid_str d, lit ''versions'', uuid_str v, f])"
proof -
  have "plain_component (lit ''staging'')" "plain_component (lit ''workspaces'')" "plain_component (lit ''documents'')"
    "plain_component (lit ''versions'')" by (simp_all add: plain_component_def lit_simps)
  then show "key_path ls (staging_key w s) = Inr (ls_root ls @ [lit ''staging'', uuid_str w, uuid_str s])"
    "plain_component f \<Longrightarrow> key_path ls (final_key w d v f)
      = Inr (ls_root ls @ [lit ''workspaces'', uuid_str w, lit ''documents'', uuid_str d, lit ''versions'', uuid_str v, f])"
    unfolding upload_components by (simp_all only: component_key_path list.pred_inject list.distinct uuid_component
        not_False_eq_True simp_thms)
qed

lemma staging_not_final:
  "plain_component f \<Longrightarrow> \<not> same_object ls (final_key w d v f) (staging_key w' s)"
  by (simp add: same_object_def upload_key_paths)

text \<open>C31: a client cannot choose where its file is stored. Whatever filename it sends, the sanitised
  name has 1 to 255 printable characters, none of them a separator, and does not begin with a dot;
  the object key made with it leads to exactly that component of the version's own directory below
  the store's root, and two uploads share an object only when workspace, document, version and
  sanitised name are all the same.\<close>

theorem object_key_confined:
  "safe_name U (sanitize_filename U filename)
    \<and> key_path ls (final_key w d v (sanitize_filename U filename)) = Inr (ls_root ls @
        [lit ''workspaces'', uuid_str w, lit ''documents'', uuid_str d, lit ''versions'', uuid_str v, sanitize_filename U filename])
    \<and> (same_object ls (final_key w d v (sanitize_filename U filename)) (final_key w' d' v' (sanitize_filename U other))
       \<longleftrightarrow> w = w' \<and> d = d' \<and> v = v' \<and> sanitize_filename U filename = sanitize_filename U other)"
  using upload_key_paths(2) [OF safe_name_component [OF sanitized]] sanitized
  by (auto simp: same_object_def uuid_str_inject)

end
