(* ===== verification/Settings.thy ===== *)
theory Settings
  imports Object_Store
begin

text \<open>
  \<open>packages/config/settings.py\<close>: the settings with their bounds and the check of production
  settings, and the providers of \<open>apps/api/dependencies.py\<close> that depend on them;
  \<open>packages/domain/schemas.py\<close>: the validation of request bodies. A failed validation raises
  \<open>ValueError\<close>, which the framework turns into a 422 response before any route runs.
\<close>

section \<open>Settings\<close>

datatype environment = Development | Test | Production

record settings =
  st_environment :: environment
  st_jwt_secret :: pystr
  st_jwt_issuer :: pystr
  st_jwt_audience :: pystr
  st_access_token_minutes :: int
  st_refresh_token_days :: int
  st_secure_cookies :: bool
  st_refresh_cookie_name :: pystr
  st_object_store_root :: path
  st_embedding_threads :: "int option"
  st_embedding_batch_size :: int
  st_max_query_characters :: int
  st_max_upload_bytes :: int
  st_max_workspace_storage_bytes :: int
  st_upload_chunk_bytes :: int
  st_allow_noop_malware_scanner :: bool
  st_job_lease_seconds :: int
  st_job_poll_seconds :: real
  st_job_batch_size :: int
  st_job_max_attempts :: int

definition default_settings :: settings where
  "default_settings =
     \<lparr>st_environment = Development,
      st_jwt_secret = lit ''local-development-secret-change-before-deployment'',
      st_jwt_issuer = lit ''supportpilot'', st_jwt_audience = lit ''supportpilot-api'',
      st_access_token_minutes = 15, st_refresh_token_days = 14, st_secure_cookies = False,
      st_refresh_cookie_name = lit ''supportpilot_refresh'',
      st_object_store_root = [lit ''var'', lit ''objects''], st_embedding_threads = None,
      st_embedding_batch_size = 32, st_max_query_characters = 2000, st_max_upload_bytes = 10 * 1024 * 1024,
      st_max_workspace_storage_bytes = 100 * 1024 * 1024, st_upload_chunk_bytes = 64 * 1024,
      st_allow_noop_malware_scanner = True, st_job_lease_seconds = 60, st_job_poll_seconds = 1,
      st_job_batch_size = 5, st_job_max_attempts = 5\<rparr>"

definition between :: "int \<Rightarrow> int \<Rightarrow> int \<Rightarrow> bool" where
  "between low high n \<longleftrightarrow> low \<le> n \<and> n \<le> high"

text \<open>The bounds of the fields.\<close>

definition field_bounds :: "settings \<Rightarrow> bool" where
  "field_bounds S \<longleftrightarrow> between 1 60 (st_access_token_minutes S) \<and> between 1 90 (st_refresh_token_days S)
     \<and> (case st_embedding_threads S of None \<Rightarrow> True | Some n \<Rightarrow> between 1 64 n)
     \<and> between 1 256 (st_embedding_batch_size S) \<and> between 32 10000 (st_max_query_characters S)
     \<and> between 1024 (100 * 1024 * 1024) (st_max_upload_bytes S)
     \<and> between 1024 (10 * 1024 * 1024 * 1024) (st_max_workspace_storage_bytes S)
     \<and> between 4096 (1024 * 1024) (st_upload_chunk_bytes S) \<and> between 5 3600 (st_job_lease_seconds S)
     \<and> 1 / 10 \<le> st_job_poll_seconds S \<and> st_job_poll_seconds S \<le> 60
     \<and> between 1 100 (st_job_batch_size S) \<and> between 1 20 (st_job_max_attempts S)"

definition validate_production_secrets :: "settings \<Rightarrow> settings result" where
  "validate_production_secrets S =
     (if st_environment S = Production then
        if starts_with (lit ''local-'') (st_jwt_secret S) \<or> length (st_jwt_secret S) < 32
          then raise_value ''production requires a strong SUPPORTPILOT_JWT_SECRET''
        else if \<not> st_secure_cookies S then raise_value ''production requires secure cookies''
        else if st_allow_noop_malware_scanner S then raise_value ''production requires a real malware scanner''
        else Inr S
      else Inr S)"

definition Settings :: "settings \<Rightarrow> settings result" where
  "Settings S = (if \<not> field_bounds S then raise_value ''settings field out of bounds''
     else validate_production_secrets S)"

section \<open>Providers\<close>

definition get_object_store :: "settings \<Rightarrow> file_system \<Rightarrow> local_store result \<times> file_system" where
  "get_object_store S = new_local_store (st_object_store_root S) (nat (st_upload_chunk_bytes S))"

text \<open>The scanner the code has does nothing; a scanner in general may raise.\<close>

type_synonym scanner = "object_metadata \<Rightarrow> pystr \<Rightarrow> unit result"

definition noop_scan :: scanner where
  "noop_scan metadata media_type = Inr ()"

definition get_malware_scanner :: "settings \<Rightarrow> scanner result" where
  "get_malware_scanner S =
     (if \<not> st_allow_noop_malware_scanner S then raise_runtime ''a production malware scanner adapter is not configured''
      else Inr noop_scan)"

section \<open>Request bodies\<close>

text \<open>
  \<open>EmailStr\<close> is checked by the \<open>email-validator\<close> package: \<open>email\<close> stands for its check, giving the
  normalised address.
\<close>

type_synonym email_check = "pystr \<Rightarrow> pystr option"

definition check_length :: "nat \<Rightarrow> nat \<Rightarrow> pystr \<Rightarrow> unit result" where
  "check_length low high s = ensure (low \<le> length s \<and> length s \<le> high) (ValueError (lit ''string length''))"

definition slug_char :: "cp \<Rightarrow> bool" where
  "slug_char c \<longleftrightarrow> ascii_lower c \<or> ascii_digit c"

text \<open>The pattern \<open>^[a-z0-9]+(?:-[a-z0-9]+)*$\<close>: non-empty runs separated by single hyphens.\<close>

definition slug_pattern :: "pystr \<Rightarrow> bool" where
  "slug_pattern s \<longleftrightarrow> list_all (\<lambda>w. w \<noteq> [] \<and> list_all slug_char w) (split_on 45 s)"

definition check_slug :: "pystr \<Rightarrow> unit result" where
  "check_slug s = rbind (check_length 2 80 s) (\<lambda>_. ensure (slug_pattern s) (ValueError (lit ''slug pattern'')))"

definition check_email :: "email_check \<Rightarrow> pystr \<Rightarrow> pystr result" where
  "check_email email s = (case email s of None \<Rightarrow> raise_value ''not an email address'' | Some e \<Rightarrow> Inr e)"

record register_request =
  reg_email :: pystr
  reg_display_name :: pystr
  reg_password :: pystr
  reg_workspace_name :: pystr
  reg_workspace_slug :: pystr

definition RegisterRequest :: "email_check \<Rightarrow> register_request \<Rightarrow> register_request result" where
  "RegisterRequest email r =
     rbind (check_email email (reg_email r)) (\<lambda>e.
     rbind (check_length 2 120 (reg_display_name r)) (\<lambda>_.
     rbind (check_length 12 128 (reg_password r)) (\<lambda>_.
     rbind (check_length 2 120 (reg_workspace_name r)) (\<lambda>_.
     rbind (check_slug (reg_workspace_slug r)) (\<lambda>_.
       Inr (r\<lparr>reg_email := e, reg_display_name := strip (reg_display_name r),
              reg_workspace_name := strip (reg_workspace_name r)\<rparr>))))))"

record login_request =
  log_email :: pystr
  log_password :: pystr

definition LoginRequest :: "email_check \<Rightarrow> login_request \<Rightarrow> login_request result" where
  "LoginRequest email r =
     rbind (check_email email (log_email r)) (\<lambda>e. rbind (check_length 1 128 (log_password r)) (\<lambda>_.
       Inr (r\<lparr>log_email := e\<rparr>)))"

definition WorkspaceCreate :: "pystr \<Rightarrow> pystr \<Rightarrow> (pystr \<times> pystr) result" where
  "WorkspaceCreate name slug = rbind (check_length 2 120 name) (\<lambda>_. rbind (check_slug slug) (\<lambda>_. Inr (name, slug)))"

definition WorkspaceUpdate :: "pystr \<Rightarrow> pystr result" where
  "WorkspaceUpdate name = rbind (check_length 2 120 name) (\<lambda>_. Inr name)"

definition owner_requires_transfer_workflow :: "workspace_role \<Rightarrow> workspace_role result" where
  "owner_requires_transfer_workflow r =
     (if r = OWNER then raise_value ''ownership transfer is not available in Week 1'' else Inr r)"

definition MembershipCreate :: "email_check \<Rightarrow> pystr \<Rightarrow> workspace_role \<Rightarrow> (pystr \<times> workspace_role) result" where
  "MembershipCreate email s r =
     rbind (check_email email s) (\<lambda>e. rbind (owner_requires_transfer_workflow r) (\<lambda>r'. Inr (e, r')))"

definition MembershipUpdate :: "workspace_role \<Rightarrow> workspace_role result" where
  "MembershipUpdate r = owner_requires_transfer_workflow r"

definition DocumentUpdate :: "pystr \<Rightarrow> pystr result" where
  "DocumentUpdate name = rbind (check_length 1 255 name) (\<lambda>_. Inr (strip name))"

definition EvidenceSearchRequest :: "pystr \<Rightarrow> int \<Rightarrow> (pystr \<times> int) result" where
  "EvidenceSearchRequest query n =
     rbind (check_length 1 10000 query) (\<lambda>_.
       if \<not> between 1 10 n then raise_value ''result count''
       else if strip query = [] then raise_value ''query cannot be blank''
       else Inr (strip query, n))"

section \<open>Facts\<close>

lemma check_length_Inr [simp]: "check_length low high s = Inr u \<longleftrightarrow> low \<le> length s \<and> length s \<le> high"
  by (simp add: check_length_def)

lemma default_settings_accepted: "Settings default_settings = Inr default_settings"
  by (simp add: Settings_def default_settings_def field_bounds_def between_def validate_production_secrets_def)

text \<open>Names of blanks pass the length check and are empty after stripping.\<close>

lemma blank_display_name: "DocumentUpdate [32] = Inr []"
proof -
  have "strip [32] = []" by code_simp
  then show ?thesis by (simp add: DocumentUpdate_def check_length_def)
qed

section \<open>Properties\<close>

text \<open>
  Settings accepted for production cannot run the service unsafely: the token secret is not the
  development one and has at least 32 characters, cookies are sent over TLS only, and no upload can
  pass the scanner that does nothing, because asking for a scanner raises. Under all accepted settings an
  access token lives at most an hour, an upload is read in parts of positive size,
  a lease lasts, a job has at least one attempt and an embedding batch at least one chunk.
\<close>

theorem accepted_settings_safe:
  assumes "Settings S = Inr S'"
  shows "S' = S
    \<and> (st_environment S = Production \<longrightarrow> 32 \<le> length (st_jwt_secret S)
        \<and> \<not> starts_with (lit ''local-'') (st_jwt_secret S) \<and> st_secure_cookies S \<and> isl (get_malware_scanner S))
    \<and> 0 < st_access_token_minutes S \<and> st_access_token_minutes S \<le> 60 \<and> 0 < st_upload_chunk_bytes S
    \<and> 0 < st_job_lease_seconds S \<and> 0 < st_job_max_attempts S \<and> 0 < st_embedding_batch_size S"
  using assms
  by (auto simp: Settings_def validate_production_secrets_def get_malware_scanner_def field_bounds_def between_def
      split: if_splits)

definition production_settings :: settings where
  "production_settings = default_settings\<lparr>st_environment := Production, st_secure_cookies := True,
     st_jwt_secret := replicate 40 97, st_allow_noop_malware_scanner := False\<rparr>"

theorem accepted_settings_safe_witness:
  "isl (get_malware_scanner production_settings) \<and> st_secure_cookies production_settings"
proof -
  have "\<not> starts_with (lit ''local-'') (replicate 40 97)" by code_simp
  then have "Settings production_settings = Inr production_settings"
    by (simp add: Settings_def production_settings_def default_settings_def field_bounds_def between_def
        validate_production_secrets_def)
  from accepted_settings_safe [OF this] show ?thesis by (simp add: production_settings_def)
qed

end
