(* ===== verification/Transactions.thy ===== *)
theory Transactions
  imports Db_Tables
begin

text \<open>
  \<open>packages/database/session.py\<close>: a request is one transaction. An action works on the rows as the
  transaction sees them and on the rows last committed; it returns a value or an exception.
  \<open>get_db_session\<close> runs the action of a request, commits after a value and rolls back
  after an exception. The collection \<open>action_simps\<close> takes composed actions apart.
\<close>

named_theorems action_simps "inversion rules of composed actions"

record transaction =
  tx_db :: db
  tx_saved :: db
  tx_tenant :: tenant

type_synonym 'a action = "transaction \<Rightarrow> 'a result \<times> transaction"

definition commit :: "transaction \<Rightarrow> transaction" where
  "commit t = t\<lparr>tx_saved := tx_db t, tx_tenant := no_tenant\<rparr>"

definition rollback :: "transaction \<Rightarrow> transaction" where
  "rollback t = t\<lparr>tx_db := tx_saved t, tx_tenant := no_tenant\<rparr>"

definition begin_on :: "db \<Rightarrow> transaction" where
  "begin_on d = \<lparr>tx_db = d, tx_saved = d, tx_tenant = no_tenant\<rparr>"

definition get_db_session :: "'a action \<Rightarrow> db \<Rightarrow> 'a result \<times> db" where
  "get_db_session act d =
     (case act (begin_on d) of
        (Inr a, t) \<Rightarrow> (Inr a, tx_saved (commit t))
      | (Inl e, t) \<Rightarrow> (Inl e, tx_saved (rollback t)))"

definition pure_action :: "'a \<Rightarrow> 'a action" where
  "pure_action a t = (Inr a, t)"

definition raise_action :: "exn \<Rightarrow> 'a action" where
  "raise_action e t = (Inl e, t)"

definition abind :: "'a action \<Rightarrow> ('a \<Rightarrow> 'b action) \<Rightarrow> 'b action" where
  "abind m f t = (case m t of (Inl e, t') \<Rightarrow> (Inl e, t') | (Inr a, t') \<Rightarrow> f a t')"

text \<open>A query, a statement that may be refused, and an update that may not.\<close>

definition query :: "(tenant \<Rightarrow> db \<Rightarrow> 'a) \<Rightarrow> 'a action" where
  "query f t = (Inr (f (tx_tenant t) (tx_db t)), t)"

definition statement :: "(tenant \<Rightarrow> db \<Rightarrow> db result) \<Rightarrow> unit action" where
  "statement f t = (case f (tx_tenant t) (tx_db t) of Inl e \<Rightarrow> (Inl e, t) | Inr d \<Rightarrow> (Inr (), t\<lparr>tx_db := d\<rparr>))"

definition change :: "(tenant \<Rightarrow> db \<Rightarrow> db) \<Rightarrow> unit action" where
  "change f t = (Inr (), t\<lparr>tx_db := f (tx_tenant t) (tx_db t)\<rparr>)"

definition set_tenant :: "uuid \<Rightarrow> uuid option \<Rightarrow> unit action" where
  "set_tenant user_id workspace_id t = (Inr (), t\<lparr>tx_tenant := set_tenant_context user_id workspace_id (tx_tenant t)\<rparr>)"

definition of_result :: "'a result \<Rightarrow> 'a action" where
  "of_result r t = (r, t)"

definition guard :: "bool \<Rightarrow> exn \<Rightarrow> unit action" where
  "guard b e = (if b then pure_action () else raise_action e)"

text \<open>\<open>except IntegrityError as exc: raise e\<close>.\<close>

definition on_integrity_error :: "exn \<Rightarrow> 'a action \<Rightarrow> 'a action" where
  "on_integrity_error e m t = (case m t of (Inl e', t') \<Rightarrow> (Inl (if e' = IntegrityError then e else e'), t') | r \<Rightarrow> r)"

section \<open>Taking actions apart\<close>

lemma abind_Inr [action_simps]:
  "abind m f t = (Inr b, t') \<longleftrightarrow> (\<exists>a t1. m t = (Inr a, t1) \<and> f a t1 = (Inr b, t'))"
  by (auto simp: abind_def split: prod.splits sum.splits)

lemma abind_Inl [action_simps]:
  "abind m f t = (Inl e, t') \<longleftrightarrow> m t = (Inl e, t') \<or> (\<exists>a t1. m t = (Inr a, t1) \<and> f a t1 = (Inl e, t'))"
  by (auto simp: abind_def split: prod.splits sum.splits)

lemma simple_actions [action_simps]:
  "pure_action a t = (r, t') \<longleftrightarrow> r = Inr a \<and> t' = t"
  "raise_action e t = (r', t') \<longleftrightarrow> r' = Inl e \<and> t' = t"
  "query f t = (x, t') \<longleftrightarrow> x = Inr (f (tx_tenant t) (tx_db t)) \<and> t' = t"
  "change g t = (y, t') \<longleftrightarrow> y = Inr () \<and> t' = t\<lparr>tx_db := g (tx_tenant t) (tx_db t)\<rparr>"
  "set_tenant u w t = (y, t') \<longleftrightarrow> y = Inr () \<and> t' = t\<lparr>tx_tenant := set_tenant_context u w (tx_tenant t)\<rparr>"
  "of_result r0 t = (z, t') \<longleftrightarrow> z = r0 \<and> t' = t"
  by (auto simp: pure_action_def raise_action_def query_def change_def set_tenant_def of_result_def)

lemma statement_Inr [action_simps]:
  "statement f t = (Inr u, t') \<longleftrightarrow> (\<exists>d. f (tx_tenant t) (tx_db t) = Inr d \<and> t' = t\<lparr>tx_db := d\<rparr>)"
  by (auto simp: statement_def split: sum.splits)

lemma statement_Inl [action_simps]:
  "statement f t = (Inl e, t') \<longleftrightarrow> f (tx_tenant t) (tx_db t) = Inl e \<and> t' = t"
  by (auto simp: statement_def split: sum.splits)

lemma guard_Inr [action_simps]: "guard b e t = (Inr u, t') \<longleftrightarrow> b \<and> t' = t"
  by (auto simp: guard_def pure_action_def raise_action_def)

lemma guard_Inl [action_simps]: "guard b e t = (Inl e', t') \<longleftrightarrow> \<not> b \<and> e' = e \<and> t' = t"
  by (auto simp: guard_def pure_action_def raise_action_def)

lemma on_integrity_error_Inr [action_simps]: "on_integrity_error e m t = (Inr a, t') \<longleftrightarrow> m t = (Inr a, t')"
  by (auto simp: on_integrity_error_def split: prod.splits sum.splits)

lemma on_integrity_error_Inl [action_simps]:
  "on_integrity_error e m t = (Inl e', t') \<longleftrightarrow>
     (\<exists>e0. m t = (Inl e0, t') \<and> e' = (if e0 = IntegrityError then e else e0))"
  by (auto simp: on_integrity_error_def split: prod.splits sum.splits)

lemma begin_on_simps [simp]:
  "tx_db (begin_on d) = d" "tx_saved (begin_on d) = d" "tx_tenant (begin_on d) = no_tenant"
  by (simp_all add: begin_on_def)

lemma get_db_session_Inr:
  "get_db_session act d = (Inr a, d') \<longleftrightarrow> (\<exists>t. act (begin_on d) = (Inr a, t) \<and> d' = tx_db t)"
  by (auto simp: get_db_session_def commit_def split: prod.splits sum.splits)

lemma get_db_session_Inl:
  "get_db_session act d = (Inl e, d') \<longleftrightarrow> (\<exists>t. act (begin_on d) = (Inl e, t) \<and> d' = tx_saved t)"
  by (auto simp: get_db_session_def rollback_def split: prod.splits sum.splits)

text \<open>
  Actions that never commit by themselves: a request built from them changes nothing when it
  raises. The collection \<open>uncommitted\<close> holds the rules that show it.
\<close>

definition keeps_saved :: "'a action \<Rightarrow> bool" where
  "keeps_saved act \<longleftrightarrow> (\<forall>t. tx_saved (snd (act t)) = tx_saved t)"

named_theorems uncommitted "actions that do not commit"

lemma keeps_saved_basic [uncommitted]:
  "keeps_saved (pure_action a)" "keeps_saved (raise_action e)" "keeps_saved (query f)" "keeps_saved (change g)"
  "keeps_saved (set_tenant u w)" "keeps_saved (of_result r)" "keeps_saved (guard b e)" "keeps_saved (statement h)"
  by (auto simp: keeps_saved_def pure_action_def raise_action_def query_def change_def set_tenant_def
      of_result_def guard_def statement_def split: sum.splits)

lemma keeps_saved_abind [uncommitted]:
  assumes "keeps_saved m" "\<And>a. keeps_saved (f a)"
  shows "keeps_saved (abind m f)"
proof -
  have "tx_saved (snd (abind m f t)) = tx_saved t" for t
    using assms by (auto simp: keeps_saved_def abind_def split: prod.splits sum.splits) (metis snd_conv)+
  then show ?thesis by (simp add: keeps_saved_def)
qed

lemma keeps_saved_on_integrity_error [uncommitted]: "keeps_saved m \<Longrightarrow> keeps_saved (on_integrity_error e m)"
  by (auto simp: keeps_saved_def on_integrity_error_def split: prod.splits sum.splits) (metis snd_conv)+

lemma failed_request_changes_nothing:
  "keeps_saved act \<Longrightarrow> get_db_session act d = (Inl e, d') \<Longrightarrow> d' = d"
  by (auto simp: get_db_session_Inl keeps_saved_def) (metis begin_on_simps(2) snd_conv)

end
