(* ===== verification/Sessions.thy ===== *)
theory Sessions
  imports Settings Transactions
begin

text \<open>
  \<open>packages/security/tokens.py\<close> and \<open>packages/security/sessions.py\<close>: access tokens, refresh tokens
  and the refresh sessions they rotate through. The \<open>jwt\<close> package and pydantic's reading of a UUID
  are the parameter \<open>jwt_library\<close>; the fresh identifiers and random secrets are arguments. The step
  relation \<open>session_step\<close> is a service that signs users in, rotates and revokes sessions on one table.
\<close>

section \<open>Access tokens\<close>

record access_payload =
  pl_sub :: pystr
  pl_iss :: pystr
  pl_aud :: pystr
  pl_iat :: timestamp
  pl_exp :: timestamp
  pl_jti :: pystr
  pl_token_type :: pystr

record access_claims =
  cl_sub :: uuid
  cl_iss :: pystr
  cl_aud :: pystr
  cl_iat :: timestamp
  cl_exp :: timestamp
  cl_jti :: uuid
  cl_token_type :: pystr

text \<open>
  \<open>jw_encode secret payload\<close> is the signed token; \<open>jw_decode secret issuer audience now token\<close> its payload,
  \<open>None\<close> where the package raises; \<open>jw_uuid\<close> reads a UUID.
\<close>

record jwt_library =
  jw_encode :: "pystr \<Rightarrow> access_payload \<Rightarrow> pystr"
  jw_decode :: "pystr \<Rightarrow> pystr \<Rightarrow> pystr \<Rightarrow> timestamp \<Rightarrow> pystr \<Rightarrow> access_payload option"
  jw_uuid :: "pystr \<Rightarrow> uuid option"

definition create_access_token :: "jwt_library \<Rightarrow> settings \<Rightarrow> timestamp \<Rightarrow> uuid \<Rightarrow> uuid \<Rightarrow> pystr" where
  "create_access_token J S issued_at jti user_id =
     jw_encode J (st_jwt_secret S)
       \<lparr>pl_sub = uuid_str user_id, pl_iss = st_jwt_issuer S, pl_aud = st_jwt_audience S, pl_iat = issued_at,
        pl_exp = issued_at + seconds (60 * st_access_token_minutes S), pl_jti = uuid_str jti,
        pl_token_type = lit ''access''\<rparr>"

definition claims_of :: "jwt_library \<Rightarrow> access_payload \<Rightarrow> access_claims option" where
  "claims_of J p =
     (case (jw_uuid J (pl_sub p), jw_uuid J (pl_jti p)) of
        (Some sub, Some jti) \<Rightarrow> Some \<lparr>cl_sub = sub, cl_iss = pl_iss p, cl_aud = pl_aud p, cl_iat = pl_iat p,
          cl_exp = pl_exp p, cl_jti = jti, cl_token_type = pl_token_type p\<rparr>
      | _ \<Rightarrow> None)"

definition decode_access_token :: "jwt_library \<Rightarrow> settings \<Rightarrow> timestamp \<Rightarrow> pystr \<Rightarrow> access_claims result" where
  "decode_access_token J S now token =
     (case Option.bind (jw_decode J (st_jwt_secret S) (st_jwt_issuer S) (st_jwt_audience S) now token) (claims_of J) of
        None \<Rightarrow> Inl (TokenError (lit ''invalid access token''))
      | Some c \<Rightarrow> if cl_token_type c \<noteq> lit ''access'' then Inl (TokenError (lit ''invalid token type'')) else Inr c)"

text \<open>
  What the package documents: times are kept in whole seconds; decoding with the right secret, issuer and
  audience gives the payload back from the time of issue until the expiry, and raises from the expiry on.
\<close>

definition whole_seconds :: "timestamp \<Rightarrow> timestamp" where
  "whole_seconds t = seconds (t div 1000000)"

definition in_seconds :: "access_payload \<Rightarrow> access_payload" where
  "in_seconds p = p\<lparr>pl_iat := whole_seconds (pl_iat p), pl_exp := whole_seconds (pl_exp p)\<rparr>"

definition jwt_documented :: "jwt_library \<Rightarrow> bool" where
  "jwt_documented J \<longleftrightarrow>
     (\<forall>secret p now. jw_decode J secret (pl_iss p) (pl_aud p) now (jw_encode J secret p)
        = (if whole_seconds (pl_iat p) \<le> now \<and> now < whole_seconds (pl_exp p) then Some (in_seconds p) else None))
     \<and> (\<forall>u. jw_uuid J (uuid_str u) = Some u)"

section \<open>Refresh tokens\<close>

record refresh_token_parts =
  rt_session_id :: uuid
  rt_secret :: pystr

definition hash_refresh_secret :: "pystr \<Rightarrow> pystr" where
  "hash_refresh_secret secret = sha256_hexdigest (utf8_encode secret)"

definition hash_matches :: "pystr \<Rightarrow> pystr \<Rightarrow> bool" where
  "hash_matches secret expected_hash \<longleftrightarrow> hash_refresh_secret secret = expected_hash"

definition create_refresh_token :: "uuid \<Rightarrow> pystr \<Rightarrow> pystr \<times> pystr" where
  "create_refresh_token session_id secret = (uuid_str session_id @ [46] @ secret, hash_refresh_secret secret)"

definition parse_refresh_token :: "unicode \<Rightarrow> pystr \<Rightarrow> refresh_token_parts result" where
  "parse_refresh_token U raw =
     (case split_once 46 raw of
        (_, None) \<Rightarrow> Inl (TokenError (lit ''invalid refresh token''))
      | (i, Some secret) \<Rightarrow>
          (case uuid_parse U i of
             Inl _ \<Rightarrow> Inl (TokenError (lit ''invalid refresh token''))
           | Inr u \<Rightarrow> if length secret < 32 then Inl (TokenError (lit ''invalid refresh token''))
               else Inr \<lparr>rt_session_id = u, rt_secret = secret\<rparr>))"

section \<open>Refresh sessions\<close>

record issued_session =
  iss_access_token :: pystr
  iss_refresh_token :: pystr

text \<open>What a call draws from the clock and the random sources.\<close>

record draws =
  dr_now :: timestamp
  dr_session_id :: uuid
  dr_family_id :: uuid
  dr_jti :: uuid
  dr_secret :: pystr

record client =
  ct_user_agent :: "pystr option"
  ct_ip_address :: "pystr option"

definition stored_agent :: "pystr option \<Rightarrow> pystr option" where
  "stored_agent a = (let s = take 512 (case a of None \<Rightarrow> [] | Some x \<Rightarrow> x) in if s = [] then None else Some s)"

definition draft_session :: "jwt_library \<Rightarrow> settings \<Rightarrow> draws \<Rightarrow> client \<Rightarrow> uuid \<Rightarrow> uuid option
    \<Rightarrow> refresh_session \<times> issued_session" where
  "draft_session J S r c user_id family_id =
     (let (raw_refresh, token_hash) = create_refresh_token (dr_session_id r) (dr_secret r) in
       (\<lparr>rs_id = dr_session_id r, rs_user_id = user_id,
         rs_family_id = (case family_id of None \<Rightarrow> dr_family_id r | Some f \<Rightarrow> f), rs_token_hash = token_hash,
         rs_user_agent = stored_agent (ct_user_agent c), rs_ip_address = ct_ip_address c, rs_created_at = dr_now r,
         rs_expires_at = dr_now r + seconds (86400 * st_refresh_token_days S), rs_used_at = None,
         rs_revoked_at = None, rs_replaced_by_id = None\<rparr>,
        \<lparr>iss_access_token = create_access_token J S (dr_now r) (dr_jti r) user_id, iss_refresh_token = raw_refresh\<rparr>))"

definition issue_session :: "jwt_library \<Rightarrow> settings \<Rightarrow> draws \<Rightarrow> client \<Rightarrow> uuid \<Rightarrow> uuid option
    \<Rightarrow> (refresh_session \<times> issued_session) action" where
  "issue_session J S r c user_id family_id =
     (let row_issued = draft_session J S r c user_id family_id in
       abind (statement (\<lambda>_. insert_session (fst row_issued))) (\<lambda>_. pure_action row_issued))"

definition invalid_session :: exn where
  "invalid_session = Domain AuthenticationError (lit ''session is invalid or expired'')"

definition session_reused :: exn where
  "session_reused = Domain AuthenticationError (lit ''session reuse detected; please sign in again'')"

definition find_session :: "uuid \<Rightarrow> db \<Rightarrow> refresh_session option" where
  "find_session i d = find (\<lambda>s. rs_id s = i) (db_sessions d)"

definition find_user :: "uuid \<Rightarrow> db \<Rightarrow> user option" where
  "find_user i d = find (\<lambda>u. usr_id u = i) (db_users d)"

definition revoke_family :: "uuid \<Rightarrow> timestamp \<Rightarrow> db \<Rightarrow> db" where
  "revoke_family f now d = d\<lparr>db_sessions :=
     update_where (\<lambda>s. rs_family_id s = f) (\<lambda>s. s\<lparr>rs_revoked_at := Some now\<rparr>) (db_sessions d)\<rparr>"

definition spent_row :: "timestamp \<Rightarrow> uuid \<Rightarrow> refresh_session \<Rightarrow> refresh_session" where
  "spent_row now replacement s = s\<lparr>rs_used_at := Some now, rs_revoked_at := Some now, rs_replaced_by_id := Some replacement\<rparr>"

definition revoked_row :: "timestamp \<Rightarrow> refresh_session \<Rightarrow> refresh_session" where
  "revoked_row now s = s\<lparr>rs_revoked_at := Some now\<rparr>"

definition commit_action :: "unit action" where
  "commit_action t = (Inr (), commit t)"

definition rotate_session :: "unicode \<Rightarrow> jwt_library \<Rightarrow> settings \<Rightarrow> draws \<Rightarrow> client \<Rightarrow> pystr
    \<Rightarrow> (user \<times> issued_session) action" where
  "rotate_session U J S r c raw =
     (case parse_refresh_token U raw of
        Inl e \<Rightarrow> raise_action (if is_value_error e then invalid_session else e)
      | Inr parts \<Rightarrow>
          abind (query (\<lambda>_. find_session (rt_session_id parts))) (\<lambda>found.
            case found of None \<Rightarrow> raise_action invalid_session
            | Some current \<Rightarrow>
                if \<not> hash_matches (rt_secret parts) (rs_token_hash current) then raise_action invalid_session
                else if rs_used_at current \<noteq> None \<or> rs_revoked_at current \<noteq> None then
                  abind (change (\<lambda>_. revoke_family (rs_family_id current) (dr_now r))) (\<lambda>_.
                  abind commit_action (\<lambda>_. raise_action session_reused))
                else if rs_expires_at current \<le> dr_now r then
                  abind (change (\<lambda>_. update_session (rs_id current) (revoked_row (dr_now r)))) (\<lambda>_.
                  raise_action invalid_session)
                else abind (query (\<lambda>_. find_user (rs_user_id current))) (\<lambda>user.
                  case user of
                    None \<Rightarrow> abind (change (\<lambda>_. update_session (rs_id current) (revoked_row (dr_now r)))) (\<lambda>_.
                      raise_action invalid_session)
                  | Some u \<Rightarrow>
                      if \<not> usr_is_active u then
                        abind (change (\<lambda>_. update_session (rs_id current) (revoked_row (dr_now r)))) (\<lambda>_.
                        raise_action invalid_session)
                      else
                        abind (issue_session J S r c (usr_id u) (Some (rs_family_id current))) (\<lambda>(replacement, issued).
                        abind (change (\<lambda>_. update_session (rs_id current) (spent_row (dr_now r) (rs_id replacement)))) (\<lambda>_.
                        pure_action (u, issued))))))"

definition revoke_session :: "unicode \<Rightarrow> timestamp \<Rightarrow> pystr \<Rightarrow> unit action" where
  "revoke_session U now raw =
     (case parse_refresh_token U raw of
        Inl e \<Rightarrow> if is_value_error e then pure_action () else raise_action e
      | Inr parts \<Rightarrow>
          abind (query (\<lambda>_. find_session (rt_session_id parts))) (\<lambda>found.
            case found of None \<Rightarrow> pure_action ()
            | Some current \<Rightarrow>
                if hash_matches (rt_secret parts) (rs_token_hash current) then
                  change (\<lambda>_. update_session (rs_id current)
                    (\<lambda>s. s\<lparr>rs_revoked_at := (case rs_revoked_at s of None \<Rightarrow> Some now | t \<Rightarrow> t)\<rparr>))
                else pure_action ()))"

section \<open>What a rotation does\<close>

text \<open>The row a token names and proves knowledge of.\<close>

definition presented :: "unicode \<Rightarrow> db \<Rightarrow> pystr \<Rightarrow> refresh_session \<Rightarrow> bool" where
  "presented U d raw s \<longleftrightarrow> (\<exists>parts. parse_refresh_token U raw = Inr parts
     \<and> find_session (rt_session_id parts) d = Some s \<and> hash_matches (rt_secret parts) (rs_token_hash s))"

definition spent :: "refresh_session \<Rightarrow> bool" where
  "spent s \<longleftrightarrow> rs_used_at s \<noteq> None \<or> rs_revoked_at s \<noteq> None"

definition acceptable :: "timestamp \<Rightarrow> db \<Rightarrow> refresh_session \<Rightarrow> bool" where
  "acceptable now d s \<longleftrightarrow> \<not> spent s \<and> now < rs_expires_at s
     \<and> (\<exists>u. find_user (rs_user_id s) d = Some u \<and> usr_is_active u)"

lemma parse_error_value: "parse_refresh_token U raw = Inl e \<Longrightarrow> is_value_error e"
  by (auto simp: parse_refresh_token_def is_value_error_def split: prod.splits option.splits sum.splits if_splits)

lemmas action_defs = get_db_session_def begin_on_def commit_def rollback_def abind_def query_def change_def
  pure_action_def raise_action_def commit_action_def statement_def

lemma rotate_unpresented:
  "\<nexists>s. presented U d raw s \<Longrightarrow> get_db_session (rotate_session U J S r c raw) d = (Inl invalid_session, d)"
  by (auto simp: rotate_session_def presented_def action_defs parse_error_value split: sum.split option.split)

lemma rotate_spent:
  assumes "presented U d raw s" "spent s"
  shows "get_db_session (rotate_session U J S r c raw) d = (Inl session_reused, revoke_family (rs_family_id s) (dr_now r) d)"
  using assms by (auto simp: rotate_session_def presented_def spent_def action_defs)

lemma rotate_unacceptable:
  assumes "presented U d raw s" "\<not> spent s" "\<not> acceptable (dr_now r) d s"
  shows "get_db_session (rotate_session U J S r c raw) d = (Inl invalid_session, d)"
  using assms
  by (auto simp: rotate_session_def presented_def spent_def acceptable_def action_defs split: option.split if_split)

text \<open>The row an acceptable rotation inserts, and the tables after it.\<close>

definition replacement_of :: "jwt_library \<Rightarrow> settings \<Rightarrow> draws \<Rightarrow> client \<Rightarrow> refresh_session \<Rightarrow> refresh_session \<times> issued_session" where
  "replacement_of J S r c s = draft_session J S r c (rs_user_id s) (Some (rs_family_id s))"

lemma find_user_id: "find_user i d = Some u \<Longrightarrow> usr_id u = i"
  using find_SomeD [of "\<lambda>u. usr_id u = i"] by (auto simp: find_user_def)

lemma find_session_id: "find_session i d = Some s \<Longrightarrow> s \<in> set (db_sessions d) \<and> rs_id s = i"
  using find_SomeD [of "\<lambda>s. rs_id s = i"] by (auto simp: find_session_def)

lemma rotate_acceptable:
  assumes "presented U d raw s" "acceptable (dr_now r) d s"
  shows "get_db_session (rotate_session U J S r c raw) d =
    (case insert_session (fst (replacement_of J S r c s)) d of Inl e \<Rightarrow> (Inl e, d)
     | Inr d1 \<Rightarrow> (Inr (the (find_user (rs_user_id s) d), snd (replacement_of J S r c s)),
         update_session (rs_id s) (spent_row (dr_now r) (dr_session_id r)) d1))"
proof -
  have id: "rs_id (fst (draft_session J S r c u f)) = dr_session_id r" for u f
    by (simp add: draft_session_def split: prod.split)
  obtain u where "find_user (rs_user_id s) d = Some u" "usr_id u = rs_user_id s" "usr_is_active u"
    using assms(2) find_user_id by (auto simp: acceptable_def)
  note u = this
  from assms obtain parts where parts: "parse_refresh_token U raw = Inr parts"
      "find_session (rt_session_id parts) d = Some s" "hash_matches (rt_secret parts) (rs_token_hash s)"
      "rs_used_at s = None" "rs_revoked_at s = None" "dr_now r < rs_expires_at s"
    by (auto simp: presented_def acceptable_def spent_def)
  define ri where "ri = replacement_of J S r c s"
  obtain row issued where row: "ri = (row, issued)" by (cases ri)
  have ri: "draft_session J S r c (usr_id u) (Some (rs_family_id s)) = (row, issued)" "rs_id row = dr_session_id r"
    using id row by (simp_all add: ri_def replacement_of_def u) (metis fst_conv)
  have "rotate_session U J S r c raw (begin_on d) =
    (case insert_session row d of Inl e \<Rightarrow> (Inl e, begin_on d)
     | Inr d1 \<Rightarrow> (Inr (u, issued), (begin_on d)\<lparr>tx_db := update_session (rs_id s) (spent_row (dr_now r) (dr_session_id r)) d1\<rparr>))"
    using parts u(1,3) ri(2)
    by (simp add: rotate_session_def abind_def query_def issue_session_def ri(1) statement_def change_def
        pure_action_def Let_def split: sum.split prod.split)
  then show ?thesis using u(1)
    by (simp add: get_db_session_def commit_def rollback_def ri_def [symmetric] row split: sum.split)
qed

lemmas rotate_results = rotate_unpresented rotate_spent rotate_unacceptable rotate_acceptable

section \<open>The service over one table\<close>

datatype session_op = Clock | SignIn | Rotate pystr bool | Logout pystr

text \<open>
  A sign-in draws a family identifier that is not in the table (\<open>uuid4\<close>); identifiers of rows and
  hashes are kept apart by the table itself.
\<close>

inductive session_step :: "unicode \<Rightarrow> jwt_library \<Rightarrow> settings \<Rightarrow> session_op \<Rightarrow> timestamp \<times> db \<Rightarrow> timestamp \<times> db \<Rightarrow> bool"
  for U J S where
  clock: "now \<le> now' \<Longrightarrow> session_step U J S Clock (now, d) (now', d)"
| sign_in: "get_db_session (issue_session J S r c u None) d = (res, d') \<Longrightarrow> dr_now r = now \<Longrightarrow>
    dr_family_id r \<notin> rs_family_id ` set (db_sessions d) \<Longrightarrow> session_step U J S SignIn (now, d) (now, d')"
| rotate: "get_db_session (rotate_session U J S r c raw) d = (res, d') \<Longrightarrow> dr_now r = now \<Longrightarrow>
    session_step U J S (Rotate raw (isr res)) (now, d) (now, d')"
| logout: "get_db_session (revoke_session U now raw) d = (res, d') \<Longrightarrow> session_step U J S (Logout raw) (now, d) (now, d')"

inductive session_run :: "unicode \<Rightarrow> jwt_library \<Rightarrow> settings \<Rightarrow> session_op list \<Rightarrow> timestamp \<times> db \<Rightarrow> timestamp \<times> db \<Rightarrow> bool"
  for U J S where
  stop: "session_run U J S [] s s"
| step: "session_step U J S op s s' \<Longrightarrow> session_run U J S ops s' s'' \<Longrightarrow> session_run U J S (op # ops) s s''"

text \<open>An update of the table's rows that keeps who they are and never clears a mark.\<close>

definition marks :: "(refresh_session \<Rightarrow> refresh_session) \<Rightarrow> bool" where
  "marks f \<longleftrightarrow> (\<forall>s. rs_id (f s) = rs_id s \<and> rs_family_id (f s) = rs_family_id s \<and> rs_token_hash (f s) = rs_token_hash s
     \<and> (rs_used_at s \<noteq> None \<longrightarrow> rs_used_at (f s) \<noteq> None) \<and> (rs_revoked_at s \<noteq> None \<longrightarrow> rs_revoked_at (f s) \<noteq> None)
     \<and> (rs_used_at (f s) \<noteq> None \<longrightarrow> rs_used_at s \<noteq> None \<or> rs_revoked_at (f s) \<noteq> None))"

definition live :: "refresh_session \<Rightarrow> bool" where
  "live s \<longleftrightarrow> rs_revoked_at s = None"

definition sessions_ok :: "db \<Rightarrow> bool" where
  "sessions_ok d \<longleftrightarrow> distinct (map rs_id (db_sessions d))
     \<and> (\<forall>s \<in> set (db_sessions d). rs_used_at s \<noteq> None \<longrightarrow> rs_revoked_at s \<noteq> None)
     \<and> (\<forall>s \<in> set (db_sessions d). \<forall>s' \<in> set (db_sessions d).
          live s \<and> live s' \<and> rs_family_id s = rs_family_id s' \<longrightarrow> s = s')"

lemma marks_cases:
  "marks (\<lambda>s. s\<lparr>rs_revoked_at := Some now\<rparr>)" "marks (spent_row now i)" "marks (revoked_row now)"
  "marks (\<lambda>s. s\<lparr>rs_revoked_at := (case rs_revoked_at s of None \<Rightarrow> Some now | t \<Rightarrow> t)\<rparr>)"
  by (auto simp: marks_def spent_row_def revoked_row_def split: option.splits)

lemma marks_ok:
  assumes "sessions_ok d" "marks f"
  shows "sessions_ok (d\<lparr>db_sessions := update_where P f (db_sessions d)\<rparr>)"
proof -
  define g where "g s = (if P s then f s else s)" for s
  have rows: "update_where P f (db_sessions d) = map g (db_sessions d)" by (simp add: update_where_def g_def)
  have keep: "rs_id (g s) = rs_id s" "rs_family_id (g s) = rs_family_id s" "live (g s) \<Longrightarrow> live s"
    "rs_used_at (g s) \<noteq> None \<Longrightarrow> rs_used_at s \<noteq> None \<or> rs_revoked_at (g s) \<noteq> None"
    "rs_revoked_at s \<noteq> None \<Longrightarrow> rs_revoked_at (g s) \<noteq> None" for s
    using spec [OF assms(2) [unfolded marks_def], of s] by (auto simp: live_def g_def split: if_splits)
  have "map rs_id (map g (db_sessions d)) = map rs_id (db_sessions d)" using keep(1) by simp
  moreover have "rs_revoked_at (g s) \<noteq> None" if "s \<in> set (db_sessions d)" "rs_used_at (g s) \<noteq> None" for s
    using assms(1) that keep(4,5) unfolding sessions_ok_def by metis
  moreover have "g s = g s'" if "s \<in> set (db_sessions d)" "s' \<in> set (db_sessions d)" "live (g s)" "live (g s')"
      "rs_family_id (g s) = rs_family_id (g s')" for s s'
    using assms(1) that keep(2,3) unfolding sessions_ok_def by metis
  ultimately show ?thesis using assms(1) unfolding sessions_ok_def rows
    by (simp del: map_map)
qed

lemma insert_ok:
  assumes "sessions_ok d" "insert_session s d = Inr d'" "rs_used_at s = None"
    and "\<forall>x \<in> set (db_sessions d). live x \<longrightarrow> rs_family_id x \<noteq> rs_family_id s"
  shows "sessions_ok d'"
proof -
  have d': "db_sessions d' = db_sessions d @ [s]" "rs_id s \<notin> rs_id ` set (db_sessions d)"
    using assms(2) by (auto simp: insert_session_def split: if_splits)
  have "x = y" if "x \<in> set (db_sessions d')" "y \<in> set (db_sessions d')" "live x" "live y" "rs_family_id x = rs_family_id y" for x y
    using that assms(1,4) unfolding d'(1) sessions_ok_def by (metis Un_iff empty_iff insert_iff list.set set_append)
  moreover have "\<forall>x \<in> set (db_sessions d'). rs_used_at x \<noteq> None \<longrightarrow> rs_revoked_at x \<noteq> None"
    using assms(1,3) d'(1) by (auto simp: sessions_ok_def)
  moreover have "distinct (map rs_id (db_sessions d'))" using assms(1) d' by (auto simp: sessions_ok_def)
  ultimately show ?thesis unfolding sessions_ok_def by blast
qed

lemma insert_session_rows: "insert_session s d = Inr d' \<Longrightarrow>
    d' = d\<lparr>db_sessions := db_sessions d @ [s]\<rparr> \<and> rs_id s \<notin> rs_id ` set (db_sessions d)"
  by (auto simp: insert_session_def split: if_splits)

lemma replacement_fields:
  "rs_id (fst (replacement_of J S r c s)) = dr_session_id r"
  "rs_family_id (fst (replacement_of J S r c s)) = rs_family_id s"
  "rs_used_at (fst (replacement_of J S r c s)) = None" "rs_revoked_at (fst (replacement_of J S r c s)) = None"
  "rs_token_hash (fst (replacement_of J S r c s)) = hash_refresh_secret (dr_secret r)"
  "rs_user_id (fst (replacement_of J S r c s)) = rs_user_id s"
  "rs_expires_at (fst (replacement_of J S r c s)) = dr_now r + seconds (86400 * st_refresh_token_days S)"
  "iss_refresh_token (snd (replacement_of J S r c s)) = fst (create_refresh_token (dr_session_id r) (dr_secret r))"
  by (simp_all add: replacement_of_def draft_session_def create_refresh_token_def)

text \<open>The new row takes the place of the one live row of its family.\<close>

lemma replace_ok:
  assumes ok: "sessions_ok d" and s: "s \<in> set (db_sessions d)" "live s"
    and ins: "insert_session n d = Inr d1" and n: "rs_family_id n = rs_family_id s" "rs_used_at n = None"
  shows "sessions_ok (update_session (rs_id s) (spent_row now i) d1)"
proof -
  let ?d = "update_session (rs_id s) (spent_row now i) d"
  have n_new: "rs_id n \<noteq> rs_id s" "d1 = d\<lparr>db_sessions := db_sessions d @ [n]\<rparr>" "rs_id n \<notin> rs_id ` set (db_sessions d)"
    using insert_session_rows [OF ins] s(1) by auto
  have ok': "sessions_ok ?d" unfolding update_session_def by (rule marks_ok [OF ok marks_cases(2)])
  have rows: "db_sessions (update_session (rs_id s) (spent_row now i) d1) = db_sessions ?d @ [n]"
    using n_new by (simp add: update_session_def)
  have ids: "rs_id ` set (db_sessions ?d) = rs_id ` set (db_sessions d)"
    unfolding set_map [symmetric] update_session_def by (simp add: map_update_where spent_row_def)
  have "rs_family_id x \<noteq> rs_family_id n" if "x \<in> set (db_sessions ?d)" "live x" for x
  proof
    assume fam: "rs_family_id x = rs_family_id n"
    have "x \<in> set (db_sessions d)" "rs_id x \<noteq> rs_id s"
      using that by (auto simp: update_session_def set_update_where spent_row_def live_def)
    then show False using ok s that(2) fam n(1) unfolding sessions_ok_def by metis
  qed
  then show ?thesis using ok' n(2) n_new(3) unfolding sessions_ok_def rows
    by (simp add: ids) (metis Un_iff insertE singletonD)
qed

text \<open>A logout marks the presented row, or changes nothing.\<close>

lemma revoke_cases:
  obtains "get_db_session (revoke_session U now raw) d = (Inr (), d)"
  | s where "presented U d raw s" "get_db_session (revoke_session U now raw) d = (Inr (), update_session (rs_id s)
      (\<lambda>s. s\<lparr>rs_revoked_at := (case rs_revoked_at s of None \<Rightarrow> Some now | t \<Rightarrow> t)\<rparr>) d)"
proof (cases "\<exists>s. presented U d raw s")
  case True
  then obtain s where s: "presented U d raw s" by blast
  then have "get_db_session (revoke_session U now raw) d = (Inr (), update_session (rs_id s)
      (\<lambda>s. s\<lparr>rs_revoked_at := (case rs_revoked_at s of None \<Rightarrow> Some now | t \<Rightarrow> t)\<rparr>) d)"
    by (auto simp: presented_def revoke_session_def action_defs)
  with s that(2) show ?thesis by blast
next
  case False
  then have "get_db_session (revoke_session U now raw) d = (Inr (), d)"
    by (auto simp: presented_def revoke_session_def action_defs parse_error_value split: sum.split option.split)
  then show ?thesis by (rule that(1))
qed

text \<open>How a row of the table can differ after a step: it keeps its identity and its marks.\<close>

definition later_row :: "refresh_session \<Rightarrow> refresh_session \<Rightarrow> bool" where
  "later_row s s' \<longleftrightarrow> rs_id s' = rs_id s \<and> rs_family_id s' = rs_family_id s \<and> rs_token_hash s' = rs_token_hash s
     \<and> (spent s \<longrightarrow> spent s')"

definition rows_kept :: "db \<Rightarrow> db \<Rightarrow> bool" where
  "rows_kept d d' \<longleftrightarrow> (\<forall>i s. find_session i d = Some s \<longrightarrow> (\<exists>s'. find_session i d' = Some s' \<and> later_row s s'))"

lemma rows_kept_refl: "rows_kept d d"
  by (simp add: rows_kept_def later_row_def)

lemma rows_kept_trans: "rows_kept d d' \<Longrightarrow> rows_kept d' d'' \<Longrightarrow> rows_kept d d''"
  unfolding rows_kept_def later_row_def by metis

lemma find_update:
  assumes "\<And>s. rs_id (f s) = rs_id s"
  shows "find (\<lambda>s. rs_id s = i) (update_where P f rows) = map_option (\<lambda>s. if P s then f s else s) (find (\<lambda>s. rs_id s = i) rows)"
  using assms by (induction rows) auto

lemma rows_kept_update:
  assumes "marks f"
  shows "rows_kept d (d\<lparr>db_sessions := update_where P f (db_sessions d)\<rparr>)"
proof -
  have id: "\<And>s. rs_id (f s) = rs_id s" using assms by (simp add: marks_def)
  have "later_row s (if P s then f s else s)" for s
    using assms by (auto simp: marks_def later_row_def spent_def)
  then show ?thesis by (auto simp: rows_kept_def find_session_def find_update [OF id])
qed

lemma find_append: "find P (xs @ ys) = (case find P xs of Some x \<Rightarrow> Some x | None \<Rightarrow> find P ys)"
  by (induction xs) auto

lemma rows_kept_insert: "insert_session s d = Inr d' \<Longrightarrow> rows_kept d d'"
  by (drule insert_session_rows) (auto simp: rows_kept_def find_session_def find_append later_row_def)

lemma issue_cases:
  obtains e where "get_db_session (issue_session J S r c u None) d = (Inl e, d)"
  | n issued d' where "get_db_session (issue_session J S r c u None) d = (Inr (n, issued), d')"
      "insert_session n d = Inr d'" "rs_family_id n = dr_family_id r" "rs_used_at n = None"
proof (cases "insert_session (fst (draft_session J S r c u None)) d")
  case (Inl e)
  then have "get_db_session (issue_session J S r c u None) d = (Inl e, d)"
    by (simp add: issue_session_def Let_def action_defs)
  then show ?thesis by (rule that(1))
next
  case (Inr d')
  let ?n = "draft_session J S r c u None"
  have "get_db_session (issue_session J S r c u None) d = (Inr (fst ?n, snd ?n), d')"
    using Inr by (simp add: issue_session_def Let_def action_defs)
  moreover have "rs_family_id (fst ?n) = dr_family_id r" "rs_used_at (fst ?n) = None"
    by (simp_all add: draft_session_def create_refresh_token_def)
  ultimately show ?thesis using that(2) Inr by blast
qed

text \<open>The outcomes of a rotation, for the whole request.\<close>

lemma rotate_cases:
  obtains e where "get_db_session (rotate_session U J S r c raw) d = (Inl e, d)" "\<nexists>s. presented U d raw s \<and> spent s"
  | s where "presented U d raw s" "spent s"
      "get_db_session (rotate_session U J S r c raw) d = (Inl session_reused, revoke_family (rs_family_id s) (dr_now r) d)"
  | s u d1 where "presented U d raw s" "acceptable (dr_now r) d s" "find_user (rs_user_id s) d = Some u"
      "insert_session (fst (replacement_of J S r c s)) d = Inr d1"
      "get_db_session (rotate_session U J S r c raw) d = (Inr (u, snd (replacement_of J S r c s)),
         update_session (rs_id s) (spent_row (dr_now r) (dr_session_id r)) d1)"
proof (cases "\<exists>s. presented U d raw s")
  case False
  then show ?thesis using that(1) rotate_unpresented by blast
next
  case True
  then obtain s where s: "presented U d raw s" by blast
  have one: "s' = s" if "presented U d raw s'" for s' using s that by (auto simp: presented_def)
  show ?thesis
  proof (cases "spent s")
    case True
    then show ?thesis using that(2) s rotate_spent by blast
  next
    case False
    show ?thesis
    proof (cases "acceptable (dr_now r) d s")
      case acc: True
      then obtain u where u: "find_user (rs_user_id s) d = Some u" by (auto simp: acceptable_def)
      show ?thesis
      proof (cases "insert_session (fst (replacement_of J S r c s)) d")
        case (Inl e)
        then show ?thesis using that(1) rotate_acceptable [OF s acc, of J S c] one False by auto
      next
        case (Inr d1)
        then show ?thesis using that(3) [OF s acc u Inr] rotate_acceptable [OF s acc, of J S c] u by simp
      qed
    next
      case no: False
      then show ?thesis using that(1) rotate_unacceptable [OF s False no] one False by metis
    qed
  qed
qed

lemma presented_row: "presented U d raw s \<Longrightarrow> s \<in> set (db_sessions d)"
  by (auto simp: presented_def dest: find_session_id)

lemma step_kept:
  assumes "session_step U J S op (now, d) (now', d')" "sessions_ok d"
  shows "sessions_ok d' \<and> rows_kept d d' \<and> now \<le> now'"
  using assms(1)
proof cases
  case clock
  then show ?thesis using assms(2) rows_kept_refl by simp
next
  case (sign_in r c u res)
  then show ?thesis
  proof (cases rule: issue_cases [of J S r c u d])
    case (1 e)
    then show ?thesis using sign_in assms(2) rows_kept_refl by simp
  next
    case (2 n issued d2)
    then have "\<forall>x \<in> set (db_sessions d). live x \<longrightarrow> rs_family_id x \<noteq> rs_family_id n"
      using sign_in(5) by (metis imageI)
    then show ?thesis using sign_in 2 insert_ok [OF assms(2) 2(2) 2(4)] rows_kept_insert [OF 2(2)] by simp
  qed
next
  case (rotate r c raw res)
  then show ?thesis
  proof (cases rule: rotate_cases [of U J S r c raw d])
    case (1 e)
    then show ?thesis using rotate assms(2) rows_kept_refl by simp
  next
    case (2 s)
    then show ?thesis using rotate assms(2)
      by (simp add: revoke_family_def marks_ok rows_kept_update marks_cases(1))
  next
    case (3 s u d1)
    have "live s" using 3(2) by (simp add: acceptable_def spent_def live_def)
    from replace_ok [OF assms(2) presented_row [OF 3(1)] this 3(4)]
    have "sessions_ok (update_session (rs_id s) (spent_row (dr_now r) (dr_session_id r)) d1)"
      by (simp add: replacement_fields)
    moreover have "rows_kept d (update_session (rs_id s) (spent_row (dr_now r) (dr_session_id r)) d1)"
      using rows_kept_trans [OF rows_kept_insert [OF 3(4)]] rows_kept_update [OF marks_cases(2)]
      unfolding update_session_def by blast
    ultimately show ?thesis using rotate 3(5) by simp
  qed
next
  case (logout raw res)
  then show ?thesis
  proof (cases rule: revoke_cases [of U now raw d])
    case 1
    then show ?thesis using logout assms(2) rows_kept_refl by simp
  next
    case (2 s)
    then show ?thesis using logout assms(2)
      by (simp add: update_session_def marks_ok rows_kept_update marks_cases(4))
  qed
qed

lemma run_kept:
  "session_run U J S ops (now, d) (now', d') \<Longrightarrow> sessions_ok d \<Longrightarrow> sessions_ok d' \<and> rows_kept d d' \<and> now \<le> now'"
proof (induction ops "(now, d)" "(now', d')" arbitrary: now d rule: session_run.induct)
  case stop
  then show ?case using rows_kept_refl by simp
next
  case (step op s' ops)
  obtain n1 d1 where s': "s' = (n1, d1)" by (cases s')
  from step_kept [OF step(1) [unfolded s'] step(4)] step(3) [OF s'] show ?case
    using rows_kept_trans order_trans by blast
qed

section \<open>Tokens as text\<close>

lemma parse_created:
  "32 \<le> length secret \<Longrightarrow> parse_refresh_token U (fst (create_refresh_token i secret))
    = Inr \<lparr>rt_session_id = i, rt_secret = secret\<rparr>"
  by (simp add: parse_refresh_token_def create_refresh_token_def split_once_append)

text \<open>The packages, instantiated: fields written one after the other, each after its length.\<close>

definition pack_fields :: "pystr list \<Rightarrow> pystr" where
  "pack_fields xs = concat (map (\<lambda>x. length x # x) xs)"

function unpack_fields :: "pystr \<Rightarrow> pystr list" where
  "unpack_fields [] = []"
| "unpack_fields (n # xs) = take n xs # unpack_fields (drop n xs)"
  by pat_completeness auto
termination
  by (relation "measure length") auto

lemma unpack_pack [simp]: "unpack_fields (pack_fields xs) = xs"
  by (induction xs) (auto simp: pack_fields_def)

definition int_cells :: "int \<Rightarrow> nat list" where
  "int_cells i = [if i < 0 then 1 else 0, nat \<bar>i\<bar>]"

definition cells_int :: "nat list \<Rightarrow> int" where
  "cells_int xs = (if hd xs = 1 then - int (xs ! 1) else int (xs ! 1))"

lemma cells_int_cells [simp]: "cells_int (int_cells i) = i"
  by (simp add: cells_int_def int_cells_def)

definition sample_jwt :: jwt_library where
  "sample_jwt =
     \<lparr>jw_encode = (\<lambda>secret p. pack_fields [secret, pl_iss p, pl_aud p, pl_sub p, pl_jti p, pl_token_type p,
         int_cells (whole_seconds (pl_iat p)), int_cells (whole_seconds (pl_exp p))]),
      jw_decode = (\<lambda>secret iss aud now token.
         (case unpack_fields token of [s, i, a, sub, jti, ty, iat, ex] \<Rightarrow>
            if s = secret \<and> i = iss \<and> a = aud \<and> cells_int iat \<le> now \<and> now < cells_int ex
            then Some \<lparr>pl_sub = sub, pl_iss = i, pl_aud = a, pl_iat = cells_int iat, pl_exp = cells_int ex,
              pl_jti = jti, pl_token_type = ty\<rparr>
            else None
          | _ \<Rightarrow> None)),
      jw_uuid = (\<lambda>s. case uuid_parse ascii_only s of Inl _ \<Rightarrow> None | Inr u \<Rightarrow> Some u)\<rparr>"

lemma sample_jwt_documented: "jwt_documented sample_jwt"
  by (simp add: jwt_documented_def sample_jwt_def in_seconds_def)

section \<open>Properties\<close>

lemma decode_created:
  assumes "jwt_documented J"
  shows "if whole_seconds issued_at \<le> now \<and> now < whole_seconds issued_at + seconds (60 * st_access_token_minutes S)
    then \<exists>c. decode_access_token J S now (create_access_token J S issued_at jti u) = Inr c \<and> cl_sub c = u \<and> cl_jti c = jti
    else decode_access_token J S now (create_access_token J S issued_at jti u) = Inl (TokenError (lit ''invalid access token''))"
proof -
  define p where "p = \<lparr>pl_sub = uuid_str u, pl_iss = st_jwt_issuer S, pl_aud = st_jwt_audience S, pl_iat = issued_at,
        pl_exp = issued_at + seconds (60 * st_access_token_minutes S), pl_jti = uuid_str jti,
        pl_token_type = lit ''access''\<rparr>"
  have "(issued_at + (60 * st_access_token_minutes S) * 1000000) div 1000000
      = issued_at div 1000000 + 60 * st_access_token_minutes S" by (subst div_mult_self1) simp_all
  then have ex: "whole_seconds (pl_exp p) = whole_seconds issued_at + seconds (60 * st_access_token_minutes S)"
    by (simp add: p_def whole_seconds_def seconds_def)
  have dec: "jw_decode J (st_jwt_secret S) (st_jwt_issuer S) (st_jwt_audience S) now (jw_encode J (st_jwt_secret S) p)
      = (if whole_seconds issued_at \<le> now \<and> now < whole_seconds (pl_exp p) then Some (in_seconds p) else None)"
    using assms unfolding jwt_documented_def p_def by (metis access_payload.select_convs(2,3,4))
  have uu: "jw_uuid J (uuid_str v) = Some v" for v using assms by (simp add: jwt_documented_def)
  show ?thesis
    unfolding decode_access_token_def create_access_token_def p_def [symmetric] dec ex
    by (simp add: claims_of_def in_seconds_def uu p_def)
qed

text \<open>
  C38: an access token is accepted for exactly its user and its lifetime. From the (whole) second of issue
  until \<open>access_token_minutes\<close> later, \<open>decode_access_token\<close> gives claims whose subject is the user it was
  issued to; before and from the expiry on it raises \<open>TokenError\<close>.
\<close>

theorem access_token_window:
  assumes "jwt_documented J"
  shows "if whole_seconds issued_at \<le> now \<and> now < whole_seconds issued_at + seconds (60 * st_access_token_minutes S)
    then \<exists>c. decode_access_token J S now (create_access_token J S issued_at jti u) = Inr c \<and> cl_sub c = u \<and> cl_jti c = jti
    else decode_access_token J S now (create_access_token J S issued_at jti u) = Inl (TokenError (lit ''invalid access token''))"
  by (rule decode_created [OF assms])

theorem access_token_window_witness:
  "(\<exists>c. decode_access_token sample_jwt default_settings 5000000
      (create_access_token sample_jwt default_settings 4999999 3 9) = Inr c \<and> cl_sub c = 9)
    \<and> isl (decode_access_token sample_jwt default_settings 904000000
      (create_access_token sample_jwt default_settings 4999999 3 9))"
  using access_token_window [OF sample_jwt_documented, of 4999999 5000000 default_settings 3 9]
    access_token_window [OF sample_jwt_documented, of 4999999 904000000 default_settings 3 9]
  by (auto simp: whole_seconds_def seconds_def default_settings_def)

text \<open>
  C10: whatever sign-ins, rotations and logouts happen, successful or not, a family of refresh sessions
  never has two live ones, a used session is always revoked, and identifiers stay different.
\<close>

theorem one_live_session:
  assumes "session_run U J S ops (now, d) (now', d')" "db_sessions d = []"
  shows "distinct (map rs_id (db_sessions d'))
    \<and> (\<forall>s \<in> set (db_sessions d'). rs_used_at s \<noteq> None \<longrightarrow> rs_revoked_at s \<noteq> None)
    \<and> (\<forall>s \<in> set (db_sessions d'). \<forall>s' \<in> set (db_sessions d').
         rs_revoked_at s = None \<and> rs_revoked_at s' = None \<and> rs_family_id s = rs_family_id s' \<longrightarrow> s = s')"
proof -
  have "sessions_ok d" using assms(2) by (simp add: sessions_ok_def)
  from run_kept [OF assms(1) this] show ?thesis by (simp add: sessions_ok_def live_def)
qed

text \<open>
  A spent session never comes back. Once a session has been used or revoked, no later rotation of any
  token that names it succeeds, whatever sign-ins, rotations and logouts happened in between: a refresh
  token works at most once.
\<close>

theorem spent_session_stays_spent:
  assumes "sessions_ok d" "find_session i d = Some s" "rs_used_at s \<noteq> None \<or> rs_revoked_at s \<noteq> None"
    and "session_run U J S ops (now, d) (now', d')"
    and "parse_refresh_token U raw = Inr parts" "rt_session_id parts = i"
  shows "isl (fst (get_db_session (rotate_session U J S r c raw) d'))"
proof -
  have "rows_kept d d'" using run_kept [OF assms(4,1)] by simp
  then obtain s2 where s2: "find_session i d' = Some s2" "spent s2"
    using assms(2,3) unfolding rows_kept_def later_row_def spent_def by metis
  then have "spent s'" if "presented U d' raw s'" for s'
    using that assms(5,6) by (auto simp: presented_def)
  then show ?thesis
    by (cases rule: rotate_cases [of U J S r c raw d']) (auto simp: acceptable_def)
qed

text \<open>
  Presenting a token that was used or revoked is treated as theft: the request is refused, and the
  revocation of every session of the family is nevertheless committed. No session of another family changes.
\<close>

theorem reuse_revokes_family:
  assumes "presented U d raw s" "rs_used_at s \<noteq> None \<or> rs_revoked_at s \<noteq> None"
    and "get_db_session (rotate_session U J S r c raw) d = (res, d')"
  shows "res = Inl session_reused
    \<and> (\<forall>x \<in> set (db_sessions d'). rs_family_id x = rs_family_id s \<longrightarrow> rs_revoked_at x = Some (dr_now r))
    \<and> filter (\<lambda>x. rs_family_id x \<noteq> rs_family_id s) (db_sessions d') = filter (\<lambda>x. rs_family_id x \<noteq> rs_family_id s) (db_sessions d)"
proof -
  have r: "res = Inl session_reused" "d' = revoke_family (rs_family_id s) (dr_now r) d"
    using rotate_spent [OF assms(1)] assms(2,3) by (simp_all add: spent_def)
  have "filter (\<lambda>x. rs_family_id x \<noteq> f) (update_where (\<lambda>x. rs_family_id x = f) (\<lambda>x. x\<lparr>rs_revoked_at := t\<rparr>) rows)
      = filter (\<lambda>x. rs_family_id x \<noteq> f) rows" for f t rows
    by (induction rows) auto
  then show ?thesis using r by (auto simp: revoke_family_def set_update_where)
qed


section \<open>A table with one session\<close>

definition sample_secret :: pystr where
  "sample_secret = replicate 40 97"

definition sample_token :: pystr where
  "sample_token = fst (create_refresh_token 7 sample_secret)"

definition sample_session :: "timestamp option \<Rightarrow> refresh_session" where
  "sample_session used = \<lparr>rs_id = 7, rs_user_id = 1, rs_family_id = 8, rs_token_hash = hash_refresh_secret sample_secret,
     rs_user_agent = None, rs_ip_address = None, rs_created_at = 0, rs_expires_at = 100, rs_used_at = used,
     rs_revoked_at = used, rs_replaced_by_id = None\<rparr>"

definition session_table :: "refresh_session list \<Rightarrow> db" where
  "session_table rows = \<lparr>db_users = [\<lparr>usr_id = 1, usr_email = [], usr_display_name = [], usr_password_hash = [],
       usr_is_active = True\<rparr>], db_workspaces = [], db_memberships = [], db_documents = [], db_versions = [],
     db_chunks = [], db_jobs = [], db_sessions = rows\<rparr>"

definition sample_draws :: draws where
  "sample_draws = \<lparr>dr_now = 50, dr_session_id = 9, dr_family_id = 10, dr_jti = 11, dr_secret = replicate 40 98\<rparr>"

definition sample_client :: client where
  "sample_client = \<lparr>ct_user_agent = None, ct_ip_address = None\<rparr>"

lemma sample_parts: "parse_refresh_token U sample_token = Inr \<lparr>rt_session_id = 7, rt_secret = sample_secret\<rparr>"
  unfolding sample_token_def by (rule parse_created) (simp add: sample_secret_def)

lemma sample_presented: "presented U (session_table [sample_session used]) sample_token (sample_session used)"
  by (simp add: presented_def sample_parts find_session_def session_table_def sample_session_def hash_matches_def)

theorem spent_session_stays_spent_witness:
  "isl (fst (get_db_session (rotate_session ascii_only sample_jwt default_settings sample_draws sample_client sample_token)
     (session_table [sample_session (Some 20)])))"
proof -
  have "sessions_ok (session_table [sample_session (Some 20)])"
    by (simp add: sessions_ok_def session_table_def sample_session_def)
  moreover have "find_session 7 (session_table [sample_session (Some 20)]) = Some (sample_session (Some 20))"
    by (simp add: find_session_def session_table_def sample_session_def)
  moreover have "session_run ascii_only sample_jwt default_settings [Clock] (20, session_table [sample_session (Some 20)])
      (50, session_table [sample_session (Some 20)])"
    by (rule session_run.step [OF session_step.clock session_run.stop]) simp
  ultimately show ?thesis
    using spent_session_stays_spent [OF _ _ _ _ sample_parts] by (auto simp: sample_session_def)
qed

theorem one_live_session_witness:
  "\<exists>d'. session_run ascii_only sample_jwt default_settings [SignIn] (50, session_table []) (50, d')
    \<and> db_sessions d' \<noteq> [] \<and> distinct (map rs_id (db_sessions d'))"
proof -
  let ?n = "draft_session sample_jwt default_settings sample_draws sample_client 1 None"
  let ?d = "(session_table [])\<lparr>db_sessions := [fst ?n]\<rparr>"
  have "rs_user_id (fst ?n) = 1" by (simp add: draft_session_def create_refresh_token_def)
  then have "insert_session (fst ?n) (session_table []) = Inr ?d" by (simp add: insert_session_def session_table_def)
  then have "get_db_session (issue_session sample_jwt default_settings sample_draws sample_client 1 None) (session_table [])
      = (Inr (fst ?n, snd ?n), ?d)"
    by (simp add: issue_session_def Let_def action_defs)
  then have "session_step ascii_only sample_jwt default_settings SignIn (50, session_table []) (50, ?d)"
    by (rule session_step.sign_in) (simp_all add: sample_draws_def session_table_def)
  then have run: "session_run ascii_only sample_jwt default_settings [SignIn] (50, session_table []) (50, ?d)"
    by (rule session_run.step [OF _ session_run.stop])
  have "db_sessions (session_table []) = []" by (simp add: session_table_def)
  from one_live_session [OF run this] run show ?thesis by (intro exI [of _ ?d]) simp
qed

theorem reuse_revokes_family_witness:
  "fst (get_db_session (rotate_session ascii_only sample_jwt default_settings sample_draws sample_client sample_token)
     (session_table [sample_session (Some 20)])) = Inl session_reused"
proof -
  have "rs_used_at (sample_session (Some 20)) \<noteq> None" by (simp add: sample_session_def)
  then show ?thesis
    using reuse_revokes_family [OF sample_presented _ surjective_pairing, of "Some 20" ascii_only sample_jwt default_settings
        sample_draws sample_client] by blast
qed

end
