(* ===== verification/Access.thy ===== *)
theory Access
  imports Sessions
begin

text \<open>
  Who may do what: \<open>packages/security/rbac.py\<close> and \<open>passwords.py\<close>, the dependencies of
  \<open>apps/api/dependencies.py\<close> that find the caller and check the workspace role, and the routes of
  \<open>apps/api/routes/auth.py\<close>. The password hasher is the parameter \<open>password_library\<close>. The columns
  \<open>created_at\<close> of users are left out of responses.
\<close>

section \<open>Roles\<close>

fun role_rank :: "workspace_role \<Rightarrow> nat" where
  "role_rank VIEWER = 10"
| "role_rank AGENT = 20"
| "role_rank ADMIN = 30"
| "role_rank OWNER = 40"

definition has_minimum_role :: "workspace_role \<Rightarrow> workspace_role \<Rightarrow> bool" where
  "has_minimum_role actual required \<longleftrightarrow> role_rank required \<le> role_rank actual"

definition can_manage_role :: "workspace_role \<Rightarrow> workspace_role \<Rightarrow> bool" where
  "can_manage_role actor target =
     (if target = OWNER then False
      else if actor = OWNER then True
      else if actor = ADMIN then target = AGENT \<or> target = VIEWER
      else False)"

definition role_is_allowed :: "workspace_role \<Rightarrow> workspace_role list \<Rightarrow> bool" where
  "role_is_allowed actual allowed \<longleftrightarrow> actual \<in> set allowed"

text \<open>The ranks order the roles.\<close>

instantiation workspace_role :: linorder
begin

definition less_eq_workspace_role :: "workspace_role \<Rightarrow> workspace_role \<Rightarrow> bool" where
  "less_eq_workspace_role a b \<longleftrightarrow> has_minimum_role b a"

definition less_workspace_role :: "workspace_role \<Rightarrow> workspace_role \<Rightarrow> bool" where
  "less_workspace_role a b \<longleftrightarrow> \<not> has_minimum_role a b"

instance
proof
  fix a b c :: workspace_role
  have inj: "role_rank x = role_rank y \<Longrightarrow> x = y" for x y by (cases x; cases y) auto
  show "a < b \<longleftrightarrow> a \<le> b \<and> \<not> b \<le> a" "a \<le> a" "a \<le> b \<or> b \<le> a"
    by (auto simp: less_eq_workspace_role_def less_workspace_role_def has_minimum_role_def)
  show "a \<le> b \<Longrightarrow> b \<le> c \<Longrightarrow> a \<le> c"
    by (simp add: less_eq_workspace_role_def has_minimum_role_def)
  show "a \<le> b \<Longrightarrow> b \<le> a \<Longrightarrow> a = b"
    using inj by (simp add: less_eq_workspace_role_def has_minimum_role_def)
qed

end

lemmas role_order = less_eq_workspace_role_def less_workspace_role_def has_minimum_role_def

text \<open>Managing is being at least an administrator and strictly above.\<close>

lemma can_manage_role_iff: "can_manage_role actor target \<longleftrightarrow> ADMIN \<le> actor \<and> target < actor"
  by (cases actor; cases target) (auto simp: can_manage_role_def role_order)

section \<open>The caller\<close>

record credentials =
  cr_scheme :: pystr
  cr_token :: pystr

definition auth_error :: exn where
  "auth_error = HttpError 401 (lit ''authentication required'')"

definition get_current_principal :: "unicode \<Rightarrow> jwt_library \<Rightarrow> settings \<Rightarrow> timestamp \<Rightarrow> credentials option \<Rightarrow> user action" where
  "get_current_principal U J S now creds =
     (case creds of None \<Rightarrow> raise_action auth_error
      | Some cr \<Rightarrow>
          if lower U (cr_scheme cr) \<noteq> lit ''bearer'' then raise_action auth_error
          else (case decode_access_token J S now (cr_token cr) of
              Inl e \<Rightarrow> raise_action auth_error
            | Inr claims \<Rightarrow>
                abind (query (\<lambda>_. find_user (cl_sub claims))) (\<lambda>found.
                  case found of None \<Rightarrow> raise_action auth_error
                  | Some u \<Rightarrow> if \<not> usr_is_active u then raise_action auth_error
                      else abind (set_tenant (usr_id u) None) (\<lambda>_. pure_action u))))"

record workspace_access =
  ac_user :: user
  ac_membership :: membership

text \<open>The membership the caller has in the workspace of the path, under the workspace's row policies.\<close>

definition require_workspace_roles :: "workspace_role list \<Rightarrow> user \<Rightarrow> uuid \<Rightarrow> workspace_access action" where
  "require_workspace_roles roles principal_user workspace_id =
     abind (set_tenant (usr_id principal_user) (Some workspace_id)) (\<lambda>_.
     abind (query (\<lambda>t d. find (\<lambda>m. mem_workspace_id m = workspace_id \<and> mem_user_id m = usr_id principal_user)
        (select_memberships t d))) (\<lambda>found.
       case found of None \<Rightarrow> raise_action (HttpError 404 (lit ''workspace not found''))
       | Some m \<Rightarrow>
           if roles \<noteq> [] \<and> \<not> role_is_allowed (mem_role m) roles
           then raise_action (HttpError 403 (lit ''insufficient workspace role''))
           else pure_action \<lparr>ac_user = principal_user, ac_membership = m\<rparr>))"

definition any_role :: "workspace_role list" where
  "any_role = []"

definition manager_roles :: "workspace_role list" where
  "manager_roles = [OWNER, ADMIN]"

definition contributor_roles :: "workspace_role list" where
  "contributor_roles = [OWNER, ADMIN, AGENT]"

text \<open>A request to a route of a workspace: the caller, the role, then the route.\<close>

record caller =
  cal_now :: timestamp
  cal_credentials :: "credentials option"

definition workspace_request :: "unicode \<Rightarrow> jwt_library \<Rightarrow> settings \<Rightarrow> caller \<Rightarrow> workspace_role list \<Rightarrow> uuid
    \<Rightarrow> (workspace_access \<Rightarrow> 'a action) \<Rightarrow> db \<Rightarrow> 'a result \<times> db" where
  "workspace_request U J S c roles workspace_id route =
     get_db_session (abind (get_current_principal U J S (cal_now c) (cal_credentials c)) (\<lambda>u.
       abind (require_workspace_roles roles u workspace_id) route))"

section \<open>Authentication routes\<close>

record password_library =
  pw_hash :: "pystr \<Rightarrow> pystr \<Rightarrow> pystr"
  pw_verify :: "pystr \<Rightarrow> pystr \<Rightarrow> bool"
  pw_dummy_hash :: pystr

record refresh_cookie =
  ck_key :: pystr
  ck_value :: pystr
  ck_max_age :: int
  ck_httponly :: bool
  ck_secure :: bool
  ck_samesite :: pystr
  ck_path :: pystr

definition set_refresh_cookie :: "settings \<Rightarrow> pystr \<Rightarrow> refresh_cookie" where
  "set_refresh_cookie S raw_token =
     \<lparr>ck_key = st_refresh_cookie_name S, ck_value = raw_token, ck_max_age = 86400 * st_refresh_token_days S,
      ck_httponly = True, ck_secure = st_secure_cookies S, ck_samesite = lit ''lax'', ck_path = lit ''/api/v1/auth''\<rparr>"

definition clear_refresh_cookie :: "settings \<Rightarrow> refresh_cookie" where
  "clear_refresh_cookie S =
     \<lparr>ck_key = st_refresh_cookie_name S, ck_value = [], ck_max_age = 0,
      ck_httponly = True, ck_secure = st_secure_cookies S, ck_samesite = lit ''lax'', ck_path = lit ''/api/v1/auth''\<rparr>"

record auth_response =
  ar_user_id :: uuid
  ar_email :: pystr
  ar_display_name :: pystr
  ar_access_token :: pystr
  ar_token_type :: pystr
  ar_expires_in :: int

definition auth_response_of :: "user \<Rightarrow> pystr \<Rightarrow> settings \<Rightarrow> auth_response" where
  "auth_response_of u access_token S =
     \<lparr>ar_user_id = usr_id u, ar_email = usr_email u, ar_display_name = usr_display_name u,
      ar_access_token = access_token, ar_token_type = lit ''bearer'', ar_expires_in = st_access_token_minutes S * 60\<rparr>"

definition signed_in :: "settings \<Rightarrow> user \<Rightarrow> issued_session \<Rightarrow> auth_response \<times> refresh_cookie" where
  "signed_in S u issued = (auth_response_of u (iss_access_token issued) S, set_refresh_cookie S (iss_refresh_token issued))"

definition normalized_email :: "unicode \<Rightarrow> pystr \<Rightarrow> pystr" where
  "normalized_email U e = lower U (strip e)"

definition find_email :: "pystr \<Rightarrow> db \<Rightarrow> user option" where
  "find_email e d = find (\<lambda>u. usr_email u = e) (db_users d)"

text \<open>The identifiers a registration draws.\<close>

record register_draws =
  rd_user_id :: uuid
  rd_workspace_id :: uuid
  rd_membership_id :: uuid
  rd_salt :: pystr
  rd_session :: draws

definition new_user :: "unicode \<Rightarrow> password_library \<Rightarrow> register_draws \<Rightarrow> register_request \<Rightarrow> user" where
  "new_user U P n r = \<lparr>usr_id = rd_user_id n, usr_email = normalized_email U (reg_email r),
     usr_display_name = reg_display_name r, usr_password_hash = pw_hash P (rd_salt n) (reg_password r), usr_is_active = True\<rparr>"

definition owned_workspace :: "uuid \<Rightarrow> pystr \<Rightarrow> pystr \<Rightarrow> uuid \<Rightarrow> timestamp \<Rightarrow> workspace" where
  "owned_workspace i name slug owner now =
     \<lparr>ws_id = i, ws_name = name, ws_slug = slug, ws_created_by = owner, ws_created_at = now\<rparr>"

definition owner_membership :: "uuid \<Rightarrow> uuid \<Rightarrow> uuid \<Rightarrow> timestamp \<Rightarrow> membership" where
  "owner_membership i workspace_id owner now =
     \<lparr>mem_id = i, mem_workspace_id = workspace_id, mem_user_id = owner, mem_role = OWNER, mem_created_at = now\<rparr>"

definition register :: "unicode \<Rightarrow> password_library \<Rightarrow> jwt_library \<Rightarrow> settings \<Rightarrow> register_draws \<Rightarrow> client
    \<Rightarrow> register_request \<Rightarrow> (auth_response \<times> refresh_cookie) action" where
  "register U P J S n c r =
     (let now = dr_now (rd_session n); user = new_user U P n r in
      abind (query (\<lambda>_. find_email (normalized_email U (reg_email r)))) (\<lambda>existing.
      abind (guard (existing = None) (Domain ConflictError (lit ''an account with this email already exists''))) (\<lambda>_.
      abind (statement (\<lambda>_. insert_user user)) (\<lambda>_.
      abind (set_tenant (usr_id user) (Some (rd_workspace_id n))) (\<lambda>_.
      abind (on_integrity_error (Domain ConflictError (lit ''email or workspace slug is already in use''))
          (abind (statement (\<lambda>t. insert_workspace t
              (owned_workspace (rd_workspace_id n) (reg_workspace_name r) (reg_workspace_slug r) (usr_id user) now))) (\<lambda>_.
           abind (statement (\<lambda>t. insert_membership t
              (owner_membership (rd_membership_id n) (rd_workspace_id n) (usr_id user) now))) (\<lambda>_.
           issue_session J S (rd_session n) c (usr_id user) None)))) (\<lambda>(_, issued).
      pure_action (signed_in S user issued)))))))"

definition login :: "unicode \<Rightarrow> password_library \<Rightarrow> jwt_library \<Rightarrow> settings \<Rightarrow> draws \<Rightarrow> client
    \<Rightarrow> login_request \<Rightarrow> (auth_response \<times> refresh_cookie) action" where
  "login U P J S r c req =
     abind (query (\<lambda>_. find_email (normalized_email U (log_email req)))) (\<lambda>found.
       let password_matches = pw_verify P (log_password req)
             (case found of Some u \<Rightarrow> usr_password_hash u | None \<Rightarrow> pw_dummy_hash P) in
       case found of
         None \<Rightarrow> raise_action (Domain AuthenticationError (lit ''email or password is incorrect''))
       | Some u \<Rightarrow>
           if \<not> usr_is_active u \<or> \<not> password_matches
           then raise_action (Domain AuthenticationError (lit ''email or password is incorrect''))
           else abind (issue_session J S r c (usr_id u) None) (\<lambda>(_, issued). pure_action (signed_in S u issued)))"

definition refresh :: "unicode \<Rightarrow> jwt_library \<Rightarrow> settings \<Rightarrow> draws \<Rightarrow> client \<Rightarrow> pystr option
    \<Rightarrow> (auth_response \<times> refresh_cookie) action" where
  "refresh U J S r c cookie =
     (case cookie of
        None \<Rightarrow> raise_action invalid_session
      | Some raw \<Rightarrow>
          if raw = [] then raise_action invalid_session
          else abind (rotate_session U J S r c raw) (\<lambda>(u, issued). pure_action (signed_in S u issued)))"

definition logout :: "unicode \<Rightarrow> settings \<Rightarrow> timestamp \<Rightarrow> pystr option \<Rightarrow> refresh_cookie action" where
  "logout U S now cookie =
     abind (case cookie of None \<Rightarrow> pure_action () | Some raw \<Rightarrow>
         if raw = [] then pure_action () else revoke_session U now raw)
       (\<lambda>_. pure_action (clear_refresh_cookie S))"

definition me :: "user \<Rightarrow> user action" where
  "me principal_user = pure_action principal_user"

section \<open>The gate before every workspace route\<close>

text \<open>A transaction at its start, with the caller and the workspace as tenant, and how a request ends.\<close>

definition tenant_on :: "db \<Rightarrow> uuid \<Rightarrow> uuid \<Rightarrow> transaction" where
  "tenant_on d u w = \<lparr>tx_db = d, tx_saved = d, tx_tenant = \<lparr>cur_user = Some u, cur_workspace = Some w, cur_worker = None\<rparr>\<rparr>"

definition outcome :: "'a result \<times> transaction \<Rightarrow> 'a result \<times> db" where
  "outcome rt = (fst rt, case fst rt of Inr _ \<Rightarrow> tx_db (snd rt) | Inl _ \<Rightarrow> tx_saved (snd rt))"

lemma outcome_simps [simp]: "outcome (Inr a, t) = (Inr a, tx_db t)" "outcome (Inl e, t) = (Inl e, tx_saved t)"
  by (simp_all add: outcome_def)

lemma get_db_session_outcome: "get_db_session act d = outcome (act (begin_on d))"
  by (auto simp: get_db_session_def outcome_def commit_def rollback_def split: prod.split sum.split)

lemma tenant_on_simps [simp]:
  "tx_db (tenant_on d u w) = d" "tx_saved (tenant_on d u w) = d" "cur_user (tx_tenant (tenant_on d u w)) = Some u"
  "cur_workspace (tx_tenant (tenant_on d u w)) = Some w" "cur_worker (tx_tenant (tenant_on d u w)) = None"
  "in_workspace (tx_tenant (tenant_on d u w)) x \<longleftrightarrow> x = w"
  by (auto simp: tenant_on_def in_workspace_def)

definition authenticated :: "unicode \<Rightarrow> jwt_library \<Rightarrow> settings \<Rightarrow> caller \<Rightarrow> db \<Rightarrow> user \<Rightarrow> bool" where
  "authenticated U J S c d u \<longleftrightarrow> (\<exists>cr claims. cal_credentials c = Some cr \<and> lower U (cr_scheme cr) = lit ''bearer''
     \<and> decode_access_token J S (cal_now c) (cr_token cr) = Inr claims
     \<and> find_user (cl_sub claims) d = Some u \<and> usr_is_active u)"

definition member_of :: "db \<Rightarrow> uuid \<Rightarrow> uuid \<Rightarrow> membership \<Rightarrow> bool" where
  "member_of d u w m \<longleftrightarrow> find (\<lambda>m. mem_workspace_id m = w \<and> mem_user_id m = u) (db_memberships d) = Some m"

lemma member_ofD: "member_of d u w m \<Longrightarrow> m \<in> set (db_memberships d) \<and> mem_workspace_id m = w \<and> mem_user_id m = u"
  using find_SomeD [of "\<lambda>m. mem_workspace_id m = w \<and> mem_user_id m = u"] by (auto simp: member_of_def)

lemma authenticated_user: "authenticated U J S c d u \<Longrightarrow> u \<in> set (db_users d)"
  using find_SomeD [of "\<lambda>x. usr_id x = _"] by (fastforce simp: authenticated_def find_user_def)

lemma principal_cases:
  obtains "get_current_principal U J S (cal_now c) (cal_credentials c) (begin_on d) = (Inl auth_error, begin_on d)"
      "\<nexists>u. authenticated U J S c d u"
  | u where "authenticated U J S c d u"
      "get_current_principal U J S (cal_now c) (cal_credentials c) (begin_on d)
        = (Inr u, (begin_on d)\<lparr>tx_tenant := set_tenant_context (usr_id u) None no_tenant\<rparr>)"
proof (cases "\<exists>u. authenticated U J S c d u")
  case True
  then obtain u where u: "authenticated U J S c d u" by blast
  then have "get_current_principal U J S (cal_now c) (cal_credentials c) (begin_on d)
        = (Inr u, (begin_on d)\<lparr>tx_tenant := set_tenant_context (usr_id u) None no_tenant\<rparr>)"
    by (auto simp: authenticated_def get_current_principal_def abind_def query_def set_tenant_def pure_action_def)
  with u that(2) show ?thesis by blast
next
  case False
  then have "get_current_principal U J S (cal_now c) (cal_credentials c) (begin_on d) = (Inl auth_error, begin_on d)"
    by (auto simp: authenticated_def get_current_principal_def abind_def query_def raise_action_def
        split: option.split sum.split)
  with False that(1) show ?thesis by blast
qed

lemma find_filter: "(\<And>x. P x \<Longrightarrow> Q x) \<Longrightarrow> find P (filter Q xs) = find P xs"
  by (induction xs) auto

lemma find_visible_member:
  "in_workspace t w \<Longrightarrow> find (\<lambda>m. mem_workspace_id m = w \<and> mem_user_id m = u) (select_memberships t d)
    = find (\<lambda>m. mem_workspace_id m = w \<and> mem_user_id m = u) (db_memberships d)"
  unfolding select_memberships_def by (rule find_filter) (simp add: membership_visible_def)

lemma require_roles_cases:
  "require_workspace_roles roles u w ((begin_on d)\<lparr>tx_tenant := set_tenant_context (usr_id u) None no_tenant\<rparr>) =
    (case find (\<lambda>m. mem_workspace_id m = w \<and> mem_user_id m = usr_id u) (db_memberships d) of
       None \<Rightarrow> (Inl (HttpError 404 (lit ''workspace not found'')), tenant_on d (usr_id u) w)
     | Some m \<Rightarrow> if roles = [] \<or> mem_role m \<in> set roles then (Inr \<lparr>ac_user = u, ac_membership = m\<rparr>, tenant_on d (usr_id u) w)
         else (Inl (HttpError 403 (lit ''insufficient workspace role'')), tenant_on d (usr_id u) w))"
proof -
  have t: "(begin_on d)\<lparr>tx_tenant := set_tenant_context (usr_id u) (Some w) (set_tenant_context (usr_id u) None no_tenant)\<rparr>
      = tenant_on d (usr_id u) w"
    by (simp add: tenant_on_def begin_on_def set_tenant_context_def no_tenant_def)
  show ?thesis
    by (auto simp: require_workspace_roles_def abind_def set_tenant_def query_def find_visible_member t
        role_is_allowed_def raise_action_def pure_action_def split: option.split)
qed

text \<open>Every request to a workspace route is refused without effect, or runs the route as a member.\<close>

lemma request_cases:
  obtains (refused) e where "workspace_request U J S c roles w route d = (Inl e, d)"
      "e = auth_error \<or> e = HttpError 404 (lit ''workspace not found'') \<or> e = HttpError 403 (lit ''insufficient workspace role'')"
  | (admitted) u m where "authenticated U J S c d u" "member_of d (usr_id u) w m" "roles = [] \<or> mem_role m \<in> set roles"
      "workspace_request U J S c roles w route d
        = outcome (route \<lparr>ac_user = u, ac_membership = m\<rparr> (tenant_on d (usr_id u) w))"
proof (cases rule: principal_cases [of U J S c d])
  case 1
  then show ?thesis using that(1) [of auth_error]
    by (simp add: workspace_request_def get_db_session_outcome abind_def)
next
  case (2 u)
  have w: "workspace_request U J S c roles w route d = outcome (case require_workspace_roles roles u w
      ((begin_on d)\<lparr>tx_tenant := set_tenant_context (usr_id u) None no_tenant\<rparr>) of
        (Inl e, t) \<Rightarrow> (Inl e, t) | (Inr a, t) \<Rightarrow> route a t)"
    by (simp add: workspace_request_def get_db_session_outcome abind_def 2(2))
  show ?thesis
  proof (cases "find (\<lambda>m. mem_workspace_id m = w \<and> mem_user_id m = usr_id u) (db_memberships d)")
    case None
    then show ?thesis using that(1) w by (simp add: require_roles_cases)
  next
    case (Some m)
    then show ?thesis
      using that(1) that(2) [OF 2(1), of m] w
      by (cases "roles = [] \<or> mem_role m \<in> set roles") (simp_all add: require_roles_cases member_of_def)
  qed
qed

lemma admitted_request:
  assumes "authenticated U J S c d u" "member_of d (usr_id u) w m" "roles = [] \<or> mem_role m \<in> set roles"
  shows "workspace_request U J S c roles w route d
    = outcome (route \<lparr>ac_user = u, ac_membership = m\<rparr> (tenant_on d (usr_id u) w))"
proof (cases rule: principal_cases [of U J S c d])
  case 1
  with assms(1) show ?thesis by blast
next
  case (2 u')
  have "u' = u" using 2(1) assms(1) by (auto simp: authenticated_def)
  with 2(2) assms(2,3) show ?thesis
    by (auto simp: workspace_request_def get_db_session_outcome abind_def require_roles_cases member_of_def)
qed

section \<open>Properties\<close>

text \<open>
  C11: no route of a workspace runs for an outsider. For every request to every workspace route, whatever the
  route would do: either it is answered 401, 403 or 404 with nothing changed, or the bearer token is valid for
  an active user who has a membership in that workspace with one of the required roles, and the route runs in a
  transaction whose tenant is that user and that workspace.
\<close>

theorem workspace_gate:
  "workspace_request U J S c roles w route d
     \<in> {(Inl auth_error, d), (Inl (HttpError 404 (lit ''workspace not found'')), d),
        (Inl (HttpError 403 (lit ''insufficient workspace role'')), d)}
   \<or> (\<exists>u m. authenticated U J S c d u \<and> m \<in> set (db_memberships d) \<and> mem_workspace_id m = w
        \<and> mem_user_id m = usr_id u \<and> (roles = [] \<or> mem_role m \<in> set roles)
        \<and> workspace_request U J S c roles w route d
            = outcome (route \<lparr>ac_user = u, ac_membership = m\<rparr> (tenant_on d (usr_id u) w)))"
  by (cases rule: request_cases [of U J S c roles w route d]) (auto dest: member_ofD)

text \<open>
  What a login can do. It succeeds only for an active user with that e-mail address whose password
  matches, and then answers for that user with a cookie that scripts cannot read. Every other outcome changes nothing;
  with wrong credentials the error is the same whether the address is unknown, the user is inactive or
  the password is wrong.
\<close>

theorem login_outcome:
  "let found = find_email (normalized_email U (log_email req)) d;
       good = (\<exists>u. found = Some u \<and> usr_is_active u \<and> pw_verify P (log_password req) (usr_password_hash u))
   in case get_db_session (login U P J S r c req) d of
        (Inr (response, cookie), d') \<Rightarrow> good \<and> ar_user_id response = usr_id (the found) \<and> ck_httponly cookie
          \<and> (\<exists>s. db_sessions d' = db_sessions d @ [s] \<and> rs_user_id s = usr_id (the found))
      | (Inl e, d') \<Rightarrow> d' = d
          \<and> e = (if good then IntegrityError else Domain AuthenticationError (lit ''email or password is incorrect''))"
proof (cases "find_email (normalized_email U (log_email req)) d")
  case None
  then show ?thesis by (simp add: login_def get_db_session_outcome abind_def query_def raise_action_def)
next
  case (Some u)
  show ?thesis
  proof (cases "usr_is_active u \<and> pw_verify P (log_password req) (usr_password_hash u)")
    case False
    then show ?thesis using Some
      by (auto simp: login_def get_db_session_outcome abind_def query_def raise_action_def)
  next
    case True
    let ?n = "draft_session J S r c (usr_id u) None"
    have n: "rs_user_id (fst ?n) = usr_id u" by (simp add: draft_session_def create_refresh_token_def)
    show ?thesis
    proof (cases "insert_session (fst ?n) d")
      case (Inl e)
      then have "e = IntegrityError" by (auto simp: insert_session_def split: if_splits)
      with Inl Some True show ?thesis
        by (simp add: login_def get_db_session_outcome abind_def query_def issue_session_def Let_def statement_def)
    next
      case (Inr d1)
      with Some True n insert_session_rows [OF Inr] show ?thesis
        by (auto simp: login_def get_db_session_outcome abind_def query_def issue_session_def Let_def statement_def
            pure_action_def signed_in_def auth_response_of_def set_refresh_cookie_def split: prod.split)
    qed
  qed
qed

end
