(* ===== verification/Uploads.thy ===== *)
theory Uploads
  imports Filenames Access
begin

text \<open>
  \<open>upload_document_version\<close> of \<open>packages/documents/service.py\<close>: from the bytes of a request to an object
  in the store, a document, a version and a job. It works on two stores, the database transaction and
  the object store, and undoes in the one what fails in the other. The lemmas use the interface
  \<open>object_store\<close> of the store and say that a failed upload leaves no trace in either, what a
  successful one leaves, and that repeating it under its idempotency key changes nothing.
\<close>

section \<open>The request\<close>

record upload_request =
  uq_filename :: "pystr option"
  uq_content_type :: "pystr option"
  uq_content :: pybytes
  uq_idempotency_key :: pystr
  uq_display_name :: "pystr option"

text \<open>The identifiers and the time an upload draws.\<close>

record upload_draws =
  un_now :: timestamp
  un_staging :: uuid
  un_document_id :: uuid
  un_version_id :: uuid
  un_job_id :: uuid

record upload_result =
  up_document :: document
  up_version :: document_version
  up_job :: job

section \<open>_existing_result\<close>

definition payload_item :: "(pystr \<times> pystr) list \<Rightarrow> pystr \<Rightarrow> pystr result" where
  "payload_item p k = (case map_of p k of None \<Rightarrow> Inl KeyError | Some v \<Rightarrow> Inr v)"

definition payload_uuid :: "unicode \<Rightarrow> job \<Rightarrow> string \<Rightarrow> uuid result" where
  "payload_uuid U j k = rbind (payload_item (job_payload j) (lit k)) (uuid_parse U)"

definition find_document :: "uuid \<Rightarrow> tenant \<Rightarrow> db \<Rightarrow> document option" where
  "find_document i t d = find (\<lambda>x. dcm_id x = i) (select_documents t d)"

definition find_version :: "uuid \<Rightarrow> tenant \<Rightarrow> db \<Rightarrow> document_version option" where
  "find_version i t d = find (\<lambda>v. ver_id v = i) (select_versions t d)"

definition job_ids :: "unicode \<Rightarrow> job \<Rightarrow> (uuid \<times> uuid) result" where
  "job_ids U j =
     (case rbind (payload_uuid U j ''document_id'') (\<lambda>di.
           rbind (payload_uuid U j ''document_version_id'') (\<lambda>vi. Inr (di, vi))) of
        Inr ids \<Rightarrow> Inr ids
      | Inl e \<Rightarrow> if e = KeyError \<or> e = TypeError \<or> is_value_error e
          then raise_domain ConflictError ''existing idempotent job has an incompatible payload'' else Inl e)"

definition existing_result :: "unicode \<Rightarrow> uuid \<Rightarrow> pystr \<Rightarrow> upload_result option action" where
  "existing_result U workspace_id key =
     abind (query (\<lambda>t d. find (\<lambda>j. job_workspace_id j = workspace_id \<and> job_job_type j = PROCESS_DOCUMENT
        \<and> job_idempotency_key j = key) (select_jobs t d))) (\<lambda>found.
       case found of None \<Rightarrow> pure_action None
       | Some j \<Rightarrow>
           abind (of_result (job_ids U j)) (\<lambda>(di, vi).
           abind (query (find_document di)) (\<lambda>document. abind (query (find_version vi)) (\<lambda>version.
             case (document, version) of
               (Some x, Some v) \<Rightarrow> pure_action (Some \<lparr>up_document = x, up_version = v, up_job = j\<rparr>)
             | _ \<Rightarrow> raise_action (Domain ConflictError (lit ''existing idempotent job references missing document data''))))))"

section \<open>The document and its new version\<close>

definition resolved_name :: "pystr option \<Rightarrow> pystr \<Rightarrow> pystr" where
  "resolved_name display_name safe_filename =
     take 255 (strip (case display_name of
         Some s \<Rightarrow> if s \<noteq> [] then s else if pure_stem safe_filename \<noteq> [] then pure_stem safe_filename else safe_filename
       | None \<Rightarrow> if pure_stem safe_filename \<noteq> [] then pure_stem safe_filename else safe_filename))"

text \<open>The document, whether it is new, and the number of the version.\<close>

definition choose_document :: "uuid \<Rightarrow> uuid \<Rightarrow> uuid option \<Rightarrow> upload_request \<Rightarrow> upload_draws \<Rightarrow> pystr
    \<Rightarrow> (document \<times> bool \<times> int) action" where
  "choose_document workspace_id user_id document_id q n safe_filename =
     (case document_id of
        None \<Rightarrow> pure_action
          (\<lparr>dcm_id = un_document_id n, dcm_workspace_id = workspace_id,
            dcm_display_name = resolved_name (uq_display_name q) safe_filename, dcm_active_version_id = None,
            dcm_created_by = user_id, dcm_deleted_at = None, dcm_created_at = un_now n\<rparr>, True, 1)
      | Some i \<Rightarrow>
          abind (query (\<lambda>t d. find (\<lambda>x. dcm_id x = i \<and> dcm_workspace_id x = workspace_id \<and> dcm_deleted_at x = None)
            (select_documents t d))) (\<lambda>found.
            case found of None \<Rightarrow> raise_action (Domain NotFoundError (lit ''document not found''))
            | Some x \<Rightarrow>
                abind (query (\<lambda>t d. filter (\<lambda>v. ver_document_id v = dcm_id x) (select_versions t d))) (\<lambda>vs.
                pure_action (x, False, (if vs = [] then 0 else Max (set (map ver_version_number vs))) + 1))))"

text \<open>From the staged object to the version row, nothing written yet: type, scan, quota, duplicates.\<close>

definition plan_version :: "unicode \<Rightarrow> settings \<Rightarrow> scanner \<Rightarrow> uuid \<Rightarrow> uuid \<Rightarrow> uuid option \<Rightarrow> upload_request
    \<Rightarrow> upload_draws \<Rightarrow> upload_progress \<Rightarrow> object_metadata \<Rightarrow> (document \<times> bool \<times> document_version) action" where
  "plan_version U S scan workspace_id user_id document_id q n p staged =
     (let safe_filename = sanitize_filename U (uq_filename q); sha = sha256_hexdigest (pr_hashed p) in
      abind (guard (pr_byte_size p \<noteq> 0) (Domain UploadRejectedError (lit ''empty documents are not accepted''))) (\<lambda>_.
      abind (of_result (validate_media_type U safe_filename (uq_content_type q) (pr_prefix p))) (\<lambda>media_type.
      abind (of_result (scan staged media_type)) (\<lambda>_.
      abind (query (\<lambda>t d. sum_list (map ver_byte_size
        (filter (\<lambda>v. ver_workspace_id v = workspace_id) (select_versions t d))))) (\<lambda>used_bytes.
      abind (guard (used_bytes + pr_byte_size p \<le> st_max_workspace_storage_bytes S)
        (Domain UploadTooLargeError (lit ''workspace document storage quota would be exceeded''))) (\<lambda>_.
      abind (choose_document workspace_id user_id document_id q n safe_filename) (\<lambda>(document, fresh, number).
      abind (query (\<lambda>t d. \<exists>v \<in> set (select_versions t d). ver_workspace_id v = workspace_id
        \<and> ver_document_id v = dcm_id document \<and> ver_sha256 v = sha)) (\<lambda>duplicate.
      abind (guard (\<not> duplicate)
        (Domain ConflictError (lit ''this document already has a version with identical content''))) (\<lambda>_.
      pure_action (document, fresh,
        \<lparr>ver_id = un_version_id n, ver_workspace_id = workspace_id, ver_document_id = dcm_id document,
         ver_version_number = number,
         ver_object_key = final_key workspace_id (dcm_id document) (un_version_id n) safe_filename,
         ver_original_filename = safe_filename, ver_media_type = media_type, ver_byte_size = pr_byte_size p,
         ver_sha256 = sha, ver_status = V_QUEUED, ver_created_by = user_id\<rparr>))))))))))"

definition process_document_job :: "settings \<Rightarrow> uuid \<Rightarrow> pystr \<Rightarrow> upload_draws \<Rightarrow> document_version \<Rightarrow> job" where
  "process_document_job S workspace_id key n v =
     \<lparr>job_id = un_job_id n, job_workspace_id = workspace_id, job_job_type = PROCESS_DOCUMENT,
      job_payload = [(lit ''document_id'', uuid_str (ver_document_id v)), (lit ''document_version_id'', uuid_str (ver_id v))],
      job_state = QUEUED, job_idempotency_key = key, job_available_at = un_now n, job_lease_owner = None,
      job_lease_expires_at = None, job_attempt_count = 0, job_max_attempts = st_job_max_attempts S,
      job_error_code = None, job_error_message = None, job_created_at = un_now n\<rparr>"

text \<open>What the flush writes: the session's pending rows (\<open>autoflush\<close> is off, so not before).\<close>

definition flush_upload :: "document \<Rightarrow> bool \<Rightarrow> document_version \<Rightarrow> job \<Rightarrow> unit action" where
  "flush_upload x fresh v j =
     abind (if fresh then statement (\<lambda>t. insert_document t x) else pure_action ()) (\<lambda>_.
     abind (statement (\<lambda>t. insert_version t v)) (\<lambda>_.
     statement (\<lambda>t. insert_job t j)))"

section \<open>upload_document_version\<close>

text \<open>
  A step of the body gives its result, \<open>promoted_key\<close> (the final key, when an exception may leave the
  object there), and the two stores. After the move: flush, commit, and back to the tenant; on an
  exception roll back and delete the object.
\<close>

type_synonym upload_step = "upload_result result \<times> pystr option \<times> transaction \<times> file_system"

definition record_upload :: "local_store \<Rightarrow> uuid \<Rightarrow> uuid \<Rightarrow> document \<Rightarrow> bool \<Rightarrow> document_version \<Rightarrow> job
    \<Rightarrow> transaction \<Rightarrow> file_system \<Rightarrow> upload_step" where
  "record_upload ls workspace_id user_id x fresh v j t fs =
     (case flush_upload x fresh v j t of
        (Inr _, t1) \<Rightarrow>
          (Inr \<lparr>up_document = x, up_version = v, up_job = j\<rparr>, Some (ver_object_key v),
           snd (set_tenant user_id (Some workspace_id) (commit t1)), fs)
      | (Inl e, t1) \<Rightarrow>
          (case store_delete ls (ver_object_key v) fs of
             (Inr _, fs1) \<Rightarrow> (Inl e, None, rollback t1, fs1)
           | (Inl e', fs1) \<Rightarrow> (Inl e', Some (ver_object_key v), rollback t1, fs1)))"

text \<open>The body of the outer \<open>try\<close>.\<close>

definition store_upload :: "unicode \<Rightarrow> settings \<Rightarrow> scanner \<Rightarrow> local_store \<Rightarrow> uuid \<Rightarrow> uuid \<Rightarrow> uuid option
    \<Rightarrow> upload_request \<Rightarrow> upload_draws \<Rightarrow> pystr \<Rightarrow> transaction \<Rightarrow> file_system \<Rightarrow> upload_step" where
  "store_upload U S scan ls workspace_id user_id document_id q n key t fs =
     (let staging = staging_key workspace_id (un_staging n);
          upload = read_upload (st_max_upload_bytes S) (st_upload_chunk_bytes S) (uq_content q) in
      case store_write ls (un_now n) staging (upload_stream upload) fs of
        (Inl e, fs1) \<Rightarrow> (Inl e, None, t, fs1)
      | (Inr staged, fs1) \<Rightarrow>
          (case plan_version U S scan workspace_id user_id document_id q n (fst upload) staged t of
             (Inl e, t1) \<Rightarrow> (Inl e, None, t1, fs1)
           | (Inr (x, fresh, v), t1) \<Rightarrow>
               (case store_move ls staging (ver_object_key v) fs1 of
                  (Inl e, fs2) \<Rightarrow> (Inl e, None, t1, fs2)
                | (Inr _, fs2) \<Rightarrow>
                    record_upload ls workspace_id user_id x fresh v
                      (process_document_job S workspace_id key n v) t1 fs2)))"

text \<open>The two exception handlers.\<close>

definition clean_up :: "local_store \<Rightarrow> pystr \<Rightarrow> exn \<Rightarrow> pystr option \<Rightarrow> file_system \<Rightarrow> exn \<times> file_system" where
  "clean_up ls staging e promoted_key fs =
     (case store_delete ls staging fs of
        (Inl e', fs1) \<Rightarrow> (e', fs1)
      | (Inr _, fs1) \<Rightarrow>
          if e = IntegrityError
          then (Domain ConflictError (lit ''document version or idempotency key already exists''), fs1)
          else (case promoted_key of None \<Rightarrow> (e, fs1)
            | Some k \<Rightarrow> (case store_delete ls k fs1 of (Inl e', fs2) \<Rightarrow> (e', fs2) | (Inr _, fs2) \<Rightarrow> (e, fs2))))"

definition upload_document_version :: "unicode \<Rightarrow> settings \<Rightarrow> scanner \<Rightarrow> local_store \<Rightarrow> uuid \<Rightarrow> uuid \<Rightarrow> uuid option
    \<Rightarrow> upload_request \<Rightarrow> upload_draws \<Rightarrow> transaction \<Rightarrow> file_system \<Rightarrow> upload_result result \<times> transaction \<times> file_system" where
  "upload_document_version U S scan ls workspace_id user_id document_id q n t fs =
     (let key = strip (uq_idempotency_key q) in
      if key = [] \<or> 255 < length key
      then (raise_domain UploadRejectedError ''Idempotency-Key must contain 1 to 255 characters'', t, fs)
      else case existing_result U workspace_id key t of
          (Inl e, t1) \<Rightarrow> (Inl e, t1, fs)
        | (Inr (Some r), t1) \<Rightarrow> (Inr r, t1, fs)
        | (Inr None, t1) \<Rightarrow>
            (case store_upload U S scan ls workspace_id user_id document_id q n key t1 fs of
               (Inr r, _, t2, fs1) \<Rightarrow> (Inr r, t2, fs1)
             | (Inl e, promoted_key, t2, fs1) \<Rightarrow>
                 (case clean_up ls (staging_key workspace_id (un_staging n)) e promoted_key fs1 of
                    (e', fs2) \<Rightarrow> (Inl e', t2, fs2))))"

section \<open>The steps before the flush only read\<close>

lemma existing_result_reads: "existing_result U w key t = (r, t') \<Longrightarrow> t' = t"
  by (cases r) (auto simp: existing_result_def action_simps split: option.splits)

lemma choose_document_reads: "choose_document w u di q n f t = (r, t') \<Longrightarrow> t' = t"
  by (cases r) (auto simp: choose_document_def action_simps split: option.splits)

lemma plan_version_reads: "plan_version U S scan w u di q n p staged t = (r, t') \<Longrightarrow> t' = t"
  by (cases r) (auto simp: plan_version_def Let_def action_simps dest: choose_document_reads)

text \<open>What the plan gives when it is complete.\<close>

lemma choose_document_Inr:
  assumes "choose_document w u di q n f t = (Inr (x, fresh, number), t')"
  shows "(fresh \<longleftrightarrow> di = None) \<and> dcm_id x = (case di of None \<Rightarrow> un_document_id n | Some i \<Rightarrow> i)
    \<and> dcm_workspace_id x = w \<and> dcm_deleted_at x = None
    \<and> (\<not> fresh \<longrightarrow> x \<in> set (select_documents (tx_tenant t) (tx_db t)))"
  using assms by (auto simp: choose_document_def action_simps split: option.splits dest!: find_SomeD)

lemma plan_version_Inr:
  assumes "plan_version U S scan w u di q n p staged t = (Inr (x, fresh, v), t')"
  shows "choose_document w u di q n (sanitize_filename U (uq_filename q)) t = (Inr (x, fresh, ver_version_number v), t)
    \<and> validate_media_type U (sanitize_filename U (uq_filename q)) (uq_content_type q) (pr_prefix p) = Inr (ver_media_type v)
    \<and> pr_byte_size p \<noteq> 0
    \<and> sum_list (map ver_byte_size (filter (\<lambda>v. ver_workspace_id v = w) (select_versions (tx_tenant t) (tx_db t))))
        + pr_byte_size p \<le> st_max_workspace_storage_bytes S
    \<and> v = \<lparr>ver_id = un_version_id n, ver_workspace_id = w, ver_document_id = dcm_id x,
         ver_version_number = ver_version_number v,
         ver_object_key = final_key w (dcm_id x) (un_version_id n) (sanitize_filename U (uq_filename q)),
         ver_original_filename = sanitize_filename U (uq_filename q), ver_media_type = ver_media_type v,
         ver_byte_size = pr_byte_size p, ver_sha256 = sha256_hexdigest (pr_hashed p),
         ver_status = V_QUEUED, ver_created_by = u\<rparr>"
proof -
  from assms obtain number media where
    "choose_document w u di q n (sanitize_filename U (uq_filename q)) t = (Inr (x, fresh, number), t')"
    "validate_media_type U (sanitize_filename U (uq_filename q)) (uq_content_type q) (pr_prefix p) = Inr media"
    "pr_byte_size p \<noteq> 0"
    "sum_list (map ver_byte_size (filter (\<lambda>v. ver_workspace_id v = w) (select_versions (tx_tenant t) (tx_db t))))
        + pr_byte_size p \<le> st_max_workspace_storage_bytes S"
    "v = \<lparr>ver_id = un_version_id n, ver_workspace_id = w, ver_document_id = dcm_id x, ver_version_number = number,
         ver_object_key = final_key w (dcm_id x) (un_version_id n) (sanitize_filename U (uq_filename q)),
         ver_original_filename = sanitize_filename U (uq_filename q), ver_media_type = media,
         ver_byte_size = pr_byte_size p, ver_sha256 = sha256_hexdigest (pr_hashed p),
         ver_status = V_QUEUED, ver_created_by = u\<rparr>"
    by (fastforce simp: plan_version_def Let_def action_simps dest: choose_document_reads)
  then show ?thesis using choose_document_reads by fastforce
qed

lemma flush_upload_Inr:
  assumes "flush_upload x fresh v j t = (Inr u, t')"
  shows "tx_saved t' = tx_saved t \<and> tx_tenant t' = tx_tenant t
    \<and> tx_db t' = (tx_db t)\<lparr>db_documents := db_documents (tx_db t) @ (if fresh then [x] else []),
         db_versions := db_versions (tx_db t) @ [v], db_jobs := db_jobs (tx_db t) @ [j]\<rparr>
    \<and> (fresh \<longrightarrow> dcm_id x \<notin> dcm_id ` set (db_documents (tx_db t))) \<and> ver_id v \<notin> ver_id ` set (db_versions (tx_db t))
    \<and> (\<forall>y \<in> set (db_jobs (tx_db t)). \<not> (job_workspace_id y = job_workspace_id j
         \<and> job_job_type y = job_job_type j \<and> job_idempotency_key y = job_idempotency_key j))"
  using assms
  by (auto simp: flush_upload_def action_simps insert_document_def insert_version_def insert_job_def
      split: if_splits)

lemma flush_upload_saved: "flush_upload x fresh v j t = (r, t') \<Longrightarrow> tx_saved t' = tx_saved t"
  by (cases r; cases fresh) (auto simp: flush_upload_def action_simps)

text \<open>A successful body, step by step.\<close>

lemma store_upload_Inr:
  assumes "store_upload U S scan ls w u di q n key t fs = (Inr r, pk, t', fs')"
  obtains p e staged fs1 x fresh v m t1 where
    "read_upload (st_max_upload_bytes S) (st_upload_chunk_bytes S) (uq_content q) = (p, e)"
    "store_write ls (un_now n) (staging_key w (un_staging n)) (upload_stream (p, e)) fs = (Inr staged, fs1)"
    "plan_version U S scan w u di q n p staged t = (Inr (x, fresh, v), t)"
    "store_move ls (staging_key w (un_staging n)) (ver_object_key v) fs1 = (Inr m, fs')"
    "flush_upload x fresh v (process_document_job S w key n v) t = (Inr (), t1)"
    "t' = \<lparr>tx_db = tx_db t1, tx_saved = tx_db t1, tx_tenant = set_tenant_context u (Some w) no_tenant\<rparr>"
    "r = \<lparr>up_document = x, up_version = v, up_job = process_document_job S w key n v\<rparr>"
proof -
  obtain p e where p: "read_upload (st_max_upload_bytes S) (st_upload_chunk_bytes S) (uq_content q) = (p, e)" by fastforce
  from assms p obtain staged fs1 x fresh v t2 m fs2 where s:
    "store_write ls (un_now n) (staging_key w (un_staging n)) (upload_stream (p, e)) fs = (Inr staged, fs1)"
    "plan_version U S scan w u di q n p staged t = (Inr (x, fresh, v), t2)"
    "store_move ls (staging_key w (un_staging n)) (ver_object_key v) fs1 = (Inr m, fs2)"
    "record_upload ls w u x fresh v (process_document_job S w key n v) t2 fs2 = (Inr r, pk, t', fs')"
    by (auto simp: store_upload_def Let_def split: prod.splits sum.splits)
  have "t2 = t" using plan_version_reads [OF s(2)] by simp
  moreover obtain t1 where "flush_upload x fresh v (process_document_job S w key n v) t2 = (Inr (), t1)"
      "t' = \<lparr>tx_db = tx_db t1, tx_saved = tx_db t1, tx_tenant = set_tenant_context u (Some w) no_tenant\<rparr>"
      "r = \<lparr>up_document = x, up_version = v, up_job = process_document_job S w key n v\<rparr>" "fs' = fs2"
    using s(4) by (auto simp: record_upload_def set_tenant_def commit_def split: prod.splits sum.splits)
  ultimately show thesis using that p s by blast
qed

section \<open>Undoing a failed upload\<close>

context object_store
begin

text \<open>A store that differs at one key only, where it held nothing, is restored by deleting that key.\<close>

lemma discard:
  assumes "\<forall>k. \<not> same a k \<longrightarrow> contents s1 k = contents s k" "contents s a = None" "delete a s1 = (u, s2)"
  shows "contents s2 k = contents s k"
proof (cases "u = Inr ()")
  case True
  with delete_law [OF assms(3), of k] assms(1,2) same_contents [where k = a and k' = k and s = s]
  show ?thesis by (cases "same a k") auto
next
  case False
  then have none: "contents s1 a = None" using delete_present [OF _ assms(3)] by blast
  with delete_absent [OF this assms(3)] have "contents s2 k = contents s1 k" by simp
  moreover have "contents s1 k = contents s k"
    using assms(1,2) none same_contents [where k = a and k' = k] by (cases "same a k") auto
  ultimately show ?thesis by simp
qed

lemma moved_elsewhere:
  assumes "put now a stream s = (Inr m, s1)" "move a b s1 = (r, s2)" "\<not> same a k" "\<not> same b k"
  shows "contents s2 k = contents s k"
  using write_law [OF assms(1)] move_law [OF assms(2)] assms(3,4) by (cases r) auto

end

text \<open>Any local store gives the interface.\<close>

lemma store_interface:
  assumes "0 < ls_read_chunk_bytes ls"
  shows "object_store (store_write ls) (store_read ls) (store_stat ls) (store_move ls) (store_delete ls)
    (store_contents ls) (same_object ls)"
  using local_objects.object_store_axioms [of "ls_root ls" "ls_read_chunk_bytes ls - 1"]
  unfolding local_at_cases [OF assms, symmetric] .

lemma store_upload_Inl:
  assumes up: "store_upload U S scan ls w u di q n key t fs = (Inl e, pk, t', fs')"
    and ls: "0 < ls_read_chunk_bytes ls"
    and free: "store_contents ls fs (final_key w (case di of None \<Rightarrow> un_document_id n | Some i \<Rightarrow> i)
      (un_version_id n) (sanitize_filename U (uq_filename q))) = None"
  shows "tx_saved t' = tx_saved t \<and> pk = None
    \<and> (\<forall>k. \<not> same_object ls (staging_key w (un_staging n)) k \<longrightarrow> store_contents ls fs' k = store_contents ls fs k)"
proof -
  let ?a = "staging_key w (un_staging n)"
  note L = store_interface [OF ls]
  obtain p x where p: "read_upload (st_max_upload_bytes S) (st_upload_chunk_bytes S) (uq_content q) = (p, x)" by fastforce
  obtain r fs1 where wr: "store_write ls (un_now n) ?a (upload_stream (p, x)) fs = (r, fs1)" by fastforce
  note kept = object_store.write_law [OF L wr]
  show ?thesis
  proof (cases r)
    case (Inl e1)
    with up p wr kept show ?thesis by (simp add: store_upload_def Let_def)
  next
    case (Inr staged)
    obtain r2 t2 where plan: "plan_version U S scan w u di q n p staged t = (r2, t2)" by fastforce
    then have t2: "t2 = t" by (rule plan_version_reads)
    show ?thesis
    proof (cases r2)
      case (Inl e2)
      with up p wr plan t2 \<open>r = Inr staged\<close> kept show ?thesis by (simp add: store_upload_def Let_def)
    next
      case (Inr xfv)
      obtain y fresh v where xfv: "xfv = (y, fresh, v)" by (cases xfv)
      obtain r3 fs2 where mv: "store_move ls ?a (ver_object_key v) fs1 = (r3, fs2)" by fastforce
      have wrote: "store_write ls (un_now n) ?a (upload_stream (p, x)) fs = (Inr staged, fs1)" using wr \<open>r = Inr staged\<close> by simp
      note moved = object_store.moved_elsewhere [OF L wrote mv]
      have final: "ver_object_key v = final_key w (case di of None \<Rightarrow> un_document_id n | Some i \<Rightarrow> i)
          (un_version_id n) (sanitize_filename U (uq_filename q))"
        using plan_version_Inr [OF plan [unfolded Inr xfv]] choose_document_Inr by (metis document_version.select_convs(5))
      show ?thesis
      proof (cases r3)
        case (Inl e3)
        with up p wrote plan Inr xfv t2 mv kept object_store.move_law [OF L mv] show ?thesis
          by (auto simp: store_upload_def Let_def \<open>r = Inr staged\<close>)
      next
        case (Inr m)
        let ?j = "process_document_job S w key n v"
        have rec: "record_upload ls w u y fresh v ?j t fs2 = (Inl e, pk, t', fs')"
          using up p wrote plan \<open>r2 = Inr xfv\<close> xfv t2 mv Inr by (simp add: store_upload_def Let_def)
        obtain r4 fs3 where del: "store_delete ls (ver_object_key v) fs2 = (r4, fs3)" by fastforce
        have undone: "store_contents ls fs3 k = store_contents ls fs k \<and> r4 = Inr ()" for k
          using object_store.undo_move [OF L wrote mv [unfolded Inr] del]
            free final by simp
        from rec del undone flush_upload_saved show ?thesis
          by (auto simp: record_upload_def rollback_def split: prod.splits sum.splits)
      qed
    qed
  qed
qed

lemma clean_up_store:
  assumes "clean_up ls a e None fs1 = (e', fs2)" "0 < ls_read_chunk_bytes ls"
    and "\<forall>k. \<not> same_object ls a k \<longrightarrow> store_contents ls fs1 k = store_contents ls fs k" "store_contents ls fs a = None"
  shows "store_contents ls fs2 k = store_contents ls fs k"
proof -
  obtain u fs3 where del: "store_delete ls a fs1 = (u, fs3)" by fastforce
  with assms(1) have "fs2 = fs3" by (auto simp: clean_up_def split: sum.splits if_splits)
  with object_store.discard [OF store_interface [OF assms(2)] assms(3,4) del] show ?thesis by simp
qed

text \<open>An upload refused before the body, an earlier result, or a run of the body.\<close>

lemma upload_cases:
  assumes "upload_document_version U S scan ls w u di q n t fs = (r, t', fs')"
  obtains (refused) e where "r = Inl e" "t' = t" "fs' = fs"
  | (earlier) r0 where "existing_result U w (strip (uq_idempotency_key q)) t = (Inr (Some r0), t)"
      "r = Inr r0" "t' = t" "fs' = fs" "strip (uq_idempotency_key q) \<noteq> []" "length (strip (uq_idempotency_key q)) \<le> 255"
  | (stored) r0 pk where "existing_result U w (strip (uq_idempotency_key q)) t = (Inr None, t)" "r = Inr r0"
      "store_upload U S scan ls w u di q n (strip (uq_idempotency_key q)) t fs = (Inr r0, pk, t', fs')"
      "strip (uq_idempotency_key q) \<noteq> []" "length (strip (uq_idempotency_key q)) \<le> 255"
  | (undone) e pk fs1 e' where "store_upload U S scan ls w u di q n (strip (uq_idempotency_key q)) t fs = (Inl e, pk, t', fs1)"
      "clean_up ls (staging_key w (un_staging n)) e pk fs1 = (e', fs')" "r = Inl e'"
proof -
  let ?key = "strip (uq_idempotency_key q)" and ?a = "staging_key w (un_staging n)"
  obtain x t1 where x: "existing_result U w ?key t = (x, t1)" by fastforce
  then have t1: "t1 = t" by (rule existing_result_reads)
  show thesis
  proof (cases "?key = [] \<or> 255 < length ?key")
    case True
    with assms have "(r, t', fs') = (raise_domain UploadRejectedError ''Idempotency-Key must contain 1 to 255 characters'', t, fs)"
      by (simp add: upload_document_version_def Let_def)
    then show thesis by (intro refused) simp_all
  next
    case False
    then have key: "?key \<noteq> []" "length ?key \<le> 255" by auto
    consider (e) e where "x = Inl e" | (s) r0 where "x = Inr (Some r0)" | (n) "x = Inr None"
      by (metis old.sum.exhaust option.exhaust)
    then show thesis
    proof cases
      case e
      with assms x t1 False have "(r, t', fs') = (Inl e, t, fs)" by (simp add: upload_document_version_def Let_def)
      then show thesis by (intro refused) simp_all
    next
      case s
      with assms x t1 False have "(r, t', fs') = (Inr r0, t, fs)" by (simp add: upload_document_version_def Let_def)
      with x t1 s key show thesis by (intro earlier) simp_all
    next
      case n
      obtain y pk t2 fs1 where y: "store_upload U S scan ls w u di q n ?key t fs = (y, pk, t2, fs1)" by (metis prod_cases4)
      show thesis
      proof (cases y)
        case (Inr r0)
        with assms x t1 n False y have "(r, t', fs') = (Inr r0, t2, fs1)" by (simp add: upload_document_version_def Let_def)
        with x t1 n y Inr key show thesis by (intro stored) simp_all
      next
        case (Inl e)
        obtain e' fs2 where "clean_up ls ?a e pk fs1 = (e', fs2)" by fastforce
        with assms x t1 n False y Inl have "(r, t', fs') = (Inl e', t2, fs2)" "clean_up ls ?a e pk fs1 = (e', fs2)"
          by (simp_all add: upload_document_version_def Let_def)
        with y Inl show thesis by (intro undone) simp_all
      qed
    qed
  qed
qed

section \<open>Looking an upload up again\<close>

lemma find_fresh: "\<forall>y \<in> set ys. \<not> P y \<Longrightarrow> P x \<Longrightarrow> find P (ys @ [x]) = Some x"
  by (induction ys) auto

lemma find_unique_id: "distinct (map k ys) \<Longrightarrow> x \<in> set ys \<Longrightarrow> find (\<lambda>y. k y = k x) ys = Some x"
  by (induction ys) auto

lemma distinct_filtered: "distinct (map k xs) \<Longrightarrow> distinct (map k (filter P xs))"
  by (induction xs) auto

lemma process_document_job_ids: "job_ids U (process_document_job S w key n v) = Inr (ver_document_id v, ver_id v)"
  by (simp add: job_ids_def payload_uuid_def payload_item_def process_document_job_def)

lemma stored_upload_found:
  assumes up: "store_upload U S scan ls w u di q n key t fs = (Inr r, pk, t', fs')"
    and w: "cur_workspace (tx_tenant t) = Some w" and ids: "distinct (map dcm_id (db_documents (tx_db t)))"
  shows "existing_result U w key t' = (Inr (Some r), t')"
proof (rule store_upload_Inr [OF up])
  fix p staged x fresh v t1
  let ?j = "process_document_job S w key n v"
  assume plan: "plan_version U S scan w u di q n p staged t = (Inr (x, fresh, v), t)"
    and fl: "flush_upload x fresh v ?j t = (Inr (), t1)"
    and t': "t' = \<lparr>tx_db = tx_db t1, tx_saved = tx_db t1, tx_tenant = set_tenant_context u (Some w) no_tenant\<rparr>"
    and r: "r = \<lparr>up_document = x, up_version = v, up_job = ?j\<rparr>"
  note f = flush_upload_Inr [OF fl] and pl = plan_version_Inr [OF plan]
  have v: "ver_workspace_id v = w" "ver_document_id v = dcm_id x"
    by (subst pl [THEN conjunct2, THEN conjunct2, THEN conjunct2, THEN conjunct2], simp)+
  have c: "dcm_workspace_id x = w" "\<not> fresh \<Longrightarrow> x \<in> set (select_documents (tx_tenant t) (tx_db t))"
    using choose_document_Inr [OF pl [THEN conjunct1]] by auto
  let ?P = "\<lambda>j. job_workspace_id j = w \<and> job_job_type j = PROCESS_DOCUMENT \<and> job_idempotency_key j = key"
  have "?P ?j" by (simp add: process_document_job_def)
  moreover have "\<forall>y \<in> set (db_jobs (tx_db t)). \<not> ?P y" using f by (auto simp: process_document_job_def)
  moreover have "find ?P (select_jobs (tx_tenant t') (tx_db t')) = find ?P (db_jobs (tx_db t'))"
    unfolding select_jobs_def by (rule find_filter) (auto simp: t' job_visible_def)
  ultimately have job: "find ?P (select_jobs (tx_tenant t') (tx_db t')) = Some ?j"
    using f by (simp add: t' find_fresh)
  have version: "find_version (ver_id v) (tx_tenant t') (tx_db t') = Some v"
  proof -
    have "select_versions (tx_tenant t') (tx_db t')
        = filter (\<lambda>y. ver_workspace_id y = w) (db_versions (tx_db t)) @ [v]"
      using f v by (simp add: t' select_versions_def)
    moreover have "\<forall>y \<in> set (filter (\<lambda>y. ver_workspace_id y = w) (db_versions (tx_db t))). ver_id y \<noteq> ver_id v"
      using f by (metis filter_is_subset imageI subsetD)
    ultimately show ?thesis by (simp add: find_version_def find_fresh)
  qed
  have document: "find_document (dcm_id x) (tx_tenant t') (tx_db t') = Some x"
  proof (cases fresh)
    case True
    then have "select_documents (tx_tenant t') (tx_db t')
        = filter (\<lambda>y. dcm_workspace_id y = w) (db_documents (tx_db t)) @ [x]"
      using f c by (simp add: t' select_documents_def)
    moreover have "\<forall>y \<in> set (filter (\<lambda>y. dcm_workspace_id y = w) (db_documents (tx_db t))). dcm_id y \<noteq> dcm_id x"
      using f True by (metis filter_is_subset imageI subsetD)
    ultimately show ?thesis by (simp add: find_document_def find_fresh)
  next
    case False
    then have "select_documents (tx_tenant t') (tx_db t') = select_documents (tx_tenant t) (tx_db t)"
      using f w by (simp add: t' select_documents_def in_workspace_def eq_commute)
    with False c ids show ?thesis by (simp add: find_document_def find_unique_id select_documents_def distinct_filtered)
  qed
  show ?thesis
    using job version document v
    by (simp add: existing_result_def abind_def query_def of_result_def pure_action_def process_document_job_ids r)
qed

section \<open>Properties\<close>


text \<open>What an upload leaves, as one statement of both stores.\<close>

definition upload_effect :: "unicode \<Rightarrow> settings \<Rightarrow> local_store \<Rightarrow> uuid \<Rightarrow> uuid \<Rightarrow> uuid option \<Rightarrow> upload_request
    \<Rightarrow> upload_result \<Rightarrow> db \<Rightarrow> db \<Rightarrow> file_system \<Rightarrow> file_system \<Rightarrow> bool" where
  "upload_effect U S ls w u di q r d d' fs fs' \<longleftrightarrow>
     (let x = up_document r; v = up_version r; j = up_job r in
       d' = d\<lparr>db_documents := db_documents d @ (if di = None then [x] else []),
              db_versions := db_versions d @ [v], db_jobs := db_jobs d @ [j]\<rparr>
       \<and> ver_document_id v = dcm_id x \<and> (case di of None \<Rightarrow> dcm_created_by x = u | Some i \<Rightarrow> dcm_id x = i)
       \<and> dcm_workspace_id x = w \<and> ver_workspace_id v = w \<and> ver_created_by v = u \<and> ver_status v = V_QUEUED
       \<and> ver_byte_size v = int (length (uq_content q)) \<and> ver_sha256 v = sha256_hexdigest (uq_content q)
       \<and> validate_media_type U (ver_original_filename v) (uq_content_type q) (take 8192 (uq_content q)) = Inr (ver_media_type v)
       \<and> 0 < length (uq_content q) \<and> int (length (uq_content q)) \<le> st_max_upload_bytes S
       \<and> job_state j = QUEUED \<and> job_job_type j = PROCESS_DOCUMENT \<and> job_workspace_id j = w
       \<and> job_idempotency_key j = strip (uq_idempotency_key q)
       \<and> job_ids U j = Inr (dcm_id x, ver_id v)
       \<and> (\<forall>k. store_contents ls fs' k =
            (if same_object ls (ver_object_key v) k then Some (uq_content q) else store_contents ls fs k)))"

lemma upload_stored:
  assumes up: "store_upload U S scan ls w u di q n (strip (uq_idempotency_key q)) t fs = (Inr r, pk, t', fs')"
    and ls: "0 < ls_read_chunk_bytes ls" and n: "0 < st_upload_chunk_bytes S" "0 \<le> st_max_upload_bytes S"
  shows "tx_db t' = tx_saved t' \<and> upload_effect U S ls w u di q r (tx_db t) (tx_saved t') fs fs'
    \<and> tx_tenant t' = set_tenant_context u (Some w) no_tenant"
proof (rule store_upload_Inr [OF up])
  fix p e staged fs1 x fresh v m t1
  assume p: "read_upload (st_max_upload_bytes S) (st_upload_chunk_bytes S) (uq_content q) = (p, e)"
    and wr: "store_write ls (un_now n) (staging_key w (un_staging n)) (upload_stream (p, e)) fs = (Inr staged, fs1)"
    and plan: "plan_version U S scan w u di q n p staged t = (Inr (x, fresh, v), t)"
    and mv: "store_move ls (staging_key w (un_staging n)) (ver_object_key v) fs1 = (Inr m, fs')"
    and fl: "flush_upload x fresh v (process_document_job S w (strip (uq_idempotency_key q)) n v) t = (Inr (), t1)"
    and t': "t' = \<lparr>tx_db = tx_db t1, tx_saved = tx_db t1, tx_tenant = set_tenant_context u (Some w) no_tenant\<rparr>"
    and r: "r = \<lparr>up_document = x, up_version = v, up_job = process_document_job S w (strip (uq_idempotency_key q)) n v\<rparr>"
  have "e = None" using object_store.write_law [OF store_interface [OF ls] wr] by (simp add: upload_stream_def)
  with read_upload_result [OF p n] have c: "pr_hashed p = uq_content q" "pr_prefix p = take 8192 (uq_content q)"
      "concat (pr_yielded p) = uq_content q" "pr_byte_size p = int (length (uq_content q))"
      "int (length (uq_content q)) \<le> st_max_upload_bytes S"
    by (auto split: if_splits)
  note pl = plan_version_Inr [OF plan]
  have v: "ver_id v = un_version_id n" "ver_workspace_id v = w" "ver_document_id v = dcm_id x" "ver_created_by v = u"
      "ver_status v = V_QUEUED" "ver_byte_size v = pr_byte_size p" "ver_sha256 v = sha256_hexdigest (pr_hashed p)"
      "ver_original_filename v = sanitize_filename U (uq_filename q)"
    by (subst pl [THEN conjunct2, THEN conjunct2, THEN conjunct2, THEN conjunct2], simp)+
  have x: "(fresh \<longleftrightarrow> di = None) \<and> dcm_workspace_id x = w"
    "case di of None \<Rightarrow> dcm_created_by x = u | Some i \<Rightarrow> dcm_id x = i"
    using choose_document_Inr [OF pl [THEN conjunct1]] pl [THEN conjunct1]
    by (auto simp: choose_document_def action_simps split: option.splits)
  have store: "store_contents ls fs' k = (if same_object ls (ver_object_key v) k then Some (uq_content q) else store_contents ls fs k)" for k
    using object_store.write_move [OF store_interface [OF ls] wr mv] c(3) by (simp add: upload_stream_def)
  have "uq_content q \<noteq> []" using pl c(4) by auto
  with x v c pl store flush_upload_Inr [OF fl] process_document_job_ids [of U S w _ n v] show ?thesis
    by (simp add: t' r upload_effect_def Let_def process_document_job_def)
qed

text \<open>C20: what a successful upload leaves. The first request under an idempotency key that returns has
  added, in one commit, one version, one queued job that names it, and the document if it is new, and
  nothing else; the version states the size, the SHA-256 and the checked media type of exactly the
  bytes sent, which are not empty and within the limit; and the object store holds those bytes at the
  version's key, every other key as before (so nothing is left under staging).\<close>

theorem upload_recorded:
  assumes "upload_document_version U S scan ls w u di q n t fs = (Inr r, t', fs')"
    and "existing_result U w (strip (uq_idempotency_key q)) t = (Inr None, t)"
    and "0 < ls_read_chunk_bytes ls" "0 < st_upload_chunk_bytes S" "0 \<le> st_max_upload_bytes S"
  shows "upload_effect U S ls w u di q r (tx_db t) (tx_saved t') fs fs'"
  using assms(1)
proof (cases rule: upload_cases)
  case (stored r0 pk)
  with upload_stored [OF stored(3) assms(3-5)] show ?thesis by simp
qed (use assms(2) in auto)

text \<open>C26: uploads are idempotent. After a request that returned, any request of the workspace with
  the same idempotency key, whoever sends it and whatever file, document and settings it comes with,
  returns the first one's document, version and job, and changes neither the rows nor the store.\<close>

theorem upload_idempotent:
  assumes "upload_document_version U S scan ls w u di q n t fs = (Inr r, t', fs')"
    and "cur_workspace (tx_tenant t) = Some w" "distinct (map dcm_id (db_documents (tx_db t)))"
    and "strip (uq_idempotency_key q') = strip (uq_idempotency_key q)"
  shows "upload_document_version U S' scan' ls' w u' di' q' n' t' fs' = (Inr r, t', fs')"
  using assms(1)
proof (cases rule: upload_cases)
  case (earlier r0)
  with assms(4) show ?thesis by (simp add: upload_document_version_def Let_def)
next
  case (stored r0 pk)
  with stored_upload_found [OF stored(3) assms(2,3)] assms(4) show ?thesis
    by (simp add: upload_document_version_def Let_def)
qed auto

section \<open>Witnesses\<close>

definition shop_db :: db where
  "shop_db = \<lparr>
     db_users = [\<lparr>usr_id = 1, usr_email = lit ''a@b.c'', usr_display_name = lit ''Ann'', usr_password_hash = lit ''h'',
        usr_is_active = True\<rparr>],
     db_workspaces = [\<lparr>ws_id = 3, ws_name = lit ''Shop'', ws_slug = lit ''shop'', ws_created_by = 1, ws_created_at = 0\<rparr>],
     db_memberships = [\<lparr>mem_id = 2, mem_workspace_id = 3, mem_user_id = 1, mem_role = OWNER, mem_created_at = 0\<rparr>],
     db_documents = [], db_versions = [], db_chunks = [], db_jobs = [], db_sessions = []\<rparr>"

definition shop_upload :: "string \<Rightarrow> upload_request" where
  "shop_upload name = \<lparr>uq_filename = Some (lit name), uq_content_type = Some (lit ''text/plain''),
     uq_content = lit ''Ask within 5 days.'', uq_idempotency_key = lit '' k1 '', uq_display_name = None\<rparr>"

definition shop_draws :: upload_draws where
  "shop_draws = \<lparr>un_now = 7, un_staging = 20, un_document_id = 4, un_version_id = 5, un_job_id = 6\<rparr>"

lemma shop_read:
  "read_upload (st_max_upload_bytes default_settings) (st_upload_chunk_bytes default_settings) (uq_content (shop_upload name))
    = (\<lparr>pr_byte_size = 18, pr_hashed = lit ''Ask within 5 days.'', pr_prefix = lit ''Ask within 5 days.'',
        pr_yielded = [lit ''Ask within 5 days.'']\<rparr>, None)"
proof -
  have "read_upload (10 * 1024 * 1024) (64 * 1024) (lit ''Ask within 5 days.'')
    = (\<lparr>pr_byte_size = 18, pr_hashed = lit ''Ask within 5 days.'', pr_prefix = lit ''Ask within 5 days.'',
        pr_yielded = [lit ''Ask within 5 days.'']\<rparr>, None)" by code_simp
  then show ?thesis by (simp add: default_settings_def shop_upload_def)
qed

definition shop_staged :: "object_metadata result \<times> file_system" where
  "shop_staged = store_write sample_store 7 (staging_key 3 20) ([lit ''Ask within 5 days.''], None) sample_files"

lemma shop_staged_ok: "\<exists>m fs1. shop_staged = (Inr m, fs1)"
proof -
  have "\<not> isl (fst shop_staged)" by code_simp
  then show ?thesis by (cases shop_staged) (metis fst_conv sum.collapse(2))
qed

lemma shop_key: "strip (uq_idempotency_key (shop_upload name)) = lit ''k1''"
proof -
  have "strip (lit '' k1 '') = lit ''k1''" by code_simp
  then show ?thesis by (simp add: shop_upload_def)
qed

lemma shop_first: "existing_result ascii_only 3 (lit ''k1'') (tenant_on shop_db 1 3) = (Inr None, tenant_on shop_db 1 3)"
  by (simp add: existing_result_def abind_def query_def pure_action_def select_jobs_def shop_db_def)

lemma shop_rejected:
  "\<exists>e t' fs'. upload_document_version ascii_only default_settings noop_scan sample_store 3 1 None (shop_upload ''run.exe'')
     shop_draws (tenant_on shop_db 1 3) sample_files = (Inl e, t', fs')"
proof -
  let ?q = "shop_upload ''run.exe''"
  obtain m fs1 where st: "shop_staged = (Inr m, fs1)" using shop_staged_ok by blast
  have f: "sanitize_filename ascii_only (Some (lit ''run.exe'')) = lit ''run.exe''" by code_simp
  have bad: "isl (validate_media_type ascii_only (lit ''run.exe'') (Some (lit ''text/plain'')) (lit ''Ask within 5 days.''))"
    by code_simp
  then obtain e where e: "validate_media_type ascii_only (lit ''run.exe'') (Some (lit ''text/plain'')) (lit ''Ask within 5 days.'') = Inl e"
    by (metis sum.collapse(1))
  have sel: "uq_filename ?q = Some (lit ''run.exe'')" "uq_content_type ?q = Some (lit ''text/plain'')" by (simp_all add: shop_upload_def)
  define p where "p = \<lparr>pr_byte_size = 18, pr_hashed = lit ''Ask within 5 days.'', pr_prefix = lit ''Ask within 5 days.'',
        pr_yielded = [lit ''Ask within 5 days.'']\<rparr>"
  have "plan_version ascii_only default_settings noop_scan 3 1 None ?q shop_draws p m (tenant_on shop_db 1 3) = (Inl e, tenant_on shop_db 1 3)"
    by (simp add: plan_version_def Let_def sel f e p_def abind_def guard_def of_result_def pure_action_def)
  then have "\<exists>pk t' fs'. store_upload ascii_only default_settings noop_scan sample_store 3 1 None ?q shop_draws (lit ''k1'')
      (tenant_on shop_db 1 3) sample_files = (Inl e, pk, t', fs')"
    using st by (simp add: store_upload_def Let_def shop_read upload_stream_def shop_staged_def p_def shop_draws_def)
  then obtain pk t' fs' where "store_upload ascii_only default_settings noop_scan sample_store 3 1 None ?q shop_draws (lit ''k1'')
      (tenant_on shop_db 1 3) sample_files = (Inl e, pk, t', fs')" by blast
  then show ?thesis
    using shop_first shop_key by (simp add: upload_document_version_def Let_def split: prod.split)
qed


lemma shop_moved: "\<exists>m fs2. store_move sample_store (staging_key 3 20) (final_key 3 4 5 (lit ''help.txt'')) (snd shop_staged) = (Inr m, fs2)"
proof -
  have "\<not> isl (fst (store_move sample_store (staging_key 3 20) (final_key 3 4 5 (lit ''help.txt'')) (snd shop_staged)))"
    by code_simp
  then show ?thesis
    by (cases "store_move sample_store (staging_key 3 20) (final_key 3 4 5 (lit ''help.txt'')) (snd shop_staged)")
      (metis fst_conv sum.collapse(2))
qed

lemma shop_uploaded:
  "\<exists>r t' fs'. upload_document_version ascii_only default_settings noop_scan sample_store 3 1 None (shop_upload ''help.txt'')
     shop_draws (tenant_on shop_db 1 3) sample_files = (Inr r, t', fs')"
proof -
  let ?q = "shop_upload ''help.txt''"
  obtain m fs1 where st: "shop_staged = (Inr m, fs1)" using shop_staged_ok by blast
  obtain m' fs2 where mv: "store_move sample_store (staging_key 3 20) (final_key 3 4 5 (lit ''help.txt'')) fs1 = (Inr m', fs2)"
    using shop_moved unfolding st snd_conv by blast
  have f: "sanitize_filename ascii_only (Some (lit ''help.txt'')) = lit ''help.txt''" by code_simp
  have name: "resolved_name None (lit ''help.txt'') \<noteq> []" by code_simp
  have ok: "validate_media_type ascii_only (lit ''help.txt'') (Some (lit ''text/plain'')) (lit ''Ask within 5 days.'') = Inr (lit ''text/plain'')"
    by code_simp
  have sel: "uq_filename ?q = Some (lit ''help.txt'')" "uq_content_type ?q = Some (lit ''text/plain'')"
    "uq_display_name ?q = None" by (simp_all add: shop_upload_def)
  define p where "p = \<lparr>pr_byte_size = 18, pr_hashed = lit ''Ask within 5 days.'', pr_prefix = lit ''Ask within 5 days.'',
        pr_yielded = [lit ''Ask within 5 days.'']\<rparr>"
  define x where "x = \<lparr>dcm_id = 4, dcm_workspace_id = 3, dcm_display_name = resolved_name None (lit ''help.txt''),
      dcm_active_version_id = None, dcm_created_by = 1, dcm_deleted_at = None, dcm_created_at = 7\<rparr>"
  define v where "v = \<lparr>ver_id = 5, ver_workspace_id = 3, ver_document_id = 4, ver_version_number = 1,
      ver_object_key = final_key 3 4 5 (lit ''help.txt''), ver_original_filename = lit ''help.txt'',
      ver_media_type = lit ''text/plain'', ver_byte_size = 18, ver_sha256 = sha256_hexdigest (lit ''Ask within 5 days.''),
      ver_status = V_QUEUED, ver_created_by = 1\<rparr>"
  have plan: "plan_version ascii_only default_settings noop_scan 3 1 None ?q shop_draws p m (tenant_on shop_db 1 3)
      = (Inr (x, True, v), tenant_on shop_db 1 3)"
    by (simp add: plan_version_def Let_def sel f ok p_def abind_def guard_def of_result_def pure_action_def noop_scan_def
        query_def choose_document_def select_versions_def shop_db_def default_settings_def shop_draws_def x_def v_def)
  have ne: "lit ''k1'' \<noteq> []" by (simp add: lit_simps)
  have draws: "un_now shop_draws = 7" "un_staging shop_draws = 20" "pr_yielded p = [lit ''Ask within 5 days.'']"
    "ver_object_key v = final_key 3 4 5 (lit ''help.txt'')" by (simp_all add: shop_draws_def p_def v_def)
  let ?j = "process_document_job default_settings 3 (lit ''k1'') shop_draws v"
  have "\<exists>t1. flush_upload x True v ?j (tenant_on shop_db 1 3) = (Inr (), t1)"
    by (simp add: flush_upload_def abind_def statement_def insert_document_def insert_version_def insert_job_def
        active_version_valid_def x_def v_def process_document_job_def shop_db_def name default_settings_def shop_draws_def)
  then obtain t1 where fl: "flush_upload x True v ?j (tenant_on shop_db 1 3) = (Inr (), t1)" ..
  have "\<exists>r pk t' fs'. store_upload ascii_only default_settings noop_scan sample_store 3 1 None ?q shop_draws (lit ''k1'')
      (tenant_on shop_db 1 3) sample_files = (Inr r, pk, t', fs')"
    using st mv plan fl draws
    by (simp add: store_upload_def Let_def shop_read upload_stream_def shop_staged_def record_upload_def set_tenant_def
        flip: p_def)
  then show ?thesis
    using shop_first shop_key ne by (auto simp: upload_document_version_def Let_def)
qed

theorem upload_recorded_witness:
  "\<exists>r t' fs'. upload_document_version ascii_only default_settings noop_scan sample_store 3 1 None (shop_upload ''help.txt'')
     shop_draws (tenant_on shop_db 1 3) sample_files = (Inr r, t', fs')
    \<and> upload_effect ascii_only default_settings sample_store 3 1 None (shop_upload ''help.txt'') r shop_db (tx_saved t')
        sample_files fs'"
proof -
  obtain r t' fs' where up: "upload_document_version ascii_only default_settings noop_scan sample_store 3 1 None
      (shop_upload ''help.txt'') shop_draws (tenant_on shop_db 1 3) sample_files = (Inr r, t', fs')"
    using shop_uploaded by blast
  have "existing_result ascii_only 3 (strip (uq_idempotency_key (shop_upload ''help.txt''))) (tenant_on shop_db 1 3)
      = (Inr None, tenant_on shop_db 1 3)" using shop_first shop_key by simp
  from upload_recorded [OF up this] up show ?thesis by (simp add: sample_store_def default_settings_def)
qed

theorem upload_idempotent_witness:
  "\<exists>r t' fs'. upload_document_version ascii_only default_settings noop_scan sample_store 3 1 None (shop_upload ''help.txt'')
      shop_draws (tenant_on shop_db 1 3) sample_files = (Inr r, t', fs')
    \<and> upload_document_version ascii_only production_settings noop_scan sample_store 3 9 (Some 8) (shop_upload ''run.exe'')
      shop_draws t' fs' = (Inr r, t', fs')"
proof -
  obtain r t' fs' where up: "upload_document_version ascii_only default_settings noop_scan sample_store 3 1 None
      (shop_upload ''help.txt'') shop_draws (tenant_on shop_db 1 3) sample_files = (Inr r, t', fs')"
    using shop_uploaded by blast
  have "strip (uq_idempotency_key (shop_upload ''run.exe'')) = strip (uq_idempotency_key (shop_upload ''help.txt''))"
    by (simp add: shop_upload_def)
  from upload_idempotent [OF up _ _ this] up show ?thesis by (simp add: shop_db_def)
qed

end
