(* ===== verification/Workspaces.thy ===== *)
theory Workspaces
  imports Access
begin

text \<open>
  \<open>apps/api/routes/workspaces.py\<close>: the routes on workspaces and memberships, each an action that
  runs behind the gate of \<open>Access\<close>. \<open>workspace_step\<close> is the service as far as it changes workspaces
  and memberships; the lemmas show who owns a workspace and who may change whose role.
\<close>

section \<open>Responses\<close>

record workspace_response =
  wr_id :: uuid
  wr_name :: pystr
  wr_slug :: pystr
  wr_role :: workspace_role
  wr_created_at :: timestamp

definition workspace_response_of :: "workspace \<Rightarrow> workspace_role \<Rightarrow> workspace_response" where
  "workspace_response_of w r =
     \<lparr>wr_id = ws_id w, wr_name = ws_name w, wr_slug = ws_slug w, wr_role = r, wr_created_at = ws_created_at w\<rparr>"

record membership_response =
  mr_id :: uuid
  mr_user_id :: uuid
  mr_email :: pystr
  mr_display_name :: pystr
  mr_role :: workspace_role
  mr_created_at :: timestamp

definition membership_response_of :: "user \<Rightarrow> membership \<Rightarrow> membership_response" where
  "membership_response_of u m =
     \<lparr>mr_id = mem_id m, mr_user_id = mem_user_id m, mr_email = usr_email u, mr_display_name = usr_display_name u,
      mr_role = mem_role m, mr_created_at = mem_created_at m\<rparr>"

section \<open>Workspaces\<close>

definition list_workspaces :: "user \<Rightarrow> workspace_response list action" where
  "list_workspaces u = query (\<lambda>t d. map (\<lambda>(w, r). workspace_response_of w r) (sort_key (\<lambda>(w, _). ws_name w)
     [(w, mem_role m). w \<leftarrow> select_workspaces t d, m \<leftarrow> select_memberships t d,
        mem_workspace_id m = ws_id w \<and> mem_user_id m = usr_id u]))"

record workspace_draws =
  wd_workspace_id :: uuid
  wd_membership_id :: uuid
  wd_now :: timestamp

definition create_workspace :: "workspace_draws \<Rightarrow> pystr \<Rightarrow> pystr \<Rightarrow> user \<Rightarrow> workspace_response action" where
  "create_workspace n name slug u =
     (let w = owned_workspace (wd_workspace_id n) (strip name) slug (usr_id u) (wd_now n) in
      abind (set_tenant (usr_id u) (Some (ws_id w))) (\<lambda>_.
      abind (on_integrity_error (Domain ConflictError (lit ''workspace slug is already in use''))
          (abind (statement (\<lambda>t. insert_workspace t w)) (\<lambda>_.
           statement (\<lambda>t. insert_membership t (owner_membership (wd_membership_id n) (ws_id w) (usr_id u) (wd_now n)))))) (\<lambda>_.
      pure_action (workspace_response_of w OWNER))))"

definition find_workspace :: "tenant \<Rightarrow> uuid \<Rightarrow> db \<Rightarrow> workspace option" where
  "find_workspace t i d = find (\<lambda>w. ws_id w = i) (select_workspaces t d)"

definition get_workspace :: "uuid \<Rightarrow> workspace_access \<Rightarrow> workspace_response action" where
  "get_workspace i a =
     abind (query (\<lambda>t. find_workspace t i)) (\<lambda>found.
       case found of None \<Rightarrow> raise_action (Domain NotFoundError (lit ''workspace not found''))
       | Some w \<Rightarrow> pure_action (workspace_response_of w (mem_role (ac_membership a))))"

text \<open>Renaming a row of the tenant's workspace, under the check on the length of the name.\<close>

definition rename_row :: "tenant \<Rightarrow> uuid \<Rightarrow> pystr \<Rightarrow> db \<Rightarrow> db result" where
  "rename_row t i name d =
     (if length name < 2 then Inl IntegrityError
      else Inr (d\<lparr>db_workspaces := update_where (\<lambda>w. in_workspace t (ws_id w) \<and> ws_id w = i)
        (\<lambda>w. w\<lparr>ws_name := name\<rparr>) (db_workspaces d)\<rparr>))"

definition update_workspace :: "uuid \<Rightarrow> pystr \<Rightarrow> workspace_access \<Rightarrow> workspace_response action" where
  "update_workspace i name a =
     abind (query (\<lambda>t. find_workspace t i)) (\<lambda>found.
       case found of None \<Rightarrow> raise_action (Domain NotFoundError (lit ''workspace not found''))
       | Some w \<Rightarrow>
           abind (statement (\<lambda>t. rename_row t i (strip name))) (\<lambda>_.
           pure_action (workspace_response_of (w\<lparr>ws_name := strip name\<rparr>) (mem_role (ac_membership a)))))"

section \<open>Memberships\<close>

definition list_members :: "uuid \<Rightarrow> workspace_access \<Rightarrow> membership_response list action" where
  "list_members i a = query (\<lambda>t d. [membership_response_of u m.
     m \<leftarrow> sort_key mem_created_at (filter (\<lambda>m. mem_workspace_id m = i) (select_memberships t d)),
     u \<leftarrow> db_users d, usr_id u = mem_user_id m])"

record member_draws =
  md_membership_id :: uuid
  md_now :: timestamp

definition add_member :: "unicode \<Rightarrow> member_draws \<Rightarrow> uuid \<Rightarrow> pystr \<Rightarrow> workspace_role \<Rightarrow> workspace_access
    \<Rightarrow> membership_response action" where
  "add_member U n i email role a =
     abind (guard (can_manage_role (mem_role (ac_membership a)) role)
       (HttpError 403 (lit ''role cannot be assigned by this actor''))) (\<lambda>_.
     abind (query (\<lambda>_. find_email (normalized_email U email))) (\<lambda>found.
       case found of None \<Rightarrow> raise_action (Domain NotFoundError (lit ''user must register before being added''))
       | Some u \<Rightarrow>
           let m = \<lparr>mem_id = md_membership_id n, mem_workspace_id = i, mem_user_id = usr_id u, mem_role = role,
                 mem_created_at = md_now n\<rparr> in
           abind (on_integrity_error (Domain ConflictError (lit ''user is already a workspace member''))
             (statement (\<lambda>t. insert_membership t m))) (\<lambda>_.
           pure_action (membership_response_of u m))))"

definition load_target_membership :: "uuid \<Rightarrow> uuid \<Rightarrow> membership action" where
  "load_target_membership i membership_id =
     abind (query (\<lambda>t d. find (\<lambda>m. mem_id m = membership_id \<and> mem_workspace_id m = i) (select_memberships t d))) (\<lambda>found.
       case found of None \<Rightarrow> raise_action (Domain NotFoundError (lit ''membership not found''))
       | Some m \<Rightarrow> pure_action m)"

definition update_member :: "uuid \<Rightarrow> uuid \<Rightarrow> workspace_role \<Rightarrow> workspace_access \<Rightarrow> membership action" where
  "update_member i membership_id role a =
     abind (load_target_membership i membership_id) (\<lambda>target.
     abind (guard (mem_user_id target \<noteq> usr_id (ac_user a))
       (Domain ConflictError (lit ''you cannot change your own role''))) (\<lambda>_.
     abind (guard (can_manage_role (mem_role (ac_membership a)) (mem_role target)
         \<and> can_manage_role (mem_role (ac_membership a)) role)
       (HttpError 403 (lit ''membership cannot be managed by this actor''))) (\<lambda>_.
     abind (change (\<lambda>t. update_membership t (mem_id target) (\<lambda>m. m\<lparr>mem_role := role\<rparr>))) (\<lambda>_.
     pure_action (target\<lparr>mem_role := role\<rparr>)))))"

definition remove_member :: "uuid \<Rightarrow> uuid \<Rightarrow> workspace_access \<Rightarrow> unit action" where
  "remove_member i membership_id a =
     abind (load_target_membership i membership_id) (\<lambda>target.
     abind (guard (mem_user_id target \<noteq> usr_id (ac_user a))
       (Domain ConflictError (lit ''you cannot remove yourself''))) (\<lambda>_.
     abind (guard (can_manage_role (mem_role (ac_membership a)) (mem_role target))
       (HttpError 403 (lit ''membership cannot be managed by this actor''))) (\<lambda>_.
     change (\<lambda>t. delete_membership t (mem_id target)))))"

section \<open>What the management routes do to the rows\<close>

datatype member_op = Add_Member pystr workspace_role | Change_Role uuid workspace_role | Remove_Member uuid

definition manage_route :: "unicode \<Rightarrow> member_draws \<Rightarrow> uuid \<Rightarrow> member_op \<Rightarrow> workspace_access \<Rightarrow> unit action" where
  "manage_route U n i op a =
     (case op of
        Add_Member email role \<Rightarrow> abind (add_member U n i email role a) (\<lambda>_. pure_action ())
      | Change_Role m role \<Rightarrow> abind (update_member i m role a) (\<lambda>_. pure_action ())
      | Remove_Member m \<Rightarrow> remove_member i m a)"

definition manage_request :: "unicode \<Rightarrow> jwt_library \<Rightarrow> settings \<Rightarrow> caller \<Rightarrow> member_draws \<Rightarrow> uuid \<Rightarrow> member_op \<Rightarrow> db
    \<Rightarrow> unit result \<times> db" where
  "manage_request U J S c n i op = workspace_request U J S c manager_roles i (manage_route U n i op)"

lemma keeps_saved_manage: "keeps_saved (manage_route U n i op a)"
  unfolding manage_route_def add_member_def update_member_def remove_member_def load_target_membership_def
  by (cases op) (auto intro!: uncommitted split: option.split simp: Let_def)

text \<open>The rows after a successful change by the caller \<open>a\<close>.\<close>

definition managed :: "uuid \<Rightarrow> workspace_access \<Rightarrow> db \<Rightarrow> db \<Rightarrow> bool" where
  "managed i a d d' \<longleftrightarrow> (\<exists>m. mem_workspace_id m = i \<and> can_manage_role (mem_role (ac_membership a)) (mem_role m)
       \<and> insert_membership \<lparr>cur_user = Some (usr_id (ac_user a)), cur_workspace = Some i, cur_worker = None\<rparr> m d = Inr d')
   \<or> (\<exists>m \<in> set (db_memberships d). mem_workspace_id m = i \<and> can_manage_role (mem_role (ac_membership a)) (mem_role m)
       \<and> mem_user_id m \<noteq> usr_id (ac_user a)
       \<and> ((\<exists>role. can_manage_role (mem_role (ac_membership a)) role
             \<and> d' = d\<lparr>db_memberships := update_where (\<lambda>x. mem_workspace_id x = i \<and> mem_id x = mem_id m)
                 (\<lambda>x. x\<lparr>mem_role := role\<rparr>) (db_memberships d)\<rparr>)
          \<or> d' = d\<lparr>db_memberships := filter (\<lambda>x. \<not> (mem_workspace_id x = i \<and> mem_id x = mem_id m)) (db_memberships d)\<rparr>))"

lemma load_target_Inr [action_simps]:
  "load_target_membership i k t = (Inr m, t') \<longleftrightarrow> t' = t
     \<and> find (\<lambda>m. mem_id m = k \<and> mem_workspace_id m = i) (select_memberships (tx_tenant t) (tx_db t)) = Some m"
  by (auto simp: load_target_membership_def action_simps split: option.splits)

lemma target_row:
  "find (\<lambda>m. mem_id m = k \<and> mem_workspace_id m = i) (select_memberships t d) = Some m
    \<Longrightarrow> m \<in> set (db_memberships d) \<and> mem_id m = k \<and> mem_workspace_id m = i"
  by (auto simp: select_memberships_def dest!: find_SomeD)

lemma manage_route_Inr:
  assumes "manage_route U n i op a (tenant_on d (usr_id (ac_user a)) i) = (Inr u, t)"
  shows "managed i a d (tx_db t)"
proof (cases op)
  case (Add_Member email role)
  from assms obtain x :: user where "can_manage_role (mem_role (ac_membership a)) role"
      "insert_membership (tx_tenant (tenant_on d (usr_id (ac_user a)) i)) \<lparr>mem_id = md_membership_id n,
         mem_workspace_id = i, mem_user_id = usr_id x, mem_role = role, mem_created_at = md_now n\<rparr> d = Inr (tx_db t)"
    by (auto simp: manage_route_def Add_Member add_member_def action_simps Let_def split: option.splits)
  then show ?thesis unfolding managed_def tenant_on_def
    by (intro disjI1 exI) (auto simp: tenant_on_def)
next
  case (Change_Role k role)
  from assms obtain m where m: "find (\<lambda>m. mem_id m = k \<and> mem_workspace_id m = i)
        (select_memberships (tx_tenant (tenant_on d (usr_id (ac_user a)) i)) d) = Some m" "mem_user_id m \<noteq> usr_id (ac_user a)"
      "can_manage_role (mem_role (ac_membership a)) (mem_role m)" "can_manage_role (mem_role (ac_membership a)) role"
      "tx_db t = update_membership (tx_tenant (tenant_on d (usr_id (ac_user a)) i)) (mem_id m) (\<lambda>m. m\<lparr>mem_role := role\<rparr>) d"
    by (auto simp: manage_route_def Change_Role update_member_def action_simps)
  then show ?thesis using target_row [OF m(1)] by (auto simp: managed_def update_membership_def)
next
  case (Remove_Member k)
  from assms obtain m where m: "find (\<lambda>m. mem_id m = k \<and> mem_workspace_id m = i)
        (select_memberships (tx_tenant (tenant_on d (usr_id (ac_user a)) i)) d) = Some m" "mem_user_id m \<noteq> usr_id (ac_user a)"
      "can_manage_role (mem_role (ac_membership a)) (mem_role m)"
      "tx_db t = delete_membership (tx_tenant (tenant_on d (usr_id (ac_user a)) i)) (mem_id m) d"
    by (auto simp: manage_route_def Remove_Member remove_member_def action_simps)
  then show ?thesis using target_row [OF m(1)] by (auto simp: managed_def delete_membership_def)
qed

lemma manage_request_cases:
  obtains (failed) e where "manage_request U J S c n i op d = (Inl e, d)"
  | (changed) u m d' where "manage_request U J S c n i op d = (Inr (), d')" "authenticated U J S c d u"
      "member_of d (usr_id u) i m" "mem_role m \<in> set manager_roles" "managed i \<lparr>ac_user = u, ac_membership = m\<rparr> d d'"
proof (cases rule: request_cases [of U J S c manager_roles i "manage_route U n i op" d])
  case (refused e)
  then show ?thesis using failed by (simp add: manage_request_def)
next
  case (admitted u m)
  let ?a = "\<lparr>ac_user = u, ac_membership = m\<rparr>"
  obtain r t where rt: "manage_route U n i op ?a (tenant_on d (usr_id u) i) = (r, t)" by fastforce
  show ?thesis
  proof (cases r)
    case (Inl e)
    have "tx_saved t = d" using keeps_saved_manage [of U n i op ?a] rt unfolding keeps_saved_def
      by (metis snd_conv tenant_on_simps(2))
    then show ?thesis using failed admitted(4) rt Inl by (simp add: manage_request_def)
  next
    case (Inr x)
    have "managed i ?a d (tx_db t)" using manage_route_Inr [of U n i op ?a d] rt Inr by simp
    moreover have "mem_role m \<in> set manager_roles" using admitted(3) by (simp add: manager_roles_def)
    ultimately show ?thesis using changed admitted rt Inr by (simp add: manage_request_def)
  qed
qed

section \<open>Ownership\<close>

text \<open>The users who own a workspace, by its rows.\<close>

definition owners :: "db \<Rightarrow> uuid \<Rightarrow> uuid list" where
  "owners d i = map mem_user_id (filter (\<lambda>m. mem_workspace_id m = i \<and> mem_role m = OWNER) (db_memberships d))"

definition ownership_ok :: "db \<Rightarrow> bool" where
  "ownership_ok d \<longleftrightarrow> distinct (map mem_id (db_memberships d))
     \<and> (\<forall>m \<in> set (db_memberships d). mem_workspace_id m \<in> ws_id ` set (db_workspaces d))
     \<and> (\<forall>w \<in> set (db_workspaces d). owners d (ws_id w) = [ws_created_by w])"

inductive workspace_step :: "unicode \<Rightarrow> password_library \<Rightarrow> jwt_library \<Rightarrow> settings \<Rightarrow> db \<Rightarrow> db \<Rightarrow> bool"
  for U P J S where
  register: "get_db_session (register U P J S n c r) d = (res, d') \<Longrightarrow> workspace_step U P J S d d'"
| create: "get_db_session (abind (get_current_principal U J S now creds) (create_workspace n name slug)) d = (res, d') \<Longrightarrow>
    workspace_step U P J S d d'"
| rename: "workspace_request U J S c manager_roles i (update_workspace i name) d = (res, d') \<Longrightarrow> workspace_step U P J S d d'"
| manage: "manage_request U J S c n i op d = (res, d') \<Longrightarrow> workspace_step U P J S d d'"

inductive workspace_run :: "unicode \<Rightarrow> password_library \<Rightarrow> jwt_library \<Rightarrow> settings \<Rightarrow> db \<Rightarrow> db \<Rightarrow> bool"
  for U P J S where
  stop: "workspace_run U P J S d d"
| step: "workspace_step U P J S d d' \<Longrightarrow> workspace_run U P J S d' d'' \<Longrightarrow> workspace_run U P J S d d''"

text \<open>A workspace keeps its identity and its creator.\<close>

definition founded :: "db \<Rightarrow> (uuid \<times> uuid) set" where
  "founded d = (\<lambda>w. (ws_id w, ws_created_by w)) ` set (db_workspaces d)"

lemma ownership_ok_alt:
  "ownership_ok d \<longleftrightarrow> distinct (map mem_id (db_memberships d))
     \<and> (\<forall>m \<in> set (db_memberships d). mem_workspace_id m \<in> fst ` founded d)
     \<and> (\<forall>(i, u) \<in> founded d. owners d i = [u])"
  by (auto simp: ownership_ok_def founded_def image_image)

lemma ownership_cong:
  assumes "ownership_ok d" "founded d' = founded d" "\<And>i. owners d' i = owners d i" "distinct (map mem_id (db_memberships d'))"
    and "\<forall>m \<in> set (db_memberships d'). mem_workspace_id m \<in> ws_id ` set (db_workspaces d)"
  shows "ownership_ok d'"
proof -
  have "fst ` founded d = ws_id ` set (db_workspaces d)" by (auto simp: founded_def image_image)
  then show ?thesis using assms unfolding ownership_ok_alt by simp
qed

lemma insert_membership_rows:
  "insert_membership t m d = Inr d' \<Longrightarrow> d' = d\<lparr>db_memberships := db_memberships d @ [m]\<rparr>
    \<and> mem_id m \<notin> mem_id ` set (db_memberships d) \<and> mem_workspace_id m \<in> ws_id ` set (db_workspaces d)"
  by (auto simp: insert_membership_def split: if_splits)

lemma insert_workspace_rows:
  "insert_workspace t w d = Inr d' \<Longrightarrow> d' = d\<lparr>db_workspaces := db_workspaces d @ [w]\<rparr>
    \<and> ws_id w \<notin> ws_id ` set (db_workspaces d)"
  by (auto simp: insert_workspace_def split: if_splits)

lemma managed_ownership:
  assumes ok: "ownership_ok d" and "managed i a d d'"
  shows "ownership_ok d' \<and> founded d' = founded d"
  using assms(2) unfolding managed_def
proof (elim disjE exE conjE bexE)
  fix m assume m: "can_manage_role (mem_role (ac_membership a)) (mem_role m)"
    and "insert_membership \<lparr>cur_user = Some (usr_id (ac_user a)), cur_workspace = Some i, cur_worker = None\<rparr> m d = Inr d'"
  then have d': "d' = d\<lparr>db_memberships := db_memberships d @ [m]\<rparr>" "mem_id m \<notin> mem_id ` set (db_memberships d)"
    "mem_workspace_id m \<in> ws_id ` set (db_workspaces d)" by (auto dest!: insert_membership_rows)
  have "mem_role m \<noteq> OWNER" using m by (auto simp: can_manage_role_def split: if_splits)
  with d' have "ownership_ok d'"
    by (intro ownership_cong [OF ok]) (use ok in \<open>auto simp: founded_def owners_def ownership_ok_def\<close>)
  with d' show ?thesis by (simp add: founded_def)
next
  fix m role
  assume m: "m \<in> set (db_memberships d)" "mem_workspace_id m = i" "can_manage_role (mem_role (ac_membership a)) (mem_role m)"
      "can_manage_role (mem_role (ac_membership a)) role"
    and d': "d' = d\<lparr>db_memberships := update_where (\<lambda>x. mem_workspace_id x = i \<and> mem_id x = mem_id m)
                 (\<lambda>x. x\<lparr>mem_role := role\<rparr>) (db_memberships d)\<rparr>"
  have role: "role \<noteq> OWNER" "mem_role m \<noteq> OWNER" using m(3,4) by (auto simp: can_manage_role_def split: if_splits)
  have same: "x = m" if "x \<in> set (db_memberships d)" "mem_id x = mem_id m" for x
    using ok m(1) that by (auto simp: ownership_ok_def distinct_map inj_on_def)
  have "owners d' j = owners d j" for j
  proof -
    have "filter (\<lambda>m. mem_workspace_id m = j \<and> mem_role m = OWNER) (db_memberships d')
        = update_where (\<lambda>x. mem_workspace_id x = i \<and> mem_id x = mem_id m) (\<lambda>x. x\<lparr>mem_role := role\<rparr>)
            (filter (\<lambda>m. mem_workspace_id m = j \<and> mem_role m = OWNER) (db_memberships d))"
      unfolding d' by simp (rule filter_update_where, use same role in auto)
    then show ?thesis by (simp add: owners_def map_update_where)
  qed
  then have "ownership_ok d'"
    by (intro ownership_cong [OF ok])
      (use ok in \<open>auto simp: founded_def d' map_update_where set_update_where ownership_ok_def\<close>)
  with d' show ?thesis by (simp add: founded_def)
next
  fix m
  assume m: "m \<in> set (db_memberships d)" "mem_workspace_id m = i" "can_manage_role (mem_role (ac_membership a)) (mem_role m)"
    and d': "d' = d\<lparr>db_memberships := filter (\<lambda>x. \<not> (mem_workspace_id x = i \<and> mem_id x = mem_id m)) (db_memberships d)\<rparr>"
  have role: "mem_role m \<noteq> OWNER" using m(3) by (auto simp: can_manage_role_def split: if_splits)
  have same: "x = m" if "x \<in> set (db_memberships d)" "mem_id x = mem_id m" for x
    using ok m(1) that by (auto simp: ownership_ok_def distinct_map inj_on_def)
  have "owners d' j = owners d j" for j
    unfolding owners_def d' by (simp, rule arg_cong [where f = "map mem_user_id"], rule filter_cong) (use same role in auto)
  moreover have "distinct (map mem_id (db_memberships d'))"
    using ok by (simp add: d' ownership_ok_def distinct_map_filter)
  ultimately have "ownership_ok d'"
    by (intro ownership_cong [OF ok]) (use ok in \<open>auto simp: founded_def d' ownership_ok_def\<close>)
  with d' show ?thesis by (simp add: founded_def)
qed

text \<open>A new workspace comes with the membership of its creator.\<close>

lemma found_workspace_ownership:
  assumes ok: "ownership_ok d" and w: "insert_workspace t (owned_workspace i name slug u now) d = Inr d1"
    and m: "insert_membership t' (owner_membership k i u now') d1 = Inr d2"
  shows "ownership_ok d2 \<and> founded d \<subseteq> founded d2"
proof -
  let ?w = "owned_workspace i name slug u now" and ?m = "owner_membership k i u now'"
  have d1: "d1 = d\<lparr>db_workspaces := db_workspaces d @ [?w]\<rparr>" "i \<notin> ws_id ` set (db_workspaces d)"
    using insert_workspace_rows [OF w] by (auto simp: owned_workspace_def)
  have d2: "d2 = d1\<lparr>db_memberships := db_memberships d @ [?m]\<rparr>" "k \<notin> mem_id ` set (db_memberships d)"
    using insert_membership_rows [OF m] d1(1) by (auto simp: owner_membership_def)
  have none: "filter (\<lambda>m. mem_workspace_id m = i \<and> mem_role m = OWNER) (db_memberships d) = []"
    using ok d1(2) by (auto simp: ownership_ok_def filter_empty_conv)
  have "owners d2 j = (if j = i then [u] else owners d j)" for j
    by (simp add: owners_def d2(1) none owner_membership_def)
  then show ?thesis using ok d1 d2
    by (auto simp: ownership_ok_def founded_def owned_workspace_def owner_membership_def)
qed

text \<open>What a registration adds when it succeeds.\<close>

lemma insert_user_rows: "insert_user u d = Inr d' \<Longrightarrow> d' = d\<lparr>db_users := db_users d @ [u]\<rparr>"
  by (auto simp: insert_user_def split: if_splits)

lemma keeps_saved_register: "keeps_saved (register U P J S n c r)"
  unfolding register_def issue_session_def Let_def by (auto intro!: uncommitted split: prod.split)

lemma keeps_saved_create:
  "keeps_saved (abind (get_current_principal U J S now creds) (create_workspace n name slug))"
  unfolding get_current_principal_def create_workspace_def Let_def
  by (auto intro!: uncommitted split: option.split sum.split)

lemma register_Inr:
  assumes "get_db_session (register U P J S n c r) d = (Inr x, d')"
  shows "find_email (normalized_email U (reg_email r)) d = None
    \<and> (\<exists>t d1 d2 d3. let u = new_user U P n r; now = dr_now (rd_session n);
           s = fst (draft_session J S (rd_session n) c (usr_id u) None) in
         x = signed_in S u (snd (draft_session J S (rd_session n) c (usr_id u) None))
         \<and> insert_user u d = Inr d1
         \<and> insert_workspace t (owned_workspace (rd_workspace_id n) (reg_workspace_name r) (reg_workspace_slug r) (usr_id u) now) d1 = Inr d2
         \<and> insert_membership t (owner_membership (rd_membership_id n) (rd_workspace_id n) (usr_id u) now) d2 = Inr d3
         \<and> insert_session s d3 = Inr d')"
proof -
  obtain a b where "draft_session J S (rd_session n) c (usr_id (new_user U P n r)) None = (a, b)" by fastforce
  then show ?thesis
    using assms by (auto simp: get_db_session_Inr register_def issue_session_def Let_def action_simps) blast
qed

lemma register_rows:
  assumes "get_db_session (register U P J S n c r) d = (Inr x, d')"
  shows "let u = new_user U P n r; now = dr_now (rd_session n) in
    find_email (normalized_email U (reg_email r)) d = None
    \<and> x = signed_in S u (snd (draft_session J S (rd_session n) c (usr_id u) None))
    \<and> d' = d\<lparr>db_users := db_users d @ [u],
        db_workspaces := db_workspaces d @ [owned_workspace (rd_workspace_id n) (reg_workspace_name r) (reg_workspace_slug r) (usr_id u) now],
        db_memberships := db_memberships d @ [owner_membership (rd_membership_id n) (rd_workspace_id n) (usr_id u) now],
        db_sessions := db_sessions d @ [fst (draft_session J S (rd_session n) c (usr_id u) None)]\<rparr>"
  using register_Inr [OF assms]
  by (auto simp: Let_def dest!: insert_user_rows insert_workspace_rows insert_membership_rows insert_session_rows)

lemma ownership_same_rows:
  "db_memberships d' = db_memberships d \<Longrightarrow> founded d' = founded d \<Longrightarrow> ownership_ok d' = ownership_ok d"
  by (simp add: ownership_ok_alt owners_def)

lemma workspace_step_ok:
  assumes "workspace_step U P J S d d'" "ownership_ok d"
  shows "ownership_ok d' \<and> founded d \<subseteq> founded d'"
  using assms(1)
proof cases
  case (register n c r res)
  show ?thesis
  proof (cases res)
    case (Inl e)
    then show ?thesis using register failed_request_changes_nothing [OF keeps_saved_register] assms(2) by blast
  next
    case (Inr x)
    obtain t d1 d2 d3 where r: "insert_user (new_user U P n r) d = Inr d1"
        "insert_workspace t (owned_workspace (rd_workspace_id n) (reg_workspace_name r) (reg_workspace_slug r)
          (usr_id (new_user U P n r)) (dr_now (rd_session n))) d1 = Inr d2"
        "insert_membership t (owner_membership (rd_membership_id n) (rd_workspace_id n)
          (usr_id (new_user U P n r)) (dr_now (rd_session n))) d2 = Inr d3"
        "insert_session (fst (draft_session J S (rd_session n) c (usr_id (new_user U P n r)) None)) d3 = Inr d'"
      using register_Inr [OF register [unfolded Inr]] by (auto simp: Let_def)
    have "ownership_ok d1 = ownership_ok d" "founded d1 = founded d"
      using insert_user_rows [OF r(1)] by (auto intro!: ownership_same_rows simp: founded_def)
    moreover have "ownership_ok d' = ownership_ok d3" "founded d' = founded d3"
      using insert_session_rows [OF r(4)] by (auto intro!: ownership_same_rows simp: founded_def)
    ultimately show ?thesis using found_workspace_ownership [OF _ r(2,3)] assms(2) by simp
  qed
next
  case (create now creds n name slug res)
  show ?thesis
  proof (cases res)
    case (Inl e)
    then show ?thesis using create failed_request_changes_nothing [OF keeps_saved_create] assms(2) by blast
  next
    case (Inr x)
    obtain u t d1 where "insert_workspace t (owned_workspace (wd_workspace_id n) (strip name) slug u (wd_now n)) d = Inr d1"
        "insert_membership t (owner_membership (wd_membership_id n) (wd_workspace_id n) u (wd_now n)) d1 = Inr d'"
      using create [unfolded Inr]
      by (auto simp: get_db_session_Inr create_workspace_def get_current_principal_def owned_workspace_def Let_def action_simps
          split: option.splits sum.splits if_splits)
    then show ?thesis using found_workspace_ownership assms(2) by blast
  qed
next
  case (rename c i name res)
  show ?thesis
  proof (cases rule: request_cases [of U J S c manager_roles i "update_workspace i name" d])
    case (refused e)
    then show ?thesis using rename assms(2) by simp
  next
    case (admitted u m)
    have same: "db_memberships d' = db_memberships d" "founded d' = founded d"
      using admitted(4) rename
      by (auto simp: outcome_def update_workspace_def abind_def query_def raise_action_def statement_def rename_row_def
          pure_action_def founded_def set_update_where image_Un image_image split: option.splits if_splits)
    then show ?thesis using ownership_same_rows [OF same] assms(2) by simp
  qed
next
  case (manage c n i op res)
  then show ?thesis
    by (cases rule: manage_request_cases [of U J S c n i op d]) (use assms(2) managed_ownership in auto)
qed

lemma workspace_run_ok:
  "workspace_run U P J S d d' \<Longrightarrow> ownership_ok d \<Longrightarrow> ownership_ok d' \<and> founded d \<subseteq> founded d'"
  by (induction rule: workspace_run.induct) (use workspace_step_ok in blast)+

lemma managed_rows:
  assumes ok: "ownership_ok d" and "managed i a d d'"
  shows "(\<forall>x \<in> set (db_memberships d'). x \<notin> set (db_memberships d) \<longrightarrow> mem_workspace_id x = i
      \<and> can_manage_role (mem_role (ac_membership a)) (mem_role x))
    \<and> (\<forall>x \<in> set (db_memberships d). x \<notin> set (db_memberships d') \<longrightarrow> mem_workspace_id x = i
      \<and> mem_user_id x \<noteq> usr_id (ac_user a) \<and> can_manage_role (mem_role (ac_membership a)) (mem_role x))"
proof -
  have same: "x = m" if "x \<in> set (db_memberships d)" "m \<in> set (db_memberships d)" "mem_id x = mem_id m" for x m
    using ok that by (auto simp: ownership_ok_def distinct_map inj_on_def)
  show ?thesis using assms(2) unfolding managed_def
    by (elim disjE exE conjE bexE) (auto simp: set_update_where dest!: insert_membership_rows dest: same)
qed

section \<open>Properties\<close>

text \<open>
  C18: a workspace always has exactly one owner, its creator. Registrations, new and renamed workspaces and the
  member routes, successful or not, in any order and by anyone, keep every workspace with its creator as the
  only member of role \<open>OWNER\<close>, lose no workspace and change no creator.
\<close>

theorem creator_stays_sole_owner:
  assumes "workspace_run U P J S d d'" "ownership_ok d" "w \<in> set (db_workspaces d)"
  shows "\<exists>w' \<in> set (db_workspaces d'). ws_id w' = ws_id w \<and> ws_created_by w' = ws_created_by w
    \<and> owners d' (ws_id w) = [ws_created_by w]"
proof -
  have ok: "ownership_ok d'" "founded d \<subseteq> founded d'" using workspace_run_ok [OF assms(1,2)] by auto
  then obtain w' where w': "w' \<in> set (db_workspaces d')" "ws_id w' = ws_id w" "ws_created_by w' = ws_created_by w"
    using assms(3) by (fastforce simp: founded_def)
  have "owners d' (ws_id w') = [ws_created_by w']" using ok(1) w'(1) unfolding ownership_ok_def by blast
  with w' show ?thesis by metis
qed

text \<open>
  C34: nobody gains or grants more than they hold. When a member request succeeds, the caller is an owner or
  administrator of that workspace, every row it added or changed is of that workspace and has, before
  and after, a role strictly below the caller's, and the caller's own row is not among them. When it fails,
  nothing has changed.
\<close>

theorem member_changes_below_caller:
  assumes "ownership_ok d" "manage_request U J S c n i op d = (res, d')"
  shows "if isl res then d' = d
    else \<exists>u m. authenticated U J S c d u \<and> member_of d (usr_id u) i m \<and> ADMIN \<le> mem_role m
      \<and> (\<forall>x \<in> set (db_memberships d') - set (db_memberships d). mem_workspace_id x = i \<and> mem_role x < mem_role m)
      \<and> (\<forall>x \<in> set (db_memberships d) - set (db_memberships d'). mem_workspace_id x = i \<and> mem_role x < mem_role m
          \<and> mem_user_id x \<noteq> usr_id u)"
proof (cases rule: manage_request_cases [of U J S c n i op d])
  case (failed e)
  then show ?thesis using assms(2) by simp
next
  case (changed u m d2)
  have "ADMIN \<le> mem_role m" using changed(4) by (auto simp: manager_roles_def role_order)
  moreover have "d2 = d'" "\<not> isl res" using changed(1) assms(2) by auto
  ultimately show ?thesis
    using changed(2,3) managed_rows [OF assms(1) changed(5)] unfolding can_manage_role_iff
    by (intro if_not_P [THEN iffD2] exI [of _ u] exI [of _ m]) auto
qed

text \<open>
  A registration is all or nothing. If it succeeds, the address was not taken and the tables have one more
  user, one workspace created by that user, the owner membership and one refresh session, and nothing else
  has changed; if it fails, nothing has.
\<close>

theorem register_atomic:
  "case get_db_session (register U P J S n c r) d of
     (Inr (response, cookie), d') \<Rightarrow> find_email (normalized_email U (reg_email r)) d = None
       \<and> ar_user_id response = rd_user_id n \<and> ar_email response = normalized_email U (reg_email r)
       \<and> (\<exists>s. rs_user_id s = rd_user_id n
           \<and> d' = d\<lparr>db_users := db_users d @ [new_user U P n r],
               db_workspaces := db_workspaces d @ [owned_workspace (rd_workspace_id n) (reg_workspace_name r)
                  (reg_workspace_slug r) (rd_user_id n) (dr_now (rd_session n))],
               db_memberships := db_memberships d @ [owner_membership (rd_membership_id n) (rd_workspace_id n)
                  (rd_user_id n) (dr_now (rd_session n))],
               db_sessions := db_sessions d @ [s]\<rparr>)
   | (Inl e, d') \<Rightarrow> d' = d"
proof -
  obtain res d' where g: "get_db_session (register U P J S n c r) d = (res, d')" by fastforce
  show ?thesis
  proof (cases res)
    case (Inl e)
    then show ?thesis using g failed_request_changes_nothing [OF keeps_saved_register] by auto
  next
    case (Inr x)
    have id: "usr_id (new_user U P n r) = rd_user_id n" "usr_email (new_user U P n r) = normalized_email U (reg_email r)"
      by (simp_all add: new_user_def)
    have "rs_user_id (fst (draft_session J S (rd_session n) c (rd_user_id n) None)) = rd_user_id n"
      by (simp add: draft_session_def create_refresh_token_def)
    then show ?thesis using register_rows [OF g [unfolded Inr]] g Inr
      by (auto simp: Let_def id signed_in_def auth_response_of_def)
  qed
qed

section \<open>A workspace with an owner\<close>

definition staff_owner :: user where
  "staff_owner = \<lparr>usr_id = 1, usr_email = lit ''o@x.io'', usr_display_name = lit ''Olga'', usr_password_hash = [], usr_is_active = True\<rparr>"

definition staff_guest :: user where
  "staff_guest = \<lparr>usr_id = 2, usr_email = lit ''b@x.io'', usr_display_name = lit ''Ben'', usr_password_hash = [], usr_is_active = True\<rparr>"

definition staff_db :: db where
  "staff_db = \<lparr>db_users = [staff_owner, staff_guest], db_workspaces = [owned_workspace 5 (lit ''Acme'') (lit ''acme'') 1 0],
     db_memberships = [owner_membership 6 5 1 0], db_documents = [], db_versions = [], db_chunks = [], db_jobs = [],
     db_sessions = []\<rparr>"

definition staff_caller :: caller where
  "staff_caller = \<lparr>cal_now = 1000000, cal_credentials = Some \<lparr>cr_scheme = lit ''Bearer'',
     cr_token = create_access_token sample_jwt default_settings 0 3 1\<rparr>\<rparr>"

definition staff_draws :: member_draws where
  "staff_draws = \<lparr>md_membership_id = 7, md_now = 9\<rparr>"

lemma staff_ok: "ownership_ok staff_db"
  by (simp add: ownership_ok_def staff_db_def owners_def owned_workspace_def owner_membership_def)

lemma staff_authenticated: "authenticated ascii_only sample_jwt default_settings staff_caller staff_db staff_owner"
proof -
  have "lower ascii_only (lit ''Bearer'') = lit ''bearer''" by code_simp
  moreover obtain c where "decode_access_token sample_jwt default_settings 1000000
      (create_access_token sample_jwt default_settings 0 3 1) = Inr c" "cl_sub c = 1"
    using decode_created [OF sample_jwt_documented, of 0 1000000 default_settings 3 1]
    by (auto simp: whole_seconds_def seconds_def default_settings_def)
  ultimately show ?thesis
    by (auto simp: authenticated_def staff_caller_def staff_db_def find_user_def staff_owner_def)
qed

lemma staff_added:
  "manage_request ascii_only sample_jwt default_settings staff_caller staff_draws 5 (Add_Member (lit ''B@x.io'') VIEWER) staff_db
    = (Inr (), staff_db\<lparr>db_memberships := [owner_membership 6 5 1 0, \<lparr>mem_id = 7, mem_workspace_id = 5, mem_user_id = 2,
        mem_role = VIEWER, mem_created_at = 9\<rparr>]\<rparr>)"
proof -
  have mail: "normalized_email ascii_only (lit ''B@x.io'') = lit ''b@x.io''" by code_simp
  have id: "usr_id staff_owner = 1" "usr_id staff_guest = 2" by (simp_all add: staff_owner_def staff_guest_def)
  have member: "member_of staff_db (usr_id staff_owner) 5 (owner_membership 6 5 1 0)"
    by (simp add: member_of_def staff_db_def owner_membership_def id)
  have guest: "find_email (lit ''b@x.io'') staff_db = Some staff_guest"
    by (simp add: find_email_def staff_db_def staff_owner_def staff_guest_def)
  have role: "mem_role (owner_membership 6 5 1 0) = OWNER" by (simp add: owner_membership_def)
  let ?n = "\<lparr>mem_id = 7, mem_workspace_id = 5, mem_user_id = 2, mem_role = VIEWER, mem_created_at = 9\<rparr>"
  have ins: "insert_membership (tx_tenant (tenant_on staff_db 1 5)) ?n staff_db
      = Inr (staff_db\<lparr>db_memberships := [owner_membership 6 5 1 0, ?n]\<rparr>)"
    by (simp add: insert_membership_def) (simp add: staff_db_def owner_membership_def owned_workspace_def staff_owner_def staff_guest_def)
  have "manage_route ascii_only staff_draws 5 (Add_Member (lit ''B@x.io'') VIEWER)
      \<lparr>ac_user = staff_owner, ac_membership = owner_membership 6 5 1 0\<rparr> (tenant_on staff_db 1 5)
    = (Inr (), (tenant_on staff_db 1 5)\<lparr>tx_db := staff_db\<lparr>db_memberships := [owner_membership 6 5 1 0, ?n]\<rparr>\<rparr>)"
    by (simp add: manage_route_def add_member_def abind_def guard_def pure_action_def query_def mail guest role id
        can_manage_role_def on_integrity_error_def statement_def staff_draws_def Let_def ins)
  then show ?thesis
    using admitted_request [OF staff_authenticated member, of manager_roles "manage_route ascii_only staff_draws 5 (Add_Member (lit ''B@x.io'') VIEWER)"]
    by (simp add: manage_request_def role manager_roles_def id)
qed

definition sample_passwords :: password_library where
  "sample_passwords = \<lparr>pw_hash = (\<lambda>salt p. salt @ p), pw_verify = (\<lambda>p h. h = p), pw_dummy_hash = []\<rparr>"

theorem creator_stays_sole_owner_witness:
  "\<exists>d'. workspace_run ascii_only sample_passwords sample_jwt default_settings staff_db d'
    \<and> length (db_memberships d') = 2 \<and> owners d' 5 = [1]"
proof -
  let ?d' = "staff_db\<lparr>db_memberships := [owner_membership 6 5 1 0, \<lparr>mem_id = 7, mem_workspace_id = 5, mem_user_id = 2,
        mem_role = VIEWER, mem_created_at = 9\<rparr>]\<rparr>"
  have run: "workspace_run ascii_only sample_passwords sample_jwt default_settings staff_db ?d'"
    by (rule workspace_run.step [OF workspace_step.manage [OF staff_added] workspace_run.stop])
  have "owned_workspace 5 (lit ''Acme'') (lit ''acme'') 1 0 \<in> set (db_workspaces staff_db)"
    by (simp add: staff_db_def)
  from creator_stays_sole_owner [OF run staff_ok this] have "owners ?d' 5 = [1]" by (auto simp: owned_workspace_def)
  with run show ?thesis by (intro exI [of _ ?d']) simp
qed

theorem member_changes_below_caller_witness:
  "\<exists>u m. authenticated ascii_only sample_jwt default_settings staff_caller staff_db u
    \<and> member_of staff_db (usr_id u) 5 m \<and> ADMIN \<le> mem_role m \<and> VIEWER < mem_role m"
proof -
  let ?n = "\<lparr>mem_id = 7, mem_workspace_id = 5, mem_user_id = 2, mem_role = VIEWER, mem_created_at = 9\<rparr>"
  have new: "?n \<notin> set (db_memberships staff_db)" by (simp add: staff_db_def owner_membership_def)
  from member_changes_below_caller [OF staff_ok staff_added] obtain u m where
    m: "authenticated ascii_only sample_jwt default_settings staff_caller staff_db u" "member_of staff_db (usr_id u) 5 m"
      "ADMIN \<le> mem_role m"
      "\<forall>x \<in> set (db_memberships (staff_db\<lparr>db_memberships := [owner_membership 6 5 1 0, ?n]\<rparr>)) - set (db_memberships staff_db).
         mem_workspace_id x = 5 \<and> mem_role x < mem_role m"
    by auto
  from m(4) new have "VIEWER < mem_role m" by (auto dest!: bspec [of _ _ ?n])
  with m show ?thesis by blast
qed

end
