(* ===== verification/Job_Queue.thy ===== *)
theory Job_Queue
  imports Db_Tables
begin

text \<open>
  \<open>packages/jobs/service.py\<close>: the durable queue. Each function is one transaction on the locked
  rows; the clock reading and the random jitter are arguments. \<open>queue_step\<close> puts the functions
  together into the steps of a system of workers sharing one table, with a clock that does not go
  back; the lemmas about the reachable tables say who may finish a job and when.
\<close>

section \<open>The operations\<close>

definition job_due :: "timestamp \<Rightarrow> job \<Rightarrow> bool" where
  "job_due now j \<longleftrightarrow> (job_state j = QUEUED \<or> job_state j = RETRYING) \<and> job_available_at j \<le> now"

definition lease_lapsed :: "timestamp \<Rightarrow> job \<Rightarrow> bool" where
  "lease_lapsed now j \<longleftrightarrow> (job_state j = LEASED \<or> job_state j = PROCESSING)
     \<and> (case job_lease_expires_at j of None \<Rightarrow> False | Some e \<Rightarrow> e < now)"

definition lease_to :: "pystr \<Rightarrow> timestamp \<Rightarrow> int \<Rightarrow> job \<Rightarrow> job" where
  "lease_to worker_id now lease_seconds j =
     j\<lparr>job_state := LEASED, job_lease_owner := Some (take 128 worker_id),
       job_lease_expires_at := Some (now + seconds lease_seconds),
       job_attempt_count := job_attempt_count j + 1, job_error_code := None, job_error_message := None\<rparr>"

text \<open>
  The rows the claim locks: \<open>locked\<close> are the identifiers that other transactions hold, which
  \<open>skip_locked\<close> leaves out.
\<close>

definition claimable :: "tenant \<Rightarrow> uuid set \<Rightarrow> timestamp \<Rightarrow> nat \<Rightarrow> db \<Rightarrow> job list" where
  "claimable t locked now batch_size d =
     take batch_size (sort_key (\<lambda>j. (job_available_at j, job_created_at j))
       (filter (\<lambda>j. (job_due now j \<or> lease_lapsed now j) \<and> job_id j \<notin> locked) (select_jobs t d)))"

definition claim_jobs :: "uuid set \<Rightarrow> timestamp \<Rightarrow> pystr \<Rightarrow> nat \<Rightarrow> int \<Rightarrow> tenant \<Rightarrow> db \<Rightarrow> job list \<times> db" where
  "claim_jobs locked now worker_id batch_size lease_seconds t d =
     (let t1 = set_worker_context worker_id t; jobs = claimable t1 locked now batch_size d;
          ids = set (map job_id jobs)
      in (map (lease_to worker_id now lease_seconds) jobs,
          d\<lparr>db_jobs := update_where (\<lambda>j. job_visible t1 j \<and> job_id j \<in> ids)
              (lease_to worker_id now lease_seconds) (db_jobs d)\<rparr>))"

definition require_owned_job :: "timestamp \<Rightarrow> uuid \<Rightarrow> pystr \<Rightarrow> tenant \<Rightarrow> db \<Rightarrow> job result" where
  "require_owned_job now i worker_id t d =
     (case find (\<lambda>j. job_id j = i) (select_jobs t d) of
        None \<Rightarrow> raise_domain NotFoundError ''job not found''
      | Some j \<Rightarrow>
          if job_lease_owner j \<noteq> Some worker_id \<or> \<not> (job_state j = LEASED \<or> job_state j = PROCESSING)
            then raise_domain ConflictError ''job lease is no longer owned by this worker''
          else (case job_lease_expires_at j of
              None \<Rightarrow> raise_domain ConflictError ''job lease has expired''
            | Some e \<Rightarrow> if e \<le> now then raise_domain ConflictError ''job lease has expired'' else Inr j))"

text \<open>The row as written back: \<open>f\<close> applied to the owned job.\<close>

definition with_owned_job ::
    "(job \<Rightarrow> job) \<Rightarrow> timestamp \<Rightarrow> uuid \<Rightarrow> pystr \<Rightarrow> tenant \<Rightarrow> db \<Rightarrow> (job \<times> db) result" where
  "with_owned_job f now i worker_id t d =
     rbind (require_owned_job now i worker_id t d) (\<lambda>j. Inr (f j, update_job t i f d))"

definition processing_row :: "job \<Rightarrow> job" where
  "processing_row j = j\<lparr>job_state := PROCESSING\<rparr>"

definition mark_processing :: "timestamp \<Rightarrow> uuid \<Rightarrow> pystr \<Rightarrow> tenant \<Rightarrow> db \<Rightarrow> (job \<times> db) result" where
  "mark_processing = with_owned_job processing_row"

definition renewed_row :: "timestamp \<Rightarrow> int \<Rightarrow> job \<Rightarrow> job" where
  "renewed_row now lease_seconds j = j\<lparr>job_lease_expires_at := Some (now + seconds lease_seconds)\<rparr>"

definition renew_lease :: "timestamp \<Rightarrow> int \<Rightarrow> uuid \<Rightarrow> pystr \<Rightarrow> tenant \<Rightarrow> db \<Rightarrow> (job \<times> db) result" where
  "renew_lease now lease_seconds = with_owned_job (renewed_row now lease_seconds) now"

definition completed_row :: "job \<Rightarrow> job" where
  "completed_row j = j\<lparr>job_state := COMPLETED, job_lease_owner := None, job_lease_expires_at := None,
     job_error_code := None, job_error_message := None\<rparr>"

definition mark_completed :: "timestamp \<Rightarrow> uuid \<Rightarrow> pystr \<Rightarrow> tenant \<Rightarrow> db \<Rightarrow> (job \<times> db) result" where
  "mark_completed = with_owned_job completed_row"

text \<open>
  \<open>min(300, 2 ** max(0, attempts - 1))\<close>, and the jitter \<open>secrets.randbelow(max(1, base // 2 + 1))\<close>:
  \<open>draw\<close> gives a number below its argument.
\<close>

definition base_delay :: "int \<Rightarrow> int" where
  "base_delay attempts = min 300 (2 ^ nat (max 0 (attempts - 1)))"

definition failed_row :: "timestamp \<Rightarrow> (int \<Rightarrow> int) \<Rightarrow> pystr \<Rightarrow> pystr \<Rightarrow> bool \<Rightarrow> job \<Rightarrow> job" where
  "failed_row now draw code message retryable j =
     (let j1 = j\<lparr>job_error_code := Some (take 64 code), job_error_message := Some (take 1000 message),
            job_lease_owner := None, job_lease_expires_at := None\<rparr>
      in if retryable \<and> job_attempt_count j < job_max_attempts j then
           let base = base_delay (job_attempt_count j); jitter = draw (max 1 (base div 2 + 1))
           in j1\<lparr>job_state := RETRYING, job_available_at := now + seconds (base + jitter)\<rparr>
         else j1\<lparr>job_state := (if job_max_attempts j \<le> job_attempt_count j then DEAD_LETTER else FAILED)\<rparr>)"

definition mark_failed :: "timestamp \<Rightarrow> (int \<Rightarrow> int) \<Rightarrow> pystr \<Rightarrow> pystr \<Rightarrow> bool
    \<Rightarrow> uuid \<Rightarrow> pystr \<Rightarrow> tenant \<Rightarrow> db \<Rightarrow> (job \<times> db) result" where
  "mark_failed now draw code message retryable = with_owned_job (failed_row now draw code message retryable) now"

definition retried_row :: "timestamp \<Rightarrow> job \<Rightarrow> job" where
  "retried_row now j = j\<lparr>job_state := RETRYING, job_available_at := now, job_attempt_count := 0,
     job_lease_owner := None, job_lease_expires_at := None, job_error_code := None, job_error_message := None\<rparr>"

definition retry_job :: "timestamp \<Rightarrow> uuid \<Rightarrow> uuid \<Rightarrow> tenant \<Rightarrow> db \<Rightarrow> (job \<times> db) result" where
  "retry_job now i workspace_id t d =
     (case find (\<lambda>j. job_id j = i \<and> job_workspace_id j = workspace_id) (select_jobs t d) of
        None \<Rightarrow> raise_domain NotFoundError ''job not found''
      | Some j \<Rightarrow>
          if \<not> (job_state j = FAILED \<or> job_state j = DEAD_LETTER)
            then raise_domain ConflictError ''only failed or dead-letter jobs can be retried''
          else Inr (retried_row now j, update_job t i (retried_row now) d))"

section \<open>What each operation does to a row\<close>

text \<open>The rows of a table have different identifiers (the primary key).\<close>

definition jobs_distinct :: "db \<Rightarrow> bool" where
  "jobs_distinct d \<longleftrightarrow> distinct (map job_id (db_jobs d))"

definition row_of :: "db \<Rightarrow> uuid \<Rightarrow> job option" where
  "row_of d i = find (\<lambda>j. job_id j = i) (db_jobs d)"

lemma find_append_Some: "find P xs = Some x \<Longrightarrow> find P (xs @ ys) = Some x"
  by (induction xs) auto

lemma find_key_Some:
  "distinct (map k rows) \<Longrightarrow> find (\<lambda>r. k r = i) rows = Some r \<longleftrightarrow> r \<in> set rows \<and> k r = i"
  by (induction rows) auto

lemma row_of_Some: "jobs_distinct d \<Longrightarrow> row_of d i = Some j \<longleftrightarrow> j \<in> set (db_jobs d) \<and> job_id j = i"
  by (simp add: jobs_distinct_def row_of_def find_key_Some)

text \<open>An update that keeps the identifiers changes the rows it hits, and no other.\<close>

lemma row_of_update:
  assumes "\<And>j. job_id (f j) = job_id j"
  shows "row_of (d\<lparr>db_jobs := update_where P f (db_jobs d)\<rparr>) i
    = map_option (\<lambda>j. if P j then f j else j) (row_of d i)"
proof -
  have "find (\<lambda>j. job_id j = i) (update_where P f rows) = map_option (\<lambda>j. if P j then f j else j) (find (\<lambda>j. job_id j = i) rows)" for rows
    using assms by (induction rows) auto
  then show ?thesis by (simp add: row_of_def)
qed

lemma find_visible:
  assumes "jobs_distinct d" "find (\<lambda>j. job_id j = i \<and> Q j) (select_jobs t d) = Some j"
  shows "row_of d i = Some j \<and> job_visible t j \<and> Q j"
  using assms find_SomeD [OF assms(2)] by (auto simp: row_of_Some select_jobs_def)

text \<open>Who may change a leased job: its owner, before the lease ends.\<close>

definition owns :: "timestamp \<Rightarrow> pystr \<Rightarrow> job \<Rightarrow> bool" where
  "owns now worker_id j \<longleftrightarrow> job_lease_owner j = Some worker_id \<and> (job_state j = LEASED \<or> job_state j = PROCESSING)
     \<and> (\<exists>e. job_lease_expires_at j = Some e \<and> now < e)"

lemma require_owned_job_Inr:
  assumes "jobs_distinct d"
  shows "require_owned_job now i worker_id t d = Inr j \<longleftrightarrow>
    row_of d i = Some j \<and> job_visible t j \<and> owns now worker_id j"
proof (cases "find (\<lambda>j. job_id j = i) (select_jobs t d)")
  case None
  then have "\<not> (row_of d i = Some j \<and> job_visible t j)"
    using assms by (auto simp: row_of_Some select_jobs_def find_None_iff)
  with None show ?thesis by (auto simp: require_owned_job_def)
next
  case (Some x)
  with find_visible [OF assms, of i "\<lambda>_. True" t x] have "row_of d i = Some x" "job_visible t x" by auto
  with Some show ?thesis by (auto simp: require_owned_job_def owns_def split: option.splits)
qed

lemma with_owned_job_Inr:
  assumes "jobs_distinct d" "\<And>j. job_id (f j) = job_id j"
    and "with_owned_job f now i worker_id t d = Inr (j', d')"
  shows "\<exists>j. row_of d i = Some j \<and> job_visible t j \<and> owns now worker_id j \<and> j' = f j
    \<and> d' = update_job t i f d \<and> row_of d' i = Some (f j) \<and> (\<forall>k. k \<noteq> i \<longrightarrow> row_of d' k = row_of d k)"
proof -
  from assms(3) obtain j where j: "require_owned_job now i worker_id t d = Inr j" "j' = f j" "d' = update_job t i f d"
    by (auto simp: with_owned_job_def result_simps)
  then have r: "row_of d i = Some j" "job_visible t j" "owns now worker_id j"
    using require_owned_job_Inr [OF assms(1)] by auto
  have other: "row_of d' k = map_option (\<lambda>x. if job_visible t x \<and> job_id x = i then f x else x) (row_of d k)" for k
    unfolding j(3) update_job_def by (rule row_of_update) (rule assms(2))
  have "job_id x = k" if "row_of d k = Some x" for k x using that assms(1) by (simp add: row_of_Some)
  then have "row_of d' k = row_of d k" if "k \<noteq> i" for k using other [of k] that by (cases "row_of d k") auto
  moreover have "row_of d' i = Some (f j)" using other [of i] r assms(1) by (simp add: row_of_Some)
  ultimately show ?thesis using r j(2,3) by blast
qed

lemma row_ids [simp]:
  "job_id (lease_to w now n j) = job_id j" "job_id (processing_row j) = job_id j"
  "job_id (completed_row j) = job_id j" "job_id (failed_row now draw c m r j) = job_id j"
  "job_id (retried_row now j) = job_id j" "job_id (renewed_row now n j) = job_id j"
  by (simp_all add: renewed_row_def lease_to_def processing_row_def completed_row_def failed_row_def retried_row_def Let_def)

section \<open>The queue as a system of workers\<close>

text \<open>
  A step is a tick of the clock, the enqueueing of a fresh job, or one committed transaction of
  a worker or of the API. Transactions that raise change nothing and are no steps.
\<close>

datatype queue_op = Tick | Enqueue uuid | Claim pystr "uuid list" | MarkProcessing pystr uuid
  | Renew pystr uuid | Complete pystr uuid | Fail pystr uuid | Retry uuid

definition fresh_job :: "job \<Rightarrow> bool" where
  "fresh_job j \<longleftrightarrow> job_state j = QUEUED \<and> job_lease_owner j = None \<and> job_lease_expires_at j = None
     \<and> job_attempt_count j = 0"

definition below :: "(int \<Rightarrow> int) \<Rightarrow> bool" where
  "below draw \<longleftrightarrow> (\<forall>n > 0. 0 \<le> draw n \<and> draw n < n)"

inductive queue_step :: "queue_op \<Rightarrow> timestamp \<times> db \<Rightarrow> timestamp \<times> db \<Rightarrow> bool" where
  tick: "now \<le> now' \<Longrightarrow> queue_step Tick (now, d) (now', d)"
| enqueue: "insert_job t j d = Inr d' \<Longrightarrow> fresh_job j \<Longrightarrow> queue_step (Enqueue (job_id j)) (now, d) (now, d')"
| claim: "claim_jobs locked now w n s no_tenant d = (js, d') \<Longrightarrow>
    queue_step (Claim w (map job_id js)) (now, d) (now, d')"
| process: "mark_processing now i w t d = Inr (j, d') \<Longrightarrow> queue_step (MarkProcessing w i) (now, d) (now, d')"
| renew: "renew_lease now s i w t d = Inr (j, d') \<Longrightarrow> queue_step (Renew w i) (now, d) (now, d')"
| complete: "mark_completed now i w t d = Inr (j, d') \<Longrightarrow> queue_step (Complete w i) (now, d) (now, d')"
| fail: "mark_failed now draw code msg retryable i w t d = Inr (j, d') \<Longrightarrow> below draw \<Longrightarrow>
    queue_step (Fail w i) (now, d) (now, d')"
| retry: "retry_job now i ws t d = Inr (j, d') \<Longrightarrow> queue_step (Retry i) (now, d) (now, d')"

inductive queue_run :: "queue_op list \<Rightarrow> timestamp \<times> db \<Rightarrow> timestamp \<times> db \<Rightarrow> bool" where
  stop: "queue_run [] s s"
| step: "queue_step op s s' \<Longrightarrow> queue_run ops s' s'' \<Longrightarrow> queue_run (op # ops) s s''"

inductive_cases queue_run_ConsE: "queue_run (op # ops) s s''"

text \<open>A row is leased exactly when it has an owner and an end of the lease.\<close>

definition job_row_ok :: "job \<Rightarrow> bool" where
  "job_row_ok j \<longleftrightarrow> (job_lease_owner j \<noteq> None \<longleftrightarrow> job_state j = LEASED \<or> job_state j = PROCESSING)
     \<and> (job_lease_expires_at j \<noteq> None \<longleftrightarrow> job_lease_owner j \<noteq> None)
     \<and> 0 \<le> job_attempt_count j \<and> 0 < job_max_attempts j"

definition queue_ok :: "db \<Rightarrow> bool" where
  "queue_ok d \<longleftrightarrow> jobs_distinct d \<and> (\<forall>j \<in> set (db_jobs d). job_row_ok j)"

text \<open>
  The effect of a step on one row: it is kept, or a step that names it changes it in one of the
  seven ways.
\<close>

inductive row_step :: "queue_op \<Rightarrow> timestamp \<Rightarrow> job \<Rightarrow> job \<Rightarrow> bool" where
  kept: "row_step op now j j"
| claimed: "job_due now j \<or> lease_lapsed now j \<Longrightarrow> job_id j \<in> set is \<Longrightarrow>
    row_step (Claim w is) now j (lease_to w now n j)"
| processing: "owns now w j \<Longrightarrow> row_step (MarkProcessing w (job_id j)) now j (processing_row j)"
| renewed: "owns now w j \<Longrightarrow> row_step (Renew w (job_id j)) now j (renewed_row now n j)"
| completed: "owns now w j \<Longrightarrow> row_step (Complete w (job_id j)) now j (completed_row j)"
| failed: "owns now w j \<Longrightarrow> below draw \<Longrightarrow> row_step (Fail w (job_id j)) now j (failed_row now draw code msg r j)"
| retried: "job_state j = FAILED \<or> job_state j = DEAD_LETTER \<Longrightarrow> row_step (Retry (job_id j)) now j (retried_row now j)"

inductive_cases row_stepE: "row_step op now j j'"

lemma row_step_facts:
  assumes "row_step op now j j'"
  shows "job_id j' = job_id j" "job_row_ok j \<Longrightarrow> job_row_ok j'" "job_state j = COMPLETED \<Longrightarrow> j' = j"
  using assms
  by (induction rule: row_step.induct)
    (auto simp: job_row_ok_def lease_to_def processing_row_def completed_row_def failed_row_def retried_row_def
      renewed_row_def owns_def job_due_def lease_lapsed_def Let_def)

lemma claim_jobs_row:
  assumes "jobs_distinct d" "claim_jobs locked now w n s t d = (js, d')" "row_of d i = Some j"
  shows "\<exists>j'. row_of d' i = Some j' \<and> row_step (Claim w (map job_id js)) now j j'"
proof -
  let ?t = "set_worker_context w t"
  let ?jobs = "claimable ?t locked now n d"
  let ?P = "\<lambda>j. job_visible ?t j \<and> job_id j \<in> set (map job_id ?jobs)"
  have js: "js = map (lease_to w now s) ?jobs"
    and d': "d' = d\<lparr>db_jobs := update_where ?P (lease_to w now s) (db_jobs d)\<rparr>"
    using assms(2) by (auto simp: claim_jobs_def Let_def)
  have ids: "map job_id js = map job_id ?jobs" by (simp add: js)
  have r: "row_of d' i = Some (if ?P j then lease_to w now s j else j)"
    unfolding d' by (subst row_of_update) (simp_all add: assms(3))
  show ?thesis
  proof (cases "?P j")
    case True
    then obtain x where x: "x \<in> set ?jobs" "job_id x = job_id j" by auto
    then have "x \<in> set (select_jobs ?t d)" "job_due now x \<or> lease_lapsed now x"
      by (auto simp: claimable_def dest: in_set_takeD)
    moreover have "j \<in> set (db_jobs d)" using assms(1,3) by (simp add: row_of_Some)
    ultimately have "x = j" using x(2) assms(1) by (auto simp: select_jobs_def jobs_distinct_def distinct_map dest: inj_onD)
    with \<open>job_due now x \<or> lease_lapsed now x\<close> have "row_step (Claim w (map job_id js)) now j (lease_to w now s j)"
      using True ids by (intro row_step.claimed) auto
    with r True show ?thesis by simp
  qed (use r in \<open>auto intro: row_step.kept\<close>)
qed

lemma with_owned_job_row:
  assumes "jobs_distinct d" "\<And>j. job_id (f j) = job_id j" "with_owned_job f now i w t d = Inr (x, d')"
    and "row_of d k = Some j" "\<And>j. owns now w j \<Longrightarrow> job_id j = i \<Longrightarrow> row_step op now j (f j)"
  shows "\<exists>j'. row_of d' k = Some j' \<and> row_step op now j j'"
proof -
  from with_owned_job_Inr [OF assms(1-3)] obtain y where y: "row_of d i = Some y" "owns now w y"
      "row_of d' i = Some (f y)" "\<forall>k. k \<noteq> i \<longrightarrow> row_of d' k = row_of d k"
    by blast
  have "job_id y = i" using y(1) assms(1) by (simp add: row_of_Some)
  then show ?thesis
    using y assms(4,5) by (cases "k = i") (auto intro: row_step.kept)
qed

text \<open>Every step acts on every row by a row step.\<close>

lemma queue_step_row:
  assumes "queue_step op (now, d) (now', d')" "jobs_distinct d" "row_of d i = Some j"
  shows "\<exists>j'. row_of d' i = Some j' \<and> row_step op now j j'"
  using assms(1)
proof (cases rule: queue_step.cases)
  case tick
  then show ?thesis using assms(3) row_step.kept by auto
next
  case (enqueue t x)
  then have "row_of d' i = Some j" using assms(3)
    by (auto simp: insert_job_def row_of_def find_append_Some split: if_splits)
  then show ?thesis using row_step.kept by auto
next
  case (claim locked w n s js)
  with claim_jobs_row [OF assms(2) claim(3) assms(3)] show ?thesis by auto
next
  case (process k w t x)
  then show ?thesis
    using with_owned_job_row [OF assms(2) _ process(3) [unfolded mark_processing_def] assms(3), of op] row_step.processing
    by auto
next
  case (renew s k w t x)
  have "row_step op now y (renewed_row now s y)" if "owns now w y" "job_id y = k" for y
    using row_step.renewed [OF that(1), of s] that(2) renew(1) by simp
  then show ?thesis
    using with_owned_job_row [OF assms(2) _ renew(3) [unfolded renew_lease_def] assms(3), of op] by simp
next
  case (complete k w t x)
  then show ?thesis
    using with_owned_job_row [OF assms(2) _ complete(3) [unfolded mark_completed_def] assms(3), of op] row_step.completed
    by auto
next
  case (fail draw code msg r k w t x)
  have "row_step op now y (failed_row now draw code msg r y)" if "owns now w y" "job_id y = k" for y
    using row_step.failed [OF that(1) fail(4), of code msg r] that(2) fail(1) by simp
  then show ?thesis
    using with_owned_job_row [OF assms(2) _ fail(3) [unfolded mark_failed_def] assms(3), of op] by simp
next
  case (retry k ws t x)
  then obtain y where y: "find (\<lambda>j. job_id j = k \<and> job_workspace_id j = ws) (select_jobs t d) = Some y"
      "job_state y = FAILED \<or> job_state y = DEAD_LETTER" "d' = update_job t k (retried_row now) d"
    by (auto simp: retry_job_def split: option.splits if_splits)
  then have ry: "row_of d k = Some y" using find_visible [OF assms(2) y(1)] by simp
  have "row_of d' i = map_option (\<lambda>x. if job_visible t x \<and> job_id x = k then retried_row now x else x) (row_of d i)"
    unfolding y(3) update_job_def by (rule row_of_update) simp
  moreover have "job_id j = i" using assms(2,3) by (simp add: row_of_Some)
  ultimately show ?thesis
    using ry y(2) assms(3) retry row_step.retried [of j now] row_step.kept by auto
qed

text \<open>A step keeps the rows apart, keeps the clock from going back, and drops no row.\<close>

lemma update_where_ids: "(\<And>j. job_id (f j) = job_id j) \<Longrightarrow> map job_id (update_where P f rows) = map job_id rows"
  by (rule map_update_where) simp

lemma queue_step_ids:
  assumes "queue_step op (now, d) (now', d')" "queue_ok d"
  shows "now \<le> now'" "queue_ok d'"
proof -
  show "now \<le> now'" using assms(1) by (cases rule: queue_step.cases) auto
  have d: "jobs_distinct d" using assms(2) by (simp add: queue_ok_def)
  have upd: "map job_id (db_jobs (update_job t i f d)) = map job_id (db_jobs d)"
    if "\<And>j. job_id (f j) = job_id j" for t i f
    using that by (simp add: update_job_def update_where_ids)
  have owned: "map job_id (db_jobs d') = map job_id (db_jobs d)"
    if "with_owned_job f now i w t d = Inr (x, d')" "\<And>j. job_id (f j) = job_id j" for f i w t x
    using that upd by (auto simp: with_owned_job_def result_simps)
  have ids: "map job_id (db_jobs d') = map job_id (db_jobs d)
      \<or> (\<exists>j. fresh_job j \<and> 0 < job_max_attempts j \<and> job_id j \<notin> job_id ` set (db_jobs d) \<and> db_jobs d' = db_jobs d @ [j])"
    using assms(1)
  proof (cases rule: queue_step.cases)
    case (enqueue t j)
    then show ?thesis by (auto simp: insert_job_def split: if_splits)
  next
    case (claim locked w n s js)
    then show ?thesis by (auto simp: claim_jobs_def Let_def update_where_ids)
  next
    case (process i w t j)
    then show ?thesis using owned unfolding mark_processing_def by (metis row_ids(2))
  next
    case (renew s i w t j)
    then show ?thesis using owned unfolding renew_lease_def by (metis row_ids(6))
  next
    case (complete i w t j)
    then show ?thesis using owned unfolding mark_completed_def by (metis row_ids(3))
  next
    case (fail draw code msg r i w t j)
    then show ?thesis using owned unfolding mark_failed_def by (metis row_ids(4))
  next
    case (retry i ws t j)
    then show ?thesis using upd [of "retried_row now"] by (auto simp: retry_job_def split: option.splits if_splits)
  qed simp
  have distinct: "jobs_distinct d'"
    using ids d by (auto simp: jobs_distinct_def)
  moreover have "job_row_ok j'" if "j' \<in> set (db_jobs d')" for j'
  proof (cases "job_id j' \<in> job_id ` set (db_jobs d)")
    case True
    then obtain j where j: "j \<in> set (db_jobs d)" "job_id j = job_id j'" by auto
    then have "row_of d (job_id j') = Some j" using d by (simp add: row_of_Some)
    from queue_step_row [OF assms(1) d this] obtain x where x: "row_of d' (job_id j') = Some x" "row_step op now j x"
      by blast
    have "row_of d' (job_id j') = Some j'" using that by (simp add: row_of_Some [OF distinct])
    with x(1) have "x = j'" by simp
    with x(2) row_step_facts(2) j(1) assms(2) show ?thesis by (auto simp: queue_ok_def)
  next
    case False
    then have "job_id j' \<in> set (map job_id (db_jobs d'))" "job_id j' \<notin> set (map job_id (db_jobs d))" using that by auto
    with ids obtain j where j: "fresh_job j" "0 < job_max_attempts j" "db_jobs d' = db_jobs d @ [j]" by metis
    with that False have "j' = j" by auto
    with j(1,2) show ?thesis by (simp add: fresh_job_def job_row_ok_def)
  qed
  ultimately show "queue_ok d'" by (simp add: queue_ok_def)
qed

lemma queue_run_ok:
  assumes "queue_run ops s s'" "queue_ok (snd s)"
  shows "fst s \<le> fst s' \<and> queue_ok (snd s')"
  using assms
proof (induction rule: queue_run.induct)
  case (step op s s' ops s'')
  obtain now d now' d' where s: "s = (now, d)" "s' = (now', d')" by (metis surj_pair)
  from queue_step_ids [of op now d now' d'] step show ?case by (auto simp: s)
qed simp

section \<open>Properties of the queue\<close>

text \<open>\<open>op\<close> is an operation of the worker on the job that needs its lease.\<close>

fun acts_as_owner :: "pystr \<Rightarrow> uuid \<Rightarrow> queue_op \<Rightarrow> bool" where
  "acts_as_owner w i (MarkProcessing v k) \<longleftrightarrow> v = w \<and> k = i"
| "acts_as_owner w i (Renew v k) \<longleftrightarrow> v = w \<and> k = i"
| "acts_as_owner w i (Complete v k) \<longleftrightarrow> v = w \<and> k = i"
| "acts_as_owner w i (Fail v k) \<longleftrightarrow> v = w \<and> k = i"
| "acts_as_owner w i _ \<longleftrightarrow> False"

lemma owned_row_kept:
  assumes "row_step op now j j'" "job_lease_owner j = Some w" "job_state j = LEASED \<or> job_state j = PROCESSING"
    and "job_lease_expires_at j = Some e" "now \<le> e" "\<not> acts_as_owner w (job_id j) op"
  shows "j' = j"
  using assms
  by (cases rule: row_step.cases) (auto simp: job_due_def lease_lapsed_def owns_def)

text \<open>C16: a lease is exclusive. While the clock has not passed the end of a job's lease, whatever any
  workers and requests do, the job's row stays exactly as it is until the lease's owner itself
  acts on it: nobody else can claim, finish, fail, renew or retry it.\<close>

theorem lease_exclusive:
  assumes "queue_run ops (now, d) (now', d')" "queue_ok d" "row_of d i = Some j"
    and "job_lease_owner j = Some w" "job_state j = LEASED \<or> job_state j = PROCESSING"
    and "job_lease_expires_at j = Some e" "now' \<le> e" "\<forall>op \<in> set ops. \<not> acts_as_owner w i op"
  shows "row_of d' i = Some j"
proof -
  have "row_of (snd s') i = Some j"
    if "queue_run ops s s'" "queue_ok (snd s)" "row_of (snd s) i = Some j" "fst s' \<le> e"
      "\<forall>op \<in> set ops. \<not> acts_as_owner w i op" for ops s s'
    using that
  proof (induction rule: queue_run.induct)
    case (step op s s1 ops s2)
    obtain n1 d0 n2 d1 where s: "s = (n1, d0)" "s1 = (n2, d1)" by (metis surj_pair)
    have d0: "jobs_distinct d0" using step.prems(1) by (simp add: s queue_ok_def)
    from queue_step_ids [of op n1 d0 n2 d1] step s have ok: "n1 \<le> n2" "queue_ok d1" by auto
    then have "n2 \<le> fst s2" using queue_run_ok [OF step.hyps(2)] s by simp
    then have "n1 \<le> e" using ok(1) step.prems(3) by simp
    moreover have "job_id j = i" using step.prems(2) d0 by (simp add: s row_of_Some)
    moreover from queue_step_row [of op n1 d0 n2 d1 i j] step.hyps(1) step.prems(2) d0 s obtain j' where
      "row_of d1 i = Some j'" "row_step op n1 j j'" by auto
    ultimately have "row_of d1 i = Some j"
      using owned_row_kept [of op n1 j j' w e] assms(4-6) step.prems(4) by auto
    then show ?case using step.IH ok(2) step.prems(3,4) s by simp
  qed simp
  from this [OF assms(1)] assms(2-8) show ?thesis by simp
qed

text \<open>C24: a completed job stays as it is for ever, whatever workers and requests do.\<close>

theorem completed_is_final:
  assumes "queue_run ops (now, d) (now', d')" "queue_ok d" "row_of d i = Some j" "job_state j = COMPLETED"
  shows "row_of d' i = Some j"
proof -
  have "row_of (snd s') i = Some j" if "queue_run ops s s'" "queue_ok (snd s)" "row_of (snd s) i = Some j" for ops s s'
    using that
  proof (induction rule: queue_run.induct)
    case (step op s s1 ops s2)
    obtain n1 d0 n2 d1 where s: "s = (n1, d0)" "s1 = (n2, d1)" by (metis surj_pair)
    have d0: "jobs_distinct d0" using step.prems(1) by (simp add: s queue_ok_def)
    from queue_step_row [of op n1 d0 n2 d1 i j] step.hyps(1) step.prems(2) d0 s obtain j' where
      "row_of d1 i = Some j'" "row_step op n1 j j'" by auto
    moreover from this have "j' = j" using row_step_facts(3) assms(4) by blast
    ultimately show ?case using queue_step_ids(2) [of op n1 d0 n2 d1] step s by auto
  qed simp
  from this [OF assms(1)] assms(2,3) show ?thesis by simp
qed

text \<open>The queue table stays well-formed. In every run, identifiers stay different, a job has an
  owner exactly when it is leased or processing and then an end of the lease, and attempts are
  never negative.\<close>

theorem queue_invariant:
  assumes "queue_run ops (now, d) (now', d')" "queue_ok d"
  shows "queue_ok d' \<and> now \<le> now'"
  using queue_run_ok [OF assms(1)] assms(2) by simp

text \<open>What a failure does. The lease ends; with attempts left a retryable job waits between 1 and
  450 seconds, at least the capped exponential delay of its attempt; otherwise it is a dead
  letter if its attempts are used up and failed if not. Only the lease's owner can do this.\<close>

theorem mark_failed_outcome:
  assumes "queue_ok d" "below draw" "mark_failed now draw code msg retryable i w t d = Inr (j', d')"
  shows "\<exists>j. row_of d i = Some j \<and> owns now w j \<and> row_of d' i = Some j'
    \<and> job_lease_owner j' = None \<and> job_lease_expires_at j' = None \<and> job_attempt_count j' = job_attempt_count j
    \<and> (if retryable \<and> job_attempt_count j < job_max_attempts j
       then job_state j' = RETRYING \<and> now + seconds (base_delay (job_attempt_count j)) \<le> job_available_at j'
         \<and> now + seconds 1 \<le> job_available_at j' \<and> job_available_at j' \<le> now + seconds 450
       else job_available_at j' = job_available_at j
         \<and> job_state j' = (if job_max_attempts j \<le> job_attempt_count j then DEAD_LETTER else FAILED))"
proof -
  have d: "jobs_distinct d" using assms(1) by (simp add: queue_ok_def)
  from with_owned_job_Inr [OF d _ assms(3) [unfolded mark_failed_def]] obtain j where
    j: "row_of d i = Some j" "owns now w j" "j' = failed_row now draw code msg retryable j" "row_of d' i = Some j'"
    by auto
  have base: "1 \<le> base_delay a" "base_delay a \<le> 300" for a by (simp_all add: base_delay_def)
  have jitter: "0 \<le> draw (max 1 (base_delay a div 2 + 1))" "draw (max 1 (base_delay a div 2 + 1)) \<le> 150" for a
  proof -
    let ?n = "max 1 (base_delay a div 2 + 1)"
    have "0 < ?n" "?n \<le> 151" using base [of a] by auto
    then have "0 \<le> draw ?n" "draw ?n < ?n" using assms(2) unfolding below_def by blast+
    with \<open>?n \<le> 151\<close> show "0 \<le> draw ?n" "draw ?n \<le> 150" by linarith+
  qed
  show ?thesis
    using j base [of "job_attempt_count j"] jitter [of "job_attempt_count j"]
    by (intro exI [of _ j]) (simp add: failed_row_def Let_def seconds_def algebra_simps)
qed

text \<open>What a claim does. It takes at most \<open>batch_size\<close> jobs that are due or whose lease has
  lapsed and that nobody has locked, gives each a lease of its own with one more attempt, and
  touches no other row. A job that could have been claimed and was not leaves the batch full
  of jobs that come before it in the order of availability and creation.\<close>

theorem claim_jobs_spec:
  assumes "jobs_distinct d" "w \<noteq> []" "claim_jobs locked now w n s t d = (js, d')"
  shows "length js \<le> n
    \<and> (\<forall>x \<in> set js. \<exists>j. row_of d (job_id x) = Some j \<and> (job_due now j \<or> lease_lapsed now j) \<and> job_id j \<notin> locked
         \<and> x = lease_to w now s j \<and> row_of d' (job_id x) = Some x)
    \<and> (\<forall>i. i \<notin> job_id ` set js \<longrightarrow> row_of d' i = row_of d i)
    \<and> (\<forall>j \<in> set (db_jobs d). (job_due now j \<or> lease_lapsed now j) \<and> job_id j \<notin> locked \<and> job_id j \<notin> job_id ` set js \<longrightarrow>
         length js = n \<and> (\<forall>x \<in> set js. \<exists>k. row_of d (job_id x) = Some k
           \<and> (job_available_at k, job_created_at k) \<le> (job_available_at j, job_created_at j)))"
proof -
  let ?t = "set_worker_context w t" and ?key = "\<lambda>j. (job_available_at j, job_created_at j)"
  let ?ok = "\<lambda>j. (job_due now j \<or> lease_lapsed now j) \<and> job_id j \<notin> locked"
  let ?xs = "sort_key ?key (filter ?ok (select_jobs ?t d))"
  let ?jobs = "claimable ?t locked now n d"
  have visible: "job_visible ?t j" for j
    using assms(2) by (simp add: job_visible_def set_worker_context_def)
  then have sel: "select_jobs ?t d = db_jobs d" by (simp add: select_jobs_def)
  have jobs: "?jobs = take n ?xs" by (simp add: claimable_def)
  have js: "js = map (lease_to w now s) ?jobs"
    and d': "d' = d\<lparr>db_jobs := update_where (\<lambda>j. job_visible ?t j \<and> job_id j \<in> set (map job_id ?jobs))
          (lease_to w now s) (db_jobs d)\<rparr>"
    using assms(3) by (auto simp: claim_jobs_def Let_def)
  have ids: "job_id ` set js = job_id ` set ?jobs" by (auto simp: js image_image)
  have member: "j \<in> set (db_jobs d) \<and> ?ok j" if "j \<in> set ?jobs" for j
    using that sel by (auto simp: jobs dest: in_set_takeD)
  have row: "row_of d' i = map_option (\<lambda>j. if job_id j \<in> job_id ` set ?jobs then lease_to w now s j else j) (row_of d i)" for i
    unfolding d' by (subst row_of_update) (simp_all add: visible)
  have id: "job_id j = i" if "row_of d i = Some j" for i j using that assms(1) by (simp add: row_of_Some)
  have 1: "length js \<le> n" by (simp add: js jobs)
  have 2: "\<exists>j. row_of d (job_id x) = Some j \<and> ?ok j \<and> x = lease_to w now s j \<and> row_of d' (job_id x) = Some x"
    if x: "x \<in> set js" for x
  proof -
    from x js obtain j where j: "j \<in> set ?jobs" "x = lease_to w now s j" by auto
    then have r: "row_of d (job_id j) = Some j" using member assms(1) by (simp add: row_of_Some)
    then have "row_of d' (job_id j) = Some x" using row [of "job_id j"] j by auto
    then show ?thesis using r member [OF j(1)] j(2) by auto
  qed
  have 3: "row_of d' i = row_of d i" if "i \<notin> job_id ` set js" for i
    using row [of i] id [of i] that unfolding ids by (cases "row_of d i") auto
  have 4: "length js = n \<and> (\<forall>x \<in> set js. \<exists>k. row_of d (job_id x) = Some k \<and> ?key k \<le> ?key j)"
    if j: "j \<in> set (db_jobs d)" "?ok j" "job_id j \<notin> job_id ` set js" for j
  proof -
    have "j \<in> set ?xs" using j sel by simp
    moreover have "j \<notin> set (take n ?xs)" using j(3) unfolding ids jobs by blast
    ultimately have drop: "j \<in> set (drop n ?xs)"
      using set_append [of "take n ?xs" "drop n ?xs", unfolded append_take_drop_id] by blast
    have "n < length ?xs"
    proof (rule ccontr)
      assume "\<not> n < length ?xs"
      then have "drop n ?xs = []" by (simp only: drop_eq_Nil not_less)
      with drop show False by simp
    qed
    then have "length js = n" by (simp add: js jobs)
    moreover have "sorted (map ?key (take n ?xs @ drop n ?xs))" by simp
    then have "?key k \<le> ?key j" if "k \<in> set (take n ?xs)" for k
      using that drop unfolding map_append sorted_append by auto
    moreover have "\<exists>k. row_of d (job_id x) = Some k \<and> ?key k \<le> ?key j" if x: "x \<in> set js" for x
    proof -
      from x js obtain k where k: "k \<in> set ?jobs" "x = lease_to w now s k" by auto
      then have "row_of d (job_id x) = Some k" using member assms(1) by (simp add: row_of_Some)
      moreover have "?key k \<le> ?key j" using \<open>\<And>k. k \<in> set (take n ?xs) \<Longrightarrow> ?key k \<le> ?key j\<close> k(1) unfolding jobs .
      ultimately show ?thesis by blast
    qed
    ultimately show ?thesis by blast
  qed
  show ?thesis using 1 2 3 4 by blast
qed

section \<open>Witnesses\<close>

definition sample_job :: job where
  "sample_job = \<lparr>job_id = 7, job_workspace_id = 3, job_job_type = PROCESS_DOCUMENT,
     job_payload = [(lit ''document_id'', uuid_str 4), (lit ''document_version_id'', uuid_str 5)],
     job_state = PROCESSING, job_idempotency_key = lit ''k1'', job_available_at = 0,
     job_lease_owner = Some (lit ''w1''), job_lease_expires_at = Some (seconds 60), job_attempt_count = 5,
     job_max_attempts = 5, job_error_code = None, job_error_message = None, job_created_at = 0\<rparr>"

definition jobs_only :: "job list \<Rightarrow> db" where
  "jobs_only js = \<lparr>db_users = [], db_workspaces = [], db_memberships = [], db_documents = [], db_versions = [],
     db_chunks = [], db_jobs = js, db_sessions = []\<rparr>"

lemma sample_queue_ok: "queue_ok (jobs_only [sample_job])"
  by (simp add: queue_ok_def jobs_distinct_def jobs_only_def job_row_ok_def sample_job_def)

lemma jobs_only_row: "row_of (jobs_only [j]) (job_id j) = Some j"
  by (simp add: row_of_def jobs_only_def)

lemma sample_claim: "claim_jobs {} (seconds 30) (lit ''w2'') 5 60 no_tenant (jobs_only [sample_job]) = ([], jobs_only [sample_job])"
  by code_simp

lemma sample_run: "queue_run [Tick, Claim (lit ''w2'') []] (0, jobs_only [sample_job]) (seconds 30, jobs_only [sample_job])"
proof (rule queue_run.step [OF queue_step.tick])
  show "0 \<le> seconds 30" by (simp add: seconds_def)
  show "queue_run [Claim (lit ''w2'') []] (seconds 30, jobs_only [sample_job]) (seconds 30, jobs_only [sample_job])"
    using queue_step.claim [OF sample_claim] by (auto intro: queue_run.step queue_run.stop)
qed

theorem lease_exclusive_witness:
  "row_of (jobs_only [sample_job]) 7 = Some sample_job"
  by (rule lease_exclusive [OF sample_run sample_queue_ok, of 7 sample_job "lit ''w1''" "seconds 60"])
    (simp_all add: jobs_only_def row_of_def sample_job_def seconds_def)

theorem queue_invariant_witness: "queue_ok (jobs_only [sample_job]) \<and> (0 :: timestamp) \<le> seconds 30"
  by (rule queue_invariant [OF sample_run sample_queue_ok])

definition done_job :: job where
  "done_job = completed_row sample_job"

lemma done_queue_ok: "queue_ok (jobs_only [done_job])"
  by (simp add: queue_ok_def jobs_distinct_def jobs_only_def job_row_ok_def done_job_def completed_row_def sample_job_def)

lemma done_claim: "claim_jobs {} (seconds 900) (lit ''w2'') 5 60 no_tenant (jobs_only [done_job]) = ([], jobs_only [done_job])"
  by code_simp

lemma done_run: "queue_run [Claim (lit ''w2'') []] (seconds 900, jobs_only [done_job]) (seconds 900, jobs_only [done_job])"
  using queue_step.claim [OF done_claim] by (auto intro: queue_run.step queue_run.stop)

theorem completed_is_final_witness: "row_of (jobs_only [done_job]) 7 = Some done_job"
  by (rule completed_is_final [OF done_run done_queue_ok])
    (simp_all add: jobs_only_def row_of_def done_job_def completed_row_def sample_job_def)

definition sample_failure :: "(job \<times> db) result" where
  "sample_failure = mark_failed (seconds 30) (\<lambda>n. n - 1) (lit ''processing_failed'') (lit ''no model'') True 7
     (lit ''w1'') (set_tenant_context 0 (Some 3) no_tenant) (jobs_only [sample_job])"

theorem mark_failed_outcome_witness:
  "\<exists>j' d'. sample_failure = Inr (j', d') \<and> job_state j' = DEAD_LETTER \<and> job_lease_owner j' = None"
proof -
  have "\<not> isl sample_failure" by code_simp
  then obtain j' d' where f: "sample_failure = Inr (j', d')" by (metis sum.collapse(2) surj_pair)
  have "below (\<lambda>n. n - 1)" by (simp add: below_def)
  from mark_failed_outcome [OF sample_queue_ok this f [unfolded sample_failure_def]] f show ?thesis
    using jobs_only_row [of sample_job] by (auto simp: sample_job_def)
qed

theorem claim_jobs_spec_witness:
  "\<exists>js d'. claim_jobs {} (seconds 61) (lit ''w2'') 5 60 no_tenant (jobs_only [sample_job]) = (js, d')
    \<and> length js \<le> 5 \<and> (\<forall>x \<in> set js. row_of d' (job_id x) = Some x)"
proof -
  obtain js d' where c: "claim_jobs {} (seconds 61) (lit ''w2'') 5 60 no_tenant (jobs_only [sample_job]) = (js, d')"
    by fastforce
  have "jobs_distinct (jobs_only [sample_job])" using sample_queue_ok by (simp add: queue_ok_def)
  from claim_jobs_spec [OF this _ c] c show ?thesis by (auto simp: lit_def)
qed

text \<open>
  A lapsed lease is claimed again whatever \<open>max_attempts\<close> is: a job that stops its worker five
  times is given a sixth attempt, and so on.
\<close>

lemma lapsed_lease_ignores_max_attempts:
  "map job_attempt_count (fst (claim_jobs {} (seconds 61) (lit ''w2'') 5 60 no_tenant (jobs_only [sample_job]))) = [6]"
  by code_simp

end
