(* ===== verification/Chunk_Tokens.thy ===== *)
theory Chunk_Tokens
  imports Rag_Models
begin

text \<open>
  \<open>packages/rag/tokenizer.py\<close>: the tokenizer that only decides chunk boundaries. The pattern
  \<open>\w+(?:['\u2019]\w+)*|[^\w\s]\<close> is deterministic, so its greedy match at a position is
  computed directly; \<open>spans\<close> is the loop of \<open>finditer\<close>. The lemmas: the tokens are in
  order, disjoint, slices of the text, and together exactly its characters that are not white
  space; cutting the text at the end of a token does not change the tokens before the cut.
\<close>

section \<open>The tokenizer\<close>

record token_span =
  tok_text :: pystr
  tok_start :: nat
  tok_end :: nat

definition word_run :: "unicode \<Rightarrow> pystr \<Rightarrow> nat" where
  "word_run U s = length (takeWhile (is_word U) s)"

text \<open>The length of the match of \<open>(?:['\u2019]\w+)*\<close> at the start of \<open>s\<close>.\<close>

function apostrophe_run :: "unicode \<Rightarrow> pystr \<Rightarrow> nat" where
  "apostrophe_run U s =
     (case s of
        [] \<Rightarrow> 0
      | q # r \<Rightarrow>
          if (q = 39 \<or> q = 0x2019) \<and> 0 < word_run U r
          then Suc (word_run U r) + apostrophe_run U (drop (word_run U r) r) else 0)"
  by pat_completeness auto
termination
  by (relation "measure (\<lambda>(U, s). length s)") auto

declare apostrophe_run.simps [simp del]

text \<open>The length of the match at the start of \<open>s\<close>; 0 where the pattern does not match.\<close>

definition token_match :: "unicode \<Rightarrow> pystr \<Rightarrow> nat" where
  "token_match U s =
     (case s of
        [] \<Rightarrow> 0
      | c # _ \<Rightarrow>
          if is_word U c then word_run U s + apostrophe_run U (drop (word_run U s) s)
          else if is_space c then 0 else 1)"

function spans_from :: "unicode \<Rightarrow> nat \<Rightarrow> pystr \<Rightarrow> token_span list" where
  "spans_from U i s =
     (if s = [] then []
      else if token_match U s = 0 then spans_from U (Suc i) (tl s)
      else \<lparr>tok_text = take (token_match U s) s, tok_start = i, tok_end = i + token_match U s\<rparr>
             # spans_from U (i + token_match U s) (drop (token_match U s) s))"
  by pat_completeness auto
termination
  by (relation "measure (\<lambda>(U, i, s). length s)") auto

declare spans_from.simps [simp del]

definition spans :: "unicode \<Rightarrow> pystr \<Rightarrow> token_span list" where
  "spans U text = spans_from U 0 text"

definition count :: "unicode \<Rightarrow> pystr \<Rightarrow> nat" where
  "count U text = length (spans U text)"

section \<open>One match\<close>

lemma apostrophe_run_rules:
  "apostrophe_run U [] = 0"
  "(q = 39 \<or> q = 0x2019) \<and> 0 < word_run U r \<Longrightarrow>
     apostrophe_run U (q # r) = Suc (word_run U r) + apostrophe_run U (drop (word_run U r) r)"
  "\<not> ((q = 39 \<or> q = 0x2019) \<and> 0 < word_run U r) \<Longrightarrow> apostrophe_run U (q # r) = 0"
  by (simp_all add: apostrophe_run.simps)

lemma word_run_le: "word_run U s \<le> length s"
  by (simp add: word_run_def length_takeWhile_le)

lemma word_run_chars: "c \<in> set (take (word_run U s) s) \<Longrightarrow> is_word U c"
  by (metis word_run_def takeWhile_all_or_drop set_takeWhileD)

lemma word_run_take: "word_run U s \<le> n \<Longrightarrow> word_run U (take n s) = word_run U s"
proof (induction s arbitrary: n)
  case Nil
  then show ?case by (simp add: word_run_def)
next
  case (Cons c s)
  then show ?case by (cases n) (auto simp: word_run_def split: if_splits)
qed

lemma apostrophe_run_le: "apostrophe_run U s \<le> length s"
proof (induction U s rule: apostrophe_run.induct)
  case (1 U s)
  show ?case
  proof (cases s)
    case Nil
    then show ?thesis by (simp add: apostrophe_run_rules)
  next
    case s: (Cons q r)
    show ?thesis
    proof (cases "(q = 39 \<or> q = 0x2019) \<and> 0 < word_run U r")
      case True
      from "1.IH" [OF s True] word_run_le [of U r]
      show ?thesis unfolding s apostrophe_run_rules(2) [OF True] by simp
    next
      case False
      show ?thesis unfolding s apostrophe_run_rules(3) [OF False] by simp
    qed
  qed
qed

lemma apostrophe_run_chars: "c \<in> set (take (apostrophe_run U s) s) \<Longrightarrow> \<not> is_space c"
proof (induction U s rule: apostrophe_run.induct)
  case (1 U s)
  show ?case
  proof (cases s)
    case Nil
    with 1 show ?thesis by simp
  next
    case s: (Cons q r)
    show ?thesis
    proof (cases "(q = 39 \<or> q = 0x2019) \<and> 0 < word_run U r")
      case True
      have "c = q \<or> c \<in> set (take (word_run U r) r)
          \<or> c \<in> set (take (apostrophe_run U (drop (word_run U r) r)) (drop (word_run U r) r))"
        using "1.prems" unfolding s apostrophe_run_rules(2) [OF True] by (auto simp: take_add)
      moreover have "\<not> is_space q" using True by (auto simp: is_space_def)
      ultimately show ?thesis
        using "1.IH" [OF s True] word_run_chars word_not_space by blast
    next
      case False
      with "1.prems" show ?thesis unfolding s apostrophe_run_rules(3) [OF False] by simp
    qed
  qed
qed

lemma apostrophe_run_take:
  "apostrophe_run U s \<le> n \<Longrightarrow> apostrophe_run U (take n s) = apostrophe_run U s"
proof (induction U s arbitrary: n rule: apostrophe_run.induct)
  case (1 U s)
  show ?case
  proof (cases s)
    case Nil
    then show ?thesis by simp
  next
    case s: (Cons q r)
    show ?thesis
    proof (cases "(q = 39 \<or> q = 0x2019) \<and> 0 < word_run U r")
      case True
      let ?w = "word_run U r"
      note eq = apostrophe_run_rules(2) [OF True]
      from "1.prems" obtain m where n: "n = Suc m" "?w + apostrophe_run U (drop ?w r) \<le> m"
        unfolding s eq by (cases n) auto
      have w: "word_run U (take m r) = ?w" using n(2) by (simp add: word_run_take)
      have "apostrophe_run U (drop ?w (take m r)) = apostrophe_run U (drop ?w r)"
        using "1.IH" [OF s True, of "m - ?w"] n(2) by (simp add: drop_take)
      moreover have "apostrophe_run U (q # take m r) = Suc ?w + apostrophe_run U (drop ?w (take m r))"
        using apostrophe_run_rules(2) [of q U "take m r"] True by (simp add: w)
      ultimately show ?thesis by (simp add: s eq n(1))
    next
      case False
      have "word_run U (take m r) = 0" if "word_run U r = 0" for m
        using that by (simp add: word_run_take)
      with False have "apostrophe_run U (take n s) = 0"
        by (cases n) (auto simp: s apostrophe_run_rules)
      then show ?thesis unfolding s apostrophe_run_rules(3) [OF False] by simp
    qed
  qed
qed

lemma token_match_le: "token_match U s \<le> length s"
proof (cases s)
  case Nil
  then show ?thesis by (simp add: token_match_def)
next
  case (Cons c r)
  have "apostrophe_run U (drop (word_run U s) s) \<le> length s - word_run U s"
    using apostrophe_run_le [of U "drop (word_run U s) s"] by simp
  then have "word_run U s + apostrophe_run U (drop (word_run U s) s) \<le> length s"
    using word_run_le [of U s] by linarith
  then show ?thesis by (simp add: token_match_def Cons)
qed

lemma token_match_pos: "0 < token_match U s \<longleftrightarrow> s \<noteq> [] \<and> \<not> is_space (hd s)"
  by (cases s) (auto simp: token_match_def word_run_def)

lemma token_match_chars: "c \<in> set (take (token_match U s) s) \<Longrightarrow> \<not> is_space c"
proof (cases s)
  case Nil
  assume "c \<in> set (take (token_match U s) s)"
  with Nil show ?thesis by simp
next
  case (Cons d r)
  assume c: "c \<in> set (take (token_match U s) s)"
  show ?thesis
  proof (cases "is_word U d")
    case True
    let ?w = "word_run U s"
    have "token_match U s = ?w + apostrophe_run U (drop ?w s)"
      using True by (simp add: token_match_def Cons)
    with c have "c \<in> set (take ?w s) \<or> c \<in> set (take (apostrophe_run U (drop ?w s)) (drop ?w s))"
      by (simp add: take_add)
    then show ?thesis using word_run_chars word_not_space apostrophe_run_chars by blast
  next
    case False
    with c Cons show ?thesis by (auto simp: token_match_def split: if_splits)
  qed
qed

lemma token_match_take: "token_match U s \<le> n \<Longrightarrow> token_match U (take n s) = token_match U s"
proof (cases s)
  case Nil
  then show ?thesis by simp
next
  case (Cons d r)
  assume n: "token_match U s \<le> n"
  show ?thesis
  proof (cases "is_word U d")
    case True
    let ?w = "word_run U s"
    have tm: "token_match U s = ?w + apostrophe_run U (drop ?w s)"
      using True by (simp add: token_match_def Cons)
    have pos: "0 < ?w" using True by (simp add: Cons word_run_def)
    then obtain m where m: "n = Suc m" using n tm by (cases n) auto
    have w: "word_run U (take n s) = ?w" using n tm by (simp add: word_run_take)
    have "apostrophe_run U (take (n - ?w) (drop ?w s)) = apostrophe_run U (drop ?w s)"
      using n tm by (intro apostrophe_run_take) simp
    then have "apostrophe_run U (drop ?w (take n s)) = apostrophe_run U (drop ?w s)"
      by (simp add: drop_take)
    moreover have "token_match U (take n s) = word_run U (take n s)
        + apostrophe_run U (drop (word_run U (take n s)) (take n s))"
      using True by (simp add: token_match_def Cons m)
    ultimately show ?thesis using w tm by simp
  next
    case False
    with n Cons show ?thesis by (cases n) (auto simp: token_match_def split: if_splits)
  qed
qed

section \<open>The tokens of a text\<close>

lemma spans_from_Nil [simp]: "spans_from U i [] = []"
  by (simp add: spans_from.simps)

lemma spans_from_skip: "is_space c \<Longrightarrow> spans_from U i (c # s) = spans_from U (Suc i) s"
  by (simp add: spans_from.simps [of U i "c # s"] token_match_def)

lemma spans_from_take:
  assumes "s \<noteq> []" "\<not> is_space (hd s)"
  shows "spans_from U i s =
     \<lparr>tok_text = take (token_match U s) s, tok_start = i, tok_end = i + token_match U s\<rparr>
       # spans_from U (i + token_match U s) (drop (token_match U s) s)"
  using assms token_match_pos [of U s] by (simp add: spans_from.simps [of U i s])

text \<open>Induction over the loop: nothing left, a white-space character skipped, a token taken.\<close>

lemma spans_from_induct [case_names Nil skip take]:
  assumes "\<And>i. P i []"
    and "\<And>i c s. is_space c \<Longrightarrow> P (Suc i) s \<Longrightarrow> P i (c # s)"
    and "\<And>i s. s \<noteq> [] \<Longrightarrow> \<not> is_space (hd s) \<Longrightarrow> P (i + token_match U s) (drop (token_match U s) s) \<Longrightarrow> P i s"
  shows "P i s"
proof (induction s arbitrary: i rule: length_induct)
  case (1 s)
  show ?case
  proof (cases s)
    case Nil
    then show ?thesis using assms(1) by simp
  next
    case s: (Cons c r)
    show ?thesis
    proof (cases "is_space c")
      case True
      with 1 s assms(2) show ?thesis by simp
    next
      case False
      then have "0 < token_match U s" using token_match_pos [of U s] by (simp add: s)
      with 1 have "P (i + token_match U s) (drop (token_match U s) s)" by (simp add: s)
      with False s assms(3) show ?thesis by simp
    qed
  qed
qed

lemma spans_from_range:
  "t \<in> set (spans_from U i s) \<Longrightarrow>
     i \<le> tok_start t \<and> tok_start t < tok_end t \<and> tok_end t \<le> i + length s
     \<and> tok_text t = slice s (tok_start t - i) (tok_end t - i)"
proof (induction i s rule: spans_from_induct [where U = U])
  case (skip i c s)
  then have "Suc i \<le> tok_start t \<and> tok_start t < tok_end t \<and> tok_end t \<le> Suc i + length s
      \<and> tok_text t = slice s (tok_start t - Suc i) (tok_end t - Suc i)"
    by (simp add: spans_from_skip)
  then show ?case by (auto simp: slice_def Suc_diff_le drop_Cons' )
next
  case (take i s)
  let ?n = "token_match U s"
  have n: "0 < ?n" "?n \<le> length s" using take.hyps token_match_pos token_match_le by auto
  show ?case
  proof (cases "t = \<lparr>tok_text = List.take ?n s, tok_start = i, tok_end = i + ?n\<rparr>")
    case True
    with n show ?thesis by (simp add: slice_def)
  next
    case False
    with take.prems take.hyps have "t \<in> set (spans_from U (i + ?n) (drop ?n s))"
      by (auto simp: spans_from_take)
    from take.IH [OF this] show ?thesis
      using n by (auto simp: slice_def add.commute)
  qed
qed simp

lemma spans_from_sorted: "sorted_wrt (\<lambda>a b. tok_end a \<le> tok_start b) (spans_from U i s)"
proof (induction i s rule: spans_from_induct [where U = U])
  case (take i s)
  then show ?case by (auto simp: spans_from_take dest!: spans_from_range)
qed (simp_all add: spans_from_skip)

lemma spans_from_concat:
  "concat (map tok_text (spans_from U i s)) = filter (\<lambda>c. \<not> is_space c) s"
proof (induction i s rule: spans_from_induct [where U = U])
  case (take i s)
  let ?n = "token_match U s"
  have "filter (\<lambda>c. \<not> is_space c) s
      = filter (\<lambda>c. \<not> is_space c) (List.take ?n s) @ filter (\<lambda>c. \<not> is_space c) (drop ?n s)"
    by (metis append_take_drop_id filter_append)
  moreover have "filter (\<lambda>c. \<not> is_space c) (List.take ?n s) = List.take ?n s"
    by (auto simp: filter_id_conv dest: token_match_chars)
  ultimately show ?case using take by (simp add: spans_from_take)
qed (simp_all add: spans_from_skip)

lemma spans_from_cover:
  "j < length s \<Longrightarrow> \<not> is_space (s ! j) \<Longrightarrow>
     \<exists>t \<in> set (spans_from U i s). tok_start t \<le> i + j \<and> i + j < tok_end t"
proof (induction i s arbitrary: j rule: spans_from_induct [where U = U])
  case (skip i c s)
  then show ?case
  proof (cases j)
    case (Suc k)
    with skip.prems skip.IH [of k] show ?thesis using skip.hyps by (simp add: spans_from_skip)
  qed simp
next
  case (take i s)
  let ?n = "token_match U s"
  show ?case
  proof (cases "j < ?n")
    case True
    then show ?thesis by (simp add: spans_from_take [OF take.hyps(1,2)])
  next
    case False
    with take.prems take.IH [of "j - ?n"] show ?thesis
      by (simp add: spans_from_take [OF take.hyps(1,2)])
  qed
qed simp

definition shift_span :: "nat \<Rightarrow> token_span \<Rightarrow> token_span" where
  "shift_span k t = \<lparr>tok_text = tok_text t, tok_start = k + tok_start t, tok_end = k + tok_end t\<rparr>"

lemma shift_span_sel [simp]:
  "tok_start (shift_span k t) = k + tok_start t" "tok_end (shift_span k t) = k + tok_end t"
  "tok_text (shift_span k t) = tok_text t"
  by (simp_all add: shift_span_def)

lemma spans_from_shift: "spans_from U (k + i) s = map (shift_span k) (spans_from U i s)"
proof (induction i s rule: spans_from_induct [where U = U])
  case (take i s)
  then show ?case by (simp add: spans_from_take add.assoc shift_span_def)
qed (simp_all add: spans_from_skip)

text \<open>Cutting the text at the end of the token number \<open>k\<close> keeps the tokens up to \<open>k\<close>.\<close>

lemma spans_from_cut_end:
  "k < length (spans_from U i s) \<Longrightarrow>
     spans_from U i (List.take (tok_end (spans_from U i s ! k) - i) s) = List.take (Suc k) (spans_from U i s)"
proof (induction i s arbitrary: k rule: spans_from_induct [where U = U])
  case (skip i c s)
  then have k: "k < length (spans_from U (Suc i) s)" by (simp add: spans_from_skip)
  let ?e = "tok_end (spans_from U (Suc i) s ! k)"
  have "Suc i < ?e" using spans_from_range [OF nth_mem [OF k]] by linarith
  then obtain d where "?e - i = Suc d" "?e - Suc i = d" by (metis Suc_diff_Suc Suc_lessD)
  with skip.IH [OF k] skip.hyps show ?case by (simp add: spans_from_skip)
next
  case (take i s)
  let ?n = "token_match U s" and ?r = "drop (token_match U s) s"
  note step = spans_from_take [OF take.hyps(1,2), of U i]
  have n: "0 < ?n" "?n \<le> length s" using take.hyps token_match_pos token_match_le by auto
  have hd: "List.take m s \<noteq> []" "\<not> is_space (hd (List.take m s))" if "?n \<le> m" for m
    using that n take.hyps by (auto simp: hd_take)
  have cut: "spans_from U i (List.take m s) = \<lparr>tok_text = List.take ?n s, tok_start = i, tok_end = i + ?n\<rparr>
      # spans_from U (i + ?n) (List.take (m - ?n) ?r)" if "?n \<le> m" for m
    using spans_from_take [OF hd [OF that], of U i] that
    by (simp add: token_match_take drop_take min_def)
  show ?case
  proof (cases k)
    case 0
    then show ?thesis by (simp add: step cut)
  next
    case (Suc j)
    with take.prems have j: "j < length (spans_from U (i + ?n) ?r)" by (simp add: step)
    let ?e = "tok_end (spans_from U (i + ?n) ?r ! j)"
    have "i + ?n < ?e" using spans_from_range [OF nth_mem [OF j]] by linarith
    then have "?n \<le> ?e - i" "?e - i - ?n = ?e - (i + ?n)" by linarith+
    with take.IH [OF j] Suc show ?thesis by (simp add: step cut)
  qed
qed simp

text \<open>Cutting off what is before token number \<open>k\<close> keeps the tokens from \<open>k\<close> on.\<close>

lemma spans_from_cut_start:
  "k < length (spans_from U i s) \<Longrightarrow>
     spans_from U (tok_start (spans_from U i s ! k)) (drop (tok_start (spans_from U i s ! k) - i) s)
       = drop k (spans_from U i s)"
proof (induction i s arbitrary: k rule: spans_from_induct [where U = U])
  case (skip i c s)
  then have k: "k < length (spans_from U (Suc i) s)" by (simp add: spans_from_skip)
  let ?b = "tok_start (spans_from U (Suc i) s ! k)"
  have "Suc i \<le> ?b" using spans_from_range [OF nth_mem [OF k]] by linarith
  then have "?b - i = Suc (?b - Suc i)" by linarith
  with skip.IH [OF k] skip.hyps show ?case by (simp add: spans_from_skip)
next
  case (take i s)
  let ?n = "token_match U s" and ?r = "drop (token_match U s) s"
  note step = spans_from_take [OF take.hyps(1,2), of U i]
  show ?case
  proof (cases k)
    case 0
    then show ?thesis by (simp add: step)
  next
    case (Suc j)
    with take.prems have j: "j < length (spans_from U (i + ?n) ?r)" by (simp add: step)
    let ?b = "tok_start (spans_from U (i + ?n) ?r ! j)"
    have "i + ?n \<le> ?b" using spans_from_range [OF nth_mem [OF j]] by linarith
    then have "drop (?b - i) s = drop (?b - (i + ?n)) ?r" by simp
    with take.IH [OF j] Suc show ?thesis by (simp add: step)
  qed
qed simp

section \<open>The same for a whole text\<close>

lemma span_range:
  "t \<in> set (spans U s) \<Longrightarrow> tok_start t < tok_end t \<and> tok_end t \<le> length s
     \<and> tok_text t = slice s (tok_start t) (tok_end t)"
  unfolding spans_def by (drule spans_from_range) simp

lemma spans_sorted: "sorted_wrt (\<lambda>a b. tok_end a \<le> tok_start b) (spans U s)"
  by (simp add: spans_def spans_from_sorted)

lemma spans_nth_le:
  "i \<le> j \<Longrightarrow> j < length (spans U s) \<Longrightarrow>
     tok_start (spans U s ! i) \<le> tok_start (spans U s ! j) \<and> tok_end (spans U s ! i) \<le> tok_end (spans U s ! j)"
proof (cases "i = j")
  case False
  assume ij: "i \<le> j" "j < length (spans U s)"
  with False have "tok_end (spans U s ! i) \<le> tok_start (spans U s ! j)"
    using sorted_wrt_nth_less [OF spans_sorted, of i j] by simp
  moreover have "tok_start (spans U s ! i) < tok_end (spans U s ! i)"
      "tok_start (spans U s ! j) < tok_end (spans U s ! j)"
    using ij span_range [OF nth_mem] by auto
  ultimately show ?thesis by linarith
qed simp

lemma spans_cover:
  "j < length s \<Longrightarrow> \<not> is_space (s ! j) \<Longrightarrow> \<exists>t \<in> set (spans U s). tok_start t \<le> j \<and> j < tok_end t"
  using spans_from_cover [of j s U 0] by (simp add: spans_def)

lemma spans_concat: "concat (map tok_text (spans U s)) = filter (\<lambda>c. \<not> is_space c) s"
  by (simp add: spans_def spans_from_concat)

lemma spans_Nil_iff: "spans U s = [] \<longleftrightarrow> list_all is_space s"
proof
  assume "spans U s = []"
  then have "\<forall>j < length s. is_space (s ! j)" using spans_cover [of _ s U] by auto
  then show "list_all is_space s" by (simp add: list_all_length)
next
  assume "list_all is_space s"
  then have "concat (map tok_text (spans U s)) = []"
    by (simp add: spans_concat filter_empty_conv list_all_iff)
  then have no: "tok_text t = []" if "t \<in> set (spans U s)" for t using that by auto
  have "t \<notin> set (spans U s)" for t
    using no [of t] span_range [of t U s] by (auto simp: slice_empty_iff)
  then show "spans U s = []" by (metis last_in_set)
qed

lemma count_pos_iff: "0 < count U s \<longleftrightarrow> \<not> list_all is_space s"
  by (simp add: count_def spans_Nil_iff)

text \<open>
  The part of a text from the start of token \<open>j\<close> to the end of token \<open>k\<close> has exactly the
  tokens \<open>j..k\<close>.
\<close>

lemma spans_slice:
  assumes "j \<le> k" "k < length (spans U s)"
  shows "map (shift_span (tok_start (spans U s ! j)))
           (spans U (slice s (tok_start (spans U s ! j)) (tok_end (spans U s ! k))))
         = slice (spans U s) j (Suc k)"
proof -
  let ?b = "tok_start (spans U s ! j)" and ?e = "tok_end (spans U s ! k)"
  let ?p = "List.take ?e s"
  have cut: "spans U ?p = List.take (Suc k) (spans U s)"
    using spans_from_cut_end [of k U 0 s] assms(2) by (simp add: spans_def)
  have j: "j < length (spans U ?p)" "spans U ?p ! j = spans U s ! j"
    using assms by (simp_all add: cut)
  have "spans_from U ?b (drop ?b ?p) = drop j (spans U ?p)"
    using spans_from_cut_start [of j U 0 ?p] j by (simp add: spans_def)
  moreover have "drop ?b ?p = slice s ?b ?e" by (simp add: slice_def drop_take)
  moreover have "drop j (spans U ?p) = slice (spans U s) j (Suc k)"
    by (simp add: cut slice_def drop_take)
  ultimately show ?thesis
    using spans_from_shift [of U ?b 0 "slice s ?b ?e"] by (simp add: spans_def)
qed

lemma count_slice:
  assumes "j \<le> k" "k < length (spans U s)"
  shows "count U (slice s (tok_start (spans U s ! j)) (tok_end (spans U s ! k))) = Suc k - j"
proof -
  have "length (slice (spans U s) j (Suc k)) = Suc k - j" using assms by simp
  then show ?thesis using spans_slice [OF assms] by (metis count_def length_map)
qed

text \<open>The first token of a text with no leading white space starts it; likewise the last.\<close>

lemma spans_first: "s \<noteq> [] \<Longrightarrow> \<not> is_space (hd s) \<Longrightarrow> spans U s \<noteq> [] \<and> tok_start (hd (spans U s)) = 0"
  by (simp add: spans_def spans_from_take)

lemma spans_last: "s \<noteq> [] \<Longrightarrow> \<not> is_space (last s) \<Longrightarrow> spans U s \<noteq> [] \<and> tok_end (last (spans U s)) = length s"
proof -
  assume "s \<noteq> []" "\<not> is_space (last s)"
  then obtain t where t: "t \<in> set (spans U s)" "length s - 1 < tok_end t"
    using spans_cover [of "length s - 1" s U] by (auto simp: last_conv_nth)
  then obtain k where k: "k < length (spans U s)" "spans U s ! k = t" by (auto simp: in_set_conv_nth)
  have "tok_end t \<le> tok_end (spans U s ! (length (spans U s) - 1))"
    using spans_nth_le [of k "length (spans U s) - 1" U s] k by auto
  moreover have "last (spans U s) \<in> set (spans U s)" using t(1) by (intro last_in_set) auto
  then have "tok_end (last (spans U s)) \<le> length s" using span_range by blast
  moreover have ne: "spans U s \<noteq> []" using k by auto
  ultimately have "length s - 1 < tok_end (last (spans U s))" "tok_end (last (spans U s)) \<le> length s"
    using t by (simp_all add: last_conv_nth)
  with ne show ?thesis by linarith
qed

end
