(* ===== verification/Chunking.thy ===== *)
theory Chunking
  imports Chunk_Tokens
begin

text \<open>
  \<open>packages/rag/chunking.py\<close>, definition by definition: fragments of blocks, their merging,
  the budget text, the overlap carried into the next chunk, the sentence fallback for long
  blocks, the binary search that fits a piece into the budget, the packing of a section, and
  \<open>chunk\<close> itself. The budget (\<open>InputBudget\<close>, the tokenizer of the embedding model) is an
  argument. The facts proved here are the ones every later proof starts from: the equations
  of the loops, what a well-formed fragment is, and that each step produces well-formed ones.
\<close>

section \<open>Fragments\<close>

record input_budget =
  ib_fits :: "pystr \<Rightarrow> bool"
  ib_assert_fits :: "pystr \<Rightarrow> unit result"

record fragment =
  frag_block :: canonical_block
  frag_start :: nat
  frag_end :: nat
  frag_tokens :: nat

definition fragment_text :: "fragment \<Rightarrow> pystr" where
  "fragment_text f = slice (blk_text (frag_block f)) (frag_start f) (frag_end f)"

definition fragment_locator :: "fragment \<Rightarrow> source_locator result" where
  "fragment_locator f =
     SourceLocator (blk_id (frag_block f)) (blk_order (frag_block f)) (int (frag_start f)) (int (frag_end f))
       (blk_page_number (frag_block f))"

definition fragment_from_tokens :: "canonical_block \<Rightarrow> token_span list \<Rightarrow> fragment result" where
  "fragment_from_tokens b ts =
     (if ts = [] then raise_value ''cannot create a fragment without tokens''
      else Inr \<lparr>frag_block = b, frag_start = tok_start (hd ts), frag_end = tok_end (last ts),
                frag_tokens = length ts\<rparr>)"

definition merge_step :: "fragment list \<Rightarrow> fragment \<Rightarrow> fragment list" where
  "merge_step merged f =
     (if merged \<noteq> [] \<and> blk_id (frag_block (last merged)) = blk_id (frag_block f)
      then butlast merged @ [\<lparr>frag_block = frag_block (last merged),
             frag_start = min (frag_start (last merged)) (frag_start f),
             frag_end = max (frag_end (last merged)) (frag_end f), frag_tokens = 0\<rparr>]
      else merged @ [f])"

definition merge_fragments :: "unicode \<Rightarrow> fragment list \<Rightarrow> fragment list" where
  "merge_fragments U fs =
     map (\<lambda>f. f\<lparr>frag_tokens := count U (fragment_text f)\<rparr>) (foldl merge_step [] fs)"

text \<open>\<open>zip(*paths)\<close>: the columns, as far as the shortest path goes.\<close>

function columns :: "'a list list \<Rightarrow> 'a list list" where
  "columns xss = (if xss = [] \<or> [] \<in> set xss then [] else map hd xss # columns (map tl xss))"
  by pat_completeness auto
termination
  by (relation "measure (\<lambda>xss. length (hd xss))") (auto simp: hd_map neq_Nil_conv)

declare columns.simps [simp del]

definition common_heading_path :: "fragment list \<Rightarrow> pystr list" where
  "common_heading_path fs =
     map hd (takeWhile (\<lambda>vs. card (set vs) = 1) (columns (map (\<lambda>f. blk_heading_path (frag_block f)) fs)))"

definition fragments_text :: "fragment list \<Rightarrow> pystr" where
  "fragments_text fs = join_with [10, 10] (map fragment_text fs)"

definition or_else :: "pystr \<Rightarrow> pystr \<Rightarrow> pystr" where
  "or_else s d = (if s = [] then d else s)"

definition budget_text :: "unicode \<Rightarrow> canonical_document \<Rightarrow> fragment list \<Rightarrow> pystr" where
  "budget_text U d fs =
     (let merged = merge_fragments U fs;
          path = or_else (join_with (lit '' > '') (common_heading_path merged)) (lit ''[root]'');
          title = or_else (doc_title d) (lit ''[untitled]'')
      in lit ''Document: '' @ title @ [10] @ lit ''Section: '' @ path @ [10, 10] @ fragments_text merged)"

section \<open>The overlap carried into the next chunk\<close>

fun tail_loop :: "unicode \<Rightarrow> fragment list \<Rightarrow> nat \<Rightarrow> fragment list \<Rightarrow> fragment list" where
  "tail_loop U [] remaining selected = selected"
| "tail_loop U (f # fs) remaining selected =
     (if remaining = 0 then selected
      else let ts = spans U (fragment_text f) in
        if length ts \<le> remaining then tail_loop U fs (remaining - length ts) (selected @ [f])
        else let suffix = drop (length ts - remaining) ts in
          tail_loop U fs 0 (selected @
            [\<lparr>frag_block = frag_block f, frag_start = frag_start f + tok_start (hd suffix),
              frag_end = frag_start f + tok_end (last suffix), frag_tokens = length suffix\<rparr>]))"

definition tail_overlap :: "unicode \<Rightarrow> fragment list \<Rightarrow> nat \<Rightarrow> fragment list" where
  "tail_overlap U fs limit = (if limit = 0 then [] else rev (tail_loop U (rev fs) limit []))"

section \<open>Splitting a block\<close>

text \<open>
  The length of the match of \<open>[^.!?]+(?:[.!?]+(?=\s|$)|$)\<close> at the start of \<open>s\<close>, 0 for no
  match. The run of other characters is taken whole: a shorter one is followed by neither a
  terminator nor the end.
\<close>

definition is_terminator :: "cp \<Rightarrow> bool" where
  "is_terminator c \<longleftrightarrow> c = 46 \<or> c = 33 \<or> c = 63"

definition sentence_match :: "pystr \<Rightarrow> nat" where
  "sentence_match s =
     (let run = takeWhile (\<lambda>c. \<not> is_terminator c) s; rest = drop (length run) s;
          stops = takeWhile is_terminator rest; after = drop (length stops) rest
      in if run = [] then 0
         else if rest = [] then length run
         else if after = [] \<or> is_space (hd after) then length run + length stops
         else 0)"

text \<open>\<open>finditer\<close>: the start of each match and the text matched.\<close>

function sentences_from :: "nat \<Rightarrow> pystr \<Rightarrow> (nat \<times> pystr) list" where
  "sentences_from i s =
     (if s = [] then []
      else if sentence_match s = 0 then sentences_from (Suc i) (tl s)
      else (i, take (sentence_match s) s)
             # sentences_from (i + sentence_match s) (drop (sentence_match s) s))"
  by pat_completeness auto
termination
  by (relation "measure (\<lambda>(i, s). length s)") auto

declare sentences_from.simps [simp del]

definition sentence_fragments :: "unicode \<Rightarrow> canonical_block \<Rightarrow> nat \<times> pystr \<Rightarrow> fragment list result" where
  "sentence_fragments U b m =
     (let ts = map (shift_span (fst m)) (spans U (snd m))
      in if ts = [] then Inr []
         else traverse (fragment_from_tokens b) (batches (chunk_target_tokens PIPELINE) ts))"

definition split_block :: "unicode \<Rightarrow> canonical_block \<Rightarrow> fragment list result" where
  "split_block U b =
     (let ts = spans U (blk_text b)
      in if length ts \<le> chunk_max_tokens PIPELINE
         then rbind (fragment_from_tokens b ts) (\<lambda>f. Inr [f])
         else rbind (traverse (sentence_fragments U b) (sentences_from 0 (blk_text b)))
                (\<lambda>fss. Inr (concat fss)))"

section \<open>Fitting a piece into the budget\<close>

text \<open>The fragment of tokens \<open>a..<b\<close> of a piece, at its place in the block.\<close>

definition piece_part :: "fragment \<Rightarrow> token_span list \<Rightarrow> nat \<Rightarrow> nat \<Rightarrow> fragment result" where
  "piece_part piece ts a b =
     rbind (fragment_from_tokens (frag_block piece) (slice ts a b)) (\<lambda>r. Inr
       \<lparr>frag_block = frag_block r, frag_start = frag_start piece + frag_start r,
        frag_end = frag_start piece + frag_end r, frag_tokens = frag_tokens r\<rparr>)"

text \<open>The inner loop: the binary search for the longest prefix that fits.\<close>

function fit_search :: "unicode \<Rightarrow> input_budget \<Rightarrow> canonical_document \<Rightarrow> fragment \<Rightarrow> token_span list
    \<Rightarrow> nat \<Rightarrow> nat \<Rightarrow> nat \<Rightarrow> nat \<Rightarrow> nat result" where
  "fit_search U B d piece ts start low high best =
     (if low \<le> high then
        let middle = (low + high) div 2 in
        (case piece_part piece ts start middle of
           Inl e \<Rightarrow> Inl e
         | Inr candidate \<Rightarrow>
             if ib_fits B (budget_text U d [candidate])
             then fit_search U B d piece ts start (middle + 1) high middle
             else if middle = 0 then Inr best
             else fit_search U B d piece ts start low (middle - 1) best)
      else Inr best)"
  by pat_completeness auto
termination
  by (relation "measure (\<lambda>(U, B, d, piece, ts, start, low, high, best). Suc high - low)") auto

declare fit_search.simps [simp del]

text \<open>The outer loop. A \<open>best\<close> that does not advance is the error of the source.\<close>

function fit_loop :: "unicode \<Rightarrow> input_budget \<Rightarrow> canonical_document \<Rightarrow> fragment \<Rightarrow> token_span list
    \<Rightarrow> nat \<Rightarrow> fragment list result" where
  "fit_loop U B d piece ts start =
     (if start < length ts then
        (case fit_search U B d piece ts start (start + 1) (length ts) start of
           Inl e \<Rightarrow> Inl e
         | Inr best \<Rightarrow>
             if best \<le> start then raise_value ''one source token cannot fit the E1 budget''
             else rbind (piece_part piece ts start best) (\<lambda>part.
                  rbind (fit_loop U B d piece ts best) (\<lambda>rest. Inr (part # rest))))
      else Inr [])"
  by pat_completeness auto
termination
  by (relation "measure (\<lambda>(U, B, d, piece, ts, start). length ts - start)") auto

declare fit_loop.simps [simp del]

definition fit_piece :: "unicode \<Rightarrow> input_budget \<Rightarrow> canonical_document \<Rightarrow> fragment \<Rightarrow> fragment list result" where
  "fit_piece U B d piece =
     (if ib_fits B (budget_text U d [piece]) then Inr [piece]
      else fit_loop U B d piece (spans U (fragment_text piece)) 0)"

section \<open>Packing a section\<close>

record packing =
  pk_packed :: "fragment list list"
  pk_current :: "fragment list"
  pk_tokens :: nat

abbreviation token_sum :: "fragment list \<Rightarrow> nat" where
  "token_sum fs \<equiv> sum_list (map frag_tokens fs)"

text \<open>The \<open>while\<close> loop that drops overlap from the front until the piece fits.\<close>

fun drop_overlap :: "unicode \<Rightarrow> input_budget \<Rightarrow> canonical_document \<Rightarrow> fragment \<Rightarrow> fragment list
    \<Rightarrow> fragment list" where
  "drop_overlap U B d piece [] = []"
| "drop_overlap U B d piece (f # fs) =
     (if ib_fits B (budget_text U d ((f # fs) @ [piece])) then f # fs
      else drop_overlap U B d piece fs)"

definition pack_overlap :: "fragment \<Rightarrow> nat" where
  "pack_overlap piece = min (chunk_overlap_tokens PIPELINE) (chunk_target_tokens PIPELINE - frag_tokens piece)"

definition pack_step :: "unicode \<Rightarrow> input_budget \<Rightarrow> canonical_document \<Rightarrow> packing \<Rightarrow> fragment
    \<Rightarrow> packing result" where
  "pack_step U B d p piece =
     (let exceeds_target = chunk_target_tokens PIPELINE < pk_tokens p + frag_tokens piece;
          exceeds_budget = \<not> ib_fits B (budget_text U d (pk_current p @ [piece]));
          flush = pk_current p \<noteq> [] \<and> (exceeds_target \<or> exceeds_budget);
          packed = (if flush then pk_packed p @ [pk_current p] else pk_packed p);
          kept = (if flush then drop_overlap U B d piece (tail_overlap U (pk_current p) (pack_overlap piece))
                  else pk_current p);
          kept_tokens = (if flush then token_sum kept else pk_tokens p);
          tokens = kept_tokens + frag_tokens piece
      in if chunk_max_tokens PIPELINE < tokens then raise_value ''C1 chunk exceeded its hard maximum''
         else Inr \<lparr>pk_packed = packed, pk_current = kept @ [piece], pk_tokens = tokens\<rparr>)"

definition pack_section :: "unicode \<Rightarrow> input_budget \<Rightarrow> canonical_document \<Rightarrow> fragment list
    \<Rightarrow> fragment list list result" where
  "pack_section U B d pieces =
     rbind (traverse (fit_piece U B d) pieces) (\<lambda>fitted.
     rbind (rfold (pack_step U B d) \<lparr>pk_packed = [], pk_current = [], pk_tokens = 0\<rparr> (concat fitted))
       (\<lambda>p. Inr (if pk_current p \<noteq> [] then pk_packed p @ [pk_current p] else pk_packed p)))"

section \<open>The chunker\<close>

definition section_key :: "canonical_block \<Rightarrow> int option \<times> pystr list" where
  "section_key b = (blk_page_number b, blk_heading_path b)"

text \<open>\<open>itertools.groupby\<close>: the maximal runs of equal keys.\<close>

function group_runs :: "('a \<Rightarrow> 'k) \<Rightarrow> 'a list \<Rightarrow> 'a list list" where
  "group_runs k xs =
     (case xs of [] \<Rightarrow> []
      | x # ys \<Rightarrow> (x # takeWhile (\<lambda>y. k y = k x) ys) # group_runs k (dropWhile (\<lambda>y. k y = k x) ys))"
  by pat_completeness auto
termination
  by (relation "measure (\<lambda>(k, xs). length xs)") (auto simp: less_Suc_eq_le length_dropWhile_le)

declare group_runs.simps [simp del]

definition chunk_of_fragments :: "unicode \<Rightarrow> input_budget \<Rightarrow> canonical_document \<Rightarrow> nat \<Rightarrow> fragment list
    \<Rightarrow> chunk result" where
  "chunk_of_fragments U B d ord fs =
     (let merged = merge_fragments U fs; text = fragments_text merged;
          pages = set (map (\<lambda>f. blk_page_number (frag_block f)) merged)
      in rbind (traverse fragment_locator merged) (\<lambda>locs.
         rbind (chunk_create (doc_id d) (doc_version_id d) (int ord) text (int (count U text)) locs
                 (common_heading_path merged)
                 (if card pages = 1 then blk_page_number (frag_block (hd merged)) else None)
                 (doc_title d)) (\<lambda>c.
         rbind (ib_assert_fits B (chk_embedding_text c)) (\<lambda>_. Inr c))))"

definition chunk_section :: "unicode \<Rightarrow> input_budget \<Rightarrow> canonical_document \<Rightarrow> chunk list
    \<Rightarrow> canonical_block list \<Rightarrow> chunk list result" where
  "chunk_section U B d chunks blocks =
     rbind (traverse (split_block U) blocks) (\<lambda>pieces.
     rbind (pack_section U B d (concat pieces)) (\<lambda>packed.
     rfold (\<lambda>cs fs. rbind (chunk_of_fragments U B d (length cs) fs) (\<lambda>c. Inr (cs @ [c]))) chunks packed))"

definition chunk_document :: "unicode \<Rightarrow> input_budget \<Rightarrow> canonical_document \<Rightarrow> chunk list result" where
  "chunk_document U B d =
     rbind (rfold (chunk_section U B d) [] (group_runs section_key (doc_blocks d))) (\<lambda>chunks.
       if chunks = [] then raise_value ''chunking produced no content'' else Inr chunks)"

end
