(* ===== verification/Fragments.thy ===== *)
theory Fragments
  imports Chunking
begin

text \<open>
  Well-formed fragments of a set of blocks (\<open>frag_ok\<close>): a non-empty span inside the block's
  text that begins and ends with a token and whose recorded count is the number of its tokens.
  Every operation of the chunker that makes fragments makes well-formed ones: cutting at token
  boundaries, merging, the overlap, the split of a block, the fitting of a piece. The second
  half of each lemma says what part of the text the new fragments cover.
\<close>

section \<open>Well-formed fragments\<close>

definition span_ok :: "canonical_block set \<Rightarrow> fragment \<Rightarrow> bool" where
  "span_ok S f \<longleftrightarrow> frag_block f \<in> S \<and> frag_start f < frag_end f
     \<and> frag_end f \<le> length (blk_text (frag_block f))
     \<and> \<not> is_space (blk_text (frag_block f) ! frag_start f)
     \<and> \<not> is_space (blk_text (frag_block f) ! (frag_end f - 1))"

definition frag_ok :: "unicode \<Rightarrow> canonical_block set \<Rightarrow> fragment \<Rightarrow> bool" where
  "frag_ok U S f \<longleftrightarrow> span_ok S f \<and> frag_tokens f = count U (fragment_text f)"

text \<open>Character \<open>i\<close> of block \<open>b\<close> lies in a fragment of the list.\<close>

definition covered :: "fragment list \<Rightarrow> canonical_block \<Rightarrow> nat \<Rightarrow> bool" where
  "covered fs b i \<longleftrightarrow> (\<exists>f \<in> set fs. frag_block f = b \<and> frag_start f \<le> i \<and> i < frag_end f)"

text \<open>Blocks of a document: the text is trimmed and the identifiers are different.\<close>

definition blocks_ok :: "canonical_block set \<Rightarrow> bool" where
  "blocks_ok S \<longleftrightarrow> (\<forall>b \<in> S. block_ok b) \<and> inj_on blk_id S"

lemma document_blocks_ok: "document_ok d \<Longrightarrow> blocks_ok (set (doc_blocks d))"
  by (auto simp: document_ok_def blocks_ok_def list_all_iff distinct_map)

lemma span_okD:
  assumes "span_ok S f"
  shows "frag_block f \<in> S" "frag_start f < frag_end f" "frag_end f \<le> length (blk_text (frag_block f))"
    "length (fragment_text f) = frag_end f - frag_start f" "fragment_text f \<noteq> []"
    "trimmed is_space (fragment_text f)"
proof -
  show ok: "frag_block f \<in> S" "frag_start f < frag_end f" "frag_end f \<le> length (blk_text (frag_block f))"
    using assms by (auto simp: span_ok_def)
  show len: "length (fragment_text f) = frag_end f - frag_start f"
    using ok(2,3) by (simp add: fragment_text_def)
  then show ne: "fragment_text f \<noteq> []" using ok(2) by auto
  then show "trimmed is_space (fragment_text f)"
    using assms len
    by (auto simp: span_ok_def trimmed_def hd_conv_nth last_conv_nth fragment_text_def nth_slice)
qed

lemma frag_ok_tokens:
  assumes "frag_ok U S f"
  shows "span_ok S f" "frag_tokens f = count U (fragment_text f)" "0 < frag_tokens f"
proof -
  show sp: "span_ok S f" and c: "frag_tokens f = count U (fragment_text f)"
    using assms by (simp_all add: frag_ok_def)
  from span_okD(5,6) [OF sp] have "\<not> list_all is_space (fragment_text f)"
    by (auto simp: trimmed_def list_all_iff)
  then show "0 < frag_tokens f" by (simp add: c count_pos_iff)
qed

lemma covered_append [simp]: "covered (xs @ ys) b i \<longleftrightarrow> covered xs b i \<or> covered ys b i"
  by (auto simp: covered_def)

lemma covered_Cons [simp]:
  "covered (f # fs) b i \<longleftrightarrow> (frag_block f = b \<and> frag_start f \<le> i \<and> i < frag_end f) \<or> covered fs b i"
  by (auto simp: covered_def)

lemma covered_Nil [simp]: "\<not> covered [] b i"
  by (simp add: covered_def)

lemma covered_concat: "covered (concat fss) b i \<longleftrightarrow> (\<exists>fs \<in> set fss. covered fs b i)"
  by (auto simp: covered_def)

section \<open>Cutting at token boundaries\<close>

text \<open>
  \<open>s\<close> is the part of \<open>T\<close> from \<open>base\<close> to \<open>e\<close>. The tokens \<open>a..<b\<close> of \<open>s\<close> make a fragment of
  \<open>T\<close> that begins and ends with a token and has \<open>b - a\<close> of them.
\<close>

lemma token_cut:
  assumes e: "e \<le> length T" and s: "s = slice T base e" and ab: "a < b" "b \<le> length (spans U s)"
  defines "m \<equiv> tok_start (spans U s ! a)" and "n \<equiv> tok_end (spans U s ! (b - 1))"
  shows "m < n" "base + n \<le> length T" "slice T (base + m) (base + n) = slice s m n"
    "count U (slice s m n) = b - a"
    "\<not> is_space (T ! (base + m))" "\<not> is_space (T ! (base + n - 1))"
proof -
  have k: "a \<le> b - 1" "b - 1 < length (spans U s)" using ab by auto
  have A: "tok_start (spans U s ! a) < tok_end (spans U s ! a)"
      "tok_end (spans U s ! a) \<le> length s" "tok_text (spans U s ! a) = slice s m (tok_end (spans U s ! a))"
    using span_range [OF nth_mem, of a U s] ab by (auto simp: m_def)
  have B: "tok_start (spans U s ! (b - 1)) < n" "n \<le> length s"
      "tok_text (spans U s ! (b - 1)) = slice s (tok_start (spans U s ! (b - 1))) n"
    using span_range [OF nth_mem [OF k(2)]] by (auto simp: n_def)
  show mn: "m < n" using A(1) spans_nth_le [OF k] by (simp add: m_def n_def)
  have len: "length s = e - base" using e by (simp add: s)
  show le: "base + n \<le> length T" using B mn len e by linarith
  show "slice T (base + m) (base + n) = slice s m n"
    using B(2) len by (simp add: s slice_slice)
  show "count U (slice s m n) = b - a" using count_slice [OF k] k ab by (simp add: m_def n_def)
  have nonspace: "\<not> is_space c" if "c \<in> set (tok_text t)" "t \<in> set (spans U s)" for c t
  proof -
    have "c \<in> set (concat (map tok_text (spans U s)))" using that by auto
    then show ?thesis by (simp add: spans_concat)
  qed
  have "s ! m \<in> set (tok_text (spans U s ! a))"
    unfolding A(3) using A(1,2) nth_mem [of 0 "slice s m (tok_end (spans U s ! a))"]
    by (simp add: m_def nth_slice)
  then have "\<not> is_space (s ! m)" using nonspace ab by (metis nth_mem order_less_le_trans)
  moreover have "s ! m = T ! (base + m)"
    unfolding s by (rule nth_slice) (use mn B(2) len e in auto)
  ultimately show "\<not> is_space (T ! (base + m))" by simp
  let ?p = "tok_start (spans U s ! (b - 1))"
  have "slice s ?p n ! (n - 1 - ?p) \<in> set (slice s ?p n)"
    using B(1,2) by (intro nth_mem) simp
  then have "s ! (n - 1) \<in> set (tok_text (spans U s ! (b - 1)))"
    unfolding B(3) using B(1,2) by (simp add: nth_slice)
  then have "\<not> is_space (s ! (n - 1))" using nonspace nth_mem [OF k(2)] by blast
  moreover have "s ! (n - 1) = T ! (base + (n - 1))"
    unfolding s by (rule nth_slice) (use B(1,2) len e in auto)
  moreover have "base + (n - 1) = base + n - 1" using B(1) by simp
  ultimately show "\<not> is_space (T ! (base + n - 1))" by simp
qed

lemma hd_slice: "a < b \<Longrightarrow> a < length xs \<Longrightarrow> hd (slice xs a b) = xs ! a"
  by (simp add: slice_def hd_drop_conv_nth hd_take)

lemma last_slice:
  assumes "a < b" "b \<le> length xs"
  shows "last (slice xs a b) = xs ! (b - 1)"
proof -
  have "slice xs a b \<noteq> []" using assms by (simp add: slice_empty_iff)
  then show ?thesis using assms by (simp add: last_conv_nth nth_slice)
qed

lemma token_fragment:
  assumes b: "b \<in> S" and e: "e \<le> length (blk_text b)" and s: "s = slice (blk_text b) base e"
    and ij: "i < j" "j \<le> length (spans U s)"
  defines "f \<equiv> \<lparr>frag_block = b, frag_start = base + tok_start (spans U s ! i),
      frag_end = base + tok_end (spans U s ! (j - 1)), frag_tokens = j - i\<rparr>"
  shows "frag_ok U S f"
    and "fragment_from_tokens b (slice (map (shift_span base) (spans U s)) i j) = Inr f"
proof -
  note cut = token_cut [OF e s ij]
  show "frag_ok U S f"
    using cut b by (simp add: frag_ok_def span_ok_def f_def fragment_text_def)
  have ne: "slice (map (shift_span base) (spans U s)) i j \<noteq> []" using ij by (simp add: slice_empty_iff)
  then show "fragment_from_tokens b (slice (map (shift_span base) (spans U s)) i j) = Inr f"
    using ij by (simp add: fragment_from_tokens_def f_def hd_slice last_slice)
qed

lemma fragment_whole:
  assumes "frag_ok U S f"
  shows "tok_start (spans U (fragment_text f) ! 0) = 0"
    "tok_end (spans U (fragment_text f) ! (frag_tokens f - 1)) = frag_end f - frag_start f"
proof -
  note sp = span_okD [OF frag_ok_tokens(1) [OF assms]]
  have "spans U (fragment_text f) \<noteq> []" "tok_start (hd (spans U (fragment_text f))) = 0"
    using spans_first [of "fragment_text f" U] sp(5,6) by (auto simp: trimmed_def)
  then show "tok_start (spans U (fragment_text f) ! 0) = 0" by (simp add: hd_conv_nth)
  have "spans U (fragment_text f) \<noteq> []" "tok_end (last (spans U (fragment_text f))) = length (fragment_text f)"
    using spans_last [of "fragment_text f" U] sp(5,6) by (auto simp: trimmed_def)
  then show "tok_end (spans U (fragment_text f) ! (frag_tokens f - 1)) = frag_end f - frag_start f"
    by (simp add: last_conv_nth frag_ok_tokens(2) [OF assms] count_def sp(4))
qed

section \<open>Merging\<close>

lemma merge_step_ok:
  assumes S: "inj_on blk_id S" and acc: "\<forall>f \<in> set acc. span_ok S f" and f: "span_ok S f"
  shows "\<forall>g \<in> set (merge_step acc f). span_ok S g"
    and "covered acc b i \<or> covered [f] b i \<Longrightarrow> covered (merge_step acc f) b i"
proof -
  have step: "(\<forall>g \<in> set (merge_step acc f). span_ok S g)
      \<and> (covered acc b i \<or> covered [f] b i \<longrightarrow> covered (merge_step acc f) b i)"
  proof (cases "acc \<noteq> [] \<and> blk_id (frag_block (last acc)) = blk_id (frag_block f)")
    case True
    let ?l = "last acc"
    let ?g = "\<lparr>frag_block = frag_block f, frag_start = min (frag_start ?l) (frag_start f),
        frag_end = max (frag_end ?l) (frag_end f), frag_tokens = 0\<rparr>"
    have l: "span_ok S ?l" using True acc by simp
    have same: "frag_block ?l = frag_block f"
      using True span_okD(1) [OF l] span_okD(1) [OF f] S by (meson inj_onD)
    have eq: "merge_step acc f = butlast acc @ [?g]" using True same by (simp add: merge_step_def)
    have "frag_start ?g = frag_start ?l \<or> frag_start ?g = frag_start f"
        "frag_end ?g = frag_end ?l \<or> frag_end ?g = frag_end f" by (auto simp: min_def max_def)
    then have "span_ok S ?g" using l f same unfolding span_ok_def by auto
    moreover have "covered acc b i \<longleftrightarrow> covered (butlast acc) b i \<or> covered [?l] b i"
      using True by (metis append_butlast_last_id covered_append)
    ultimately show ?thesis using acc same by (auto simp: eq dest: in_set_butlastD)
  next
    case False
    then have "merge_step acc f = acc @ [f]" by (auto simp: merge_step_def)
    with acc f show ?thesis by auto
  qed
  then show "\<forall>g \<in> set (merge_step acc f). span_ok S g"
    and "covered acc b i \<or> covered [f] b i \<Longrightarrow> covered (merge_step acc f) b i" by blast+
qed

lemma merge_step_nonempty: "merge_step acc f \<noteq> []"
  by (simp add: merge_step_def)

lemma merge_fold:
  assumes S: "inj_on blk_id S" and acc: "\<forall>f \<in> set acc. span_ok S f" and fs: "\<forall>f \<in> set fs. span_ok S f"
  shows "(\<forall>g \<in> set (foldl merge_step acc fs). span_ok S g)
      \<and> (covered acc b i \<or> covered fs b i \<longrightarrow> covered (foldl merge_step acc fs) b i)"
  using acc fs
proof (induction fs arbitrary: acc)
  case (Cons f fs)
  have f: "span_ok S f" using Cons.prems by simp
  show ?case
    using Cons.IH [OF merge_step_ok(1) [OF S Cons.prems(1) f]] merge_step_ok(2) [OF S Cons.prems(1) f]
      Cons.prems(2) by auto
qed simp

text \<open>Merging keeps fragments well-formed, loses nothing and gives no empty list.\<close>

lemma merge_fragments_ok:
  assumes S: "blocks_ok S" and fs: "\<forall>f \<in> set fs. frag_ok U S f"
  shows "\<forall>g \<in> set (merge_fragments U fs). frag_ok U S g"
    and "covered fs b i \<Longrightarrow> covered (merge_fragments U fs) b i"
    and "fs \<noteq> [] \<Longrightarrow> merge_fragments U fs \<noteq> []"
proof -
  have S': "inj_on blk_id S" using S by (simp add: blocks_ok_def)
  have fs': "\<forall>f \<in> set fs. span_ok S f" using fs by (simp add: frag_ok_def)
  note all = merge_fold [OF S' _ fs', of "[]"]
  then show "\<forall>g \<in> set (merge_fragments U fs). frag_ok U S g"
    by (auto simp: merge_fragments_def frag_ok_def span_ok_def fragment_text_def)
  from all show "covered fs b i \<Longrightarrow> covered (merge_fragments U fs) b i"
    by (auto simp: merge_fragments_def covered_def)
  show "fs \<noteq> [] \<Longrightarrow> merge_fragments U fs \<noteq> []"
    by (cases fs rule: rev_cases) (auto simp: merge_fragments_def merge_step_nonempty)
qed

lemma merge_step_blocks: "frag_block ` set (merge_step acc f) \<subseteq> frag_block ` set acc \<union> {frag_block f}"
  by (auto simp: merge_step_def dest: in_set_butlastD)

lemma merge_fragments_blocks: "frag_block ` set (merge_fragments U fs) \<subseteq> frag_block ` set fs"
proof -
  have "frag_block ` set (foldl merge_step acc fs) \<subseteq> frag_block ` set acc \<union> frag_block ` set fs" for acc
  proof (induction fs arbitrary: acc)
    case (Cons f fs)
    show ?case using Cons.IH [of "merge_step acc f"] merge_step_blocks [of acc f] by auto
  qed simp
  from this [of "[]"] show ?thesis by (auto simp: merge_fragments_def)
qed

section \<open>The overlap\<close>

text \<open>The overlap consists of well-formed fragments of the same blocks, within its limit.\<close>

lemma suffix_fragment:
  assumes f: "frag_ok U S f" and r: "0 < r" "r < length (spans U (fragment_text f))"
  defines "ts \<equiv> spans U (fragment_text f)"
  defines "g \<equiv> \<lparr>frag_block = frag_block f, frag_start = frag_start f + tok_start (hd (drop (length ts - r) ts)),
      frag_end = frag_start f + tok_end (last (drop (length ts - r) ts)),
      frag_tokens = length (drop (length ts - r) ts)\<rparr>"
  shows "frag_ok U S g" "frag_tokens g = r"
proof -
  note sp = span_okD [OF frag_ok_tokens(1) [OF f]]
  have ij: "length ts - r < length ts" "length ts \<le> length (spans U (fragment_text f))"
    using r by (auto simp: ts_def)
  have eq: "hd (drop (length ts - r) ts) = spans U (fragment_text f) ! (length ts - r)"
      "last (drop (length ts - r) ts) = spans U (fragment_text f) ! (length ts - 1)"
    using r by (auto simp: ts_def hd_drop_conv_nth last_drop last_conv_nth)
  show "frag_ok U S g"
    using token_fragment(1) [OF sp(1,3), of "fragment_text f" "frag_start f" "length ts - r" "length ts" U] ij
    unfolding g_def eq by (simp add: fragment_text_def)
  show "frag_tokens g = r" using r by (simp add: g_def ts_def)
qed

lemma tail_loop_ok:
  assumes "\<forall>f \<in> set fs. frag_ok U S f" "\<forall>f \<in> set sel. frag_ok U S f"
  shows "(\<forall>f \<in> set (tail_loop U fs r sel). frag_ok U S f)
    \<and> token_sum (tail_loop U fs r sel) \<le> token_sum sel + r
    \<and> frag_block ` set (tail_loop U fs r sel) \<subseteq> frag_block ` set fs \<union> frag_block ` set sel"
  using assms
proof (induction fs arbitrary: r sel)
  case (Cons f fs)
  have f: "frag_ok U S f" using Cons.prems by simp
  let ?ts = "spans U (fragment_text f)"
  show ?case
  proof (cases "r = 0")
    case False
    show ?thesis
    proof (cases "length ?ts \<le> r")
      case True
      have "frag_tokens f = length ?ts" using frag_ok_tokens(2) [OF f] by (simp add: count_def)
      with True False Cons.IH [of "sel @ [f]" "r - length ?ts"] Cons.prems
      show ?thesis by auto
    next
      case long: False
      with False have "0 < r" "r < length ?ts" by auto
      note sfx = suffix_fragment [OF f this]
      have stop: "tail_loop U gs 0 xs = xs" for gs xs by (cases gs) auto
      show ?thesis
        using sfx Cons.prems False long by (auto simp: stop Let_def)
    qed
  qed (use Cons.prems in auto)
qed simp

lemma tail_overlap_ok:
  assumes "\<forall>f \<in> set fs. frag_ok U S f"
  shows "\<forall>f \<in> set (tail_overlap U fs r). frag_ok U S f"
    and "token_sum (tail_overlap U fs r) \<le> r"
    and "frag_block ` set (tail_overlap U fs r) \<subseteq> frag_block ` set fs"
  using tail_loop_ok [of "rev fs" U S "[]" r] assms
  by (auto simp: tail_overlap_def rev_map [symmetric] sum_list_rev)

lemma drop_overlap_suffix: "\<exists>pre. fs = pre @ drop_overlap U B d piece fs"
proof (induction fs)
  case (Cons f fs)
  then obtain pre where "fs = pre @ drop_overlap U B d piece fs" by blast
  then have tail: "f # fs = (f # pre) @ drop_overlap U B d piece fs" by simp
  show ?case
  proof (cases "ib_fits B (budget_text U d ((f # fs) @ [piece]))")
    case True
    then show ?thesis by simp
  next
    case False
    then have "drop_overlap U B d piece (f # fs) = drop_overlap U B d piece fs" by simp
    with tail show ?thesis by metis
  qed
qed simp

lemma drop_overlap_fits:
  "drop_overlap U B d piece fs \<noteq> [] \<Longrightarrow> ib_fits B (budget_text U d (drop_overlap U B d piece fs @ [piece]))"
  by (induction fs) (auto split: if_splits)

section \<open>Splitting a block\<close>

lemma batches_split: "b \<in> set (batches n xs) \<Longrightarrow> \<exists>i j. i < j \<and> j \<le> length xs \<and> b = slice xs i j"
proof (induction n xs rule: batches.induct)
  case (1 n xs)
  show ?case
  proof (cases "xs = [] \<or> n = 0")
    case True
    with "1.prems" show ?thesis by (simp add: batches.simps [of n xs])
  next
    case False
    with "1.prems" consider "b = take n xs" | "b \<in> set (batches n (drop n xs))"
      by (auto simp: batches.simps [of n xs])
    then show ?thesis
    proof cases
      case 1
      with False have "0 < min n (length xs) \<and> min n (length xs) \<le> length xs
          \<and> b = slice xs 0 (min n (length xs))"
        by (auto simp: slice_def min_def)
      then show ?thesis by blast
    next
      case 2
      with "1.IH" [OF False] obtain i j where ij: "i < j" "j \<le> length (drop n xs)" "b = slice (drop n xs) i j"
        by blast
      then have "b = slice xs (n + i) (n + j)" "n + j \<le> length xs" by (auto simp: slice_def add.commute)
      with ij(1) show ?thesis by (intro exI [of _ "n + i"] exI [of _ "n + j"]) simp
    qed
  qed
qed

lemma sentence_match_le: "sentence_match s \<le> length s"
proof -
  let ?run = "takeWhile (\<lambda>c. \<not> is_terminator c) s"
  let ?rest = "drop (length ?run) s"
  have "length ?run \<le> length s" "length (takeWhile is_terminator ?rest) \<le> length ?rest"
    by (rule length_takeWhile_le)+
  then have "length ?run + length (takeWhile is_terminator ?rest) \<le> length s" by simp
  then show ?thesis by (auto simp: sentence_match_def Let_def length_takeWhile_le)
qed

lemma sentences_from_slice:
  "(k, m) \<in> set (sentences_from i s) \<Longrightarrow> i \<le> k \<and> k - i + length m \<le> length s \<and> m = slice s (k - i) (k - i + length m)"
proof (induction i s rule: sentences_from.induct)
  case (1 i s)
  let ?n = "sentence_match s"
  have n: "?n \<le> length s" by (rule sentence_match_le)
  show ?case
  proof (cases "s = []")
    case True
    with "1.prems" show ?thesis by (simp add: sentences_from.simps)
  next
    case ne: False
    show ?thesis
    proof (cases "?n = 0")
      case True
      with "1.prems" ne have "(k, m) \<in> set (sentences_from (Suc i) (tl s))"
        by (simp add: sentences_from.simps [of i s])
      from "1.IH"(1) [OF ne True this] ne show ?thesis
        by (cases s) (auto simp: slice_def Suc_diff_le drop_Cons')
    next
      case False
      with "1.prems" ne consider "k = i" "m = take ?n s" | "(k, m) \<in> set (sentences_from (i + ?n) (drop ?n s))"
        by (auto simp: sentences_from.simps [of i s])
      then show ?thesis
      proof cases
        case 1
        with n show ?thesis by (simp add: slice_def)
      next
        case 2
        from "1.IH"(2) [OF ne False this] n show ?thesis
          by (auto simp: slice_def add.commute)
      qed
    qed
  qed
qed

lemma sentence_fragments_ok:
  assumes b: "b \<in> S" and m: "m \<in> set (sentences_from 0 (blk_text b))"
  shows "\<exists>fs. sentence_fragments U b m = Inr fs \<and> (\<forall>f \<in> set fs. frag_ok U S f \<and> frag_block f = b \<and> frag_tokens f \<le> 350)"
proof -
  obtain k w where mw: "m = (k, w)" by force
  have w: "k + length w \<le> length (blk_text b)" "w = slice (blk_text b) k (k + length w)"
    using sentences_from_slice [of k w 0 "blk_text b"] m by (auto simp: mw)
  let ?ts = "map (shift_span k) (spans U w)"
  show ?thesis
  proof (cases "?ts = []")
    case True
    then show ?thesis by (simp add: sentence_fragments_def mw)
  next
    case False
    have frag: "\<exists>f. fragment_from_tokens b x = Inr f \<and> frag_ok U S f \<and> frag_block f = b \<and> frag_tokens f \<le> 350"
      if x: "x \<in> set (batches 350 ?ts)" for x
    proof -
      obtain i j where ij: "i < j" "j \<le> length ?ts" "x = slice ?ts i j" using batches_split [OF x] by blast
      have "length x \<le> 350" using batches_bounds [OF _ x] by simp
      with ij have "j - i \<le> 350" by simp
      with token_fragment [OF b w(1) w(2) ij(1), of U] ij(2,3) show ?thesis by auto
    qed
    then obtain fs where fs: "traverse (fragment_from_tokens b) (batches 350 ?ts) = Inr fs"
      using traverse_total [of "batches 350 ?ts" "fragment_from_tokens b"] by blast
    have "frag_ok U S f \<and> frag_block f = b \<and> frag_tokens f \<le> 350" if "f \<in> set fs" for f
      using traverse_member [OF fs that] frag by force
    with fs False show ?thesis by (simp add: sentence_fragments_def mw)
  qed
qed

lemma spans_nonempty_block: "block_ok b \<Longrightarrow> spans U (blk_text b) \<noteq> []"
  using spans_first [of "blk_text b" U] by (auto simp: block_ok_def trimmed_def)

lemma whole_block_fragment:
  fixes U :: unicode
  assumes b: "b \<in> S" "block_ok b"
  defines "f \<equiv> \<lparr>frag_block = b, frag_start = 0, frag_end = length (blk_text b), frag_tokens = count U (blk_text b)\<rparr>"
  shows "fragment_from_tokens b (spans U (blk_text b)) = Inr f" "frag_ok U S f"
proof -
  have t: "blk_text b \<noteq> []" "\<not> is_space (hd (blk_text b))" "\<not> is_space (last (blk_text b))"
    using b(2) by (auto simp: block_ok_def trimmed_def)
  show "fragment_from_tokens b (spans U (blk_text b)) = Inr f"
    using spans_first [OF t(1,2)] spans_last [OF t(1,3)]
    by (simp add: fragment_from_tokens_def f_def count_def)
  show "frag_ok U S f"
    using t b by (simp add: f_def frag_ok_def span_ok_def fragment_text_def hd_conv_nth last_conv_nth)
qed

text \<open>
  A block always splits into well-formed fragments of at most 500 tokens; one of at most 500
  tokens becomes a single fragment that covers it.
\<close>

lemma split_block_ok:
  assumes b: "b \<in> S" "block_ok b"
  shows "\<exists>fs. split_block U b = Inr fs \<and> (\<forall>f \<in> set fs. frag_ok U S f \<and> frag_block f = b \<and> frag_tokens f \<le> 500)
     \<and> (count U (blk_text b) \<le> 500 \<longrightarrow> fs \<noteq> [] \<and> (\<forall>i < length (blk_text b). covered fs b i))"
proof (cases "length (spans U (blk_text b)) \<le> 500")
  case True
  with whole_block_fragment [OF b, of U] show ?thesis
    by (simp add: split_block_def Let_def count_def)
next
  case False
  obtain fss where fss: "traverse (sentence_fragments U b) (sentences_from 0 (blk_text b)) = Inr fss"
    using traverse_total [of "sentences_from 0 (blk_text b)" "sentence_fragments U b"]
      sentence_fragments_ok [OF b(1), of _ U] by blast
  have "frag_ok U S f \<and> frag_block f = b \<and> frag_tokens f \<le> 500" if "f \<in> set (concat fss)" for f
  proof -
    from that obtain fs where "fs \<in> set fss" "f \<in> set fs" by auto
    with traverse_member [OF fss] obtain m where
      "m \<in> set (sentences_from 0 (blk_text b))" "sentence_fragments U b m = Inr fs" by blast
    with sentence_fragments_ok [OF b(1), of m U] \<open>f \<in> set fs\<close> show ?thesis by fastforce
  qed
  with fss False show ?thesis by (auto simp: split_block_def Let_def count_def)
qed

end
