(* ===== verification/Packing.thy ===== *)
theory Packing
  imports Fragments
begin

text \<open>
  The two search procedures of the chunker: \<open>fit_piece\<close>, whose binary search cuts a piece into
  parts that fit the budget, and \<open>pack_section\<close>, which groups the parts. The lemmas give what
  every result satisfies (fits, well-formed, within the token bounds, nothing lost), when the
  error of \<open>fit_piece\<close> cannot occur, and that the hard-maximum error of \<open>pack_section\<close>
  never does.
\<close>

section \<open>Fitting a piece\<close>

definition part :: "unicode \<Rightarrow> fragment \<Rightarrow> nat \<Rightarrow> nat \<Rightarrow> fragment" where
  "part U piece a b =
     \<lparr>frag_block = frag_block piece,
      frag_start = frag_start piece + tok_start (spans U (fragment_text piece) ! a),
      frag_end = frag_start piece + tok_end (spans U (fragment_text piece) ! (b - 1)),
      frag_tokens = b - a\<rparr>"

lemma piece_part_eq:
  "a < b \<Longrightarrow> b \<le> length (spans U (fragment_text piece)) \<Longrightarrow>
     piece_part piece (spans U (fragment_text piece)) a b = Inr (part U piece a b)"
  by (simp add: piece_part_def fragment_from_tokens_def slice_empty_iff hd_slice last_slice part_def)

lemma part_ok:
  assumes p: "frag_ok U S piece" and ab: "a < b" "b \<le> length (spans U (fragment_text piece))"
  shows "frag_ok U S (part U piece a b)"
proof -
  note sp = span_okD [OF frag_ok_tokens(1) [OF p]]
  show ?thesis
    using token_fragment(1) [OF sp(1,3) _ ab, of "frag_start piece"]
    by (simp add: part_def fragment_text_def)
qed

abbreviation fits_alone :: "unicode \<Rightarrow> input_budget \<Rightarrow> canonical_document \<Rightarrow> fragment \<Rightarrow> bool" where
  "fits_alone U B d f \<equiv> ib_fits B (budget_text U d [f])"

text \<open>
  The binary search returns, from a \<open>best\<close> that fits or has not moved, such a \<open>best\<close>; it
  never goes back; and it has moved past the start if the first token fits.
\<close>

lemma fit_search_result:
  assumes "start \<le> best" "best < low" "high \<le> length (spans U (fragment_text piece))"
    "best \<le> length (spans U (fragment_text piece))"
    "start < best \<Longrightarrow> fits_alone U B d (part U piece start best)"
  shows "\<exists>r. fit_search U B d piece (spans U (fragment_text piece)) start low high best = Inr r
     \<and> best \<le> r \<and> r \<le> length (spans U (fragment_text piece))
     \<and> (start < r \<longrightarrow> fits_alone U B d (part U piece start r))
     \<and> (low = Suc start \<longrightarrow> low \<le> high \<longrightarrow>
          fits_alone U B d (part U piece start (Suc start)) \<longrightarrow> start < r)"
  using assms
proof (induction "Suc high - low" arbitrary: low high best rule: less_induct)
  case less
  let ?ts = "spans U (fragment_text piece)"
  show ?case
  proof (cases "low \<le> high")
    case False
    with less.prems show ?thesis by (simp add: fit_search.simps)
  next
    case True
    let ?m = "(low + high) div 2"
    have m: "low \<le> ?m" "?m \<le> high" "start < ?m" using True less.prems(1,2) by auto
    have cand: "piece_part piece ?ts start ?m = Inr (part U piece start ?m)"
      using m less.prems(3) by (simp add: piece_part_eq)
    show ?thesis
    proof (cases "fits_alone U B d (part U piece start ?m)")
      case fit: True
      have step: "fit_search U B d piece ?ts start low high best
          = fit_search U B d piece ?ts start (?m + 1) high ?m"
        using True fit by (simp add: fit_search.simps [of _ _ _ _ _ _ low] Let_def cand)
      obtain r where "fit_search U B d piece ?ts start (?m + 1) high ?m = Inr r" "?m \<le> r" "r \<le> length ?ts"
          "start < r \<longrightarrow> fits_alone U B d (part U piece start r)"
        using less.hyps [of high "?m + 1" ?m] m less.prems(3) fit by fastforce
      with m less.prems(2) show ?thesis unfolding step by fastforce
    next
      case nofit: False
      have step: "fit_search U B d piece ?ts start low high best
          = fit_search U B d piece ?ts start low (?m - 1) best"
        using True nofit m(3) by (simp add: fit_search.simps [of _ _ _ _ _ _ low] Let_def cand)
      have single: "low \<le> ?m - 1"
        if "low = Suc start" "fits_alone U B d (part U piece start (Suc start))"
        using that nofit m by (metis Suc_leI diff_Suc_1 le_neq_implies_less less_eq_Suc_le Suc_pred'
            zero_less_Suc Suc_le_mono not_less_eq_eq order_less_le_trans)
      obtain r where "fit_search U B d piece ?ts start low (?m - 1) best = Inr r" "best \<le> r" "r \<le> length ?ts"
          "start < r \<longrightarrow> fits_alone U B d (part U piece start r)"
          "low = Suc start \<longrightarrow> low \<le> ?m - 1 \<longrightarrow>
             fits_alone U B d (part U piece start (Suc start)) \<longrightarrow> start < r"
        using less.hyps [of "?m - 1" low best] m less.prems by fastforce
      with single show ?thesis unfolding step by blast
    qed
  qed
qed

text \<open>The error of the outer loop, and what a result of it satisfies.\<close>

definition no_fit :: exn where
  "no_fit = ValueError (lit ''one source token cannot fit the E1 budget'')"

lemma fit_loop_result:
  assumes p: "frag_ok U S piece" and s: "start \<le> length (spans U (fragment_text piece))"
  shows "case fit_loop U B d piece (spans U (fragment_text piece)) start of
      Inl e \<Rightarrow> e = no_fit \<and> (\<exists>k. start \<le> k \<and> k < length (spans U (fragment_text piece))
                 \<and> \<not> fits_alone U B d (part U piece k (Suc k)))
    | Inr fs \<Rightarrow> (\<forall>f \<in> set fs. frag_ok U S f \<and> frag_block f = frag_block piece \<and> fits_alone U B d f
                 \<and> frag_tokens f \<le> frag_tokens piece)
        \<and> (\<forall>k i. start \<le> k \<longrightarrow> k < length (spans U (fragment_text piece)) \<longrightarrow>
             tok_start (spans U (fragment_text piece) ! k) \<le> i \<longrightarrow>
             i < tok_end (spans U (fragment_text piece) ! k) \<longrightarrow>
             covered fs (frag_block piece) (frag_start piece + i))"
  using s
proof (induction "length (spans U (fragment_text piece)) - start" arbitrary: start rule: less_induct)
  case less
  let ?ts = "spans U (fragment_text piece)" and ?n = "length (spans U (fragment_text piece))"
  show ?case
  proof (cases "start < ?n")
    case False
    then show ?thesis by (simp add: fit_loop.simps)
  next
    case True
    obtain r where r: "fit_search U B d piece ?ts start (start + 1) ?n start = Inr r" "start \<le> r" "r \<le> ?n"
        "start < r \<longrightarrow> fits_alone U B d (part U piece start r)"
        "fits_alone U B d (part U piece start (Suc start)) \<longrightarrow> start < r"
      using fit_search_result [of start start "start + 1" ?n U piece B d] True by fastforce
    show ?thesis
    proof (cases "r \<le> start")
      case stuck: True
      have "fit_loop U B d piece ?ts start = Inl no_fit"
        using r(1) True stuck by (subst fit_loop.simps) (simp add: no_fit_def)
      moreover have "\<not> fits_alone U B d (part U piece start (Suc start))" using r(5) stuck by auto
      ultimately show ?thesis using True by auto
    next
      case moved: False
      then have pp: "piece_part piece ?ts start r = Inr (part U piece start r)"
        using r(3) by (simp add: piece_part_eq)
      have eq: "fit_loop U B d piece ?ts start
          = rbind (fit_loop U B d piece ?ts r) (\<lambda>rest. Inr (part U piece start r # rest))"
        using True moved r(1) by (simp add: fit_loop.simps [of _ _ _ _ _ start] pp)
      have IH: "case fit_loop U B d piece ?ts r of
          Inl e \<Rightarrow> e = no_fit \<and> (\<exists>k. r \<le> k \<and> k < ?n \<and> \<not> fits_alone U B d (part U piece k (Suc k)))
        | Inr fs \<Rightarrow> (\<forall>f \<in> set fs. frag_ok U S f \<and> frag_block f = frag_block piece \<and> fits_alone U B d f
              \<and> frag_tokens f \<le> frag_tokens piece)
            \<and> (\<forall>k i. r \<le> k \<longrightarrow> k < ?n \<longrightarrow> tok_start (?ts ! k) \<le> i \<longrightarrow> i < tok_end (?ts ! k) \<longrightarrow>
                 covered fs (frag_block piece) (frag_start piece + i))"
        using less.hyps [of r] r(3) moved True by linarith
      show ?thesis
      proof (cases "fit_loop U B d piece ?ts r")
        case (Inl e)
        with IH obtain k where "e = no_fit" "r \<le> k" "k < ?n" "\<not> fits_alone U B d (part U piece k (Suc k))"
          by auto
        with moved show ?thesis unfolding eq Inl
          by simp (meson nat_le_linear order_trans)
      next
        case (Inr fs)
        have ok: "frag_ok U S (part U piece start r)" using part_ok [OF p] moved r(3) by simp
        have tok: "frag_tokens (part U piece start r) \<le> frag_tokens piece"
          using r(3) frag_ok_tokens(2) [OF p] by (simp add: part_def count_def)
        have cov: "covered [part U piece start r] (frag_block piece) (frag_start piece + i)"
          if "start \<le> k" "k < r" "tok_start (?ts ! k) \<le> i" "i < tok_end (?ts ! k)" for k i
        proof -
          have "tok_start (?ts ! start) \<le> tok_start (?ts ! k)" "tok_end (?ts ! k) \<le> tok_end (?ts ! (r - 1))"
            using spans_nth_le [of start k U "fragment_text piece"] that
              spans_nth_le [of k "r - 1" U "fragment_text piece"] r(3) by auto
          with that show ?thesis by (simp add: part_def)
        qed
        have "covered (part U piece start r # fs) (frag_block piece) (frag_start piece + i)"
          if "start \<le> k" "k < ?n" "tok_start (?ts ! k) \<le> i" "i < tok_end (?ts ! k)" for k i
        proof (cases "k < r")
          case True
          with cov that show ?thesis by fastforce
        next
          case False
          have "\<forall>k i. r \<le> k \<longrightarrow> k < ?n \<longrightarrow> tok_start (?ts ! k) \<le> i \<longrightarrow> i < tok_end (?ts ! k) \<longrightarrow>
              covered fs (frag_block piece) (frag_start piece + i)"
            using IH Inr by simp
          with that False have "covered fs (frag_block piece) (frag_start piece + i)"
            by (meson not_less)
          then show ?thesis by simp
        qed
        moreover have "frag_block (part U piece start r) = frag_block piece" by (simp add: part_def)
        ultimately show ?thesis using IH Inr ok tok r(4) moved by (simp add: eq del: covered_Cons)
      qed
    qed
  qed
qed

text \<open>
  The result of \<open>fit_piece\<close>: parts of the piece that each fit the budget and together cover
  every character of it that is not white space. The only error means that one token of the
  piece does not fit.
\<close>

lemma fit_piece_result:
  assumes p: "frag_ok U S piece"
  shows "case fit_piece U B d piece of
      Inl e \<Rightarrow> e = no_fit \<and> (\<exists>g. frag_ok U S g \<and> frag_tokens g = 1 \<and> frag_block g = frag_block piece
                 \<and> \<not> fits_alone U B d g)
    | Inr fs \<Rightarrow> (\<forall>f \<in> set fs. frag_ok U S f \<and> frag_block f = frag_block piece \<and> fits_alone U B d f
                 \<and> frag_tokens f \<le> frag_tokens piece)
        \<and> (\<forall>i. frag_start piece \<le> i \<longrightarrow> i < frag_end piece \<longrightarrow>
             \<not> is_space (blk_text (frag_block piece) ! i) \<longrightarrow> covered fs (frag_block piece) i)"
proof (cases "fits_alone U B d piece")
  case True
  with p show ?thesis by (simp add: fit_piece_def)
next
  case False
  let ?ts = "spans U (fragment_text piece)"
  have eq: "fit_piece U B d piece = fit_loop U B d piece ?ts 0" using False by (simp add: fit_piece_def)
  note res = fit_loop_result [OF p, of 0 B d]
  show ?thesis
  proof (cases "fit_loop U B d piece ?ts 0")
    case (Inl e)
    with res obtain k where k: "e = no_fit" "k < length ?ts" "\<not> fits_alone U B d (part U piece k (Suc k))"
      by auto
    moreover have "frag_ok U S (part U piece k (Suc k))" using part_ok [OF p] k(2) by simp
    moreover have "frag_tokens (part U piece k (Suc k)) = 1" "frag_block (part U piece k (Suc k)) = frag_block piece"
      by (simp_all add: part_def)
    ultimately show ?thesis unfolding eq Inl by auto
  next
    case (Inr fs)
    have "covered fs (frag_block piece) i"
      if i: "frag_start piece \<le> i" "i < frag_end piece" "\<not> is_space (blk_text (frag_block piece) ! i)" for i
    proof -
      note sp = span_okD [OF frag_ok_tokens(1) [OF p]]
      let ?j = "i - frag_start piece"
      have j: "?j < length (fragment_text piece)" using i sp(4) by simp
      have "fragment_text piece ! ?j = blk_text (frag_block piece) ! i"
        unfolding fragment_text_def using i sp(3) by (subst nth_slice) auto
      with j i(3) obtain t where "t \<in> set ?ts" "tok_start t \<le> ?j" "?j < tok_end t"
        using spans_cover [OF j, of U] by auto
      then obtain k where "k < length ?ts" "tok_start (?ts ! k) \<le> ?j" "?j < tok_end (?ts ! k)"
        by (auto simp: in_set_conv_nth)
      then have "covered fs (frag_block piece) (frag_start piece + ?j)" using res Inr by simp
      then show ?thesis using i(1) by simp
    qed
    with res Inr show ?thesis by (simp add: eq)
  qed
qed

section \<open>Packing a section\<close>

text \<open>
  What the loop of \<open>_pack_section\<close> keeps: the groups packed so far and the current one are
  non-empty (the current one also empty at the start), consist of well-formed fragments, fit
  the budget, hold at most 500 tokens, and cover every piece seen.
\<close>

definition group_ok :: "unicode \<Rightarrow> input_budget \<Rightarrow> canonical_document \<Rightarrow> canonical_block set
    \<Rightarrow> fragment list \<Rightarrow> bool" where
  "group_ok U B d S fs \<longleftrightarrow> fs \<noteq> [] \<and> (\<forall>f \<in> set fs. frag_ok U S f) \<and> ib_fits B (budget_text U d fs)
     \<and> token_sum fs \<le> chunk_max_tokens PIPELINE"

definition packing_ok :: "unicode \<Rightarrow> input_budget \<Rightarrow> canonical_document \<Rightarrow> canonical_block set
    \<Rightarrow> packing \<Rightarrow> bool" where
  "packing_ok U B d S p \<longleftrightarrow> (\<forall>fs \<in> set (pk_packed p). group_ok U B d S fs)
     \<and> (pk_current p = [] \<or> group_ok U B d S (pk_current p)) \<and> pk_tokens p = token_sum (pk_current p)"

definition packing_groups :: "packing \<Rightarrow> fragment list list" where
  "packing_groups p = pk_packed p @ (if pk_current p \<noteq> [] then [pk_current p] else [])"

lemma set_groups: "set (concat (packing_groups p)) = set (concat (pk_packed p)) \<union> set (pk_current p)"
  by (auto simp: packing_groups_def)

lemma covered_groups:
  "covered (concat (packing_groups p)) b i \<longleftrightarrow> covered (concat (pk_packed p)) b i \<or> covered (pk_current p) b i"
  by (auto simp: packing_groups_def)

text \<open>
  One step, for a piece that fits by itself and has at most 500 tokens: it never raises, keeps
  the invariant, and loses neither the piece nor a group.
\<close>

lemma pack_step_ok:
  assumes inv: "packing_ok U B d S p" and f: "frag_ok U S f" "fits_alone U B d f" "frag_tokens f \<le> 500"
  shows "\<exists>q. pack_step U B d p f = Inr q \<and> packing_ok U B d S q
     \<and> (\<exists>kept. pk_current q = kept @ [f] \<and> frag_block ` set kept \<subseteq> frag_block ` set (pk_current p)
         \<and> (kept = pk_current p \<and> pk_packed q = pk_packed p \<or> pk_packed q = packing_groups p))"
proof -
  let ?cur = "pk_current p"
  let ?flush = "?cur \<noteq> [] \<and> (350 < pk_tokens p + frag_tokens f \<or> \<not> ib_fits B (budget_text U d (?cur @ [f])))"
  let ?over = "tail_overlap U ?cur (pack_overlap f)"
  show ?thesis
  proof (cases ?flush)
    case True
    let ?kept = "drop_overlap U B d f ?over"
    have cur: "\<forall>g \<in> set ?cur. frag_ok U S g" using inv True by (simp add: packing_ok_def group_ok_def)
    note tail = tail_overlap_ok [OF cur, of "pack_overlap f"]
    obtain pre where pre: "?over = pre @ ?kept" using drop_overlap_suffix by blast
    then have sub: "set ?kept \<subseteq> set ?over" by (metis set_append sup_ge2)
    have sum: "token_sum ?kept \<le> token_sum ?over" by (subst (2) pre) simp
    have bound: "token_sum ?kept + frag_tokens f \<le> 500"
      using sum tail(2) f(3) unfolding pack_overlap_def PIPELINE_simps by linarith
    have fits: "ib_fits B (budget_text U d (?kept @ [f]))"
      using drop_overlap_fits [of U B d f ?over] f(2) by (cases "?kept = []") auto
    have ok: "group_ok U B d S (?kept @ [f])"
      using tail(1) sub f(1) fits bound by (auto simp: group_ok_def)
    let ?q = "\<lparr>pk_packed = pk_packed p @ [?cur], pk_current = ?kept @ [f], pk_tokens = token_sum ?kept + frag_tokens f\<rparr>"
    have step: "pack_step U B d p f = Inr ?q"
      using True bound by (simp add: pack_step_def Let_def)
    have "packing_ok U B d S ?q" using inv ok True by (auto simp: packing_ok_def)
    moreover have "frag_block ` set ?kept \<subseteq> frag_block ` set ?cur" using sub tail(3) by blast
    ultimately show ?thesis using step True by (auto simp: packing_groups_def)
  next
    case False
    let ?q = "\<lparr>pk_packed = pk_packed p, pk_current = ?cur @ [f], pk_tokens = pk_tokens p + frag_tokens f\<rparr>"
    have tokens: "pk_tokens p = token_sum ?cur" using inv by (simp add: packing_ok_def)
    have bound: "pk_tokens p + frag_tokens f \<le> 500"
      using False f(3) tokens by (cases "?cur = []") auto
    have step: "pack_step U B d p f = Inr ?q"
      using False bound by (auto simp: pack_step_def Let_def)
    have "group_ok U B d S (?cur @ [f])"
      using False f inv bound tokens by (cases "?cur = []") (auto simp: group_ok_def packing_ok_def)
    then have "packing_ok U B d S ?q" using inv tokens by (auto simp: packing_ok_def)
    with step show ?thesis by auto
  qed
qed

lemma pack_fold_ok:
  assumes "packing_ok U B d S p"
    and "\<forall>f \<in> set fs. frag_ok U S f \<and> fits_alone U B d f \<and> frag_tokens f \<le> 500"
  shows "\<exists>q. rfold (pack_step U B d) p fs = Inr q \<and> packing_ok U B d S q
     \<and> (\<forall>b i. covered (concat (packing_groups p)) b i \<or> covered fs b i \<longrightarrow> covered (concat (packing_groups q)) b i)
     \<and> frag_block ` set (concat (packing_groups q))
          \<subseteq> frag_block ` set fs \<union> frag_block ` set (concat (packing_groups p))
     \<and> (fs \<noteq> [] \<longrightarrow> packing_groups q \<noteq> [])"
  using assms
proof (induction fs arbitrary: p)
  case (Cons f fs)
  from Cons.prems(2) have f: "frag_ok U S f" "fits_alone U B d f" "frag_tokens f \<le> 500" by auto
  obtain q kept where q: "pack_step U B d p f = Inr q" "packing_ok U B d S q" "pk_current q = kept @ [f]"
      "frag_block ` set kept \<subseteq> frag_block ` set (pk_current p)"
      "kept = pk_current p \<and> pk_packed q = pk_packed p \<or> pk_packed q = packing_groups p"
    using pack_step_ok [OF Cons.prems(1) f] by blast
  have fs: "\<forall>f \<in> set fs. frag_ok U S f \<and> fits_alone U B d f \<and> frag_tokens f \<le> 500"
    using Cons.prems(2) by simp
  from Cons.IH [OF q(2) fs] obtain r where r: "rfold (pack_step U B d) q fs = Inr r" "packing_ok U B d S r"
      "\<forall>b i. covered (concat (packing_groups q)) b i \<or> covered fs b i \<longrightarrow> covered (concat (packing_groups r)) b i"
      "frag_block ` set (concat (packing_groups r))
          \<subseteq> frag_block ` set fs \<union> frag_block ` set (concat (packing_groups q))"
      "fs \<noteq> [] \<longrightarrow> packing_groups r \<noteq> []"
    by blast
  have cov: "covered (concat (packing_groups q)) b i"
    if "covered (concat (packing_groups p)) b i \<or> covered [f] b i" for b i
    using that q(3,5) by (auto simp: covered_groups)
  have blocks: "frag_block ` set (concat (packing_groups q))
      \<subseteq> {frag_block f} \<union> frag_block ` set (concat (packing_groups p))"
  proof (rule disjE [OF q(5)])
    assume "kept = pk_current p \<and> pk_packed q = pk_packed p"
    then have "set (concat (packing_groups q)) = set (concat (packing_groups p)) \<union> {f}"
      by (simp only: set_groups q(3) set_append list.set Un_assoc)
    then show ?thesis by (simp add: image_Un del: set_concat)
  next
    assume packed: "pk_packed q = packing_groups p"
    have "set (concat (packing_groups q)) = set (concat (packing_groups p)) \<union> (set kept \<union> {f})"
      by (simp only: set_groups packed q(3) set_append list.set)
    moreover have "frag_block ` set kept \<subseteq> frag_block ` set (concat (packing_groups p))"
      using q(4) by (auto simp only: set_groups image_Un)
    ultimately show ?thesis by (auto simp add: image_Un simp del: set_concat)
  qed
  have "covered (concat (packing_groups r)) b i"
    if "covered (concat (packing_groups p)) b i \<or> covered (f # fs) b i" for b i
  proof -
    have "covered (concat (packing_groups p)) b i \<or> covered [f] b i \<or> covered fs b i" using that by auto
    then show ?thesis using r(3) cov by blast
  qed
  moreover have "frag_block ` set (concat (packing_groups r)) \<subseteq> frag_block ` set (f # fs)
      \<union> frag_block ` set (concat (packing_groups p))"
    using order_trans [OF r(4) Un_mono [OF order_refl blocks]] by (simp add: Un_ac del: set_concat)
  moreover have "packing_groups r \<noteq> []"
  proof -
    have "covered [f] (frag_block f) (frag_start f)"
      using span_okD(2) [OF frag_ok_tokens(1) [OF f(1)]] by simp
    then have "covered (concat (packing_groups r)) (frag_block f) (frag_start f)" using cov r(3) by blast
    then show ?thesis by (auto simp: covered_def)
  qed
  ultimately show ?case using q(1) r(1,2) by simp
qed simp

text \<open>
  A section whose pieces are well-formed and have at most 500 tokens: packing fails only with
  the error of \<open>fit_piece\<close>; a result has only good groups, made from the pieces' blocks, and
  covers everything in the pieces that is not white space.
\<close>

lemma pack_section_result:
  assumes pieces: "\<forall>f \<in> set pieces. frag_ok U S f \<and> frag_tokens f \<le> 500"
  shows "case pack_section U B d pieces of
      Inl e \<Rightarrow> e = no_fit \<and> (\<exists>g. frag_ok U S g \<and> frag_tokens g = 1 \<and> \<not> fits_alone U B d g)
    | Inr groups \<Rightarrow> (\<forall>fs \<in> set groups. group_ok U B d S fs \<and> frag_block ` set fs \<subseteq> frag_block ` set pieces)
        \<and> (\<forall>b i. covered pieces b i \<and> \<not> is_space (blk_text b ! i) \<longrightarrow> covered (concat groups) b i)"
proof (cases "traverse (fit_piece U B d) pieces")
  case (Inl e)
  then have "\<exists>p \<in> set pieces. fit_piece U B d p = Inl e"
    by (induction pieces) (auto simp: result_simps)
  then obtain p where p: "p \<in> set pieces" "fit_piece U B d p = Inl e" by blast
  with fit_piece_result [of U S p B d] pieces have
    "e = no_fit \<and> (\<exists>g. frag_ok U S g \<and> frag_tokens g = 1 \<and> \<not> fits_alone U B d g)" by auto
  then show ?thesis by (simp add: pack_section_def Inl)
next
  case (Inr fitted)
  have part: "frag_ok U S f \<and> fits_alone U B d f \<and> frag_tokens f \<le> 500 \<and> frag_block f \<in> frag_block ` set pieces"
    if "f \<in> set (concat fitted)" for f
  proof -
    from that obtain fs where fs: "fs \<in> set fitted" "f \<in> set fs" by auto
    then obtain p where "p \<in> set pieces" "fit_piece U B d p = Inr fs" using traverse_member [OF Inr] by blast
    then show ?thesis using fit_piece_result [of U S p B d] pieces fs(2) by fastforce
  qed
  let ?init = "\<lparr>pk_packed = [], pk_current = [], pk_tokens = 0\<rparr>"
  have init: "packing_ok U B d S ?init" "packing_groups ?init = []"
    by (simp_all add: packing_ok_def packing_groups_def)
  obtain q where q: "rfold (pack_step U B d) ?init (concat fitted) = Inr q" "packing_ok U B d S q"
      "\<And>b i. covered (concat fitted) b i \<Longrightarrow> covered (concat (packing_groups q)) b i"
      "frag_block ` set (concat (packing_groups q)) \<subseteq> frag_block ` set (concat fitted)"
    using pack_fold_ok [OF init(1), of "concat fitted"] part init(2) by auto
  have eq: "pack_section U B d pieces = Inr (packing_groups q)"
    using q(1) by (simp add: pack_section_def Inr packing_groups_def)
  have "covered (concat fitted) b i" if "covered pieces b i" "\<not> is_space (blk_text b ! i)" for b i
  proof -
    from that(1) obtain p where p: "p \<in> set pieces" "frag_block p = b" "frag_start p \<le> i" "i < frag_end p"
      by (auto simp: covered_def)
    then obtain k where "k < length pieces" "pieces ! k = p" by (auto simp: in_set_conv_nth)
    then have fp: "fit_piece U B d p = Inr (fitted ! k)" "fitted ! k \<in> set fitted"
      using traverse_nth [OF Inr] traverse_length [OF Inr] by auto
    have "covered (fitted ! k) b i"
      using fit_piece_result [of U S p B d] pieces p fp(1) that(2) by auto
    then show ?thesis using fp(2) by (auto simp: covered_concat)
  qed
  moreover have "group_ok U B d S fs" if "fs \<in> set (packing_groups q)" for fs
    using q(2) that by (auto simp: packing_ok_def packing_groups_def split: if_splits)
  moreover have "frag_block ` set fs \<subseteq> frag_block ` set pieces" if "fs \<in> set (packing_groups q)" for fs
  proof -
    have "frag_block ` set (concat fitted) \<subseteq> frag_block ` set pieces" using part by auto
    moreover have "set fs \<subseteq> set (concat (packing_groups q))" using that by auto
    ultimately show ?thesis using q(4) by blast
  qed
  ultimately show ?thesis using q(3) by (simp add: eq)
qed

end
