(* ===== verification/Chunk_Correct.thy ===== *)
theory Chunk_Correct
  imports Packing
begin

text \<open>
  The correctness of \<open>chunk\<close> (\<open>packages/rag/chunking.py\<close>) as a whole. \<open>group_chunk\<close> is the
  chunk a packed group becomes; \<open>chunk_document_groups\<close> says that a result of \<open>chunk\<close> is the
  list of these chunks for a list of good groups, numbered from 0, that cover the document,
  and names every error it can raise. The properties of the chunker are read off from it.
\<close>

section \<open>The chunk of a group\<close>

definition fragment_loc :: "fragment \<Rightarrow> source_locator" where
  "fragment_loc f = \<lparr>loc_block_id = blk_id (frag_block f), loc_block_index = blk_order (frag_block f),
     loc_char_start = int (frag_start f), loc_char_end = int (frag_end f),
     loc_page_number = blk_page_number (frag_block f)\<rparr>"

definition group_chunk :: "unicode \<Rightarrow> canonical_document \<Rightarrow> nat \<Rightarrow> fragment list \<Rightarrow> chunk" where
  "group_chunk U d ord fs =
     (let merged = merge_fragments U fs; text = fragments_text merged; locs = map fragment_loc merged
      in \<lparr>chk_id = sha256_hexdigest (utf8_encode (json_dumps
             (chunk_identity (doc_id d) (doc_version_id d) text locs))),
         chk_document_id = doc_id d, chk_version_id = doc_version_id d, chk_order = int ord,
         chk_text = text, chk_embedding_text = text, chk_token_count = int (count U text),
         chk_locators = locs, chk_heading_path = common_heading_path merged,
         chk_page_number = (if card (set (map (\<lambda>f. blk_page_number (frag_block f)) merged)) = 1
                            then blk_page_number (frag_block (hd merged)) else None),
         chk_document_title = doc_title d\<rparr>)"

lemma group_chunk_simps [simp]:
  "chk_order (group_chunk U d ord fs) = int ord"
  "chk_document_id (group_chunk U d ord fs) = doc_id d"
  "chk_version_id (group_chunk U d ord fs) = doc_version_id d"
  "chk_document_title (group_chunk U d ord fs) = doc_title d"
  "chk_text (group_chunk U d ord fs) = fragments_text (merge_fragments U fs)"
  "chk_embedding_text (group_chunk U d ord fs) = fragments_text (merge_fragments U fs)"
  "chk_token_count (group_chunk U d ord fs) = int (count U (fragments_text (merge_fragments U fs)))"
  "chk_locators (group_chunk U d ord fs) = map fragment_loc (merge_fragments U fs)"
  "chk_heading_path (group_chunk U d ord fs) = common_heading_path (merge_fragments U fs)"
  by (simp_all add: group_chunk_def Let_def)

text \<open>The locator of a well-formed fragment is valid and resolves to the fragment's text.\<close>

lemma fragment_locator_ok:
  assumes "document_ok d" "frag_ok U (set (doc_blocks d)) f"
  shows "fragment_locator f = Inr (fragment_loc f)" "resolve d (fragment_loc f) = Inr (fragment_text f)"
proof -
  note sp = frag_ok_tokens(1) [OF assms(2)]
  have b: "block_ok (frag_block f)"
    using span_okD(1) [OF sp] assms(1) by (simp add: document_ok_def list_all_iff)
  with span_okD(2) [OF sp] show "fragment_locator f = Inr (fragment_loc f)"
    by (simp add: fragment_locator_def SourceLocator_def fragment_loc_def block_ok_def)
  from resolve_span [OF assms(1) span_okD(1) [OF sp], of "frag_start f" "frag_end f"] span_okD(2,3) [OF sp]
  show "resolve d (fragment_loc f) = Inr (fragment_text f)"
    by (simp add: fragment_loc_def fragment_text_def)
qed

text \<open>The text of a non-empty list of well-formed fragments has a character that is not white space.\<close>

lemma fragments_text_solid:
  assumes "fs \<noteq> []" "\<forall>f \<in> set fs. frag_ok U S f"
  shows "\<not> list_all is_space (fragments_text fs)"
proof -
  obtain f fs' where fs: "fs = f # fs'" using assms(1) by (cases fs) auto
  have "span_ok S f" using assms(2) fs by (simp add: frag_ok_def)
  note f = span_okD(5,6) [OF this]
  have "\<exists>t. fragments_text fs = fragment_text f @ t"
    by (cases "fs' = []") (auto simp: fragments_text_def fs join_with_Cons)
  moreover have "\<not> is_space (hd (fragment_text f))" "hd (fragment_text f) \<in> set (fragment_text f)"
    using f by (auto simp: trimmed_def)
  ultimately show ?thesis by (auto simp: list_all_iff)
qed

text \<open>Making the chunk of a group fails only in the final budget check.\<close>

lemma chunk_of_fragments_result:
  assumes d: "document_ok d" and fs: "fs \<noteq> []" "\<forall>f \<in> set fs. frag_ok U (set (doc_blocks d)) f"
  shows "chunk_of_fragments U B d ord fs =
    rbind (ib_assert_fits B (fragments_text (merge_fragments U fs))) (\<lambda>_. Inr (group_chunk U d ord fs))"
proof -
  let ?m = "merge_fragments U fs"
  note m = merge_fragments_ok(1,3) [OF document_blocks_ok [OF d] fs(2)]
  have "list_all2 (\<lambda>f l. fragment_locator f = Inr l) ?m (map fragment_loc ?m)"
    using m(1) fragment_locator_ok(1) [OF d, of U] by (auto simp: list_all2_conv_all_nth)
  then have locs: "traverse fragment_locator ?m = Inr (map fragment_loc ?m)" by (simp add: traverse_Inr_iff)
  have solid: "\<not> list_all is_space (fragments_text ?m)" using fragments_text_solid [OF m(2) [OF fs(1)] m(1)] .
  then have "Chunk (group_chunk U d ord fs) = Inr (group_chunk U d ord fs)"
    using m(2) [OF fs(1)] count_pos_iff [of U "fragments_text ?m"]
    by (simp add: Chunk_Inr strip_eq_Nil_iff) (simp add: group_chunk_def Let_def)
  then show ?thesis
    by (simp add: chunk_of_fragments_def Let_def locs chunk_create_def group_chunk_def)
qed


section \<open>Sections\<close>

lemma group_runs_concat: "concat (group_runs k xs) = xs"
proof (induction k xs rule: group_runs.induct)
  case (1 k xs)
  then show ?case by (subst group_runs.simps) (auto split: list.split)
qed

lemma group_runs_same: "r \<in> set (group_runs k xs) \<Longrightarrow> x \<in> set r \<Longrightarrow> y \<in> set r \<Longrightarrow> k x = k y"
proof (induction k xs rule: group_runs.induct)
  case (1 k xs)
  show ?case
  proof (cases xs)
    case Nil
    then have "group_runs k xs = []" by (simp add: group_runs.simps)
    with "1.prems"(1) show ?thesis by simp
  next
    case (Cons z zs)
    then have "r = z # takeWhile (\<lambda>y. k y = k z) zs \<or> r \<in> set (group_runs k (dropWhile (\<lambda>y. k y = k z) zs))"
      using "1.prems"(1) by (simp add: group_runs.simps [of k "z # zs"])
    then show ?thesis
    proof
      assume "r = z # takeWhile (\<lambda>y. k y = k z) zs"
      then have "k u = k z" if "u \<in> set r" for u using that by (auto dest: set_takeWhileD)
      then show ?thesis using "1.prems"(2,3) by metis
    qed (use "1.IH" [OF Cons] "1.prems"(2,3) in blast)
  qed
qed

text \<open>The chunks of a list of groups, numbered from \<open>n\<close>.\<close>

definition group_chunks :: "unicode \<Rightarrow> canonical_document \<Rightarrow> nat \<Rightarrow> fragment list list \<Rightarrow> chunk list" where
  "group_chunks U d n groups = map (\<lambda>(i, fs). group_chunk U d i fs) (enum_from n groups)"

lemma length_group_chunks [simp]: "length (group_chunks U d n groups) = length groups"
  by (simp add: group_chunks_def)

lemma nth_group_chunks [simp]:
  "i < length groups \<Longrightarrow> group_chunks U d n groups ! i = group_chunk U d (n + i) (groups ! i)"
  by (simp add: group_chunks_def nth_enumerate_eq)

lemma group_chunks_append:
  "group_chunks U d n (xs @ ys) = group_chunks U d n xs @ group_chunks U d (n + length xs) ys"
  by (simp add: group_chunks_def enumerate_append_eq)

definition one_section :: "fragment list \<Rightarrow> bool" where
  "one_section fs \<longleftrightarrow> (\<forall>f \<in> set fs. \<forall>g \<in> set fs. section_key (frag_block f) = section_key (frag_block g))"

text \<open>
  What every group of a document satisfies: it is good, in one section, and the chunk made of
  it passed the final budget check.
\<close>

definition chunked_ok :: "unicode \<Rightarrow> input_budget \<Rightarrow> canonical_document \<Rightarrow> fragment list \<Rightarrow> bool" where
  "chunked_ok U B d fs \<longleftrightarrow> group_ok U B d (set (doc_blocks d)) fs \<and> one_section fs
     \<and> ib_assert_fits B (fragments_text (merge_fragments U fs)) = Inr ()"

lemma chunk_fold_result:
  assumes d: "document_ok d"
    and groups: "\<forall>fs \<in> set groups. group_ok U B d (set (doc_blocks d)) fs \<and> one_section fs"
  shows "case rfold (\<lambda>cs fs. rbind (chunk_of_fragments U B d (length cs) fs) (\<lambda>c. Inr (cs @ [c]))) chunks groups of
      Inl e \<Rightarrow> \<exists>fs \<in> set groups. ib_assert_fits B (fragments_text (merge_fragments U fs)) = Inl e
    | Inr out \<Rightarrow> out = chunks @ group_chunks U d (length chunks) groups \<and> (\<forall>fs \<in> set groups. chunked_ok U B d fs)"
  using groups
proof (induction groups arbitrary: chunks)
  case Nil
  then show ?case by (simp add: group_chunks_def)
next
  case (Cons fs groups)
  then have fs: "fs \<noteq> []" "\<forall>f \<in> set fs. frag_ok U (set (doc_blocks d)) f" by (auto simp: group_ok_def)
  note eq = chunk_of_fragments_result [OF d fs, of B "length chunks"]
  show ?case
  proof (cases "ib_assert_fits B (fragments_text (merge_fragments U fs))")
    case (Inl e)
    then show ?thesis by (simp add: eq)
  next
    case (Inr u)
    have "chunked_ok U B d fs" using Cons.prems Inr by (simp add: chunked_ok_def)
    with Cons.IH [of "chunks @ [group_chunk U d (length chunks) fs]"] Cons.prems show ?thesis
      by (simp add: eq Inr) (auto simp: group_chunks_def split: sum.splits)
  qed
qed

text \<open>
  One section. \<open>short_blocks\<close> are those whose text is not split at sentences; only of these is
  it true that nothing is lost.
\<close>

abbreviation short_block :: "unicode \<Rightarrow> canonical_block \<Rightarrow> bool" where
  "short_block U b \<equiv> count U (blk_text b) \<le> 500"

definition keeps_blocks :: "unicode \<Rightarrow> canonical_block set \<Rightarrow> fragment list list \<Rightarrow> bool" where
  "keeps_blocks U S groups \<longleftrightarrow> (\<forall>b \<in> S. short_block U b \<longrightarrow> (\<forall>i < length (blk_text b).
     \<not> is_space (blk_text b ! i) \<longrightarrow> covered (concat groups) b i))"

definition chunk_failure :: "unicode \<Rightarrow> input_budget \<Rightarrow> canonical_document \<Rightarrow> exn \<Rightarrow> bool" where
  "chunk_failure U B d e \<longleftrightarrow>
     e = no_fit \<and> (\<exists>g. frag_ok U (set (doc_blocks d)) g \<and> frag_tokens g = 1 \<and> \<not> fits_alone U B d g)
   \<or> (\<exists>fs. group_ok U B d (set (doc_blocks d)) fs \<and> one_section fs
        \<and> ib_assert_fits B (fragments_text (merge_fragments U fs)) = Inl e)"

lemma split_blocks_result:
  assumes "\<forall>b \<in> set r. b \<in> S \<and> block_ok b"
  shows "\<exists>pieces. traverse (split_block U) r = Inr pieces
    \<and> (\<forall>f \<in> set (concat pieces). frag_ok U S f \<and> frag_tokens f \<le> 500 \<and> frag_block f \<in> set r)
    \<and> (\<forall>b \<in> set r. short_block U b \<longrightarrow> (\<forall>i < length (blk_text b). covered (concat pieces) b i))"
proof -
  have split: "\<exists>fs. split_block U b = Inr fs \<and> (\<forall>f \<in> set fs. frag_ok U S f \<and> frag_block f = b \<and> frag_tokens f \<le> 500)
     \<and> (short_block U b \<longrightarrow> fs \<noteq> [] \<and> (\<forall>i < length (blk_text b). covered fs b i))" if "b \<in> set r" for b
    using split_block_ok [of b S U] assms that by blast
  obtain pieces where p: "traverse (split_block U) r = Inr pieces"
    using traverse_total [of r "split_block U"] split by blast
  have "frag_ok U S f \<and> frag_tokens f \<le> 500 \<and> frag_block f \<in> set r" if "f \<in> set (concat pieces)" for f
  proof -
    from that obtain fs where "fs \<in> set pieces" "f \<in> set fs" by auto
    with traverse_member [OF p] split show ?thesis by fastforce
  qed
  moreover have "covered (concat pieces) b i" if "b \<in> set r" "short_block U b" "i < length (blk_text b)" for b i
  proof -
    from that(1) obtain k where k: "k < length r" "r ! k = b" by (auto simp: in_set_conv_nth)
    then have "split_block U b = Inr (pieces ! k)" "pieces ! k \<in> set pieces"
      using traverse_nth [OF p] traverse_length [OF p] by auto
    with split [OF that(1)] that show ?thesis by (auto simp: covered_concat)
  qed
  ultimately show ?thesis using p by blast
qed

lemma chunk_section_result:
  assumes d: "document_ok d" and r: "set r \<subseteq> set (doc_blocks d)"
    and same: "\<forall>b \<in> set r. \<forall>c \<in> set r. section_key b = section_key c"
  shows "case chunk_section U B d chunks r of
      Inl e \<Rightarrow> chunk_failure U B d e
    | Inr out \<Rightarrow> \<exists>groups. out = chunks @ group_chunks U d (length chunks) groups
        \<and> (\<forall>fs \<in> set groups. chunked_ok U B d fs) \<and> keeps_blocks U (set r) groups"
proof -
  let ?S = "set (doc_blocks d)"
  have "\<forall>b \<in> set r. b \<in> ?S \<and> block_ok b"
    using d r by (auto simp: document_ok_def list_all_iff)
  from split_blocks_result [OF this, of U] obtain pieces where p: "traverse (split_block U) r = Inr pieces"
      "\<forall>f \<in> set (concat pieces). frag_ok U ?S f \<and> frag_tokens f \<le> 500 \<and> frag_block f \<in> set r"
      "\<forall>b \<in> set r. short_block U b \<longrightarrow> (\<forall>i < length (blk_text b). covered (concat pieces) b i)"
    by blast
  from p(2) have p2: "\<forall>f \<in> set (concat pieces). frag_ok U ?S f \<and> frag_tokens f \<le> 500" by blast
  note pack = pack_section_result [OF p2, of B d]
  show ?thesis
  proof (cases "pack_section U B d (concat pieces)")
    case (Inl e)
    from pack have "e = no_fit \<and> (\<exists>g. frag_ok U ?S g \<and> frag_tokens g = 1 \<and> \<not> fits_alone U B d g)"
      unfolding Inl sum.case .
    then have "chunk_failure U B d e" unfolding chunk_failure_def by (rule disjI1)
    then show ?thesis by (simp add: chunk_section_def p(1) Inl)
  next
    case (Inr groups)
    with pack have g: "\<forall>fs \<in> set groups. group_ok U B d ?S fs
          \<and> frag_block ` set fs \<subseteq> frag_block ` set (concat pieces)"
        "\<And>b i. covered (concat pieces) b i \<Longrightarrow> \<not> is_space (blk_text b ! i) \<Longrightarrow> covered (concat groups) b i"
      by auto
    have "one_section fs" if "fs \<in> set groups" for fs
    proof -
      have "frag_block ` set (concat pieces) \<subseteq> set r" using p(2) by (blast intro: image_subsetI)
      then have "frag_block ` set fs \<subseteq> set r" using bspec [OF g(1) that] by (blast intro: order_trans)
      then have "frag_block f \<in> set r" if "f \<in> set fs" for f using that by blast
      then show ?thesis using same unfolding one_section_def by blast
    qed
    with g(1) have g': "\<forall>fs \<in> set groups. group_ok U B d ?S fs \<and> one_section fs" by blast
    have keeps: "keeps_blocks U (set r) groups" using p(3) g(2) by (auto simp: keeps_blocks_def)
    have eq: "chunk_section U B d chunks r =
        rfold (\<lambda>cs fs. rbind (chunk_of_fragments U B d (length cs) fs) (\<lambda>c. Inr (cs @ [c]))) chunks groups"
      by (simp add: chunk_section_def p(1) Inr)
    note fold = chunk_fold_result [OF d g', of chunks, folded eq]
    show ?thesis
    proof (cases "chunk_section U B d chunks r")
      case (Inl e)
      with fold obtain fs where "fs \<in> set groups" "ib_assert_fits B (fragments_text (merge_fragments U fs)) = Inl e"
        by auto
      with g' have "chunk_failure U B d e" unfolding chunk_failure_def by blast
      with Inl show ?thesis by simp
    next
      case (Inr out)
      with fold keeps show ?thesis by auto
    qed
  qed
qed

lemma chunk_runs_result:
  assumes d: "document_ok d"
    and runs: "\<forall>r \<in> set runs. set r \<subseteq> set (doc_blocks d) \<and> (\<forall>b \<in> set r. \<forall>c \<in> set r. section_key b = section_key c)"
  shows "case rfold (chunk_section U B d) (group_chunks U d 0 old) runs of
      Inl e \<Rightarrow> chunk_failure U B d e
    | Inr out \<Rightarrow> \<exists>groups. out = group_chunks U d 0 (old @ groups)
        \<and> (\<forall>fs \<in> set groups. chunked_ok U B d fs) \<and> keeps_blocks U (set (concat runs)) groups"
  using runs
proof (induction runs arbitrary: old)
  case Nil
  have "keeps_blocks U {} []" by (simp add: keeps_blocks_def)
  then show ?case by (auto intro!: exI [of _ "[]"])
next
  case (Cons r runs)
  note r = conjunct1 [OF bspec [OF Cons.prems list.set_intros(1)]]
    conjunct2 [OF bspec [OF Cons.prems list.set_intros(1)]]
  note sec = chunk_section_result [OF d r, of U B "group_chunks U d 0 old"]
  show ?case
  proof (cases "chunk_section U B d (group_chunks U d 0 old) r")
    case (Inl e)
    with sec show ?thesis by simp
  next
    case (Inr out)
    from sec obtain groups where g0: "out = group_chunks U d 0 old @ group_chunks U d (length old) groups"
        and g: "\<forall>fs \<in> set groups. chunked_ok U B d fs" "keeps_blocks U (set r) groups"
      unfolding Inr sum.case length_group_chunks by blast
    from g0 have out: "out = group_chunks U d 0 (old @ groups)" by (simp add: group_chunks_append)
    have runs: "\<forall>r \<in> set runs. set r \<subseteq> set (doc_blocks d) \<and> (\<forall>b \<in> set r. \<forall>c \<in> set r. section_key b = section_key c)"
      using Cons.prems by (metis list.set_intros(2))
    note IH = Cons.IH [OF runs, of "old @ groups"]
    note step = Inr [unfolded out]
    show ?thesis
    proof (cases "rfold (chunk_section U B d) (group_chunks U d 0 (old @ groups)) runs")
      case (Inl e)
      with IH show ?thesis by (simp add: step)
    next
      case (Inr out')
      from IH obtain more where m: "out' = group_chunks U d 0 ((old @ groups) @ more)"
          "\<forall>fs \<in> set more. chunked_ok U B d fs" "keeps_blocks U (set (concat runs)) more"
        unfolding Inr sum.case by blast
      have "keeps_blocks U (set (concat (r # runs))) (groups @ more)"
        using g(2) m(3) by (auto simp: keeps_blocks_def)
      moreover have "\<forall>fs \<in> set (groups @ more). chunked_ok U B d fs" using g(1) m(2) by auto
      moreover have "out' = group_chunks U d 0 (old @ (groups @ more))" using m(1) by simp
      ultimately show ?thesis
        unfolding rfold.simps step rbind_simps Inr sum.case by blast
    qed
  qed
qed

text \<open>
  The result of the chunker. Every chunk is the chunk of a good group of one section, the
  chunks are numbered from 0, and the groups lose nothing but white space of short blocks.
  The only errors are those of the budget and, for a document without short blocks, the one
  for no content.
\<close>

definition no_content :: exn where
  "no_content = ValueError (lit ''chunking produced no content'')"

lemma chunk_document_groups:
  assumes d: "document_ok d"
  shows "case chunk_document U B d of
      Inl e \<Rightarrow> chunk_failure U B d e
        \<or> e = no_content \<and> (\<forall>b \<in> set (doc_blocks d). \<not> short_block U b)
    | Inr cs \<Rightarrow> \<exists>groups. groups \<noteq> [] \<and> cs = group_chunks U d 0 groups
        \<and> (\<forall>fs \<in> set groups. chunked_ok U B d fs) \<and> keeps_blocks U (set (doc_blocks d)) groups"
proof -
  let ?runs = "group_runs section_key (doc_blocks d)"
  have runs: "\<forall>r \<in> set ?runs. set r \<subseteq> set (doc_blocks d) \<and> (\<forall>b \<in> set r. \<forall>c \<in> set r. section_key b = section_key c)"
    using group_runs_same [of _ section_key "doc_blocks d"] group_runs_concat [of section_key "doc_blocks d"]
    by (metis concat_eq_Nil_conv UN_I set_concat subsetI)
  show ?thesis
  proof (cases "rfold (chunk_section U B d) [] ?runs")
    case (Inl e)
    with chunk_runs_result [OF d runs, of U B "[]"] show ?thesis
      by (simp add: chunk_document_def group_chunks_def)
  next
    case (Inr out)
    with chunk_runs_result [OF d runs, of U B "[]"] obtain groups where g: "out = group_chunks U d 0 groups"
        "\<forall>fs \<in> set groups. chunked_ok U B d fs" "keeps_blocks U (set (doc_blocks d)) groups"
      by (auto simp: group_chunks_def group_runs_concat)
    have "\<not> short_block U b" if "groups = []" "b \<in> set (doc_blocks d)" for b
    proof
      assume s: "short_block U b"
      have b: "blk_text b \<noteq> []" "trimmed is_space (blk_text b)"
        using d that(2) by (auto simp: document_ok_def block_ok_def list_all_iff)
      then have "\<not> is_space (blk_text b ! 0)" by (simp add: trimmed_def hd_conv_nth)
      with g(3) that s b show False by (auto simp: keeps_blocks_def)
    qed
    then show ?thesis
      using g Inr length_group_chunks [of U d 0 groups]
      by (cases "groups = []") (auto simp: chunk_document_def no_content_def simp del: length_group_chunks)
  qed
qed

section \<open>Heading paths\<close>

lemma columns_same:
  assumes "xss \<noteq> []" "\<forall>xs \<in> set xss. xs = p"
  shows "columns xss = map (\<lambda>v. replicate (length xss) v) p"
  using assms
proof (induction p arbitrary: xss)
  case Nil
  then show ?case by (cases xss) (auto simp: columns.simps [of "_ # _"])
next
  case (Cons v p)
  then have "columns xss = map hd xss # columns (map tl xss)" by (subst columns.simps) auto
  moreover have "map hd xss = replicate (length xss) v"
    using Cons.prems(2) by (induction xss) auto
  moreover have "columns (map tl xss) = map (\<lambda>v. replicate (length (map tl xss)) v) p"
    by (rule Cons.IH) (use Cons.prems in auto)
  ultimately show ?case by simp
qed

text \<open>Fragments of one section: the common heading path is the section's.\<close>

lemma common_heading_path_section:
  assumes "fs \<noteq> []" "\<forall>f \<in> set fs. blk_heading_path (frag_block f) = p"
  shows "common_heading_path fs = p"
proof -
  have cols: "columns (map (\<lambda>f. blk_heading_path (frag_block f)) fs) = map (\<lambda>v. replicate (length fs) v) p"
    using columns_same [of "map (\<lambda>f. blk_heading_path (frag_block f)) fs" p] assms by auto
  have "takeWhile (\<lambda>vs. card (set vs) = 1) (map (\<lambda>v. replicate (length fs) v) p)
      = map (\<lambda>v. replicate (length fs) v) p"
    using assms(1) by (intro takeWhile_eq_all_conv [THEN iffD2]) (auto simp: set_replicate_conv_if)
  then have "common_heading_path fs = map hd (map (\<lambda>v. replicate (length fs) v) p)"
    unfolding common_heading_path_def cols by (rule arg_cong)
  also have "\<dots> = p" using assms(1) by (induction p) auto
  finally show ?thesis .
qed

section \<open>Chunks of a document\<close>

text \<open>A chunk of the result, as the chunk of one group, with its merged fragments.\<close>

lemma chunk_member:
  assumes d: "document_ok d" and cs: "chunk_document U B d = Inr cs" and c: "c \<in> set cs"
  obtains i fs where "i < length cs" "cs ! i = c" "c = group_chunk U d i fs" "chunked_ok U B d fs"
    "merge_fragments U fs \<noteq> []" "\<forall>f \<in> set (merge_fragments U fs). frag_ok U (set (doc_blocks d)) f"
proof -
  from chunk_document_groups [OF d, of U B] cs obtain groups where g: "cs = group_chunks U d 0 groups"
      "\<forall>fs \<in> set groups. chunked_ok U B d fs"
    by auto
  from c obtain i where i: "i < length cs" "cs ! i = c" by (auto simp: in_set_conv_nth)
  then have ci: "c = group_chunk U d i (groups ! i)" "chunked_ok U B d (groups ! i)" using g by auto
  then have "groups ! i \<noteq> []" "\<forall>f \<in> set (groups ! i). frag_ok U (set (doc_blocks d)) f"
    by (auto simp: chunked_ok_def group_ok_def)
  with merge_fragments_ok [OF document_blocks_ok [OF d]] i ci that show thesis by blast
qed

definition block_of :: "canonical_document \<Rightarrow> source_locator \<Rightarrow> canonical_block option" where
  "block_of d l = py_index (doc_blocks d) (loc_block_index l)"

lemma block_of_fragment:
  assumes "document_ok d" "frag_ok U (set (doc_blocks d)) f"
  shows "block_of d (fragment_loc f) = Some (frag_block f)"
proof -
  from span_okD(1) [OF frag_ok_tokens(1) [OF assms(2)]] obtain i where
    i: "i < length (doc_blocks d)" "doc_blocks d ! i = frag_block f" by (auto simp: in_set_conv_nth)
  then have "blk_order (frag_block f) = int i" using document_block_order [OF assms(1)] by metis
  with i show ?thesis by (simp add: block_of_def fragment_loc_def py_index_nat)
qed

text \<open>Every locator of a chunk points at a block with the chunk's heading path and page.\<close>

lemma chunk_section_of:
  assumes d: "document_ok d" and cs: "chunk_document U B d = Inr cs" "c \<in> set cs" and l: "l \<in> set (chk_locators c)"
  shows "\<exists>b. block_of d l = Some b \<and> blk_heading_path b = chk_heading_path c \<and> blk_page_number b = chk_page_number c"
proof -
  from chunk_member [OF d cs] obtain i fs where c: "c = group_chunk U d i fs" "chunked_ok U B d fs"
      "merge_fragments U fs \<noteq> []" "\<forall>f \<in> set (merge_fragments U fs). frag_ok U (set (doc_blocks d)) f"
    by metis
  let ?m = "merge_fragments U fs"
  from l c(1) obtain f where f: "f \<in> set ?m" "l = fragment_loc f" by auto
  have same: "section_key (frag_block g) = section_key (frag_block f)" if "g \<in> set ?m" for g
  proof -
    have "frag_block g \<in> frag_block ` set fs" "frag_block f \<in> frag_block ` set fs"
      using merge_fragments_blocks [of U fs] that f(1) by auto
    then obtain g' f' where "g' \<in> set fs" "f' \<in> set fs" "frag_block g = frag_block g'" "frag_block f = frag_block f'"
      by auto
    then show ?thesis using c(2) unfolding chunked_ok_def one_section_def by metis
  qed
  have keys: "blk_heading_path (frag_block g) = blk_heading_path (frag_block f)"
      "blk_page_number (frag_block g) = blk_page_number (frag_block f)" if "g \<in> set ?m" for g
    using same [OF that] by (simp_all add: section_key_def)
  have paths: "common_heading_path ?m = blk_heading_path (frag_block f)"
    by (rule common_heading_path_section [OF c(3)]) (rule ballI, rule keys(1))
  have "set (map (\<lambda>g. blk_page_number (frag_block g)) ?m) = {blk_page_number (frag_block f)}"
    unfolding set_map by (rule trans [OF image_cong [OF refl keys(2)] image_constant [OF f(1)]])
  then have "chk_page_number c = blk_page_number (frag_block (hd ?m))"
    unfolding c(1) group_chunk_def Let_def by simp
  moreover have "blk_page_number (frag_block (hd ?m)) = blk_page_number (frag_block f)"
    by (rule keys(2)) (use c(3) in simp)
  moreover have "chk_heading_path c = blk_heading_path (frag_block f)" using paths c(1) by simp
  moreover have "block_of d l = Some (frag_block f)" using block_of_fragment [OF d] c(4) f by blast
  ultimately show ?thesis by simp
qed

section \<open>The contract of a token budget\<close>

text \<open>
  The interface \<open>InputBudget\<close>: \<open>assert_fits\<close> passes exactly the texts for which \<open>fits\<close> is
  true. The chunker asks \<open>fits\<close> while it packs and \<open>assert_fits\<close> for every finished chunk.
\<close>

locale token_budget =
  fixes fits :: "pystr \<Rightarrow> bool" and assert_fits :: "pystr \<Rightarrow> unit result"
  assumes assert_iff: "assert_fits s = Inr () \<longleftrightarrow> fits s"
begin

abbreviation budget :: input_budget where
  "budget \<equiv> \<lparr>ib_fits = fits, ib_assert_fits = assert_fits\<rparr>"

lemma chunks_fit:
  assumes "document_ok d" "chunk_document U budget d = Inr cs" "c \<in> set cs"
  shows "fits (chk_embedding_text c)"
proof -
  from chunk_member [OF assms] obtain i fs where "c = group_chunk U d i fs" "chunked_ok U budget d fs" by metis
  then show ?thesis by (simp add: chunked_ok_def assert_iff)
qed

text \<open>
  When the budget of a text bounds that of its last paragraph and every single token fits
  under its document and section header, a document with a short block is always chunked.
\<close>

lemma chunking_returns:
  assumes d: "document_ok d" and b: "b \<in> set (doc_blocks d)" "short_block U b"
    and suffix: "\<And>s t. fits (s @ [10, 10] @ t) \<Longrightarrow> fits t"
    and single: "\<And>f. frag_ok U (set (doc_blocks d)) f \<Longrightarrow> frag_tokens f = 1 \<Longrightarrow> fits (budget_text U d [f])"
  shows "\<exists>cs. chunk_document U budget d = Inr cs"
proof (cases "chunk_document U budget d")
  case (Inl e)
  have "\<not> chunk_failure U budget d e"
  proof
    assume "chunk_failure U budget d e"
    then consider g where "frag_ok U (set (doc_blocks d)) g" "frag_tokens g = 1" "\<not> fits_alone U budget d g"
      | fs where "group_ok U budget d (set (doc_blocks d)) fs"
          "assert_fits (fragments_text (merge_fragments U fs)) = Inl e"
      unfolding chunk_failure_def input_budget.simps by blast
    then show False
    proof cases
      case 1
      with single show False by simp
    next
      case (2 fs)
      from 2(1) have "fits (budget_text U d fs)" by (simp add: group_ok_def)
      moreover have "\<exists>header. budget_text U d fs = header @ [10, 10] @ fragments_text (merge_fragments U fs)"
        unfolding budget_text_def Let_def by (intro exI [of _ "_ @ _ @ [10] @ _ @ _"]) (simp only: append_assoc)
      ultimately have "fits (fragments_text (merge_fragments U fs))" using suffix by metis
      with 2(2) assert_iff show False by (metis Inr_not_Inl)
    qed
  qed
  with chunk_document_groups [OF d, of U budget] Inl b show ?thesis by auto
qed simp

end

section \<open>A document for the witnesses\<close>

definition sample_document :: canonical_document where
  "sample_document = \<lparr>doc_id = 1, doc_version_id = 2, doc_title = lit ''Help'', doc_media_type = lit ''text/plain'',
     doc_blocks =
       [\<lparr>blk_id = lit ''b0'', blk_order = 0, blk_kind = HEADING, blk_text = lit ''Refunds'',
          blk_heading_path = [lit ''Refunds''], blk_page_number = None\<rparr>,
        \<lparr>blk_id = lit ''b1'', blk_order = 1, blk_kind = PARAGRAPH, blk_text = lit ''Ask within 5 days.'',
          blk_heading_path = [lit ''Refunds''], blk_page_number = None\<rparr>]\<rparr>"

text \<open>A tokenizer with one token per visible character, and its budget.\<close>

definition visible :: "pystr \<Rightarrow> nat list" where
  "visible s = filter (\<lambda>c. \<not> is_space c) s"

definition sample_budget :: input_budget where
  "sample_budget = \<lparr>ib_fits = (\<lambda>s. length (visible s) \<le> 512),
     ib_assert_fits = (\<lambda>s. if length (visible s) \<le> 512 then Inr () else raise_value ''too long'')\<rparr>"

lemma visible_append [simp]: "visible (s @ t) = visible s @ visible t"
  by (simp add: visible_def)

lemma length_visible_le: "length (visible s) \<le> length s"
  by (simp add: visible_def)

lemma sample_document_ok: "document_ok sample_document"
  by code_simp

lemma sample_short: "\<forall>b \<in> set (doc_blocks sample_document). short_block ascii_only b"
  by code_simp

text \<open>A fragment of a document with short blocks under one heading path, and the header above it.\<close>

lemma short_single_fits:
  assumes f: "frag_ok U (set (doc_blocks d)) f"
    and blocks: "\<forall>b \<in> set (doc_blocks d). length (blk_text b) \<le> 20 \<and> blk_heading_path b = path"
    and header: "length (visible (lit ''Document: '' @ or_else (doc_title d) (lit ''[untitled]'') @ [10]
      @ lit ''Section: '' @ or_else (join_with (lit '' > '') path) (lit ''[root]'') @ [10, 10])) \<le> 100"
  shows "length (visible (budget_text U d [f])) \<le> 512"
proof -
  have b: "frag_block f \<in> set (doc_blocks d)"
    using span_okD(1) [OF frag_ok_tokens(1) [OF f]] .
  have merged: "merge_fragments U [f] = [f]"
    using frag_ok_tokens(2) [OF f] by (simp add: merge_fragments_def merge_step_def)
  have path: "common_heading_path [f] = path"
    using blocks b by (intro common_heading_path_section) auto
  have "length (fragment_text f) \<le> 20" using blocks b by (auto simp: fragment_text_def)
  then have body: "length (visible (fragments_text [f])) \<le> 20"
    using length_visible_le [of "fragment_text f"] by (simp add: fragments_text_def)
  define h where "h = lit ''Document: '' @ or_else (doc_title d) (lit ''[untitled]'') @ [10]
      @ lit ''Section: '' @ or_else (join_with (lit '' > '') path) (lit ''[root]'') @ [10, 10]"
  have "budget_text U d [f] = h @ fragments_text [f]"
    by (simp add: budget_text_def Let_def merged path h_def)
  then show ?thesis using header body unfolding h_def [symmetric] by simp
qed

lemma sample_single_fits:
  assumes "frag_ok ascii_only (set (doc_blocks sample_document)) f"
  shows "length (visible (budget_text ascii_only sample_document [f])) \<le> 512"
proof (rule short_single_fits [OF assms])
  show "\<forall>b \<in> set (doc_blocks sample_document). length (blk_text b) \<le> 20 \<and> blk_heading_path b = [lit ''Refunds'']"
    by code_simp
qed code_simp

lemma sample_chunked: "\<exists>cs. chunk_document ascii_only sample_budget sample_document = Inr cs"
proof -
  have "token_budget (\<lambda>s. length (visible s) \<le> 512)
      (\<lambda>s. if length (visible s) \<le> 512 then Inr () else raise_value ''too long'')"
    by unfold_locales simp
  from token_budget.chunking_returns [OF this sample_document_ok, of _ ascii_only] sample_short sample_single_fits
  show ?thesis unfolding sample_budget_def
    by (metis (no_types, lifting) length_append visible_append add_leD2 list.set_intros(1) sample_document_def
        canonical_document.select_convs(5))
qed

section \<open>Properties of the chunker\<close>

text \<open>C9: every chunk cites its text exactly. The locators of a chunk of a well-formed document
  resolve in it, and the chunk's text is the resolved spans joined by blank lines.\<close>

theorem chunk_citations:
  assumes "document_ok d" "chunk_document U B d = Inr cs" "c \<in> set cs"
  shows "\<exists>texts. texts \<noteq> [] \<and> traverse (resolve d) (chk_locators c) = Inr texts
    \<and> chk_text c = join_with [10, 10] texts"
proof -
  from chunk_member [OF assms] obtain i fs where c: "c = group_chunk U d i fs"
      "merge_fragments U fs \<noteq> []" "\<forall>f \<in> set (merge_fragments U fs). frag_ok U (set (doc_blocks d)) f"
    by metis
  let ?m = "merge_fragments U fs"
  have "list_all2 (\<lambda>l t. resolve d l = Inr t) (map fragment_loc ?m) (map fragment_text ?m)"
    using c(3) fragment_locator_ok(2) [OF assms(1), of U] by (auto simp: list_all2_conv_all_nth)
  then have "traverse (resolve d) (chk_locators c) = Inr (map fragment_text ?m)"
    by (simp add: traverse_Inr_iff c(1))
  then show ?thesis using c(1,2) by (auto simp: fragments_text_def)
qed

theorem chunk_citations_witness:
  "\<exists>cs. chunk_document ascii_only sample_budget sample_document = Inr cs \<and> (\<forall>c \<in> set cs.
     \<exists>texts. texts \<noteq> [] \<and> traverse (resolve sample_document) (chk_locators c) = Inr texts
       \<and> chk_text c = join_with [10, 10] texts)"
  using sample_chunked chunk_citations [OF sample_document_ok] by blast

text \<open>C17: nothing is lost. Every visible character of a block of at most 500 tokens lies in the
  span of a locator, into that block, of some chunk.\<close>

theorem chunk_coverage:
  assumes "document_ok d" "chunk_document U B d = Inr cs" "b \<in> set (doc_blocks d)"
    and "count U (blk_text b) \<le> chunk_max_tokens PIPELINE"
    and "i < length (blk_text b)" "\<not> is_space (blk_text b ! i)"
  shows "\<exists>c \<in> set cs. \<exists>l \<in> set (chk_locators c). block_of d l = Some b
    \<and> loc_char_start l \<le> int i \<and> int i < loc_char_end l"
proof -
  from chunk_document_groups [OF assms(1), of U B] assms(2) obtain groups where g:
      "cs = group_chunks U d 0 groups" "\<forall>fs \<in> set groups. chunked_ok U B d fs"
      "keeps_blocks U (set (doc_blocks d)) groups"
    by auto
  from g(3) assms(3-6) obtain fs where fs: "fs \<in> set groups" "covered fs b i"
    by (auto simp: keeps_blocks_def covered_concat)
  then obtain k where k: "k < length groups" "groups ! k = fs" by (auto simp: in_set_conv_nth)
  have ok: "\<forall>f \<in> set fs. frag_ok U (set (doc_blocks d)) f"
    using g(2) fs(1) by (auto simp: chunked_ok_def group_ok_def)
  note m = merge_fragments_ok(1,2) [OF document_blocks_ok [OF assms(1)] ok]
  from m(2) [OF fs(2)] obtain f where f: "f \<in> set (merge_fragments U fs)" "frag_block f = b"
      "frag_start f \<le> i" "i < frag_end f" by (auto simp: covered_def)
  have "k < length cs" "cs ! k = group_chunk U d k fs" using k g(1) by auto
  then have "cs ! k \<in> set cs" "fragment_loc f \<in> set (chk_locators (cs ! k))"
    using f(1) nth_mem [of k cs] by simp_all
  moreover have "block_of d (fragment_loc f) = Some b"
    using block_of_fragment [OF assms(1)] m(1) f(1,2) by blast
  ultimately show ?thesis using f(3,4) by (force simp: fragment_loc_def)
qed

theorem chunk_coverage_witness:
  "\<exists>cs. chunk_document ascii_only sample_budget sample_document = Inr cs
    \<and> (\<exists>c \<in> set cs. \<exists>l \<in> set (chk_locators c). block_of sample_document l = Some (doc_blocks sample_document ! 1)
        \<and> loc_char_start l \<le> 17 \<and> 17 < loc_char_end l)"
proof -
  let ?b = "doc_blocks sample_document ! 1"
  have "?b \<in> set (doc_blocks sample_document)" "count ascii_only (blk_text ?b) \<le> chunk_max_tokens PIPELINE"
    "17 < length (blk_text ?b)" "\<not> is_space (blk_text ?b ! 17)"
    by code_simp+
  with sample_chunked chunk_coverage [OF sample_document_ok, of ascii_only sample_budget _ ?b 17]
  show ?thesis by auto
qed

text \<open>The chunks of a document are numbered 0, 1, 2 and so on, there is at least one, and
  each carries the document's identity.\<close>

theorem chunk_numbering:
  assumes "document_ok d" "chunk_document U B d = Inr cs"
  shows "cs \<noteq> [] \<and> map chk_order cs = map int [0..<length cs]
    \<and> (\<forall>c \<in> set cs. chk_document_id c = doc_id d \<and> chk_version_id c = doc_version_id d
       \<and> length (chk_id c) = 64 \<and> chk_embedding_text c = chk_text c)"
proof -
  from chunk_document_groups [OF assms(1), of U B] assms(2) obtain groups where g:
      "groups \<noteq> []" "cs = group_chunks U d 0 groups" by auto
  then have "length cs = length groups" by simp
  moreover have "map chk_order cs = map int [0..<length cs]" using g by (auto intro!: nth_equalityI)
  moreover have "\<forall>c \<in> set cs. chk_document_id c = doc_id d \<and> chk_version_id c = doc_version_id d
      \<and> length (chk_id c) = 64 \<and> chk_embedding_text c = chk_text c"
    by (auto simp: g(2) group_chunks_def) (simp add: group_chunk_def Let_def)
  ultimately show ?thesis using g(1) by (metis length_0_conv)
qed

theorem chunk_numbering_witness:
  "\<exists>cs. chunk_document ascii_only sample_budget sample_document = Inr cs \<and> cs \<noteq> []
     \<and> map chk_order cs = map int [0..<length cs]"
  using sample_chunked chunk_numbering [OF sample_document_ok] by blast

text \<open>A chunk never crosses a section or a page. Every locator of a chunk points at a block
  that exists and has the chunk's heading path and page number.\<close>

theorem chunk_one_section:
  assumes "document_ok d" "chunk_document U B d = Inr cs" "c \<in> set cs" "l \<in> set (chk_locators c)"
  shows "\<exists>b. block_of d l = Some b \<and> blk_id b = loc_block_id l
    \<and> blk_heading_path b = chk_heading_path c \<and> blk_page_number b = chk_page_number c"
proof -
  from chunk_section_of [OF assms] obtain b where b: "block_of d l = Some b"
      "blk_heading_path b = chk_heading_path c" "blk_page_number b = chk_page_number c" by blast
  from chunk_member [OF assms(1-3)] obtain i fs where "c = group_chunk U d i fs"
      "\<forall>f \<in> set (merge_fragments U fs). frag_ok U (set (doc_blocks d)) f" by metis
  with assms(4) obtain f where "l = fragment_loc f" "frag_ok U (set (doc_blocks d)) f" by auto
  with b(1) block_of_fragment [OF assms(1)] have "blk_id b = loc_block_id l"
    by (auto simp: fragment_loc_def)
  with b show ?thesis by blast
qed

theorem chunk_one_section_witness:
  "\<exists>cs. chunk_document ascii_only sample_budget sample_document = Inr cs
    \<and> (\<forall>c \<in> set cs. \<forall>l \<in> set (chk_locators c). \<exists>b. block_of sample_document l = Some b
        \<and> blk_id b = loc_block_id l \<and> blk_heading_path b = chk_heading_path c
        \<and> blk_page_number b = chk_page_number c)"
  using sample_chunked chunk_one_section [OF sample_document_ok] by blast

text \<open>Every error the chunker can raise on a well-formed document is one of three: a single
  token that exceeds the budget under its header, the budget's own refusal of a finished chunk,
  or no content, and the last only when every block has more than 500 tokens. The error
  \<open>C1 chunk exceeded its hard maximum\<close> is not among them.\<close>

theorem chunk_errors:
  assumes "document_ok d" "chunk_document U B d = Inl e"
  shows "e = no_fit \<and> (\<exists>f. frag_ok U (set (doc_blocks d)) f \<and> frag_tokens f = 1
          \<and> \<not> ib_fits B (budget_text U d [f]))
    \<or> (\<exists>s. \<not> list_all is_space s \<and> ib_assert_fits B s = Inl e)
    \<or> e = no_content \<and> (\<forall>b \<in> set (doc_blocks d). chunk_max_tokens PIPELINE < count U (blk_text b))"
proof -
  have "\<exists>s. \<not> list_all is_space s \<and> ib_assert_fits B s = Inl e"
    if "group_ok U B d (set (doc_blocks d)) fs" "ib_assert_fits B (fragments_text (merge_fragments U fs)) = Inl e" for fs
  proof -
    from that(1) have fs: "fs \<noteq> []" "\<forall>f \<in> set fs. frag_ok U (set (doc_blocks d)) f" by (auto simp: group_ok_def)
    note m = merge_fragments_ok(1,3) [OF document_blocks_ok [OF assms(1)] fs(2)]
    from fragments_text_solid [OF m(2) [OF fs(1)] m(1)] that(2) show ?thesis by blast
  qed
  then show ?thesis
    using chunk_document_groups [OF assms(1), of U B] assms(2) by (auto simp: chunk_failure_def not_le)
qed

definition closed_budget :: input_budget where
  "closed_budget = \<lparr>ib_fits = (\<lambda>s. False), ib_assert_fits = (\<lambda>s. raise_value ''too long'')\<rparr>"

theorem chunk_errors_witness:
  "\<exists>e. chunk_document ascii_only closed_budget sample_document = Inl e
    \<and> (e = no_fit \<or> (\<exists>s. ib_assert_fits closed_budget s = Inl e))"
proof -
  have "\<exists>e. chunk_document ascii_only closed_budget sample_document = Inl e"
    using chunk_document_groups [OF sample_document_ok, of ascii_only closed_budget]
    by (cases "chunk_document ascii_only closed_budget sample_document")
      (auto simp: chunked_ok_def closed_budget_def neq_Nil_conv)
  with chunk_errors [OF sample_document_ok, of ascii_only closed_budget] sample_short show ?thesis
    by (force simp: sample_document_def)
qed

end
