(* ===== verification/Embedding.thy ===== *)
theory Embedding
  imports Chunk_Correct
begin

text \<open>
  \<open>packages/rag/embedding.py\<close>: the model manifest, the normalisation of vectors, the E1
  embedder and the E1 token budget. The tokenizer (\<open>tokenizers\<close>) and the model
  (\<open>fastembed\<close>) are parameters: functions from a text to its token ids and from a batch to
  its vectors. The lemmas say what an embedding looks like, and that the chunker and the
  embedder agree: no chunk is refused as too long.
\<close>

section \<open>The model manifest\<close>

record model_manifest =
  mm_artifact_id :: pystr
  mm_artifact_revision :: pystr
  mm_dimension :: int

text \<open>
  The model directory as the constructor sees it: whether it exists, what reading and decoding
  \<open>supportpilot-model.json\<close> gives (\<open>None\<close> when it is not a file), whether there is a
  \<open>tokenizer.json\<close>. \<open>str()\<close> and \<open>int()\<close> of a decoded value are given for the values a
  manifest holds; \<open>int()\<close> of a list, an object or null is a \<open>TypeError\<close>.
\<close>

record model_directory =
  md_is_dir :: bool
  md_manifest :: "(pystr \<times> json) list result option"
  md_has_tokenizer :: bool

definition json_str :: "json \<Rightarrow> pystr" where
  "json_str j = (case j of JStr s \<Rightarrow> s | JBool b \<Rightarrow> (if b then lit ''True'' else lit ''False'')
     | JNull \<Rightarrow> lit ''None'' | JInt i \<Rightarrow> int_text i | _ \<Rightarrow> json_dumps j)"

text \<open>\<open>int(s)\<close>: digits of any script with single underscores between them, a sign, white space around.\<close>

fun dec_run :: "unicode \<Rightarrow> nat \<Rightarrow> pystr \<Rightarrow> nat option" where
  "dec_run U a [] = None"
| "dec_run U a [c] = map_option (\<lambda>v. 10 * a + v) (decimal_value U c)"
| "dec_run U a (c # e # s) =
     (case decimal_value U c of None \<Rightarrow> None
      | Some v \<Rightarrow> if e = 95 then dec_run U (10 * a + v) s else dec_run U (10 * a + v) (e # s))"

definition int_of_text :: "unicode \<Rightarrow> pystr \<Rightarrow> int option" where
  "int_of_text U s = (case strip s of [] \<Rightarrow> None
     | c # t \<Rightarrow> if c = 45 then map_option (\<lambda>n. - int n) (dec_run U 0 t)
         else if c = 43 then map_option int (dec_run U 0 t) else map_option int (dec_run U 0 (c # t)))"

definition json_int :: "unicode \<Rightarrow> json \<Rightarrow> int result" where
  "json_int U j = (case j of JInt i \<Rightarrow> Inr i | JBool b \<Rightarrow> Inr (if b then 1 else 0)
     | JStr s \<Rightarrow> (case int_of_text U s of Some n \<Rightarrow> Inr n
         | None \<Rightarrow> raise_value ''invalid literal for int() with base 10'')
     | _ \<Rightarrow> Inl TypeError)"

definition manifest_load :: "unicode \<Rightarrow> model_directory \<Rightarrow> model_manifest result" where
  "manifest_load U m =
     (case md_manifest m of None \<Rightarrow> raise_runtime ''offline E1 model manifest is missing''
      | Some payload \<Rightarrow>
          (case rbind payload (\<lambda>d. rbind (json_item d (lit ''artifact_id'')) (\<lambda>a.
                rbind (json_item d (lit ''artifact_revision'')) (\<lambda>r.
                rbind (json_item d (lit ''dimension'')) (\<lambda>n. rbind (json_int U n) (\<lambda>k.
                Inr \<lparr>mm_artifact_id = json_str a, mm_artifact_revision = json_str r, mm_dimension = k\<rparr>))))) of
             Inl _ \<Rightarrow> raise_runtime ''offline E1 model manifest is malformed''
           | Inr manifest \<Rightarrow> Inr manifest))"

text \<open>\<open>E1Embedder.__init__\<close> up to the loading of the libraries.\<close>

definition check_model :: "unicode \<Rightarrow> model_directory \<Rightarrow> unit result" where
  "check_model U m =
     (if \<not> md_is_dir m then raise_runtime ''offline E1 model directory is missing''
      else rbind (manifest_load U m) (\<lambda>manifest.
        if mm_artifact_id manifest \<noteq> embedding_artifact_id PIPELINE
           \<or> mm_artifact_revision manifest \<noteq> embedding_artifact_revision PIPELINE
           \<or> mm_dimension manifest \<noteq> int (embedding_dimension PIPELINE)
        then raise_runtime ''offline E1 model manifest does not match rag-v1-c1-e1''
        else if \<not> md_has_tokenizer m then raise_runtime ''offline E1 tokenizer.json is missing''
        else Inr ()))"

section \<open>Vectors\<close>

fun real_of_float :: "pyfloat \<Rightarrow> real" where
  "real_of_float (Finite x) = x"
| "real_of_float _ = 0"

definition norm_of :: "pyfloat list \<Rightarrow> real" where
  "norm_of v = sqrt (sum_list (map (\<lambda>x. real_of_float x * real_of_float x) v))"

definition normalize_embedding :: "pyfloat list \<Rightarrow> pyfloat list result" where
  "normalize_embedding v =
     (if length v \<noteq> embedding_dimension PIPELINE
        then raise_runtime ''E1 returned an unexpected embedding dimension''
      else if \<not> list_all isfinite v then raise_runtime ''E1 returned a non-finite embedding''
      else if norm_of v = 0 then raise_runtime ''E1 returned a zero-magnitude embedding''
      else Inr (map (\<lambda>x. Finite (real_of_float x / norm_of v)) v))"

section \<open>The embedder and the token budget\<close>

record e1_embedder =
  e1_encode :: "pystr \<Rightarrow> nat list"
  e1_model :: "pystr list \<Rightarrow> pyfloat list list result"

definition e1_prepare :: "e1_embedder \<Rightarrow> bool \<Rightarrow> pystr \<Rightarrow> pystr result" where
  "e1_prepare E query text =
     (let value = strip text in
      if value = [] then raise_value ''embedding input cannot be empty''
      else let prepared = (if query then embedding_query_prefix PIPELINE else []) @ value in
        if embedding_input_limit PIPELINE < length (e1_encode E prepared)
        then raise_value ''embedding input exceeds the E1 token limit''
        else Inr prepared)"

definition e1_embed :: "e1_embedder \<Rightarrow> bool \<Rightarrow> pystr list \<Rightarrow> pyfloat list list result" where
  "e1_embed E query texts =
     (if texts = [] then Inr []
      else rbind (traverse (e1_prepare E query) texts) (\<lambda>prepared.
           rbind (e1_model E prepared) (\<lambda>raw.
           rbind (traverse normalize_embedding raw) (\<lambda>vectors.
           if length vectors \<noteq> length prepared then raise_runtime ''E1 returned the wrong batch length''
           else Inr vectors))))"

abbreviation embed_documents :: "e1_embedder \<Rightarrow> pystr list \<Rightarrow> pyfloat list list result" where
  "embed_documents E \<equiv> e1_embed E False"

abbreviation embed_queries :: "e1_embedder \<Rightarrow> pystr list \<Rightarrow> pyfloat list list result" where
  "embed_queries E \<equiv> e1_embed E True"

definition e1_fits :: "(pystr \<Rightarrow> nat list) \<Rightarrow> pystr \<Rightarrow> bool" where
  "e1_fits encode text \<longleftrightarrow> length (encode (strip text)) \<le> embedding_input_limit PIPELINE"

definition e1_assert_fits :: "(pystr \<Rightarrow> nat list) \<Rightarrow> pystr \<Rightarrow> unit result" where
  "e1_assert_fits encode text = (if \<not> e1_fits encode text then raise_value ''chunk exceeds the E1 token limit'' else Inr ())"

definition e1_budget :: "(pystr \<Rightarrow> nat list) \<Rightarrow> input_budget" where
  "e1_budget encode = \<lparr>ib_fits = e1_fits encode, ib_assert_fits = e1_assert_fits encode\<rparr>"

text \<open>The E1 budget keeps the contract of a token budget, whatever its tokenizer.\<close>

interpretation e1: token_budget "e1_fits encode" "e1_assert_fits encode" for encode
  by unfold_locales (simp add: e1_assert_fits_def)

section \<open>Facts\<close>

lemma norm_of_nonneg: "0 \<le> norm_of v"
  by (auto simp: norm_of_def intro!: sum_list_nonneg)

lemma norm_of_normalized:
  assumes "norm_of v \<noteq> 0"
  shows "norm_of (map (\<lambda>x. Finite (real_of_float x / norm_of v)) v) = 1"
proof -
  let ?n = "norm_of v" and ?s = "sum_list (map (\<lambda>x. real_of_float x * real_of_float x) v)"
  have sq: "?n * ?n = ?s" by (simp add: norm_of_def) (intro abs_of_nonneg sum_list_nonneg, auto)
  have "sum_list (map (\<lambda>x. real_of_float x / k * (real_of_float x / k)) v)
      = sum_list (map (\<lambda>x. real_of_float x * real_of_float x) v) / (k * k)" for k
    by (induction v) (auto simp: add_divide_distrib)
  then have "norm_of (map (\<lambda>x. Finite (real_of_float x / ?n)) v) = sqrt (?s / (?n * ?n))"
    by (simp add: norm_of_def [of "map _ v"] comp_def del: abs_of_nonneg)
  also have "?s / (?n * ?n) = 1" using assms by (simp add: sq [symmetric])
  finally show ?thesis by simp
qed

lemma normalize_embedding_Inr:
  assumes "normalize_embedding v = Inr w"
  shows "length w = 384" "list_all isfinite w" "norm_of w = 1"
  using assms norm_of_normalized [of v]
  by (auto simp: normalize_embedding_def list_all_iff isfinite_def split: if_splits)

text \<open>A chunk of the chunker with the same tokenizer is never refused by \<open>_prepare\<close>.\<close>

lemma e1_prepare_chunk:
  assumes d: "document_ok d" "chunk_document U (e1_budget (e1_encode E)) d = Inr cs" "c \<in> set cs"
  shows "e1_prepare E False (chk_embedding_text c) = Inr (strip (chk_embedding_text c))"
proof -
  have fits: "e1_fits (e1_encode E) (chk_embedding_text c)"
    using e1.chunks_fit d unfolding e1_budget_def by blast
  from chunk_member [OF d] obtain i fs where c: "c = group_chunk U d i fs" "merge_fragments U fs \<noteq> []"
      "\<forall>f \<in> set (merge_fragments U fs). frag_ok U (set (doc_blocks d)) f" by metis
  then have "\<not> list_all is_space (chk_embedding_text c)" using fragments_text_solid by simp
  with fits show ?thesis by (simp add: e1_prepare_def Let_def e1_fits_def strip_eq_Nil_iff)
qed

section \<open>Properties\<close>

lemma e1_embed_Inr:
  assumes "e1_embed E query texts = Inr vectors"
  shows "length vectors = length texts
    \<and> (\<forall>v \<in> set vectors. length v = embedding_dimension PIPELINE \<and> list_all isfinite v \<and> norm_of v = 1)"
proof (cases "texts = []")
  case False
  with assms obtain prepared raw where p: "traverse (e1_prepare E query) texts = Inr prepared"
      "traverse normalize_embedding raw = Inr vectors" "length vectors = length prepared"
    by (auto simp: e1_embed_def result_simps split: if_splits)
  then show ?thesis
    using traverse_length [OF p(1)] traverse_member [OF p(2)] normalize_embedding_Inr by fastforce
qed (use assms in \<open>simp add: e1_embed_def\<close>)

text \<open>Every vector the embedder returns has the pipeline's dimension, finite components and
  length one, and there is one for every input text.\<close>

theorem embedding_unit_vectors:
  assumes "e1_embed E query texts = Inr vectors"
  shows "length vectors = length texts
    \<and> (\<forall>v \<in> set vectors. length v = embedding_dimension PIPELINE \<and> list_all isfinite v \<and> norm_of v = 1)"
  by (rule e1_embed_Inr [OF assms])

definition flat_embedder :: e1_embedder where
  "flat_embedder = \<lparr>e1_encode = visible, e1_model = (\<lambda>ts. Inr (map (\<lambda>_. replicate 384 (Finite 1)) ts))\<rparr>"

lemma flat_embedder_returns:
  assumes "\<forall>t \<in> set ts. strip t \<noteq> [] \<and> length (visible (strip t)) \<le> 512"
  shows "\<exists>vs. embed_documents flat_embedder ts = Inr vs"
proof (cases "ts = []")
  case False
  have "e1_prepare flat_embedder False t = Inr (strip t)" if "t \<in> set ts" for t
    using bspec [OF assms that] by (simp add: e1_prepare_def Let_def flat_embedder_def)
  then have "traverse (e1_prepare flat_embedder False) ts = Inr (map strip ts)"
    by (simp add: traverse_Inr_iff list_all2_conv_all_nth)
  moreover have "norm_of (replicate 384 (Finite 1)) \<noteq> 0" by (simp add: norm_of_def sum_list_replicate)
  then have "\<exists>w. normalize_embedding (replicate 384 (Finite 1)) = Inr w"
    by (auto simp: normalize_embedding_def list_all_iff isfinite_def)
  then obtain vs where "traverse normalize_embedding (map (\<lambda>_. replicate 384 (Finite 1)) (map strip ts)) = Inr vs"
    using traverse_total [of "map (\<lambda>_. replicate 384 (Finite 1)) (map strip ts)" normalize_embedding] by auto
  moreover from this have "length vs = length ts" using traverse_length by fastforce
  ultimately show ?thesis
    using False by (auto simp: e1_embed_def flat_embedder_def)
qed (simp add: e1_embed_def)

theorem embedding_unit_vectors_witness:
  "\<exists>vs. embed_documents flat_embedder [lit ''refund''] = Inr vs \<and> length vs = 1
    \<and> (\<forall>v \<in> set vs. norm_of v = 1)"
proof -
  have "strip (lit ''refund'') \<noteq> [] \<and> length (visible (strip (lit ''refund''))) \<le> 512" by code_simp
  with flat_embedder_returns [of "[lit ''refund'']"] obtain vs where
    "embed_documents flat_embedder [lit ''refund''] = Inr vs" by auto
  with embedding_unit_vectors [OF this] show ?thesis by auto
qed

text \<open>C36: the chunker and the embedder agree. For a document chunked under the E1 budget, no
  chunk is empty or too long for the embedder that uses the same tokenizer, so embedding the
  chunks fails only where the model itself fails or returns a bad batch.\<close>

theorem chunks_embeddable:
  assumes "document_ok d" "chunk_document U (e1_budget (e1_encode E)) d = Inr cs"
  shows "embed_documents E (map chk_embedding_text cs) =
    rbind (e1_model E (map (\<lambda>c. strip (chk_embedding_text c)) cs)) (\<lambda>raw.
    rbind (traverse normalize_embedding raw) (\<lambda>vectors.
    if length vectors \<noteq> length cs then raise_runtime ''E1 returned the wrong batch length'' else Inr vectors))"
proof -
  have "cs \<noteq> []" using assms by (auto simp: chunk_document_def result_simps split: if_splits)
  moreover have "traverse (e1_prepare E False) (map chk_embedding_text cs)
      = Inr (map (\<lambda>c. strip (chk_embedding_text c)) cs)"
    using e1_prepare_chunk [OF assms] by (auto simp: traverse_Inr_iff list_all2_conv_all_nth)
  ultimately show ?thesis by (simp add: e1_embed_def)
qed

lemma visible_strip [simp]: "visible (strip s) = visible s"
proof -
  have "filter (\<lambda>c. \<not> is_space c) (dropWhile is_space xs) = filter (\<lambda>c. \<not> is_space c) xs" for xs
    by (induction xs) auto
  then show ?thesis
    by (simp add: visible_def strip_by_def rstrip_by_def lstrip_by_def flip: rev_filter)
qed

lemma visible_Cons [simp]: "visible (c # s) = (if is_space c then visible s else c # visible s)"
  by (simp add: visible_def)

lemma sample_e1_chunked: "\<exists>cs. chunk_document ascii_only (e1_budget visible) sample_document = Inr cs"
  unfolding e1_budget_def
proof (rule e1.chunking_returns [OF sample_document_ok])
  show "hd (doc_blocks sample_document) \<in> set (doc_blocks sample_document)" by (simp add: sample_document_def)
  then show "short_block ascii_only (hd (doc_blocks sample_document))" using sample_short by blast
qed (use sample_single_fits in \<open>simp_all add: e1_fits_def\<close>)

theorem chunks_embeddable_witness:
  "\<exists>cs. chunk_document ascii_only (e1_budget visible) sample_document = Inr cs
    \<and> embed_documents flat_embedder (map chk_embedding_text cs) =
        rbind (traverse normalize_embedding (replicate (length cs) (replicate 384 (Finite 1)))) (\<lambda>vectors.
        if length vectors \<noteq> length cs then raise_runtime ''E1 returned the wrong batch length'' else Inr vectors)"
proof -
  from sample_e1_chunked obtain cs where cs: "chunk_document ascii_only (e1_budget visible) sample_document = Inr cs" ..
  have "map (\<lambda>_. replicate 384 (Finite 1)) cs = replicate (length cs) (replicate 384 (Finite 1))"
    by (simp add: map_replicate_const)
  with cs chunks_embeddable [OF sample_document_ok, of ascii_only flat_embedder cs] show ?thesis
    by (simp add: flat_embedder_def comp_def)
qed

text \<open>C39: indexing never stops in the chunker for an ordinary document. When a text has at least
  as many E1 tokens as its last paragraph, and each single token fits under its document and
  section header, a well-formed document with a block of at most 500 tokens is chunked, and every
  chunk is within the E1 limit.\<close>

theorem e1_chunking_returns:
  assumes "document_ok d" "b \<in> set (doc_blocks d)" "count U (blk_text b) \<le> chunk_max_tokens PIPELINE"
    and "\<And>s t. length (encode (strip t)) \<le> length (encode (strip (s @ [10, 10] @ t)))"
    and "\<And>f. frag_ok U (set (doc_blocks d)) f \<Longrightarrow> frag_tokens f = 1 \<Longrightarrow>
           length (encode (strip (budget_text U d [f]))) \<le> embedding_input_limit PIPELINE"
  shows "\<exists>cs. chunk_document U (e1_budget encode) d = Inr cs \<and> cs \<noteq> []
    \<and> (\<forall>c \<in> set cs. length (encode (strip (chk_embedding_text c))) \<le> embedding_input_limit PIPELINE)"
proof -
  have short: "short_block U b" using assms(3) by simp
  have "e1_fits encode t" if "e1_fits encode (s @ [10, 10] @ t)" for s t
    using that assms(4) [of t s] unfolding e1_fits_def by linarith
  with e1.chunking_returns [OF assms(1,2) short, of encode] assms(5) obtain cs where
    cs: "chunk_document U (e1_budget encode) d = Inr cs"
    unfolding e1_budget_def e1_fits_def by blast
  then have "cs \<noteq> []" by (auto simp: chunk_document_def result_simps split: if_splits)
  moreover have "\<forall>c \<in> set cs. e1_fits encode (chk_embedding_text c)"
    using e1.chunks_fit [OF assms(1)] cs unfolding e1_budget_def by blast
  ultimately show ?thesis using cs unfolding e1_fits_def by blast
qed

theorem e1_chunking_returns_witness:
  "\<exists>cs. chunk_document ascii_only (e1_budget visible) sample_document = Inr cs \<and> cs \<noteq> []
    \<and> (\<forall>c \<in> set cs. length (visible (strip (chk_embedding_text c))) \<le> embedding_input_limit PIPELINE)"
proof (rule e1_chunking_returns [OF sample_document_ok])
  show "hd (doc_blocks sample_document) \<in> set (doc_blocks sample_document)" by (simp add: sample_document_def)
  then show "count ascii_only (blk_text (hd (doc_blocks sample_document))) \<le> chunk_max_tokens PIPELINE"
    using sample_short by auto
qed (use sample_single_fits in \<open>simp_all\<close>)

end
