(* ===== verification/Lexical.thy ===== *)
theory Lexical
  imports Chunk_Tokens "HOL-Library.Multiset"
begin

text \<open>
  \<open>packages/rag/lexical.py\<close>: the terms of a text with their spelling variants, the exact
  identifiers, and the structural BM25 scorer. Scores are real numbers. The lemmas show when a
  chunk is scored at all (it shares a term or an exact identifier with the query) and what
  \<open>rank\<close> returns.
\<close>

section \<open>Terms\<close>

definition stop_words :: "pystr list" where
  "stop_words = map lit
     [''a'', ''about'', ''an'', ''and'', ''are'', ''as'', ''at'', ''be'', ''been'', ''before'', ''but'', ''by'',
      ''can'', ''could'', ''did'', ''do'', ''does'', ''for'', ''from'', ''has'', ''have'', ''how'', ''i'', ''if'',
      ''in'', ''into'', ''is'', ''it'', ''its'', ''me'', ''my'', ''of'', ''on'', ''or'', ''our'', ''should'',
      ''that'', ''the'', ''their'', ''them'', ''then'', ''there'', ''these'', ''they'', ''this'', ''those'',
      ''to'', ''use'', ''using'', ''was'', ''we'', ''were'', ''what'', ''when'', ''where'', ''which'', ''who'',
      ''why'', ''will'', ''with'', ''would'', ''you'', ''your'']"

text \<open>The length of the match of \<open>[\w]+(?:[-_.'][\w]+)*\<close> at the start of a text, 0 for none.\<close>

function separated_run :: "unicode \<Rightarrow> pystr \<Rightarrow> nat" where
  "separated_run U s =
     (case s of [] \<Rightarrow> 0
      | q # r \<Rightarrow> if q \<in> {45, 95, 46, 39} \<and> 0 < word_run U r
          then Suc (word_run U r) + separated_run U (drop (word_run U r) r) else 0)"
  by pat_completeness auto
termination
  by (relation "measure (\<lambda>(U, s). length s)") auto

declare separated_run.simps [simp del]

definition term_match :: "unicode \<Rightarrow> pystr \<Rightarrow> nat" where
  "term_match U s = (if word_run U s = 0 then 0
     else word_run U s + separated_run U (drop (word_run U s) s))"

text \<open>\<open>_TERM_PATTERN.finditer\<close>: the texts matched.\<close>

function term_texts :: "unicode \<Rightarrow> pystr \<Rightarrow> pystr list" where
  "term_texts U s =
     (if s = [] then []
      else if term_match U s = 0 then term_texts U (tl s)
      else take (term_match U s) s # term_texts U (drop (term_match U s) s))"
  by pat_completeness auto
termination
  by (relation "measure (\<lambda>(U, s). length s)") auto

declare term_texts.simps [simp del]

text \<open>\<open>tuple(dict.fromkeys(xs))\<close>: each value once, at its first place.\<close>

definition first_occurrences :: "'a list \<Rightarrow> 'a list" where
  "first_occurrences xs = rev (remdups (rev xs))"

lemma first_occurrences_simps [simp]:
  "set (first_occurrences xs) = set xs" "distinct (first_occurrences xs)"
  by (simp_all add: first_occurrences_def)

definition has_identifier_shape :: "unicode \<Rightarrow> pystr \<Rightarrow> bool" where
  "has_identifier_shape U t \<longleftrightarrow> list_ex (is_digit U) t \<or> 45 \<in> set t \<or> 95 \<in> set t \<or> 46 \<in> set t"

text \<open>\<open>s[:-n]\<close>.\<close>

abbreviation chop :: "nat \<Rightarrow> pystr \<Rightarrow> pystr" where
  "chop n s \<equiv> take (length s - n) s"

definition variants :: "unicode \<Rightarrow> pystr \<Rightarrow> pystr list" where
  "variants U t =
     (if has_identifier_shape U t then [t]
      else first_occurrences (t #
        (if 5 < length t \<and> ends_with (lit ''ies'') t then [chop 3 t @ lit ''y'']
         else if 6 < length t \<and> ends_with (lit ''ing'') t then [chop 3 t, chop 3 t @ lit ''e'']
         else if 5 < length t \<and> ends_with (lit ''ed'') t then [chop 2 t, chop 2 t @ lit ''e'']
         else if 4 < length t \<and> ends_with (lit ''s'') t
              \<and> \<not> (ends_with (lit ''ss'') t \<or> ends_with (lit ''us'') t \<or> ends_with (lit ''is'') t)
           then [chop 1 t]
         else [])))"

definition lexical_terms :: "unicode \<Rightarrow> pystr \<Rightarrow> pystr list" where
  "lexical_terms U text =
     concat (map (\<lambda>m. let t = casefold U m in if t \<in> set stop_words then [] else variants U t)
       (term_texts U (replace_char 0x2019 [39] text)))"

definition identifiers :: "unicode \<Rightarrow> pystr \<Rightarrow> pystr list" where
  "identifiers U text =
     first_occurrences (filter (\<lambda>v. v \<noteq> [] \<and> has_identifier_shape U v) (map (casefold U) (term_texts U text)))"

section \<open>Prepared documents\<close>

record prepared_document =
  pd_chunk :: chunk
  pd_weighted :: "pystr \<rightharpoonup> real"
  pd_sequences :: "pystr list list"
  pd_identifiers :: "pystr list"
  pd_length :: real

definition add_weight :: "real \<Rightarrow> (pystr \<rightharpoonup> real) \<Rightarrow> pystr \<Rightarrow> (pystr \<rightharpoonup> real)" where
  "add_weight x w t = w(t \<mapsto> (case w t of None \<Rightarrow> 0 | Some v \<Rightarrow> v) + x)"

definition prepare :: "unicode \<Rightarrow> chunk \<Rightarrow> prepared_document" where
  "prepare U c =
     (let text_terms = lexical_terms U (chk_text c);
          headings = map (lexical_terms U) (chk_heading_path c);
          title_terms = lexical_terms U (chk_document_title c);
          weighted = foldl (add_weight 1) Map.empty text_terms;
          weighted = foldl (add_weight (heading_weight PIPELINE)) weighted (concat headings);
          weighted = foldl (add_weight (title_weight PIPELINE)) weighted title_terms
      in \<lparr>pd_chunk = c, pd_weighted = weighted, pd_sequences = text_terms # headings @ [title_terms],
          pd_identifiers = identifiers U
            (join_with [32] (chk_text c # chk_heading_path c @ [chk_document_title c])),
          pd_length = real (length text_terms)
            + heading_weight PIPELINE * real (sum_list (map length headings))
            + title_weight PIPELINE * real (length title_terms)\<rparr>)"

text \<open>\<open>present_terms\<close>: the terms of all sequences.\<close>

definition present :: "prepared_document \<Rightarrow> pystr \<Rightarrow> bool" where
  "present p t \<longleftrightarrow> t \<in> set (concat (pd_sequences p))"

section \<open>The scorer\<close>

text \<open>\<open>itertools.pairwise\<close>.\<close>

fun bigrams :: "'a list \<Rightarrow> ('a \<times> 'a) list" where
  "bigrams (x # y # zs) = (x, y) # bigrams (y # zs)"
| "bigrams _ = []"

definition frequency :: "prepared_document list \<Rightarrow> pystr \<Rightarrow> nat" where
  "frequency ps t = length (filter (\<lambda>p. present p t) ps)"

definition inverse_frequency :: "prepared_document list \<Rightarrow> pystr \<Rightarrow> real" where
  "inverse_frequency ps t =
     ln (1 + (real (length ps) - real (frequency ps t) + 1 / 2) / (real (frequency ps t) + 1 / 2))"

text \<open>\<open>inverse.get(t, otherwise)\<close>: the dictionary has the query's terms.\<close>

definition inverse_get :: "prepared_document list \<Rightarrow> pystr list \<Rightarrow> pystr \<Rightarrow> real \<Rightarrow> real" where
  "inverse_get ps query t otherwise = (if t \<in> set query then inverse_frequency ps t else otherwise)"

definition term_score :: "prepared_document list \<Rightarrow> pystr list \<Rightarrow> real \<Rightarrow> prepared_document \<Rightarrow> pystr \<Rightarrow> real" where
  "term_score ps query normalization p t =
     (case pd_weighted p t of None \<Rightarrow> 0
      | Some tf \<Rightarrow> if 0 < tf
          then inverse_frequency ps t * real (count_list query t) * tf * (bm25_k1 PIPELINE + 1)
               / (tf + normalization)
          else 0)"

definition average_length :: "prepared_document list \<Rightarrow> real" where
  "average_length ps = sum_list (map pd_length ps) / real (length ps)"

definition normalization :: "prepared_document list \<Rightarrow> prepared_document \<Rightarrow> real" where
  "normalization ps p = bm25_k1 PIPELINE * (1 - bm25_b PIPELINE + bm25_b PIPELINE *
     (if average_length ps \<noteq> 0 then pd_length p / average_length ps else 1))"

definition score :: "unicode \<Rightarrow> prepared_document list \<Rightarrow> pystr \<Rightarrow> prepared_document \<Rightarrow> real" where
  "score U ps query p =
     (let terms = lexical_terms U query;
          shared_identifiers = filter (\<lambda>i. i \<in> set (pd_identifiers p)) (identifiers U query);
          document_bigrams = concat (map bigrams (pd_sequences p));
          shared_bigrams = filter (\<lambda>b. b \<in> set document_bigrams) (first_occurrences (bigrams terms))
      in sum_list (map (term_score ps terms (normalization ps p) p) (first_occurrences terms))
         + exact_identifier_bonus PIPELINE * sum_list (map (\<lambda>i. inverse_get ps terms i 1) shared_identifiers)
         + phrase_bonus PIPELINE * sum_list (map (\<lambda>(l, r). (inverse_get ps terms l 0 + inverse_get ps terms r 0) / 2)
             shared_bigrams))"

definition rank :: "unicode \<Rightarrow> pystr \<Rightarrow> chunk list \<Rightarrow> int \<Rightarrow> chunk list" where
  "rank U query chunks limit =
     (if lexical_terms U query = [] \<or> chunks = [] \<or> limit < 1 then []
      else let ps = map (prepare U) chunks;
               scored = filter (\<lambda>(s, c). 0 < s) (map (\<lambda>p. (score U ps query p, pd_chunk p)) ps)
           in map snd (take (nat limit) (sort_key (\<lambda>(s, c). (- s, chk_id c)) scored)))"

section \<open>Weights and lengths\<close>

definition weights_ok :: "(pystr \<rightharpoonup> real) \<Rightarrow> bool" where
  "weights_ok w \<longleftrightarrow> (\<forall>t v. w t = Some v \<longrightarrow> 0 < v)"

lemma add_weights:
  assumes "0 < x" "weights_ok w"
  shows "weights_ok (foldl (add_weight x) w ts) \<and> dom (foldl (add_weight x) w ts) = dom w \<union> set ts"
  using assms(2)
proof (induction ts arbitrary: w)
  case (Cons t ts)
  have "weights_ok (add_weight x w t)"
    using Cons.prems assms(1) by (auto simp: weights_ok_def add_weight_def add_pos_pos split: option.split)
  moreover have "dom (add_weight x w t) = insert t (dom w)" by (simp add: add_weight_def)
  ultimately show ?case using Cons.IH [of "add_weight x w t"] by simp
qed simp

lemma prepare_weights:
  "weights_ok (pd_weighted (prepare U c))" "dom (pd_weighted (prepare U c)) = Collect (present (prepare U c))"
proof -
  let ?t = "lexical_terms U (chk_text c)" and ?h = "map (lexical_terms U) (chk_heading_path c)"
    and ?d = "lexical_terms U (chk_document_title c)"
  have 0: "weights_ok Map.empty" by (simp add: weights_ok_def)
  note 1 = add_weights [of 1, OF _ 0, of ?t]
  note 2 = add_weights [of "75 / 100" "foldl (add_weight 1) Map.empty ?t" "concat ?h"]
  note 3 = add_weights [of "5 / 10" "foldl (add_weight (75 / 100)) (foldl (add_weight 1) Map.empty ?t) (concat ?h)" ?d]
  show "weights_ok (pd_weighted (prepare U c))" using 1 2 3 by (simp add: prepare_def Let_def)
  show "dom (pd_weighted (prepare U c)) = Collect (present (prepare U c))"
    using 1 2 3 by (auto simp: prepare_def Let_def present_def)
qed

lemma prepare_length: "0 \<le> pd_length (prepare U c)"
  by (simp add: prepare_def Let_def)

lemma prepare_chunk [simp]: "pd_chunk (prepare U c) = c"
  by (simp add: prepare_def Let_def)

lemma inverse_frequency_pos: "0 < inverse_frequency ps t"
proof -
  have "frequency ps t \<le> length ps" by (simp add: frequency_def)
  then have "0 < (real (length ps) - real (frequency ps t) + 1 / 2) / (real (frequency ps t) + 1 / 2)"
    by (intro divide_pos_pos) auto
  then show ?thesis by (simp add: inverse_frequency_def)
qed

lemma normalization_pos:
  assumes "\<forall>p \<in> set ps. 0 \<le> pd_length p" "0 \<le> pd_length p"
  shows "0 < normalization ps p"
proof -
  have "0 \<le> sum_list (map pd_length ps)" using assms(1) by (intro sum_list_nonneg) auto
  then have "0 \<le> average_length ps" by (simp add: average_length_def)
  then have "0 \<le> (if average_length ps \<noteq> 0 then pd_length p / average_length ps else 1)"
    using assms(2) by simp
  then show ?thesis by (simp add: normalization_def add_pos_nonneg)
qed

section \<open>When a chunk is scored\<close>

definition shares_term :: "unicode \<Rightarrow> pystr \<Rightarrow> chunk \<Rightarrow> bool" where
  "shares_term U query c \<longleftrightarrow> (\<exists>t \<in> set (lexical_terms U query).
     \<exists>s \<in> set (chk_text c # chk_heading_path c @ [chk_document_title c]). t \<in> set (lexical_terms U s))"

definition shares_identifier :: "unicode \<Rightarrow> pystr \<Rightarrow> chunk \<Rightarrow> bool" where
  "shares_identifier U query c \<longleftrightarrow> (\<exists>i \<in> set (identifiers U query).
     i \<in> set (identifiers U (join_with [32] (chk_text c # chk_heading_path c @ [chk_document_title c]))))"

lemma shares_term_present: "shares_term U query c \<longleftrightarrow> (\<exists>t \<in> set (lexical_terms U query). present (prepare U c) t)"
  by (auto simp: shares_term_def present_def prepare_def Let_def)

lemma term_score_sign:
  assumes "weights_ok (pd_weighted p)" "0 < n" "t \<in> set terms"
  shows "0 \<le> term_score ps terms n p t" "t \<in> dom (pd_weighted p) \<Longrightarrow> 0 < term_score ps terms n p t"
    "t \<notin> dom (pd_weighted p) \<Longrightarrow> term_score ps terms n p t = 0"
proof -
  have pos: "0 < term_score ps terms n p t" if "pd_weighted p t = Some v" for v
  proof -
    have "0 < v" using assms(1) that by (auto simp: weights_ok_def)
    moreover have "0 < real (count_list terms t)" using assms(3) by (simp add: count_list_0_iff zero_less_iff_neq_zero)
    ultimately show ?thesis
      using that assms(2) inverse_frequency_pos [of ps t] by (simp add: term_score_def add_pos_pos)
  qed
  then show "0 \<le> term_score ps terms n p t"
    by (cases "pd_weighted p t") (auto simp: term_score_def less_imp_le)
  show "t \<in> dom (pd_weighted p) \<Longrightarrow> 0 < term_score ps terms n p t" using pos by auto
  show "t \<notin> dom (pd_weighted p) \<Longrightarrow> term_score ps terms n p t = 0"
    by (auto simp: term_score_def split: option.split)
qed

lemma sum_list_pos_iff:
  assumes "\<And>x. x \<in> set xs \<Longrightarrow> 0 \<le> (f x :: real)"
  shows "0 < sum_list (map f xs) \<longleftrightarrow> (\<exists>x \<in> set xs. 0 < f x)"
  using assms
proof (induction xs)
  case (Cons x xs)
  have "0 \<le> sum_list (map f xs)" using Cons.prems by (intro sum_list_nonneg) auto
  with Cons show ?case by (smt (verit) list.set_intros list.simps(9) sum_list.Cons set_ConsD)
qed simp

lemma inverse_get_sign: "0 \<le> x \<Longrightarrow> 0 \<le> inverse_get ps query t x" "0 < x \<Longrightarrow> 0 < inverse_get ps query t x"
  "t \<in> set query \<Longrightarrow> 0 < inverse_get ps query t x"
  using inverse_frequency_pos [of ps t] by (auto simp: inverse_get_def less_imp_le)

lemma bigrams_members: "(a, b) \<in> set (bigrams xs) \<Longrightarrow> a \<in> set xs \<and> b \<in> set xs"
  by (induction xs rule: bigrams.induct) auto

text \<open>The phrase bonus only adds to a chunk that shares a term already.\<close>

lemma score_pos_iff:
  assumes "c \<in> set chunks" "ps = map (prepare U) chunks"
  shows "0 < score U ps query (prepare U c) \<longleftrightarrow> shares_term U query c \<or> shares_identifier U query c"
proof -
  let ?p = "prepare U c" and ?terms = "lexical_terms U query"
  let ?ids = "filter (\<lambda>i. i \<in> set (pd_identifiers ?p)) (identifiers U query)"
  let ?grams = "filter (\<lambda>b. b \<in> set (concat (map bigrams (pd_sequences ?p)))) (first_occurrences (bigrams ?terms))"
  let ?a = "sum_list (map (term_score ps ?terms (normalization ps ?p) ?p) (first_occurrences ?terms))"
  let ?b = "sum_list (map (\<lambda>i. inverse_get ps ?terms i 1) ?ids)"
  let ?g = "\<lambda>(l, r). (inverse_get ps ?terms l 0 + inverse_get ps ?terms r 0) / 2"
  let ?c = "sum_list (map ?g ?grams)"
  have n: "0 < normalization ps ?p" using prepare_length assms(2) by (intro normalization_pos) auto
  note ts = term_score_sign [OF prepare_weights(1) n]
  have a: "0 \<le> ?a" using ts(1) by (intro sum_list_nonneg) auto
  have "0 < ?a \<longleftrightarrow> (\<exists>t \<in> set ?terms. 0 < term_score ps ?terms (normalization ps ?p) ?p t)"
    using ts(1) by (subst sum_list_pos_iff) auto
  also have "\<dots> \<longleftrightarrow> (\<exists>t \<in> set ?terms. t \<in> dom (pd_weighted ?p))" using ts(2,3) by (metis less_irrefl)
  finally have a_pos: "0 < ?a \<longleftrightarrow> shares_term U query c" by (simp add: prepare_weights shares_term_present)
  have b: "0 \<le> ?b" using inverse_get_sign(1) [of 1] by (intro sum_list_nonneg) auto
  have "0 < ?b \<longleftrightarrow> (\<exists>i \<in> set ?ids. 0 < inverse_get ps ?terms i 1)"
    using inverse_get_sign(1) [of 1] by (subst sum_list_pos_iff) auto
  then have b_pos: "0 < ?b \<longleftrightarrow> shares_identifier U query c"
    using inverse_get_sign(2) [of 1] by (auto simp: shares_identifier_def prepare_def Let_def)
  have c: "0 \<le> ?c" using inverse_get_sign(1) [of 0] by (intro sum_list_nonneg) (auto simp: add_nonneg_nonneg)
  have c_pos: "shares_term U query c" if "0 < ?c"
  proof -
    from that have "?grams \<noteq> []" by auto
    then have "hd ?grams \<in> set ?grams" by (rule hd_in_set)
    then obtain l r where g: "(l, r) \<in> set ?grams" by (metis surj_pair)
    then have "l \<in> set ?terms" using bigrams_members [of l r ?terms] by auto
    moreover from g obtain sq where "sq \<in> set (pd_sequences ?p)" "(l, r) \<in> set (bigrams sq)" by auto
    then have "present ?p l" using bigrams_members [of l r sq] by (auto simp: present_def)
    ultimately show ?thesis by (auto simp: shares_term_present)
  qed
  have eq: "score U ps query ?p = ?a + 15 / 10 * ?b + 25 / 100 * ?c" by (simp add: score_def Let_def)
  show ?thesis unfolding eq using a b c a_pos b_pos c_pos by linarith
qed

section \<open>The ranking\<close>

lemma map_insort_key:
  "map f (insort_key (\<lambda>x. k (f x)) x xs) = insort_key k (f x) (map f xs)"
  by (induction xs) auto

lemma map_sort_key: "map f (sort_key (\<lambda>x. k (f x)) xs) = sort_key k (map f xs)"
  by (induction xs) (auto simp: map_insort_key)

definition rank_key :: "unicode \<Rightarrow> chunk list \<Rightarrow> pystr \<Rightarrow> chunk \<Rightarrow> real \<times> pystr" where
  "rank_key U chunks query c = (- score U (map (prepare U) chunks) query (prepare U c), chk_id c)"

definition rankable :: "unicode \<Rightarrow> pystr \<Rightarrow> chunk \<Rightarrow> bool" where
  "rankable U query c \<longleftrightarrow> lexical_terms U query \<noteq> [] \<and> (shares_term U query c \<or> shares_identifier U query c)"

text \<open>\<open>rank\<close> is the stable sort of the chunks that share something, cut at the limit.\<close>

lemma rank_eq:
  "rank U query chunks limit =
     take (nat limit) (sort_key (rank_key U chunks query) (filter (rankable U query) chunks))"
proof (cases "lexical_terms U query = [] \<or> chunks = [] \<or> limit < 1")
  case True
  then show ?thesis by (auto simp: rank_def rankable_def)
next
  case False
  let ?ps = "map (prepare U) chunks" and ?s = "\<lambda>c. score U (map (prepare U) chunks) query (prepare U c)"
  have "map (\<lambda>p. (score U ?ps query p, pd_chunk p)) ?ps = map (\<lambda>c. (?s c, c)) chunks"
    by simp
  then have "filter (\<lambda>(s, c). 0 < s) (map (\<lambda>p. (score U ?ps query p, pd_chunk p)) ?ps)
      = map (\<lambda>c. (?s c, c)) (filter (\<lambda>c. 0 < ?s c) chunks)"
    by (simp add: filter_map comp_def)
  moreover have "filter (\<lambda>c. 0 < ?s c) chunks = filter (rankable U query) chunks"
    using score_pos_iff [OF _ refl, of _ chunks U query] False
    by (intro filter_cong) (auto simp: rankable_def)
  moreover have "sort_key (\<lambda>(s, c). (- s, chk_id c)) (map (\<lambda>c. (?s c, c)) xs)
      = map (\<lambda>c. (?s c, c)) (sort_key (rank_key U chunks query) xs)" for xs
    using map_sort_key [of "\<lambda>c. (?s c, c)" "\<lambda>(s, c). (- s, chk_id c)" xs]
    by (simp add: rank_key_def [abs_def])
  ultimately show ?thesis
    using False by (simp add: rank_def Let_def comp_def flip: take_map)
qed

text \<open>C35: lexical search misses nothing and invents nothing. With a limit of at least the number of
  chunks, \<open>rank\<close> returns exactly the chunks whose text, headings or title share a term or an
  exact identifier with a query that has terms, each as often as it is given.\<close>

theorem rank_complete:
  assumes "int (length chunks) \<le> limit"
  shows "mset (rank U query chunks limit) =
    filter_mset (\<lambda>c. lexical_terms U query \<noteq> [] \<and> (shares_term U query c \<or> shares_identifier U query c)) (mset chunks)"
proof -
  have "length (filter (rankable U query) chunks) \<le> nat limit"
    using assms length_filter_le [of "rankable U query" chunks] by linarith
  then have "mset (rank U query chunks limit) = mset (filter (rankable U query) chunks)"
    by (simp add: rank_eq)
  then show ?thesis by (simp add: rankable_def [abs_def])
qed

text \<open>The ranking is deterministic and best first. The result is sorted by descending score
  and then by chunk identifier, has at most the limit, comes from the chunks given, and no chunk
  left out comes before one returned.\<close>

theorem rank_best_first:
  "sorted (map (rank_key U chunks query) (rank U query chunks limit))
    \<and> length (rank U query chunks limit) \<le> nat limit
    \<and> (\<exists>rest. mset (rank U query chunks limit @ rest) = filter_mset (rankable U query) (mset chunks)
        \<and> (\<forall>c \<in> set (rank U query chunks limit). \<forall>r \<in> set rest.
             rank_key U chunks query c \<le> rank_key U chunks query r))"
proof -
  let ?k = "rank_key U chunks query" and ?xs = "sort_key (rank_key U chunks query) (filter (rankable U query) chunks)"
  let ?n = "nat limit"
  have sorted: "sorted (map ?k (take ?n ?xs @ drop ?n ?xs))" by simp
  then have "\<forall>c \<in> set (take ?n ?xs). \<forall>r \<in> set (drop ?n ?xs). ?k c \<le> ?k r"
    unfolding map_append sorted_append by auto
  moreover have "mset (take ?n ?xs @ drop ?n ?xs) = filter_mset (rankable U query) (mset chunks)"
    unfolding append_take_drop_id by simp
  moreover have "sorted (map ?k (take ?n ?xs))" using sorted unfolding map_append sorted_append by auto
  ultimately show ?thesis unfolding rank_eq by (intro conjI exI [of _ "drop ?n ?xs"]) simp_all
qed

text \<open>Two chunks, one on the query's subject.\<close>

definition sample_passage :: "nat \<Rightarrow> pystr \<Rightarrow> chunk" where
  "sample_passage n t = \<lparr>chk_id = replicate 64 (97 + n), chk_document_id = 4, chk_version_id = 5, chk_order = int n,
     chk_text = t, chk_embedding_text = t, chk_token_count = 3, chk_locators = [],
     chk_heading_path = [lit ''Help''], chk_page_number = None, chk_document_title = lit ''Guide''\<rparr>"

definition sample_passages :: "chunk list" where
  "sample_passages = [sample_passage 0 (lit ''Invoices are sent monthly''), sample_passage 1 (lit ''A refund takes days'')]"

lemma sample_query:
  "lexical_terms ascii_only (lit ''refunds'') \<noteq> []"
  "filter (\<lambda>c. shares_term ascii_only (lit ''refunds'') c \<or> shares_identifier ascii_only (lit ''refunds'') c) sample_passages
    = [sample_passages ! 1]"
  by code_simp+

theorem rank_complete_witness:
  "mset (rank ascii_only (lit ''refunds'') sample_passages 20) = {#sample_passages ! 1#}"
proof -
  have "mset (rank ascii_only (lit ''refunds'') sample_passages 20)
      = filter_mset (\<lambda>c. shares_term ascii_only (lit ''refunds'') c \<or> shares_identifier ascii_only (lit ''refunds'') c)
          (mset sample_passages)"
    using rank_complete [of sample_passages 20 ascii_only "lit ''refunds''"] sample_query(1)
    by (simp add: sample_passages_def)
  then show ?thesis using sample_query(2) unfolding mset_filter [symmetric] by simp
qed

theorem rank_best_first_witness:
  "length (rank ascii_only (lit ''refunds'') sample_passages 1) \<le> 1
    \<and> sorted (map (rank_key ascii_only sample_passages (lit ''refunds'')) (rank ascii_only (lit ''refunds'') sample_passages 1))"
  using rank_best_first [of ascii_only sample_passages "lit ''refunds''" 1] by simp

end
