(* ===== verification/Retrieval.thy ===== *)
theory Retrieval
  imports Embedding Lexical Db_Tables
begin

text \<open>
  \<open>packages/rag/repository.py\<close>: rows of \<open>document_chunks\<close> back to chunks, reciprocal rank
  fusion, the replacement and deletion of a version's chunks, and the hybrid search. The
  distance of two vectors is pgvector's and a parameter. The lemmas: a stored chunk reads back
  as it was, a search answers only from the active versions of its own workspace and does not
  depend on any other workspace's rows, and the fused ranking is best first.
\<close>

section \<open>From rows to chunks\<close>

definition locator_integer :: "unicode \<Rightarrow> (pystr \<times> json) list \<Rightarrow> pystr \<Rightarrow> int result" where
  "locator_integer U value key =
     (case json_get value key of JInt i \<Rightarrow> json_int U (JInt i) | JBool b \<Rightarrow> json_int U (JBool b)
      | JStr s \<Rightarrow> json_int U (JStr s) | _ \<Rightarrow> raise_runtime ''stored source locator is malformed'')"

definition stored_locator :: "unicode \<Rightarrow> (pystr \<times> json) list \<Rightarrow> source_locator result" where
  "stored_locator U value =
     rbind (json_item value (lit ''block_id'')) (\<lambda>bid.
     rbind (locator_integer U value (lit ''block_index'')) (\<lambda>idx.
     rbind (locator_integer U value (lit ''char_start'')) (\<lambda>cs.
     rbind (locator_integer U value (lit ''char_end'')) (\<lambda>ce.
     rbind (case json_get value (lit ''page_number'') of JNull \<Rightarrow> Inr None
            | raw \<Rightarrow> rbind (json_int U raw) (\<lambda>p. Inr (Some p))) (\<lambda>page.
     SourceLocator (json_str bid) idx cs ce page)))))"

definition stored_chunk :: "unicode \<Rightarrow> document_chunk \<Rightarrow> chunk result" where
  "stored_chunk U r =
     rbind (traverse (stored_locator U) (row_locators r)) (\<lambda>locs.
     Chunk \<lparr>chk_id = row_chunk_id r, chk_document_id = row_document_id r, chk_version_id = row_version_id r,
       chk_order = row_chunk_order r, chk_text = row_original_text r, chk_embedding_text = row_original_text r,
       chk_token_count = row_token_count r, chk_locators = locs, chk_heading_path = row_heading_path r,
       chk_page_number = row_page_number r, chk_document_title = row_document_title r\<rparr>)"

section \<open>Reciprocal rank fusion\<close>

text \<open>A dictionary built from pairs in order: the last value of a key counts.\<close>

definition last_value :: "('k \<times> 'v) list \<Rightarrow> 'k \<Rightarrow> 'v option" where
  "last_value kvs = map_of (rev kvs)"

definition rank_of :: "chunk list \<Rightarrow> pystr \<Rightarrow> nat option" where
  "rank_of cs = last_value (map (\<lambda>(n, c). (chk_id c, n)) (enum_from 1 cs))"

definition rank_score :: "nat option \<Rightarrow> real" where
  "rank_score r = (case r of None \<Rightarrow> 0 | Some n \<Rightarrow> 1 / (rrf_constant PIPELINE + real n))"

definition fused_result :: "chunk list \<Rightarrow> chunk list \<Rightarrow> chunk \<Rightarrow> search_result" where
  "fused_result dense lexical c =
     \<lparr>res_chunk = c,
      res_fused_score = rank_score (rank_of dense (chk_id c)) + rank_score (rank_of lexical (chk_id c)),
      res_dense_rank = rank_of dense (chk_id c), res_lexical_rank = rank_of lexical (chk_id c)\<rparr>"

definition result_place :: "search_result \<Rightarrow> real \<times> pystr" where
  "result_place r = (- res_fused_score r, chk_id (res_chunk r))"

definition fuse_rankings :: "chunk list \<Rightarrow> chunk list \<Rightarrow> nat \<Rightarrow> search_result list" where
  "fuse_rankings dense lexical result_count =
     (let both = dense @ lexical;
          chunks = List.map_filter (last_value (map (\<lambda>c. (chk_id c, c)) both)) (first_occurrences (map chk_id both))
      in take result_count (sort_key result_place (map (fused_result dense lexical) chunks)))"

section \<open>The repository\<close>

definition record_ok :: "chunk \<Rightarrow> embedded_chunk \<Rightarrow> bool" where
  "record_ok first r \<longleftrightarrow> chk_version_id (emb_chunk r) = chk_version_id first
     \<and> chk_document_id (emb_chunk r) = chk_document_id first
     \<and> length (emb_vector r) = embedding_dimension PIPELINE \<and> list_all isfinite (emb_vector r)"

definition chunk_row :: "uuid \<Rightarrow> embedded_chunk \<Rightarrow> document_chunk" where
  "chunk_row ws r = (let c = emb_chunk r in
     \<lparr>row_chunk_id = chk_id c, row_workspace_id = ws, row_document_id = chk_document_id c,
      row_version_id = chk_version_id c, row_pipeline_version = pipeline_version PIPELINE,
      row_chunk_order = chk_order c, row_original_text = chk_text c, row_token_count = chk_token_count c,
      row_locators = map locator_as_dict (chk_locators c), row_heading_path = chk_heading_path c,
      row_page_number = chk_page_number c, row_document_title = chk_document_title c,
      row_embedding = emb_vector r\<rparr>)"

definition replace_version :: "tenant \<Rightarrow> uuid \<Rightarrow> embedded_chunk list \<Rightarrow> db \<Rightarrow> db result" where
  "replace_version t ws records d =
     (case records of [] \<Rightarrow> raise_value ''cannot activate an empty production index''
      | r0 # _ \<Rightarrow>
          let first = emb_chunk r0 in
          if \<not> list_all (record_ok first) records
          then raise_value ''embedded chunks do not share the production storage contract''
          else rfold (insert_chunk t)
            (d\<lparr>db_chunks := filter (\<lambda>c. \<not> (in_workspace t (row_workspace_id c) \<and> row_workspace_id c = ws
                 \<and> row_version_id c = chk_version_id first
                 \<and> row_pipeline_version c = pipeline_version PIPELINE)) (db_chunks d)\<rparr>)
            (map (chunk_row ws) records))"

definition delete_document_chunks :: "tenant \<Rightarrow> uuid \<Rightarrow> uuid \<Rightarrow> db \<Rightarrow> db" where
  "delete_document_chunks t ws doc d = d\<lparr>db_chunks := filter (\<lambda>c. \<not> (in_workspace t (row_workspace_id c)
     \<and> row_workspace_id c = ws \<and> row_document_id c = doc)) (db_chunks d)\<rparr>"

text \<open>
  The rows of \<open>_active_scope\<close>: the chunk and its document are seen under the policies, and the
  chunk's version is the document's active one.
\<close>

definition in_active_scope :: "tenant \<Rightarrow> uuid \<Rightarrow> db \<Rightarrow> document_chunk \<Rightarrow> bool" where
  "in_active_scope t ws d c \<longleftrightarrow> row_workspace_id c = ws \<and> row_pipeline_version c = pipeline_version PIPELINE
     \<and> list_ex (\<lambda>x. dcm_id x = row_document_id c \<and> dcm_active_version_id x = Some (row_version_id c)
          \<and> dcm_deleted_at x = None) (select_documents t d)"

definition active_rows :: "tenant \<Rightarrow> uuid \<Rightarrow> db \<Rightarrow> document_chunk list" where
  "active_rows t ws d = filter (in_active_scope t ws d) (select_chunks t d)"

definition max_lexical_corpus :: nat where
  "max_lexical_corpus = 10000"

definition search :: "unicode \<Rightarrow> (pyfloat list \<Rightarrow> pyfloat list \<Rightarrow> real) \<Rightarrow> tenant \<Rightarrow> uuid \<Rightarrow> pystr
    \<Rightarrow> pyfloat list \<Rightarrow> int \<Rightarrow> db \<Rightarrow> search_result list result" where
  "search U gap t ws query vector result_count d =
     (if strip query = [] then raise_value ''retrieval query cannot be empty''
      else if length vector \<noteq> embedding_dimension PIPELINE
        then raise_value ''retrieval query embedding has the wrong dimension''
      else if \<not> (1 \<le> result_count \<and> result_count \<le> int (maximum_result_count PIPELINE))
        then raise_value ''retrieval result count is outside the supported range''
      else let rows = active_rows t ws d;
               dense_records = take (dense_candidates PIPELINE)
                 (sort_key (\<lambda>c. (gap (row_embedding c) vector, row_chunk_id c)) rows);
               lexical_records = take (max_lexical_corpus + 1) (sort_key row_chunk_id rows)
           in if max_lexical_corpus < length lexical_records
              then raise_runtime ''workspace exceeds the bounded lexical retrieval limit''
              else rbind (traverse (stored_chunk U) dense_records) (\<lambda>dense.
                   rbind (traverse (stored_chunk U) lexical_records) (\<lambda>corpus.
                   Inr (fuse_rankings dense (rank U query corpus (int (lexical_candidates PIPELINE)))
                         (nat result_count)))))"

section \<open>A stored chunk reads back\<close>

definition locator_ok :: "source_locator \<Rightarrow> bool" where
  "locator_ok l \<longleftrightarrow> loc_block_id l \<noteq> [] \<and> 0 \<le> loc_block_index l \<and> 0 \<le> loc_char_start l
     \<and> loc_char_start l < loc_char_end l \<and> page_ok (loc_page_number l)"

lemma stored_locator_dict: "locator_ok l \<Longrightarrow> stored_locator U (locator_as_dict l) = Inr l"
  by (cases "loc_page_number l")
    (auto simp: stored_locator_def json_item_def locator_integer_def json_get_def json_of_page_def json_int_def
      json_str_def SourceLocator_def locator_ok_def)

lemma stored_chunk_row:
  assumes "Chunk c = Inr c" "\<forall>l \<in> set (chk_locators c). locator_ok l" "chk_embedding_text c = chk_text c"
    and "emb_chunk r = c"
  shows "stored_chunk U (chunk_row ws r) = Inr c"
proof -
  have "traverse (stored_locator U) (map locator_as_dict (chk_locators c)) = Inr (chk_locators c)"
    using assms(2) by (auto simp: traverse_Inr_iff list_all2_conv_all_nth stored_locator_dict)
  then show ?thesis
    using assms(1,3,4) by (cases c) (simp add: stored_chunk_def chunk_row_def Let_def)
qed

section \<open>The fused ranking\<close>

lemma last_value_distinct:
  assumes "distinct (map fst kvs)"
  shows "last_value kvs k = Some v \<longleftrightarrow> (k, v) \<in> set kvs"
  using assms by (simp add: last_value_def map_of_eq_Some_iff rev_map [symmetric])

lemma last_value_None: "last_value kvs k = None \<longleftrightarrow> k \<notin> fst ` set kvs"
  by (simp add: last_value_def map_of_eq_None_iff)

lemma last_value_in: "last_value kvs k = Some v \<Longrightarrow> (k, v) \<in> set kvs"
  unfolding last_value_def by (auto dest: map_of_SomeD)

lemma rank_of_nth:
  assumes "distinct (map chk_id cs)" "i < length cs"
  shows "rank_of cs (chk_id (cs ! i)) = Some (Suc i)"
proof -
  let ?kvs = "map (\<lambda>(n, c). (chk_id c, n)) (enum_from 1 cs)"
  have "map fst ?kvs = map chk_id (map snd (enum_from 1 cs))"
    by (simp add: comp_def case_prod_beta del: map_snd_enumerate)
  then have fst: "map fst ?kvs = map chk_id cs" by (simp only: map_snd_enumerate)
  have "(chk_id (cs ! i), Suc i) \<in> set ?kvs"
    using assms(2) by (force simp: in_set_enumerate_eq)
  then show ?thesis
    using assms(1) last_value_distinct [of ?kvs] fst by (simp add: rank_of_def)
qed

lemma rank_of_None: "rank_of cs k = None \<longleftrightarrow> k \<notin> chk_id ` set cs"
proof -
  have "fst ` set (map (\<lambda>(n, c). (chk_id c, n)) (enum_from 1 cs)) = chk_id ` snd ` set (enum_from 1 cs)"
    by force
  also have "snd ` set (enum_from 1 cs) = set cs" by (metis list.set_map map_snd_enumerate)
  finally show ?thesis by (simp add: rank_of_def last_value_None)
qed

text \<open>The chunks of the fusion: one for each identifier of either list.\<close>

definition fused_chunks :: "chunk list \<Rightarrow> chunk list \<Rightarrow> chunk list" where
  "fused_chunks dense lexical = List.map_filter
     (last_value (map (\<lambda>c. (chk_id c, c)) (dense @ lexical))) (first_occurrences (map chk_id (dense @ lexical)))"

lemma fuse_rankings_eq:
  "fuse_rankings dense lexical n = take n (sort_key result_place (map (fused_result dense lexical) (fused_chunks dense lexical)))"
  by (simp add: fuse_rankings_def fused_chunks_def Let_def)

lemma dictionary_values:
  assumes "set ks \<subseteq> chk_id ` set xs"
  defines "f \<equiv> last_value (map (\<lambda>c. (chk_id c, c)) xs)"
  shows "map chk_id (List.map_filter f ks) = ks \<and> set (List.map_filter f ks) \<subseteq> set xs"
  using assms(1)
proof (induction ks)
  case (Cons k ks)
  then have "k \<in> fst ` set (map (\<lambda>c. (chk_id c, c)) xs)" by (auto simp: image_image)
  then have "f k \<noteq> None" by (simp add: f_def last_value_None)
  then obtain c where c: "f k = Some c" by blast
  from last_value_in [OF this [unfolded f_def]] have "c \<in> set xs" "chk_id c = k" by auto
  with c Cons show ?case by (simp add: List.map_filter_simps)
qed (simp add: List.map_filter_simps)

lemma fused_chunks_props:
  "set (fused_chunks dense lexical) \<subseteq> set (dense @ lexical)"
  "map chk_id (fused_chunks dense lexical) = first_occurrences (map chk_id (dense @ lexical))"
  using dictionary_values [of "first_occurrences (map chk_id (dense @ lexical))" "dense @ lexical"]
  by (auto simp: fused_chunks_def)

lemma fused_chunks_distinct: "distinct (map chk_id (fused_chunks dense lexical))"
  by (simp add: fused_chunks_props(2))

lemma set_fuse_rankings:
  "r \<in> set (fuse_rankings dense lexical n) \<Longrightarrow> \<exists>c \<in> set (dense @ lexical). r = fused_result dense lexical c"
  using subsetD [OF fused_chunks_props(1), of _ dense lexical] by (fastforce simp: fuse_rankings_eq dest!: in_set_takeD)

section \<open>Search\<close>

lemma rank_subset: "set (rank U query cs n) \<subseteq> set cs"
  by (auto simp: rank_eq dest: in_set_takeD)

lemma search_rows:
  assumes "search U gap t ws query v n d = Inr rs" "r \<in> set rs"
  shows "\<exists>c \<in> set (active_rows t ws d). stored_chunk U c = Inr (res_chunk r)"
proof -
  let ?rows = "active_rows t ws d"
  let ?dense = "take (dense_candidates PIPELINE) (sort_key (\<lambda>c. (gap (row_embedding c) v, row_chunk_id c)) ?rows)"
  let ?lex = "take (max_lexical_corpus + 1) (sort_key row_chunk_id ?rows)"
  from assms(1) obtain dense corpus where t: "traverse (stored_chunk U) ?dense = Inr dense"
      "traverse (stored_chunk U) ?lex = Inr corpus"
      "rs = fuse_rankings dense (rank U query corpus (int (lexical_candidates PIPELINE))) (nat n)"
    by (auto simp: search_def Let_def result_simps split: if_splits)
  from set_fuse_rankings assms(2) t(3) have "res_chunk r \<in> set dense \<union> set corpus"
    using rank_subset by (fastforce simp: fused_result_def)
  then have "\<exists>c \<in> set ?dense \<union> set ?lex. stored_chunk U c = Inr (res_chunk r)"
    using traverse_member [OF t(1)] traverse_member [OF t(2)] by blast
  moreover have "set ?dense \<union> set ?lex \<subseteq> set ?rows" by (auto dest: in_set_takeD)
  ultimately show ?thesis by blast
qed

lemma active_rowsD:
  assumes "c \<in> set (active_rows t ws d)"
  shows "c \<in> set (db_chunks d)" "row_workspace_id c = ws" "cur_workspace t = Some ws"
    "\<exists>x \<in> set (db_documents d). dcm_id x = row_document_id c \<and> dcm_workspace_id x = ws
       \<and> dcm_active_version_id x = Some (row_version_id c) \<and> dcm_deleted_at x = None"
  using assms
  by (auto simp: active_rows_def select_chunks_def in_active_scope_def in_workspace_def list_ex_iff select_documents_def)

text \<open>Tenant isolation and freshness of search. Every result is a stored chunk of the searched
  workspace, which is also the workspace of the transaction, and belongs to the active version
  of a document of that workspace that is not deleted.\<close>

theorem search_isolated:
  assumes "search U gap t ws query v n d = Inr rs" "r \<in> set rs"
  shows "\<exists>c \<in> set (db_chunks d). \<exists>x \<in> set (db_documents d). stored_chunk U c = Inr (res_chunk r)
    \<and> row_workspace_id c = ws \<and> cur_workspace t = Some ws
    \<and> dcm_id x = row_document_id c \<and> dcm_workspace_id x = ws
    \<and> dcm_active_version_id x = Some (row_version_id c) \<and> dcm_deleted_at x = None"
  using search_rows [OF assms] active_rowsD by fast

text \<open>Search learns nothing about other tenants. Two databases that hold the same documents and
  chunks for the workspace of the transaction, and anything else for other workspaces, give the
  same answer, errors included.\<close>

theorem search_noninterference:
  assumes "cur_workspace t = Some ws"
    and "filter (\<lambda>c. row_workspace_id c = ws) (db_chunks d1) = filter (\<lambda>c. row_workspace_id c = ws) (db_chunks d2)"
    and "filter (\<lambda>x. dcm_workspace_id x = ws) (db_documents d1) = filter (\<lambda>x. dcm_workspace_id x = ws) (db_documents d2)"
  shows "search U gap t target query v n d1 = search U gap t target query v n d2"
proof -
  have ws: "in_workspace t = (\<lambda>w. w = ws)" using assms(1) by (auto simp: in_workspace_def)
  have docs: "select_documents t d1 = select_documents t d2"
    using assms(3) by (simp add: select_documents_def ws)
  then have "in_active_scope t target d1 = in_active_scope t target d2"
    by (intro ext) (simp add: in_active_scope_def)
  then have "active_rows t target d1 = active_rows t target d2"
    using assms(2) by (simp add: active_rows_def select_chunks_def ws)
  then show ?thesis by (simp add: search_def)
qed

text \<open>When equal identifiers mean equal chunks, the fused chunks are the ranked ones, and their ranks are
  their places.\<close>

lemma fused_chunks_all:
  assumes "inj_on chk_id (set dense \<union> set lexical)"
  shows "set (fused_chunks dense lexical) = set dense \<union> set lexical"
proof -
  have "chk_id ` set (fused_chunks dense lexical) = chk_id ` (set dense \<union> set lexical)"
    using arg_cong [OF fused_chunks_props(2), of set, of dense lexical] by (simp add: image_Un)
  moreover have "set (fused_chunks dense lexical) \<subseteq> set dense \<union> set lexical" using fused_chunks_props(1) by auto
  ultimately show ?thesis using inj_on_image_eq_iff [OF assms _ order_refl] by blast
qed

lemma fused_ranks:
  assumes "distinct (map chk_id dense)" "distinct (map chk_id lexical)" "inj_on chk_id (set dense \<union> set lexical)"
    and "\<exists>c \<in> set dense \<union> set lexical. r = fused_result dense lexical c"
  shows "res_chunk r \<in> set dense \<union> set lexical
       \<and> (\<forall>i < length dense. dense ! i = res_chunk r \<longrightarrow> res_dense_rank r = Some (Suc i))
       \<and> (\<forall>i < length lexical. lexical ! i = res_chunk r \<longrightarrow> res_lexical_rank r = Some (Suc i))
       \<and> (res_chunk r \<notin> set dense \<longrightarrow> res_dense_rank r = None)
       \<and> (res_chunk r \<notin> set lexical \<longrightarrow> res_lexical_rank r = None)
       \<and> res_fused_score r = rank_score (res_dense_rank r) + rank_score (res_lexical_rank r)"
proof -
  from assms(4) obtain c where c: "c \<in> set dense \<union> set lexical" "r = fused_result dense lexical c" by blast
  have inj: "x = y" if "chk_id x = chk_id y" "x \<in> set dense \<union> set lexical" "y \<in> set dense \<union> set lexical" for x y
    using assms(3) that by (auto dest: inj_onD)
  have "rank_of dense (chk_id c) = None" if "c \<notin> set dense"
    using inj c(1) that by (fastforce simp: rank_of_None)
  moreover have "rank_of lexical (chk_id c) = None" if "c \<notin> set lexical"
    using inj c(1) that by (fastforce simp: rank_of_None)
  ultimately show ?thesis
    using c rank_of_nth [OF assms(1)] rank_of_nth [OF assms(2)] by (auto simp: fused_result_def)
qed

lemma fused_result_chunk: "res_chunk (fused_result dense lexical c) = c"
  by (simp add: fused_result_def)

text \<open>The fused ranking is by reciprocal ranks and best first. When neither ranking repeats a
  chunk and equal identifiers mean equal chunks, each result is a ranked chunk with the sum of
  its reciprocal ranks, the results are in order of descending score and then identifier,
  none repeats, there are as many as asked for or as there are, and no chunk left out is
  before one returned.\<close>

theorem fuse_rankings_best_first:
  assumes "distinct (map chk_id dense)" "distinct (map chk_id lexical)"
    and "inj_on chk_id (set dense \<union> set lexical)"
  shows "let rs = fuse_rankings dense lexical n in
    (\<forall>r \<in> set rs. res_chunk r \<in> set dense \<union> set lexical
       \<and> (\<forall>i < length dense. dense ! i = res_chunk r \<longrightarrow> res_dense_rank r = Some (Suc i))
       \<and> (\<forall>i < length lexical. lexical ! i = res_chunk r \<longrightarrow> res_lexical_rank r = Some (Suc i))
       \<and> (res_chunk r \<notin> set dense \<longrightarrow> res_dense_rank r = None)
       \<and> (res_chunk r \<notin> set lexical \<longrightarrow> res_lexical_rank r = None)
       \<and> res_fused_score r = rank_score (res_dense_rank r) + rank_score (res_lexical_rank r))
    \<and> sorted (map result_place rs) \<and> distinct (map (\<lambda>r. chk_id (res_chunk r)) rs)
    \<and> length rs = min n (card (set dense \<union> set lexical))
    \<and> (\<forall>c \<in> set dense \<union> set lexical. c \<notin> res_chunk ` set rs \<longrightarrow>
         (\<forall>r \<in> set rs. result_place r \<le> result_place (fused_result dense lexical c)))"
proof -
  let ?cs = "fused_chunks dense lexical" and ?f = "fused_result dense lexical"
  let ?xs = "sort_key result_place (map (fused_result dense lexical) (fused_chunks dense lexical))"
  define rs where "rs = fuse_rankings dense lexical n"
  have rs: "rs = take n ?xs" by (simp add: rs_def fuse_rankings_eq)
  note all = fused_chunks_all [OF assms(3)]
  have "\<exists>c \<in> set dense \<union> set lexical. r = ?f c" if "r \<in> set rs" for r
    using set_fuse_rankings that by (auto simp: rs_def)
  note ranks = fused_ranks [OF assms this]
  have ids: "map (\<lambda>r. chk_id (res_chunk r)) (map ?f ?cs) = map chk_id ?cs" by (simp add: fused_result_def)
  have "mset (map (\<lambda>r. chk_id (res_chunk r)) ?xs) = mset (map chk_id ?cs)"
    unfolding mset_map mset_sort by (simp only: mset_map [symmetric] ids)
  then have "distinct (map (\<lambda>r. chk_id (res_chunk r)) ?xs)"
    using fused_chunks_distinct [of dense lexical] by (metis mset_eq_imp_distinct_iff)
  then have distinct: "distinct (map (\<lambda>r. chk_id (res_chunk r)) rs)" unfolding rs take_map [symmetric] by simp
  have "length ?xs = card (set ?cs)"
    using fused_chunks_distinct [of dense lexical] by (simp add: distinct_map distinct_card)
  then have len: "length rs = min n (card (set dense \<union> set lexical))" by (simp add: rs all)
  have out: "result_place r \<le> result_place (?f c)"
    if c: "c \<in> set dense \<union> set lexical" "c \<notin> res_chunk ` set rs" "r \<in> set rs" for c r
  proof (rule sorted_take_le(1) [where k = result_place])
    show "r \<in> set (take n ?xs)" using c(3) rs by simp
    show "?f c \<in> set (map ?f ?cs)" using c(1) all by simp
    show "?f c \<notin> set (take n ?xs)" using c(2) unfolding rs by (metis image_eqI fused_result_chunk)
  qed
  have "sorted (map result_place rs)" unfolding rs by (simp flip: take_map add: sorted_wrt_take)
  then show ?thesis
    unfolding rs_def [symmetric] Let_def by (intro conjI ballI impI ranks [THEN conjunct1] ranks [THEN conjunct2] distinct len out)
qed

section \<open>Replacing a version's chunks\<close>

lemma insert_chunks_rows:
  assumes "rfold (insert_chunk t) d rows = Inr d'"
  shows "d' = d\<lparr>db_chunks := db_chunks d @ rows\<rparr>" "\<forall>r \<in> set rows. in_workspace t (row_workspace_id r)"
proof -
  have "d' = d\<lparr>db_chunks := db_chunks d @ rows\<rparr> \<and> (\<forall>r \<in> set rows. in_workspace t (row_workspace_id r))"
    using assms
  proof (induction rows arbitrary: d)
    case (Cons r rows)
    from Cons.prems obtain d1 where d1: "insert_chunk t d r = Inr d1" "rfold (insert_chunk t) d1 rows = Inr d'"
      by (auto simp: result_simps)
    then have "d1 = d\<lparr>db_chunks := db_chunks d @ [r]\<rparr>" "in_workspace t (row_workspace_id r)"
      by (auto simp: insert_chunk_def split: if_splits)
    with Cons.IH [OF d1(2)] show ?case by simp
  qed simp
  then show "d' = d\<lparr>db_chunks := db_chunks d @ rows\<rparr>" "\<forall>r \<in> set rows. in_workspace t (row_workspace_id r)"
    by blast+
qed

definition version_rows :: "uuid \<Rightarrow> uuid \<Rightarrow> document_chunk \<Rightarrow> bool" where
  "version_rows ws v c \<longleftrightarrow> row_workspace_id c = ws \<and> row_version_id c = v
     \<and> row_pipeline_version c = pipeline_version PIPELINE"

lemma replace_version_Inr:
  assumes "replace_version t ws records d = Inr d'"
  shows "records \<noteq> [] \<and> cur_workspace t = Some ws
    \<and> list_all (record_ok (emb_chunk (hd records))) records
    \<and> d' = d\<lparr>db_chunks := filter (\<lambda>c. \<not> version_rows ws (chk_version_id (emb_chunk (hd records))) c) (db_chunks d)
              @ map (chunk_row ws) records\<rparr>"
proof -
  from assms obtain r0 rest where records: "records = r0 # rest" by (cases records) (auto simp: replace_version_def)
  let ?first = "emb_chunk (hd records)"
  let ?d = "d\<lparr>db_chunks := filter (\<lambda>c. \<not> (in_workspace t (row_workspace_id c) \<and> row_workspace_id c = ws
      \<and> row_version_id c = chk_version_id ?first \<and> row_pipeline_version c = pipeline_version PIPELINE)) (db_chunks d)\<rparr>"
  from assms have ok: "list_all (record_ok ?first) records" and fold: "rfold (insert_chunk t) ?d (map (chunk_row ws) records) = Inr d'"
    by (auto simp: replace_version_def records Let_def split: if_splits)
  note ins = insert_chunks_rows [OF fold]
  have "chunk_row ws r0 \<in> set (map (chunk_row ws) records)" by (simp add: records)
  from bspec [OF ins(2) this] have "in_workspace t ws" by (simp add: chunk_row_def Let_def)
  then have "(\<lambda>c. \<not> (in_workspace t (row_workspace_id c) \<and> row_workspace_id c = ws
      \<and> row_version_id c = chk_version_id ?first \<and> row_pipeline_version c = pipeline_version PIPELINE))
      = (\<lambda>c. \<not> version_rows ws (chk_version_id ?first) c)"
    by (intro ext) (auto simp: version_rows_def)
  then have "d' = d\<lparr>db_chunks := filter (\<lambda>c. \<not> version_rows ws (chk_version_id ?first) c) (db_chunks d)
      @ map (chunk_row ws) records\<rparr>"
    using ins(1) by simp
  moreover have "records \<noteq> []" by (simp add: records)
  moreover have "cur_workspace t = Some ws" using \<open>in_workspace t ws\<close> by (simp add: in_workspace_def)
  ultimately show ?thesis using ok by blast
qed

text \<open>C29: replacing a version's chunks is exact and idempotent in effect. When it succeeds, the rows
  of that version of the pipeline are exactly the new records in order, in the workspace of the
  transaction, every other chunk row is as before, and no other table changes.\<close>

theorem replace_version_exact:
  assumes "replace_version t ws records d = Inr d'"
  shows "let v = chk_version_id (emb_chunk (hd records)) in
    cur_workspace t = Some ws
    \<and> filter (version_rows ws v) (db_chunks d') = map (chunk_row ws) records
    \<and> filter (\<lambda>c. \<not> version_rows ws v c) (db_chunks d') = filter (\<lambda>c. \<not> version_rows ws v c) (db_chunks d)
    \<and> d'\<lparr>db_chunks := db_chunks d\<rparr> = d"
proof -
  note r = replace_version_Inr [OF assms]
  let ?v = "chk_version_id (emb_chunk (hd records))"
  have "version_rows ws ?v (chunk_row ws x)" if "x \<in> set records" for x
  proof -
    from r that have "chk_version_id (emb_chunk x) = ?v" unfolding list_all_iff record_ok_def by blast
    then show ?thesis unfolding version_rows_def chunk_row_def Let_def by simp
  qed
  then have "filter (version_rows ws ?v) (map (chunk_row ws) records) = map (chunk_row ws) records"
    "filter (\<lambda>c. \<not> version_rows ws ?v c) (map (chunk_row ws) records) = []"
    by (simp_all only: filter_id_conv filter_empty_conv) auto
  with r show ?thesis by (simp add: Let_def)
qed

section \<open>Round trip and witnesses\<close>

text \<open>C40: what is stored is what is found. The chunk of a record, written as a row and read back,
  is the same chunk, when its constructor accepts it, its locators are valid and its embedding
  input is its text, as the chunker makes it.\<close>

theorem stored_chunk_roundtrip:
  assumes "Chunk c = Inr c" "\<forall>l \<in> set (chk_locators c). locator_ok l" "chk_embedding_text c = chk_text c"
  shows "stored_chunk U (chunk_row ws \<lparr>emb_chunk = c, emb_vector = v\<rparr>) = Inr c"
  using stored_chunk_row [OF assms] by simp

definition sample_chunk :: "nat \<Rightarrow> chunk" where
  "sample_chunk n = \<lparr>chk_id = replicate 64 (97 + n), chk_document_id = 4, chk_version_id = 5, chk_order = int n,
     chk_text = lit ''Ask within 5 days.'', chk_embedding_text = lit ''Ask within 5 days.'', chk_token_count = 5,
     chk_locators = [\<lparr>loc_block_id = lit ''b000001'', loc_block_index = 1, loc_char_start = 0,
        loc_char_end = 18, loc_page_number = Some 2\<rparr>],
     chk_heading_path = [lit ''Refunds''], chk_page_number = Some 2, chk_document_title = lit ''Help''\<rparr>"

lemma sample_chunk_ok:
  "Chunk (sample_chunk n) = Inr (sample_chunk n)" "\<forall>l \<in> set (chk_locators (sample_chunk n)). locator_ok l"
  "chk_embedding_text (sample_chunk n) = chk_text (sample_chunk n)"
proof -
  have "strip (lit ''Ask within 5 days.'') \<noteq> []" by code_simp
  then show "Chunk (sample_chunk n) = Inr (sample_chunk n)"
    by (simp add: Chunk_Inr sample_chunk_def)
qed (simp_all add: sample_chunk_def locator_ok_def page_ok_def lit_def)

theorem stored_chunk_roundtrip_witness:
  "stored_chunk ascii_only (chunk_row 3 \<lparr>emb_chunk = sample_chunk 0, emb_vector = []\<rparr>) = Inr (sample_chunk 0)"
  by (rule stored_chunk_roundtrip [OF sample_chunk_ok])

theorem fuse_rankings_best_first_witness:
  "length (fuse_rankings [sample_chunk 0, sample_chunk 1] [sample_chunk 1] 5) = 2"
proof -
  have "replicate 64 (97 :: nat) \<noteq> replicate 64 98" by (simp add: replicate_eq_replicate)
  then have "chk_id (sample_chunk 0) \<noteq> chk_id (sample_chunk 1)" by (simp add: sample_chunk_def)
  then have "distinct (map chk_id [sample_chunk 0, sample_chunk 1])" "distinct (map chk_id [sample_chunk 1])"
    "inj_on chk_id (set [sample_chunk 0, sample_chunk 1] \<union> set [sample_chunk 1])"
    by (auto simp: inj_on_def)
  from fuse_rankings_best_first [OF this, of 5]
  have "length (fuse_rankings [sample_chunk 0, sample_chunk 1] [sample_chunk 1] 5)
      = min 5 (card (set [sample_chunk 0, sample_chunk 1] \<union> set [sample_chunk 1]))" by (simp only: Let_def)
  moreover have "sample_chunk 0 \<noteq> sample_chunk 1" using \<open>chk_id (sample_chunk 0) \<noteq> chk_id (sample_chunk 1)\<close> by metis
  moreover have "set [sample_chunk 0, sample_chunk 1] \<union> set [sample_chunk 1] = {sample_chunk 0, sample_chunk 1}"
    by auto
  ultimately show ?thesis by (simp del: One_nat_def)
qed

text \<open>A database with one workspace, one document with an active version, and its chunks.\<close>

definition sample_db :: db where
  "sample_db = \<lparr>
     db_users = [\<lparr>usr_id = 1, usr_email = lit ''a@b.c'', usr_display_name = lit ''Ann'', usr_password_hash = lit ''h'',
        usr_is_active = True\<rparr>],
     db_workspaces = [\<lparr>ws_id = 3, ws_name = lit ''Shop'', ws_slug = lit ''shop'', ws_created_by = 1, ws_created_at = 0\<rparr>],
     db_memberships = [\<lparr>mem_id = 2, mem_workspace_id = 3, mem_user_id = 1, mem_role = OWNER, mem_created_at = 0\<rparr>],
     db_documents = [\<lparr>dcm_id = 4, dcm_workspace_id = 3, dcm_display_name = lit ''Help'', dcm_active_version_id = Some 5,
        dcm_created_by = 1, dcm_deleted_at = None, dcm_created_at = 0\<rparr>],
     db_versions = [\<lparr>ver_id = 5, ver_workspace_id = 3, ver_document_id = 4, ver_version_number = 1,
        ver_object_key = lit ''k'', ver_original_filename = lit ''help.txt'', ver_media_type = lit ''text/plain'',
        ver_byte_size = 10, ver_sha256 = replicate 64 97, ver_status = V_ACTIVE, ver_created_by = 1\<rparr>],
     db_chunks = [], db_jobs = [], db_sessions = []\<rparr>"

definition sample_records :: "embedded_chunk list" where
  "sample_records = [\<lparr>emb_chunk = sample_chunk 0, emb_vector = replicate 384 (Finite 1)\<rparr>]"

definition sample_tenant :: tenant where
  "sample_tenant = set_tenant_context 0 (Some 3) no_tenant"

lemma sample_replaced: "\<exists>d. replace_version sample_tenant 3 sample_records sample_db = Inr d"
proof -
  have ne: "lit ''Ask within 5 days.'' \<noteq> []" by (simp add: lit_def)
  show ?thesis
    using ne
    by (simp add: replace_version_def sample_records_def record_ok_def isfinite_def list_all_iff insert_chunk_def
        chunk_scope_valid_def select_versions_def select_documents_def sample_tenant_def sample_db_def chunk_row_def
        sample_chunk_def Let_def page_ok_def)
qed

theorem replace_version_exact_witness:
  "\<exists>d. replace_version sample_tenant 3 sample_records sample_db = Inr d
    \<and> filter (version_rows 3 5) (db_chunks d) = map (chunk_row 3) sample_records"
proof -
  from sample_replaced obtain d where d: "replace_version sample_tenant 3 sample_records sample_db = Inr d" by blast
  with replace_version_exact [OF d] show ?thesis by (simp add: Let_def sample_records_def sample_chunk_def)
qed

text \<open>The distance of the witnesses: equal for all vectors, so that chunks come by identifier.\<close>

definition indexed_db :: db where
  "indexed_db = sample_db\<lparr>db_chunks := map (chunk_row 3) sample_records\<rparr>"

lemma sample_search: "\<exists>rs. search ascii_only (\<lambda>_ _. 0) sample_tenant 3 (lit ''days'') (replicate 384 (Finite 1)) 5 indexed_db = Inr rs"
proof -
  have "stored_chunk ascii_only (chunk_row 3 (hd sample_records)) = Inr (sample_chunk 0)"
    by (rule stored_chunk_row [OF sample_chunk_ok]) (simp add: sample_records_def)
  moreover have "active_rows sample_tenant 3 indexed_db = [chunk_row 3 (hd sample_records)]"
    by (simp add: active_rows_def select_chunks_def select_documents_def in_active_scope_def indexed_db_def
        sample_db_def sample_records_def sample_tenant_def chunk_row_def sample_chunk_def Let_def)
  moreover have "strip (lit ''days'') \<noteq> []" by code_simp
  ultimately show ?thesis by (simp add: search_def Let_def max_lexical_corpus_def)
qed

theorem search_isolated_witness:
  "\<exists>rs. search ascii_only (\<lambda>_ _. 0) sample_tenant 3 (lit ''days'') (replicate 384 (Finite 1)) 5 indexed_db = Inr rs
    \<and> (\<forall>r \<in> set rs. \<exists>c \<in> set (db_chunks indexed_db). stored_chunk ascii_only c = Inr (res_chunk r))"
  using sample_search search_isolated by blast

theorem search_noninterference_witness:
  "search ascii_only (\<lambda>_ _. 0) sample_tenant 3 (lit ''days'') (replicate 384 (Finite 1)) 5 indexed_db
    = search ascii_only (\<lambda>_ _. 0) sample_tenant 3 (lit ''days'') (replicate 384 (Finite 1)) 5
        (indexed_db\<lparr>db_chunks := (chunk_row 8 (hd sample_records)) # db_chunks indexed_db\<rparr>)"
  by (rule search_noninterference [of _ 3]) (simp_all add: sample_tenant_def chunk_row_def Let_def)

end
