(* ===== verification/Parsing.thy ===== *)
theory Parsing
  imports Rag_Models
begin

text \<open>
  The part of \<open>packages/rag/parsing.py\<close> that does not concern PDF layout: the normalisation
  of block text, the block collector, the plain-text and Markdown parsers, and the HTML parser
  as the handler of the events of \<open>html.parser.HTMLParser\<close>. The regular expressions are
  matched by direct functions; the comments say why they find the same match. The lemmas: the
  collector keeps its invariant and never raises, and plain text is kept word for word.
\<close>

section \<open>normalize_block_text\<close>

text \<open>\<open>re.sub(r"\s+", " ", value)\<close>.\<close>

function collapse :: "pystr \<Rightarrow> pystr" where
  "collapse s = (case s of [] \<Rightarrow> []
     | c # t \<Rightarrow> if is_space c then 32 # collapse (dropWhile is_space t) else c # collapse t)"
  by pat_completeness auto
termination
  by (relation "measure length") (auto simp: less_Suc_eq_le length_dropWhile_le)

declare collapse.simps [simp del]

definition normalize_block_text :: "pystr \<Rightarrow> pystr" where
  "normalize_block_text s = strip (collapse s)"

section \<open>The block collector\<close>

record collector =
  col_blocks :: "canonical_block list"
  col_headings :: "pystr list"
  col_characters :: nat

definition new_collector :: collector where
  "new_collector = \<lparr>col_blocks = [], col_headings = [], col_characters = 0\<rparr>"

definition add :: "block_kind \<Rightarrow> pystr \<Rightarrow> int option \<Rightarrow> nat option \<Rightarrow> collector \<Rightarrow> collector result" where
  "add kind text page_number heading_level col =
     (let normalized = normalize_block_text text in
      if normalized = [] then Inr col
      else let headings = (case heading_level of None \<Rightarrow> col_headings col
                 | Some level \<Rightarrow> take (level - 1) (col_headings col) @ [normalized]);
               ord = length (col_blocks col)
           in rbind (CanonicalBlock (lit ''b'' @ pad6 ord) (int ord) kind normalized headings page_number)
                (\<lambda>b. Inr \<lparr>col_blocks = col_blocks col @ [b], col_headings = headings,
                         col_characters = col_characters col + length normalized\<rparr>))"

section \<open>Plain text\<close>

text \<open>
  The length of the match of \<open>\n\s*\n+\<close> at the start of a text, 0 for none: \<open>\s*\<close> takes the
  whole run of white space and gives back up to the last line feed in it.
\<close>

definition blank_match :: "pystr \<Rightarrow> nat" where
  "blank_match s = (case s of [] \<Rightarrow> 0
     | c # t \<Rightarrow> let run = takeWhile is_space t in
         if c = 10 \<and> 10 \<in> set run then Suc (length (dropWhile (\<lambda>x. x \<noteq> 10) (rev run))) else 0)"

function blank_split :: "pystr \<Rightarrow> pystr list" where
  "blank_split s =
     (if s = [] then [[]]
      else if 0 < blank_match s then [] # blank_split (drop (blank_match s) s)
      else (case blank_split (tl s) of [] \<Rightarrow> [[hd s]] | p # ps \<Rightarrow> (hd s # p) # ps))"
  by pat_completeness auto
termination
  by (relation "measure length") auto

declare blank_split.simps [simp del]

definition parse_plain_text :: "pystr \<Rightarrow> collector \<Rightarrow> collector result" where
  "parse_plain_text text col =
     rfold (\<lambda>c p. add PARAGRAPH p None None c) col (blank_split (unix_newlines text))"

section \<open>Markdown\<close>

text \<open>
  The match of \<open>^(#{1,6})\s+(.+?)\s*#*\s*$\<close> on a line without trailing white space or line
  feed: the level, and the second group. After the white space the rest \<open>r\<close> ends in a visible
  character, so the part after the lazy group is the white space and hash signs at its end.
\<close>

definition markdown_heading :: "pystr \<Rightarrow> (nat \<times> pystr) option" where
  "markdown_heading line =
     (let hashes = takeWhile (\<lambda>c. c = 35) line; rest = drop (length hashes) line;
          space = takeWhile is_space rest; r = drop (length space) rest;
          q = rstrip_by (\<lambda>c. c = 35) r
      in if 1 \<le> length hashes \<and> length hashes \<le> 6 \<and> space \<noteq> [] \<and> r \<noteq> []
         then Some (length hashes, if q = [] then [hd r] else rstrip_by is_space q)
         else None)"

text \<open>The first group of the match of \<open>^\s*(?:[-+*]|\d+[.)])\s+(.+)$\<close> on such a line.\<close>

definition markdown_item :: "unicode \<Rightarrow> pystr \<Rightarrow> pystr option" where
  "markdown_item U line =
     (let t = dropWhile is_space line; digits = takeWhile (\<lambda>c. decimal_value U c \<noteq> None) t;
          after = (case t of [] \<Rightarrow> None
            | c # u \<Rightarrow> if c = 45 \<or> c = 43 \<or> c = 42 then Some u
                else if digits = [] then None
                else (case drop (length digits) t of [] \<Rightarrow> None
                      | d # v \<Rightarrow> if d = 46 \<or> d = 41 then Some v else None))
      in (case after of None \<Rightarrow> None
          | Some u \<Rightarrow> let r = dropWhile is_space u in
              if u \<noteq> [] \<and> is_space (hd u) \<and> r \<noteq> [] then Some r else None))"

text \<open>The state of the loop: the lines of the open paragraph and the collector.\<close>

definition md_flush :: "pystr list \<times> collector \<Rightarrow> (pystr list \<times> collector) result" where
  "md_flush st = (case st of (ls, col) \<Rightarrow>
     if ls = [] then Inr ([], col)
     else rbind (add PARAGRAPH (join_with [32] ls) None None col) (\<lambda>c. Inr ([], c)))"

definition md_line :: "unicode \<Rightarrow> pystr list \<times> collector \<Rightarrow> pystr \<Rightarrow> (pystr list \<times> collector) result" where
  "md_line U st raw =
     (let line = rstrip_by is_space raw in
      case markdown_heading line of
        Some (level, text) \<Rightarrow> rbind (md_flush st) (\<lambda>(ls, col).
          rbind (add HEADING text None (Some level) col) (\<lambda>c. Inr (ls, c)))
      | None \<Rightarrow> (case markdown_item U line of
          Some text \<Rightarrow> rbind (md_flush st) (\<lambda>(ls, col).
            rbind (add LIST_ITEM text None None col) (\<lambda>c. Inr (ls, c)))
        | None \<Rightarrow> if strip line = [] then md_flush st
            else Inr (fst st @ [strip line], snd st)))"

definition parse_markdown :: "unicode \<Rightarrow> pystr \<Rightarrow> collector \<Rightarrow> collector result" where
  "parse_markdown U text col =
     rbind (rfold (md_line U) ([], col) (split_on 10 (unix_newlines text))) (\<lambda>st.
     rbind (md_flush st) (\<lambda>st. Inr (snd st)))"

section \<open>HTML\<close>

text \<open>
  The handler calls that \<open>HTMLParser.feed\<close> and \<open>close\<close> make. Which calls a text gives is the
  parser's business and a parameter below; a self-closing tag gives a start and an end.
\<close>

datatype html_event = StartTag pystr | EndTag pystr | Data pystr

record html_parser =
  hp_collector :: collector
  hp_capture_tag :: "pystr option"
  hp_capture_depth :: int
  hp_parts :: "pystr list"

definition capture_tags :: "pystr list" where
  "capture_tags = map lit [''p'', ''li'', ''h1'', ''h2'', ''h3'', ''h4'', ''h5'', ''h6'']"

definition handle_starttag :: "unicode \<Rightarrow> pystr \<Rightarrow> html_parser \<Rightarrow> html_parser" where
  "handle_starttag U tag h =
     (let normalized = lower U tag in
      if hp_capture_tag h = None \<and> normalized \<in> set capture_tags
      then h\<lparr>hp_capture_tag := Some normalized, hp_capture_depth := 1, hp_parts := []\<rparr>
      else if hp_capture_tag h \<noteq> None then h\<lparr>hp_capture_depth := hp_capture_depth h + 1\<rparr>
      else h)"

definition handle_endtag :: "unicode \<Rightarrow> pystr \<Rightarrow> html_parser \<Rightarrow> html_parser result" where
  "handle_endtag U tag h =
     (case hp_capture_tag h of None \<Rightarrow> Inr h
      | Some captured \<Rightarrow>
          let depth = hp_capture_depth h - 1; h1 = h\<lparr>hp_capture_depth := depth\<rparr> in
          if 0 < depth \<or> lower U tag \<noteq> captured then Inr h1
          else let text = join_with [32] (hp_parts h);
                   stored = (if starts_with (lit ''h'') captured
                       then add HEADING text None (Some (captured ! 1 - 48)) (hp_collector h)
                     else if captured = lit ''li'' then add LIST_ITEM text None None (hp_collector h)
                     else add PARAGRAPH text None None (hp_collector h))
               in rbind stored (\<lambda>c. Inr (h1\<lparr>hp_capture_tag := None, hp_parts := [], hp_collector := c\<rparr>)))"

definition handle_data :: "pystr \<Rightarrow> html_parser \<Rightarrow> html_parser" where
  "handle_data d h = (if hp_capture_tag h \<noteq> None then h\<lparr>hp_parts := hp_parts h @ [d]\<rparr> else h)"

definition html_step :: "unicode \<Rightarrow> html_parser \<Rightarrow> html_event \<Rightarrow> html_parser result" where
  "html_step U h e = (case e of StartTag t \<Rightarrow> Inr (handle_starttag U t h)
     | EndTag t \<Rightarrow> handle_endtag U t h | Data d \<Rightarrow> Inr (handle_data d h))"

definition parse_html :: "unicode \<Rightarrow> html_event list \<Rightarrow> collector \<Rightarrow> collector result" where
  "parse_html U events col =
     rbind (rfold (html_step U)
         \<lparr>hp_collector = col, hp_capture_tag = None, hp_capture_depth = 0, hp_parts = []\<rparr> events)
       (\<lambda>h. Inr (hp_collector h))"

section \<open>Words\<close>

text \<open>The words of a text, its maximal runs of characters that are not white space.\<close>

function words :: "pystr \<Rightarrow> pystr list" where
  "words s = (let t = dropWhile is_space s in
     if t = [] then [] else takeWhile (\<lambda>c. \<not> is_space c) t # words (dropWhile (\<lambda>c. \<not> is_space c) t))"
  by pat_completeness auto
termination
proof (relation "measure length", simp)
  fix s x assume x: "x = dropWhile is_space s" "x \<noteq> []"
  then obtain c t where t: "x = c # t" "\<not> is_space c" by (metis hd_dropWhile list.exhaust_sel)
  then have "length (dropWhile (\<lambda>c. \<not> is_space c) x) \<le> length t" by (simp add: length_dropWhile_le)
  also have "length t < length x" using t by simp
  also have "length x \<le> length s" using x(1) by (simp add: length_dropWhile_le)
  finally show "(dropWhile (\<lambda>c. \<not> is_space c) x, s) \<in> measure length" by simp
qed

declare words.simps [simp del]

lemma words_Nil [simp]: "words [] = []"
  by (simp add: words.simps)

lemma words_space [simp]: "is_space c \<Longrightarrow> words (c # s) = words s"
  by (simp add: words.simps [of "c # s"] words.simps [of s])

lemma words_drop_space [simp]: "words (dropWhile is_space s) = words s"
  by (induction s) auto

lemma words_spaces [simp]: "list_all is_space w \<Longrightarrow> words (w @ s) = words s"
  by (induction w) auto

lemma words_word:
  assumes "w \<noteq> []" "list_all (\<lambda>c. \<not> is_space c) w" "s = [] \<or> is_space (hd s)"
  shows "words (w @ s) = w # words s"
proof -
  have "dropWhile is_space (w @ s) = w @ s" using assms(1,2) by (cases w) auto
  moreover have "takeWhile (\<lambda>c. \<not> is_space c) (w @ s) = w" "dropWhile (\<lambda>c. \<not> is_space c) (w @ s) = s"
    using assms(2,3) by (induction w) (auto, (cases s, auto)+)
  ultimately show ?thesis using assms(1) by (simp add: words.simps [of "w @ s"] Let_def)
qed

text \<open>A text is empty for \<open>words\<close>, or starts with white space and a word.\<close>

lemma words_cases:
  obtains "list_all is_space s" "words s = []"
  | sp w r where "s = sp @ w @ r" "list_all is_space sp" "w \<noteq> []" "list_all (\<lambda>c. \<not> is_space c) w"
      "r = [] \<or> is_space (hd r)" "words s = w # words r" "length r < length s"
proof (cases "dropWhile is_space s = []")
  case True
  then have "words s = []" by (simp add: words.simps [of s] Let_def)
  moreover have "list_all is_space s" using True by (simp add: dropWhile_eq_Nil_conv list_all_iff)
  ultimately show thesis using that(1) by blast
next
  case False
  let ?t = "dropWhile is_space s"
  let ?w = "takeWhile (\<lambda>c. \<not> is_space c) ?t" and ?r = "dropWhile (\<lambda>c. \<not> is_space c) ?t"
  have s: "s = takeWhile is_space s @ ?w @ ?r" by simp
  have "list_all is_space (takeWhile is_space s)" by (auto simp: list_all_iff dest: set_takeWhileD)
  moreover have "list_all (\<lambda>c. \<not> is_space c) ?w" by (auto simp: list_all_iff dest: set_takeWhileD)
  moreover have "?w \<noteq> []" using False hd_dropWhile [OF False] by (cases ?t) auto
  moreover have "?r = [] \<or> is_space (hd ?r)" using hd_dropWhile [of "\<lambda>c. \<not> is_space c" ?t] by blast
  moreover have "words s = ?w # words ?r" using False by (simp add: words.simps [of s] Let_def)
  moreover have "length ?r < length s"
    using \<open>?w \<noteq> []\<close> arg_cong [OF s, of length] by (simp del: takeWhile_dropWhile_id)
  ultimately show thesis using that(2) s by blast
qed

lemma words_append:
  assumes "b = [] \<or> is_space (hd b)"
  shows "words (a @ b) = words a @ words b"
proof (induction "length a" arbitrary: a rule: less_induct)
  case less
  show ?case
  proof (cases a rule: words_cases)
    case 1
    then show ?thesis by simp
  next
    case (2 sp w r)
    have "words (a @ b) = words (w @ (r @ b))" using 2(1,2) by simp
    also have "\<dots> = w # words (r @ b)" using 2(3-5) assms by (intro words_word) (cases r; auto)+
    also have "words (r @ b) = words r @ words b" using less 2(7) by simp
    finally show ?thesis using 2(6) by simp
  qed
qed

lemma words_strip [simp]: "words (strip s) = words s"
proof -
  obtain t where t: "lstrip_by is_space s = rstrip_by is_space (lstrip_by is_space s) @ t" "list_all is_space t"
    using rstrip_prefix by blast
  have "t = [] \<or> is_space (hd t)" using t(2) by (cases t) auto
  then have "words (lstrip_by is_space s) = words (strip s) @ words t"
    by (subst t(1)) (simp add: words_append strip_by_def)
  moreover have "words t = []" using words_spaces [OF t(2), of "[]"] by simp
  ultimately show ?thesis by (simp add: lstrip_by_def)
qed

lemma collapse_spaces:
  assumes "list_all is_space sp"
  shows "collapse (sp @ s) = (if sp = [] then collapse s else 32 # collapse (dropWhile is_space s))"
proof (cases sp)
  case (Cons c sp')
  then have "dropWhile is_space (sp' @ s) = dropWhile is_space s"
    using assms by (simp add: dropWhile_append2 list_all_iff)
  with Cons assms show ?thesis by (simp add: collapse.simps [of "c # _"])
qed simp

lemma collapse_word: "list_all (\<lambda>c. \<not> is_space c) w \<Longrightarrow> collapse (w @ s) = w @ collapse s"
  by (induction w) (auto simp: collapse.simps [of "_ # _"])

lemma collapse_Nil [simp]: "collapse [] = []"
  by (simp add: collapse.simps)

lemma strip_word_append:
  assumes "w \<noteq> []" "list_all (\<lambda>c. \<not> is_space c) w"
  shows "strip (w @ s) = w @ rstrip_by is_space s" "strip (32 # s) = strip s"
    "rstrip_by is_space (32 # w @ s) = 32 # w @ rstrip_by is_space s"
proof -
  have w: "dropWhile is_space (w @ t) = w @ t" for t using assms by (cases w) auto
  have r: "dropWhile is_space (rev s @ rev w @ u) = dropWhile is_space (rev s) @ rev w @ u" for u
  proof (cases "dropWhile is_space (rev s) = []")
    case True
    have "dropWhile is_space (rev w @ u) = rev w @ u" using assms by (cases w rule: rev_cases) auto
    with True show ?thesis by (simp add: dropWhile_append)
  next
    case False
    then obtain x where "x \<in> set (rev s)" "\<not> is_space x" by (auto simp: dropWhile_eq_Nil_conv)
    then show ?thesis by (rule dropWhile_append1)
  qed
  show "strip (w @ s) = w @ rstrip_by is_space s"
    using r [of "[]"] by (simp add: strip_by_def lstrip_by_def rstrip_by_def w)
  show "strip (32 # s) = strip s" by (simp add: strip_by_def lstrip_by_def)
  show "rstrip_by is_space (32 # w @ s) = 32 # w @ rstrip_by is_space s"
    using r [of "[32]"] by (simp add: rstrip_by_def)
qed

text \<open>Normalised text is the words with single blanks between them.\<close>

lemma normalize_words: "normalize_block_text s = join_with [32] (words s)"
proof (induction "length s" arbitrary: s rule: less_induct)
  case less
  show ?case
  proof (cases s rule: words_cases)
    case 1
    then have "collapse s = (if s = [] then [] else [32])"
      using collapse_spaces [OF 1(1), of "[]"] by simp
    then show ?thesis by (simp add: normalize_block_text_def 1(2) strip_eq_Nil_iff)
  next
    case (2 sp w r)
    have "strip (collapse s) = strip (collapse (w @ r))"
      using 2(1,2) strip_word_append(2) [OF 2(3,4)] 2(3,4)
      by (cases w) (auto simp: collapse_spaces)
    also have "\<dots> = w @ rstrip_by is_space (collapse r)"
      by (simp add: collapse_word [OF 2(4)] strip_word_append(1) [OF 2(3,4)])
    finally have eq: "normalize_block_text s = w @ rstrip_by is_space (collapse r)"
      by (simp add: normalize_block_text_def)
    show ?thesis
    proof (cases r rule: words_cases)
      case 1
      then have "collapse r = (if r = [] then [] else [32])"
        using collapse_spaces [OF 1(1), of "[]"] by simp
      then have "rstrip_by is_space (collapse r) = []" by (simp add: rstrip_by_def)
      then show ?thesis by (simp add: eq 2(6) 1(2))
    next
      case r: (2 sp' w' r')
      have "sp' \<noteq> []" using 2(5) r(1,3,4) by (cases sp'; cases w') auto
      moreover have "dropWhile is_space (w' @ r') = w' @ r'" using r(3,4) by (cases w') auto
      ultimately have c: "collapse r = 32 # w' @ collapse r'"
        using r(1,2,4) by (simp add: collapse_spaces collapse_word)
      have "normalize_block_text r = w' @ rstrip_by is_space (collapse r')"
        unfolding normalize_block_text_def c using strip_word_append(1,2) [OF r(3,4)] by simp
      moreover have "rstrip_by is_space (collapse r) = 32 # w' @ rstrip_by is_space (collapse r')"
        unfolding c by (rule strip_word_append(3) [OF r(3,4)])
      ultimately have "rstrip_by is_space (collapse r) = 32 # join_with [32] (words r)"
        using less 2(7) by simp
      moreover have "words r \<noteq> []" using r(6) by simp
      ultimately show ?thesis by (simp add: eq 2(6) join_with_Cons)
    qed
  qed
qed

lemma words_join:
  assumes "\<forall>w \<in> set ws. w \<noteq> [] \<and> list_all (\<lambda>c. \<not> is_space c) w"
  shows "words (join_with [32] ws) = ws"
  using assms
proof (induction ws)
  case (Cons w ws)
  show ?case
  proof (cases "ws = []")
    case True
    then show ?thesis using words_word [of w "[]"] Cons.prems by simp
  next
    case False
    have "words (w @ [32] @ join_with [32] ws) = w # words (join_with [32] ws)"
      using Cons.prems by (subst words_word) auto
    then show ?thesis using Cons False by (simp add: join_with_Cons)
  qed
qed simp

lemma words_members: "w \<in> set (words s) \<Longrightarrow> w \<noteq> [] \<and> list_all (\<lambda>c. \<not> is_space c) w"
proof (induction "length s" arbitrary: s rule: less_induct)
  case less
  show ?case
  proof (cases s rule: words_cases)
    case 1
    with less.prems show ?thesis by simp
  next
    case (2 sp v r)
    with less.prems have "w = v \<or> w \<in> set (words r)" by simp
    then show ?thesis using 2(3,4) less.hyps [OF 2(7)] by blast
  qed
qed

lemma words_normalize [simp]: "words (normalize_block_text s) = words s"
  by (simp add: normalize_words words_join words_members)

lemma normalize_Nil_iff: "normalize_block_text s = [] \<longleftrightarrow> words s = []"
  by (metis join_with.simps(1) normalize_words words_Nil words_normalize)

lemma normalize_idem [simp]: "normalize_block_text (normalize_block_text s) = normalize_block_text s"
  by (simp add: normalize_words [of "normalize_block_text s"] normalize_words [symmetric])

lemma trimmed_normalize [simp]: "trimmed is_space (normalize_block_text s)"
  by (simp add: normalize_block_text_def)

lemma words_unix_newlines [simp]: "words (unix_newlines s) = words s"
proof -
  have "words (a @ unix_newlines s) = words (a @ s)" for a
  proof (induction s arbitrary: a rule: unix_newlines.induct)
    case (3 c d s)
    show ?case
    proof (cases "c = 13 \<and> d = 10")
      case True
      have "words (a @ 10 # unix_newlines s) = words (a @ [10]) @ words (unix_newlines s)"
        using words_append [of "10 # unix_newlines s" a] words_append [of "[10]" a] by simp
      moreover have "words (a @ c # d # s) = words (a @ [10]) @ words s"
        using True words_append [of "13 # 10 # s" a] words_append [of "[10]" a] by (simp add: is_space_def)
      moreover have "words (unix_newlines s) = words s" using 3(1) [of "[]"] True by simp
      ultimately show ?thesis using True by simp
    next
      case False
      then have "unix_newlines (c # d # s) = c # unix_newlines (d # s)" by auto
      then show ?thesis using 3(2) [OF False, of "a @ [c]"] by (simp del: unix_newlines.simps)
    qed
  qed simp_all
  from this [of "[]"] show ?thesis by simp
qed

lemma blank_match_spaces: "list_all is_space (take (blank_match s) s)"
proof (cases s)
  case (Cons c t)
  let ?run = "takeWhile is_space t"
  have "length (dropWhile (\<lambda>x. x \<noteq> 10) (rev ?run)) \<le> length ?run"
    using length_dropWhile_le [of "\<lambda>x. x \<noteq> 10" "rev ?run"] by simp
  then have "take (length (dropWhile (\<lambda>x. x \<noteq> 10) (rev ?run))) t = take (length (dropWhile (\<lambda>x. x \<noteq> 10) (rev ?run))) ?run"
    by (metis append_take_drop_id min.absorb1 take_append take_take takeWhile_eq_take length_take diff_is_0_eq take0 append_Nil2)
  then show ?thesis
    using Cons by (auto simp: blank_match_def Let_def list_all_iff dest!: in_set_takeD set_takeWhileD)
qed (simp add: blank_match_def)

lemma words_blank_split:
  "concat (map words (blank_split s)) = words s"
proof -
  have "words (a @ hd (blank_split s)) @ concat (map words (tl (blank_split s))) = words (a @ s)
      \<and> blank_split s \<noteq> []" for a
  proof (induction "length s" arbitrary: s a rule: less_induct)
    case less
    show ?case
    proof (cases "s = []")
      case False
      show ?thesis
      proof (cases "0 < blank_match s")
        case True
        let ?m = "blank_match s"
        have eq: "blank_split s = [] # blank_split (drop ?m s)"
          using False True by (simp add: blank_split.simps [of s])
        have "words (a @ s) = words (a @ take ?m s @ drop ?m s)" by simp
        also have "\<dots> = words a @ words (take ?m s @ drop ?m s)"
          using blank_match_spaces [of s] False True
          by (intro words_append) (cases s, auto simp: take_Cons')
        also have "\<dots> = words a @ words (drop ?m s)" by (simp only: words_spaces [OF blank_match_spaces])
        finally have w: "words (a @ s) = words a @ words (drop ?m s)" .
        have "length (drop ?m s) < length s" using False True by (cases s) auto
        from less [OF this, of "[]"] show ?thesis unfolding eq w
          by (cases "blank_split (drop ?m s)") auto
      next
        case F: False
        have "length (tl s) < length s" using False by (cases s) auto
        note IH = less [OF this, of "a @ [hd s]"]
        then obtain p ps where ps: "blank_split (tl s) = p # ps" by (cases "blank_split (tl s)") auto
        have "blank_split s = (hd s # p) # ps" using False F ps by (simp add: blank_split.simps [of s])
        with IH ps False show ?thesis by (cases s) auto
      qed
    qed (simp add: blank_split.simps)
  qed
  from this [of "[]"] show ?thesis by (cases "blank_split s") auto
qed

section \<open>The collector never raises\<close>

text \<open>
  The blocks of a collector are well-formed, numbered in order, and their text is normalised;
  a heading's own text ends its heading path; \<open>characters\<close> is the length of all the text.
\<close>

definition collected_block :: "nat \<Rightarrow> canonical_block \<Rightarrow> bool" where
  "collected_block i b \<longleftrightarrow> block_ok b \<and> blk_id b = lit ''b'' @ pad6 i \<and> blk_order b = int i
     \<and> normalize_block_text (blk_text b) = blk_text b
     \<and> (blk_kind b = HEADING \<longrightarrow> blk_heading_path b \<noteq> [] \<and> last (blk_heading_path b) = blk_text b)"

definition collector_ok :: "collector \<Rightarrow> bool" where
  "collector_ok col \<longleftrightarrow> (\<forall>i < length (col_blocks col). collected_block i (col_blocks col ! i))
     \<and> col_characters col = sum_list (map (\<lambda>b. length (blk_text b)) (col_blocks col))"

lemma new_collector_ok [simp]: "collector_ok new_collector"
  by (simp add: collector_ok_def new_collector_def)

text \<open>The words of all blocks, in order: what a parser has kept of a document.\<close>

definition kept_words :: "collector \<Rightarrow> pystr list" where
  "kept_words col = concat (map (\<lambda>b. words (blk_text b)) (col_blocks col))"

lemma add_ok:
  assumes "collector_ok col" "page_ok page" "kind = HEADING \<longrightarrow> level \<noteq> None"
  shows "\<exists>c. add kind text page level col = Inr c \<and> collector_ok c \<and> kept_words c = kept_words col @ words text"
proof (cases "normalize_block_text text = []")
  case True
  then show ?thesis using assms(1) by (simp add: add_def Let_def normalize_Nil_iff)
next
  case False
  let ?n = "normalize_block_text text" and ?i = "length (col_blocks col)"
  let ?h = "case level of None \<Rightarrow> col_headings col | Some l \<Rightarrow> take (l - 1) (col_headings col) @ [?n]"
  let ?b = "\<lparr>blk_id = lit ''b'' @ pad6 ?i, blk_order = int ?i, blk_kind = kind, blk_text = ?n,
      blk_heading_path = ?h, blk_page_number = page\<rparr>"
  have "CanonicalBlock (lit ''b'' @ pad6 ?i) (int ?i) kind ?n ?h page = Inr ?b"
    using False assms(2) by (simp add: CanonicalBlock_Inr) (simp add: lit_def)
  moreover from this have "block_ok ?b" by (rule CanonicalBlock_ok)
  then have "collected_block ?i ?b" using assms(3) by (auto simp: collected_block_def)
  ultimately show ?thesis
    using False assms(1)
    by (auto simp: add_def Let_def collector_ok_def kept_words_def nth_append less_Suc_eq)
qed

lemma collector_document:
  assumes "collector_ok col" "col_blocks col \<noteq> []" "media \<noteq> []"
  shows "\<exists>d. CanonicalDocument did vid title media (col_blocks col) = Inr d \<and> document_ok d
    \<and> d = \<lparr>doc_id = did, doc_version_id = vid, doc_title = title, doc_media_type = media, doc_blocks = col_blocks col\<rparr>"
proof -
  let ?bs = "col_blocks col"
  have ids: "map blk_id ?bs = map (\<lambda>i. lit ''b'' @ pad6 i) [0..<length ?bs]"
    using assms(1) by (intro nth_equalityI) (auto simp: collector_ok_def collected_block_def)
  have "distinct (map blk_id ?bs)" unfolding ids by (simp add: distinct_map inj_on_def pad6_inject)
  then have "card (set (map blk_id ?bs)) = length ?bs" by (metis distinct_card length_map)
  moreover have "map blk_order ?bs = map int [0..<length ?bs]"
    using assms(1) by (intro nth_equalityI) (auto simp: collector_ok_def collected_block_def)
  ultimately have eq: "CanonicalDocument did vid title media ?bs = Inr \<lparr>doc_id = did, doc_version_id = vid,
      doc_title = title, doc_media_type = media, doc_blocks = ?bs\<rparr>"
    using assms(2,3) by (simp add: CanonicalDocument_def)
  have "list_all block_ok ?bs" using assms(1) by (auto simp: list_all_length collector_ok_def collected_block_def)
  from CanonicalDocument_ok [OF eq this] eq show ?thesis by blast
qed

section \<open>The parsers keep the invariant\<close>

lemma parse_plain_text_ok:
  assumes "collector_ok col"
  shows "\<exists>c. parse_plain_text text col = Inr c \<and> collector_ok c \<and> kept_words c = kept_words col @ words text"
proof -
  have "\<exists>c. rfold (\<lambda>c p. add PARAGRAPH p None None c) col ps = Inr c \<and> collector_ok c
      \<and> kept_words c = kept_words col @ concat (map words ps)" for ps
    using assms
  proof (induction ps arbitrary: col)
    case (Cons p ps)
    from add_ok [OF Cons.prems, of None PARAGRAPH None p] obtain c where
      "add PARAGRAPH p None None col = Inr c" "collector_ok c" "kept_words c = kept_words col @ words p"
      by (auto simp: page_ok_def)
    with Cons.IH [of c] show ?case by auto
  qed simp
  from this [of "blank_split (unix_newlines text)"] show ?thesis
    by (simp add: parse_plain_text_def words_blank_split)
qed

lemma md_flush_ok:
  assumes "collector_ok (snd st)"
  shows "\<exists>c. md_flush st = Inr ([], c) \<and> collector_ok c"
  using assms add_ok [of "snd st" None PARAGRAPH None "join_with [32] (fst st)"]
  by (cases st) (auto simp: md_flush_def page_ok_def)

lemma md_line_ok:
  assumes "collector_ok (snd st)"
  shows "\<exists>st'. md_line U st raw = Inr st' \<and> collector_ok (snd st')"
proof -
  obtain c where c: "md_flush st = Inr ([], c)" "collector_ok c" using md_flush_ok [OF assms] by blast
  have "\<exists>c'. add HEADING t None (Some l) c = Inr c' \<and> collector_ok c'" for t l
    using add_ok [OF c(2), of None HEADING "Some l" t] by (auto simp: page_ok_def)
  note heading = this
  have item: "\<exists>c'. add LIST_ITEM t None None c = Inr c' \<and> collector_ok c'" for t
    using add_ok [OF c(2), of None LIST_ITEM None t] by (auto simp: page_ok_def)
  let ?line = "rstrip_by is_space raw"
  show ?thesis
  proof (cases "markdown_heading ?line")
    case (Some lt)
    obtain l t where lt: "lt = (l, t)" by fastforce
    from heading [of t l] show ?thesis by (auto simp: md_line_def Some lt c(1))
  next
    case None
    show ?thesis
    proof (cases "markdown_item U ?line")
      case (Some t)
      from item [of t] show ?thesis by (auto simp: md_line_def None Some c(1))
    qed (use None c assms in \<open>simp add: md_line_def Let_def\<close>)
  qed
qed

lemma rfold_total:
  assumes "P s" "\<And>s x. P s \<Longrightarrow> \<exists>t. f s x = Inr t \<and> P t"
  shows "\<exists>t. rfold f s xs = Inr t \<and> P t"
  using assms(1)
proof (induction xs arbitrary: s)
  case (Cons x xs)
  obtain t where "f s x = Inr t" "P t" using assms(2) [OF Cons.prems] by blast
  with Cons.IH [of t] show ?case by simp
qed simp

lemma parse_markdown_ok:
  assumes "collector_ok col"
  shows "\<exists>c. parse_markdown U text col = Inr c \<and> collector_ok c"
proof -
  obtain st where st: "rfold (md_line U) ([], col) (split_on 10 (unix_newlines text)) = Inr st"
      "collector_ok (snd st)"
    using rfold_total [of "\<lambda>st. collector_ok (snd st)" "([], col)" "md_line U", OF _ md_line_ok] assms
    by (metis snd_conv)
  from md_flush_ok [OF st(2)] st(1) show ?thesis by (auto simp: parse_markdown_def)
qed

definition html_ok :: "html_parser \<Rightarrow> bool" where
  "html_ok h \<longleftrightarrow> collector_ok (hp_collector h)"

lemma html_step_ok:
  assumes "html_ok h"
  shows "\<exists>h'. html_step U h e = Inr h' \<and> html_ok h'"
proof (cases e)
  case (StartTag t)
  then show ?thesis using assms by (simp add: html_step_def handle_starttag_def Let_def html_ok_def)
next
  case (Data d)
  then show ?thesis using assms by (simp add: html_step_def handle_data_def html_ok_def)
next
  case (EndTag t)
  have a: "\<exists>c'. add k x None l (hp_collector h) = Inr c' \<and> collector_ok c'" if "k = HEADING \<longrightarrow> l \<noteq> None" for k x l
    using add_ok [of "hp_collector h" None k l x] assms that by (auto simp: html_ok_def page_ok_def)
  show ?thesis
  proof (cases "hp_capture_tag h")
    case None
    then show ?thesis using assms by (simp add: html_step_def EndTag handle_endtag_def)
  next
    case (Some tag)
    let ?x = "join_with [32] (hp_parts h)"
    define stored where "stored = (if starts_with (lit ''h'') tag
        then add HEADING ?x None (Some (tag ! 1 - 48)) (hp_collector h)
        else if tag = lit ''li'' then add LIST_ITEM ?x None None (hp_collector h)
        else add PARAGRAPH ?x None None (hp_collector h))"
    have "\<exists>c'. stored = Inr c' \<and> collector_ok c'"
      unfolding stored_def using a by (simp split: if_split)
    then show ?thesis
      using assms by (auto simp: html_step_def EndTag handle_endtag_def Some Let_def html_ok_def simp flip: stored_def)
  qed
qed

lemma parse_html_ok:
  assumes "collector_ok col"
  shows "\<exists>c. parse_html U events col = Inr c \<and> collector_ok c"
proof -
  let ?h = "\<lparr>hp_collector = col, hp_capture_tag = None, hp_capture_depth = 0, hp_parts = []\<rparr>"
  have "html_ok ?h" using assms by (simp add: html_ok_def)
  from rfold_total [of html_ok ?h "html_step U" events, OF this html_step_ok] show ?thesis
    by (auto simp: parse_html_def html_ok_def)
qed

end
