(* ===== verification/Pdf_Layout.thy ===== *)
theory Pdf_Layout
  imports Parsing "HOL-Library.Multiset"
begin

text \<open>
  The PDF part of \<open>packages/rag/parsing.py\<close>: words to lines, lines to reading order, lines to
  paragraphs, paragraphs to blocks, and \<open>parse\<close> itself. \<open>pypdf\<close> and \<open>pdfplumber\<close> are a
  parameter: a function from the bytes to the outline and the positioned words of each page, or
  an error. Coordinates are real numbers. The lemmas: the reading order keeps every line, the
  paragraphs keep every line in order, and \<open>parse\<close> returns well-formed documents or raises
  \<open>ValueError\<close>, never anything else.
\<close>

section \<open>The extracted page\<close>

record pdf_word =
  w_text :: pystr
  w_top :: real
  w_bottom :: real
  w_x0 :: real
  w_x1 :: real
  w_size :: real
  w_font :: pystr

record pdf_page =
  page_words :: "pdf_word list"
  page_width :: real
  page_height :: real

text \<open>An outline item: its title and the index of its page, if the reader finds it; or a list.\<close>

datatype outline = Item pystr "int option" | Nested "outline list"

record pdf_file =
  pdf_outline :: "outline list"
  pdf_pages :: "pdf_page list"

section \<open>Lines\<close>

record pdf_line =
  ln_text :: pystr
  ln_top :: real
  ln_bottom :: real
  ln_x0 :: real
  ln_x1 :: real
  ln_size :: real
  ln_font :: pystr

definition is_bold :: "unicode \<Rightarrow> pdf_line \<Rightarrow> bool" where
  "is_bold U l = (let name = casefold U (ln_font l) in
     contains (lit ''bold'') name \<or> contains (lit ''semibold'') name \<or> contains (lit ''medium'') name)"

text \<open>\<open>round(x, 1)\<close>: to the nearest tenth, a tie to the even one.\<close>

definition round1 :: "real \<Rightarrow> real" where
  "round1 x = (let n = \<lfloor>10 * x\<rfloor>; r = 10 * x - of_int n in
     of_int (if r < 1 / 2 \<or> r = 1 / 2 \<and> even n then n else n + 1) / 10)"

text \<open>The row a word goes to: the last of the three newest rows at most 2 points away.\<close>

definition row_for :: "pdf_word list list \<Rightarrow> pdf_word \<Rightarrow> nat option" where
  "row_for rows w = find (\<lambda>i. \<bar>w_top (hd (rows ! i)) - w_top w\<bar> \<le> 2)
     (rev [length rows - 3..<length rows])"

definition add_to_rows :: "pdf_word list list \<Rightarrow> pdf_word \<Rightarrow> pdf_word list list" where
  "add_to_rows rows w = (case row_for rows w of None \<Rightarrow> rows @ [[w]]
     | Some i \<Rightarrow> rows[i := rows ! i @ [w]])"

definition split_segment :: "pdf_word list list \<Rightarrow> pdf_word \<Rightarrow> pdf_word list list" where
  "split_segment segments w =
     (if segments = [] \<or> w_x0 w - w_x1 (last (last segments)) > 36 then segments @ [[w]]
      else butlast segments @ [last segments @ [w]])"

text \<open>The match of \<open>^(?:Apple .+?\s+)?\d+$\<close> on normalised text.\<close>

definition page_footer :: "unicode \<Rightarrow> pystr \<Rightarrow> bool" where
  "page_footer U t =
     (let digits = takeWhile (\<lambda>c. decimal_value U c \<noteq> None) (rev t); front = rev (drop (length digits) (rev t))
      in digits \<noteq> [] \<and> (front = [] \<or>
           starts_with (lit ''Apple '') front \<and> 8 \<le> length front \<and> is_space (last front)))"

text \<open>\<open>max(xs, key=k)\<close>: the first of the largest.\<close>

fun max_by :: "('a \<Rightarrow> 'k :: linorder) \<Rightarrow> 'a \<Rightarrow> 'a list \<Rightarrow> 'a" where
  "max_by k best [] = best"
| "max_by k best (x # xs) = max_by k (if k best < k x then x else best) xs"

definition segment_line :: "unicode \<Rightarrow> real \<Rightarrow> pdf_word list \<Rightarrow> pdf_line option" where
  "segment_line U height seg =
     (let text = normalize_block_text (join_with [32] (map w_text seg));
          top = Min (set (map w_top seg)); bottom = Max (set (map w_bottom seg));
          size = Max (set (map w_size seg));
          font = (case map w_font seg of [] \<Rightarrow> []
            | f # fs \<Rightarrow> max_by (\<lambda>v. (contains (lit ''bold'') (casefold U v), length v)) f fs)
      in if text = [] \<or> length text \<le> 2 \<and> \<not> list_all (is_alnum U) text then None
         else if top < 35 \<or> bottom > height - 35 then None
         else if size \<le> 75 / 10 \<and> page_footer U text then None
         else Some \<lparr>ln_text = text, ln_top = top, ln_bottom = bottom, ln_x0 = Min (set (map w_x0 seg)),
                ln_x1 = Max (set (map w_x1 seg)), ln_size = size, ln_font = font\<rparr>)"

section \<open>Reading order\<close>

definition line_place :: "pdf_line \<Rightarrow> real \<times> real" where
  "line_place l = (ln_top l, ln_x0 l)"

definition split_band :: "pdf_line list list \<Rightarrow> pdf_line \<Rightarrow> pdf_line list list" where
  "split_band bands l =
     (if bands = [] \<or> ln_top l - Max (set (map ln_bottom (last bands))) > 45 then bands @ [[l]]
      else butlast bands @ [last bands @ [l]])"

definition order_band :: "real \<Rightarrow> pdf_line list \<Rightarrow> pdf_line list" where
  "order_band midpoint band =
     (let left = filter (\<lambda>l. ln_x1 l < midpoint - 5) band;
          right = filter (\<lambda>l. ln_x0 l > midpoint + 5) band;
          spanning = filter (\<lambda>l. l \<notin> set left \<and> l \<notin> set right) band
      in if length left < 2 \<or> length right < 2 then sort_key line_place band
         else sort_key line_place spanning @ sort_key line_place left @ sort_key line_place right)"

definition reading_order :: "pdf_line list \<Rightarrow> real \<Rightarrow> pdf_line list" where
  "reading_order lines width =
     concat (map (order_band (width / 2)) (foldl split_band [] (sort_key line_place lines)))"

definition pdf_lines :: "unicode \<Rightarrow> pdf_page \<Rightarrow> pdf_line list" where
  "pdf_lines U page =
     (let rows = foldl add_to_rows [] (sort_key (\<lambda>w. (round1 (w_top w), w_x0 w)) (page_words page));
          segments = concat (map (\<lambda>row. foldl split_segment [] (sort_key w_x0 row)) rows)
      in reading_order (List.map_filter (segment_line U (page_height page)) segments) (page_width page))"

section \<open>Paragraphs\<close>

definition visual_heading_level :: "unicode \<Rightarrow> pdf_line \<Rightarrow> nat option" where
  "visual_heading_level U l =
     (if 19 \<le> ln_size l then Some 1
      else if 16 \<le> ln_size l then Some 2
      else if 13 \<le> ln_size l \<and> is_bold U l then Some 3
      else if 105 / 10 \<le> ln_size l \<and> is_bold U l then Some 4
      else None)"

text \<open>What \<open>_BULLET\<close> leaves of a text it matches: \<open>^\s*(?:[...]|[-...])\s*\<close>.\<close>

definition bullet_rest :: "pystr \<Rightarrow> pystr option" where
  "bullet_rest t = (case dropWhile is_space t of [] \<Rightarrow> None
     | c # r \<Rightarrow> if c \<in> {0x2022, 0x25E6, 0x25AA, 0x2023, 45, 0x2013, 0x2014} then Some (dropWhile is_space r)
         else None)"

definition starts_paragraph :: "unicode \<Rightarrow> pdf_line \<Rightarrow> bool" where
  "starts_paragraph U l \<longleftrightarrow> visual_heading_level U l \<noteq> None \<or> bullet_rest (ln_text l) \<noteq> None
     \<or> is_bold U l \<and> length (ln_text l) \<le> 24"

definition continues :: "unicode \<Rightarrow> pdf_line list \<Rightarrow> pdf_line \<Rightarrow> bool" where
  "continues U para l =
     (let previous = last para; first = hd para;
          same_column = (if bullet_rest (ln_text first) \<noteq> None
            then 8 \<le> ln_x0 l - ln_x0 first \<and> ln_x0 l - ln_x0 first \<le> 40
            else \<bar>ln_x0 l - ln_x0 previous\<bar> \<le> 24);
          gap = ln_top l - ln_bottom previous
      in visual_heading_level U previous = None \<and> same_column
         \<and> 0 \<le> gap \<and> gap \<le> max 9 (ln_size previous * (12 / 10)))"

definition add_to_paragraphs :: "unicode \<Rightarrow> pdf_line list list \<Rightarrow> pdf_line \<Rightarrow> pdf_line list list" where
  "add_to_paragraphs U ps l =
     (if ps = [] \<or> starts_paragraph U l \<or> \<not> continues U (last ps) l then ps @ [[l]]
      else butlast ps @ [last ps @ [l]])"

definition pdf_paragraphs :: "unicode \<Rightarrow> pdf_line list \<Rightarrow> pdf_line list list" where
  "pdf_paragraphs U ls = foldl (add_to_paragraphs U) [] ls"

definition join_line :: "unicode \<Rightarrow> pystr \<Rightarrow> pdf_line \<Rightarrow> pystr" where
  "join_line U combined l =
     (if ends_with [45] combined \<and> ln_text l \<noteq> [] \<and> is_lower U (hd (ln_text l))
      then butlast combined @ ln_text l else combined @ [32] @ ln_text l)"

definition paragraph_text :: "unicode \<Rightarrow> pdf_line list \<Rightarrow> pystr" where
  "paragraph_text U ls = normalize_block_text (foldl (join_line U) (ln_text (hd ls)) (tl ls))"

section \<open>The outline and the blocks of a file\<close>

fun outline_levels :: "unicode \<Rightarrow> nat \<Rightarrow> outline \<Rightarrow> ((int \<times> pystr) \<times> nat) list" where
  "outline_levels U depth (Nested items) = concat (map (outline_levels U (depth + 1)) items)"
| "outline_levels U depth (Item title page) =
     (case page of None \<Rightarrow> []
      | Some index \<Rightarrow> let t = normalize_block_text title in
          if t = [] then [] else [((index + 1, casefold U t), min (depth + 1) 6)])"

text \<open>A later item of the same page and title replaces an earlier one.\<close>

definition outline_level :: "unicode \<Rightarrow> pdf_file \<Rightarrow> int \<Rightarrow> pystr \<Rightarrow> nat option" where
  "outline_level U pdf page title =
     map_of (rev (concat (map (outline_levels U 0) (pdf_outline pdf)))) (page, title)"

definition add_paragraph :: "unicode \<Rightarrow> pdf_file \<Rightarrow> int \<Rightarrow> collector \<Rightarrow> pdf_line list \<Rightarrow> collector result" where
  "add_paragraph U pdf page col ls =
     (let text = paragraph_text U ls;
          level = (case outline_level U pdf page (casefold U text) of Some l \<Rightarrow> Some l
            | None \<Rightarrow> visual_heading_level U (hd ls))
      in case level of Some l \<Rightarrow> add HEADING text (Some page) (Some l) col
         | None \<Rightarrow> (case bullet_rest text of
               Some r \<Rightarrow> add LIST_ITEM r (Some page) None col
             | None \<Rightarrow> add PARAGRAPH text (Some page) None col))"

definition parse_page :: "unicode \<Rightarrow> pdf_file \<Rightarrow> collector \<Rightarrow> nat \<times> pdf_page \<Rightarrow> collector result" where
  "parse_page U pdf col p =
     rfold (add_paragraph U pdf (int (fst p))) col (pdf_paragraphs U (pdf_lines U (snd p)))"

definition parse_pdf :: "unicode \<Rightarrow> nat \<Rightarrow> pdf_file result \<Rightarrow> collector \<Rightarrow> collector result" where
  "parse_pdf U max_pages opened col =
     (case rbind opened (\<lambda>pdf.
          if max_pages < length (pdf_pages pdf) then raise_value ''PDF exceeds the page limit''
          else rfold (parse_page U pdf) col (enum_from 1 (pdf_pages pdf))) of
        Inl e \<Rightarrow> if is_value_error e then Inl e else raise_value ''PDF could not be parsed''
      | Inr c \<Rightarrow> Inr c)"

section \<open>parse\<close>

text \<open>
  The libraries a parser uses: how a PDF opens, and the handler calls that HTML text causes.
\<close>

record parser =
  max_pages :: nat
  max_characters :: nat
  open_pdf :: "pybytes \<Rightarrow> pdf_file result"
  html_events :: "pystr \<Rightarrow> html_event list"

definition parse_content :: "unicode \<Rightarrow> parser \<Rightarrow> pybytes \<Rightarrow> pystr \<Rightarrow> collector result" where
  "parse_content U P content media =
     (if media = lit ''application/pdf'' then parse_pdf U (max_pages P) (open_pdf P content) new_collector
      else case utf8_decode content of
        None \<Rightarrow> raise_value ''text documents must be UTF-8 encoded''
      | Some decoded \<Rightarrow>
          if max_characters P < length decoded then raise_value ''document exceeds the parsed text limit''
          else if media = lit ''text/markdown'' then parse_markdown U decoded new_collector
          else if media = lit ''text/html'' then parse_html U (html_events P decoded) new_collector
          else if media = lit ''text/plain'' then parse_plain_text decoded new_collector
          else Inl (ValueError (lit ''unsupported media type: '' @ media)))"

definition parse :: "unicode \<Rightarrow> parser \<Rightarrow> pybytes \<Rightarrow> uuid \<Rightarrow> uuid \<Rightarrow> pystr \<Rightarrow> pystr
    \<Rightarrow> canonical_document result" where
  "parse U P content did vid title media =
     (if content = [] then raise_value ''cannot parse an empty document''
      else rbind (parse_content U P content media) (\<lambda>col.
        if col_blocks col = [] then raise_value ''document contains no indexable text''
        else if max_characters P < col_characters col then raise_value ''document exceeds the parsed text limit''
        else CanonicalDocument did vid (normalize_block_text title) media (col_blocks col)))"

section \<open>The reading order keeps every line\<close>

lemma split_band_concat: "concat (split_band bands l) = concat bands @ [l]"
  by (cases bands rule: rev_cases) (auto simp: split_band_def)

lemma split_bands_concat: "concat (foldl split_band bands ls) = concat bands @ ls"
  by (induction ls arbitrary: bands) (auto simp: split_band_concat)

definition upright :: "pdf_line \<Rightarrow> bool" where
  "upright l \<longleftrightarrow> ln_x0 l \<le> ln_x1 l"

lemma mset_sort_key [simp]: "mset (sort_key k xs) = mset xs"
  by simp

lemma order_band_mset:
  assumes "\<forall>l \<in> set band. upright l"
  shows "mset (order_band m band) = mset band"
proof -
  let ?L = "\<lambda>l. ln_x1 l < m - 5" and ?R = "\<lambda>l. ln_x0 l > m + 5"
  have disjoint: "\<not> (?L l \<and> ?R l)" if "l \<in> set band" for l using assms that by (force simp: upright_def)
  have "filter (\<lambda>l. l \<notin> set (filter ?L band) \<and> l \<notin> set (filter ?R band)) band
      = filter (\<lambda>l. \<not> ?L l \<and> \<not> ?R l) band"
    by (rule filter_cong) auto
  moreover have all: "mset (filter (\<lambda>l. \<not> ?L l \<and> \<not> ?R l) ls) + mset (filter ?L ls) + mset (filter ?R ls) = mset ls"
    if "\<forall>l \<in> set ls. \<not> (?L l \<and> ?R l)" for ls
    using that by (induction ls) auto
  from all [of band] have "mset (filter (\<lambda>l. \<not> ?L l \<and> \<not> ?R l) band) + mset (filter ?L band) + mset (filter ?R band)
      = mset band" using disjoint by blast
  ultimately show ?thesis unfolding order_band_def Let_def by (simp add: add.assoc)
qed

lemma concat_order_bands:
  "(\<forall>b \<in> set bs. \<forall>l \<in> set b. upright l) \<Longrightarrow> mset (concat (map (order_band m) bs)) = mset (concat bs)"
  by (induction bs) (auto simp: order_band_mset)

lemma reading_order_mset:
  assumes "\<forall>l \<in> set ls. upright l"
  shows "mset (reading_order ls w) = mset ls"
proof -
  let ?bs = "foldl split_band [] (sort_key line_place ls)"
  have c: "concat ?bs = sort_key line_place ls" by (simp add: split_bands_concat)
  then have "set (concat ?bs) = set ls" by simp
  with assms have "\<forall>b \<in> set ?bs. \<forall>l \<in> set b. upright l" by auto
  from concat_order_bands [OF this] c show ?thesis by (simp add: reading_order_def)
qed

section \<open>The paragraphs keep every line in order\<close>

lemma add_to_paragraphs_concat: "concat (add_to_paragraphs U ps l) = concat ps @ [l]"
  by (cases ps rule: rev_cases) (auto simp: add_to_paragraphs_def)

lemma pdf_paragraphs_concat: "concat (pdf_paragraphs U ls) = ls"
proof -
  have "concat (foldl (add_to_paragraphs U) ps ls) = concat ps @ ls" for ps
    by (induction ls arbitrary: ps) (auto simp: add_to_paragraphs_concat)
  from this [of "[]"] show ?thesis by (simp add: pdf_paragraphs_def)
qed

lemma add_to_paragraphs_nonempty: "[] \<notin> set ps \<Longrightarrow> [] \<notin> set (add_to_paragraphs U ps l)"
  by (auto simp: add_to_paragraphs_def dest: in_set_butlastD)

lemma pdf_paragraphs_nonempty: "[] \<notin> set (pdf_paragraphs U ls)"
proof -
  have "[] \<notin> set (foldl (add_to_paragraphs U) ps ls)" if "[] \<notin> set ps" for ps
    using that by (induction ls arbitrary: ps) (simp_all add: add_to_paragraphs_nonempty)
  from this [of "[]"] show ?thesis by (simp add: pdf_paragraphs_def)
qed

text \<open>The segments of a row are not empty, and neither are the rows; so every line is upright.\<close>

lemma segment_line_upright:
  assumes "seg \<noteq> []" "\<forall>w \<in> set seg. w_x0 w \<le> w_x1 w" "segment_line U h seg = Some l"
  shows "upright l"
proof -
  have l: "ln_x0 l = Min (set (map w_x0 seg))" "ln_x1 l = Max (set (map w_x1 seg))"
    using assms(3) by (auto simp: segment_line_def Let_def split: if_splits)
  have h: "hd seg \<in> set seg" using assms(1) by simp
  have "Min (set (map w_x0 seg)) \<le> w_x0 (hd seg)" using h by (intro Min_le) auto
  also have "\<dots> \<le> w_x1 (hd seg)" using assms(2) h by blast
  also have "\<dots> \<le> Max (set (map w_x1 seg))" using h by (intro Max_ge) auto
  finally show ?thesis by (simp add: upright_def l)
qed

lemma add_to_rows_words: "\<Union> (set ` set (add_to_rows rows w)) \<subseteq> \<Union> (set ` set rows) \<union> {w}"
proof (cases "row_for rows w")
  case (Some i)
  then have "i < length rows" unfolding row_for_def by (auto dest!: find_SomeD)
  then have "rows ! i \<in> set rows" by simp
  then show ?thesis unfolding add_to_rows_def Some option.case
    by (auto dest!: set_update_subset_insert [THEN subsetD])
qed (auto simp: add_to_rows_def)

lemma split_segment_words:
  "\<Union> (set ` set (split_segment segs w)) \<subseteq> \<Union> (set ` set segs) \<union> {w}"
  "[] \<notin> set segs \<Longrightarrow> [] \<notin> set (split_segment segs w)"
  by (cases segs rule: rev_cases; auto simp: split_segment_def dest: in_set_butlastD)+

text \<open>Lines of a page whose words have their left edge left of their right edge are upright.\<close>

lemma page_lines_upright:
  assumes "\<forall>w \<in> set (page_words page). w_x0 w \<le> w_x1 w"
    and "rows = foldl add_to_rows [] (sort_key (\<lambda>w. (round1 (w_top w), w_x0 w)) (page_words page))"
    and "row \<in> set rows" "seg \<in> set (foldl split_segment [] (sort_key w_x0 row))"
    and "segment_line U h seg = Some l"
  shows "upright l"
proof -
  have "\<Union> (set ` set (foldl add_to_rows rs ws)) \<subseteq> \<Union> (set ` set rs) \<union> set ws" for rs ws
  proof (induction ws arbitrary: rs)
    case (Cons w ws)
    from Cons.IH [of "add_to_rows rs w"] add_to_rows_words [of rs w] show ?case by auto
  qed simp
  from this [of "[]" "sort_key (\<lambda>w. (round1 (w_top w), w_x0 w)) (page_words page)"]
  have rows: "\<Union> (set ` set rows) \<subseteq> set (page_words page)" unfolding assms(2) by simp
  have seg: "\<Union> (set ` set (foldl split_segment ss ws)) \<subseteq> \<Union> (set ` set ss) \<union> set ws" for ss ws
  proof (induction ws arbitrary: ss)
    case (Cons w ws)
    from Cons.IH [of "split_segment ss w"] split_segment_words(1) [of ss w] show ?case by auto
  qed simp
  have ne: "[] \<notin> set ss \<Longrightarrow> [] \<notin> set (foldl split_segment ss ws)" for ss ws
    by (induction ws arbitrary: ss) (auto simp: split_segment_words(2))
  have "set seg \<subseteq> set (sort_key w_x0 row)" "seg \<noteq> []"
    using seg [of "[]" "sort_key w_x0 row"] ne [of "[]" "sort_key w_x0 row"] assms(4) by auto
  moreover have "set row \<subseteq> set (page_words page)" using rows assms(3) by blast
  ultimately have "\<forall>w \<in> set seg. w_x0 w \<le> w_x1 w" "seg \<noteq> []" using assms(1) by auto
  with assms(5) show ?thesis using segment_line_upright by blast
qed

section \<open>parse returns well-formed documents\<close>

lemma add_paragraph_ok:
  assumes "collector_ok col" "1 \<le> page"
  shows "\<exists>c. add_paragraph U pdf page col ls = Inr c \<and> collector_ok c"
proof -
  have p: "page_ok (Some page)" using assms(2) by (simp add: page_ok_def)
  let ?level = "case outline_level U pdf page (casefold U (paragraph_text U ls)) of Some l \<Rightarrow> Some l
      | None \<Rightarrow> visual_heading_level U (hd ls)"
  show ?thesis
  proof (cases ?level)
    case (Some l)
    with add_ok [OF assms(1) p, of HEADING "Some l"] show ?thesis
      by (auto simp: add_paragraph_def Let_def)
  next
    case None
    with add_ok [OF assms(1) p, of LIST_ITEM None] add_ok [OF assms(1) p, of PARAGRAPH None] show ?thesis
      by (cases "bullet_rest (paragraph_text U ls)") (auto simp: add_paragraph_def Let_def)
  qed
qed

lemma parse_page_ok:
  assumes "collector_ok col" "1 \<le> fst p"
  shows "\<exists>c. parse_page U pdf col p = Inr c \<and> collector_ok c"
proof -
  have "1 \<le> int (fst p)" using assms(2) by simp
  then show ?thesis
    unfolding parse_page_def using add_paragraph_ok
    by (intro rfold_total [of collector_ok, OF assms(1)]) blast
qed

lemma parse_pdf_ok:
  assumes "collector_ok col"
  shows "case parse_pdf U n opened col of Inl e \<Rightarrow> is_value_error e | Inr c \<Rightarrow> collector_ok c"
proof (cases opened)
  case (Inl e)
  then show ?thesis by (simp add: parse_pdf_def is_value_error_def)
next
  case (Inr pdf)
  have "\<exists>c. rfold (parse_page U pdf) col ps = Inr c \<and> collector_ok c" if "\<forall>p \<in> set ps. 1 \<le> fst p" for ps
    using assms that
  proof (induction ps arbitrary: col)
    case (Cons p ps)
    with parse_page_ok [of col p U pdf] show ?case by auto
  qed simp
  moreover have "\<forall>p \<in> set (enum_from 1 (pdf_pages pdf)). 1 \<le> fst p"
    by (auto simp: in_set_enumerate_eq)
  ultimately obtain c where
      "rfold (parse_page U pdf) col (enum_from 1 (pdf_pages pdf)) = Inr c" "collector_ok c"
    by blast
  then show ?thesis by (simp add: parse_pdf_def Inr is_value_error_def)
qed

lemma parse_content_ok:
  "case parse_content U P content media of Inl e \<Rightarrow> is_value_error e | Inr c \<Rightarrow> collector_ok c"
proof (cases "media = lit ''application/pdf''")
  case True
  with parse_pdf_ok [OF new_collector_ok] show ?thesis by (simp add: parse_content_def)
next
  case False
  obtain c1 where 1: "parse_markdown U t new_collector = Inr (c1 t)" "collector_ok (c1 t)" for t
    using parse_markdown_ok [OF new_collector_ok, of U] by metis
  obtain c2 where 2: "parse_html U t new_collector = Inr (c2 t)" "collector_ok (c2 t)" for t
    using parse_html_ok [OF new_collector_ok, of U] by metis
  obtain c3 where 3: "parse_plain_text t new_collector = Inr (c3 t)" "collector_ok (c3 t)" for t
    using parse_plain_text_ok [OF new_collector_ok] by metis
  show ?thesis
    using False 1 2 3
    by (cases "utf8_decode content") (simp_all add: parse_content_def is_value_error_def)
qed

section \<open>Properties of the parser\<close>

lemma parse_result:
  "case parse U P content did vid title media of
     Inl e \<Rightarrow> is_value_error e
   | Inr d \<Rightarrow> document_ok d \<and> doc_id d = did \<and> doc_version_id d = vid \<and> doc_media_type d = media
       \<and> doc_title d = normalize_block_text title
       \<and> sum_list (map (\<lambda>b. length (blk_text b)) (doc_blocks d)) \<le> max_characters P
       \<and> (\<forall>b \<in> set (doc_blocks d). normalize_block_text (blk_text b) = blk_text b
            \<and> (blk_kind b = HEADING \<longrightarrow> blk_heading_path b \<noteq> [] \<and> last (blk_heading_path b) = blk_text b))"
proof (cases "content = []")
  case True
  then show ?thesis by (simp add: parse_def is_value_error_def)
next
  case False
  note ok = parse_content_ok [of U P content media]
  show ?thesis
  proof (cases "parse_content U P content media")
    case (Inl e)
    with ok False show ?thesis by (simp add: parse_def)
  next
    case (Inr col)
    with ok have col: "collector_ok col" by simp
    show ?thesis
    proof (cases "col_blocks col = [] \<or> max_characters P < col_characters col")
      case True
      with Inr False show ?thesis by (auto simp: parse_def is_value_error_def)
    next
      case ok: False
      have media: "media \<noteq> []" using Inr by (auto simp: parse_content_def lit_def split: option.splits if_splits)
      from ok have "col_blocks col \<noteq> []" by simp
      from collector_document [OF col this media, of did vid "normalize_block_text title"] obtain d where
        d: "CanonicalDocument did vid (normalize_block_text title) media (col_blocks col) = Inr d" "document_ok d"
          "d = \<lparr>doc_id = did, doc_version_id = vid, doc_title = normalize_block_text title,
             doc_media_type = media, doc_blocks = col_blocks col\<rparr>" by blast
      have blocks: "\<exists>i. collected_block i b" if "b \<in> set (col_blocks col)" for b
        using that col by (auto simp: collector_ok_def in_set_conv_nth)
      have "parse U P content did vid title media = Inr d" using False ok Inr d(1) by (simp add: parse_def)
      moreover have "sum_list (map (\<lambda>b. length (blk_text b)) (col_blocks col)) \<le> max_characters P"
        using ok col by (auto simp: collector_ok_def)
      ultimately show ?thesis using d(2,3) blocks by (auto simp: collected_block_def)
    qed
  qed
qed


text \<open>Plain text is kept word for word. The words of the blocks of a parsed plain-text document,
  in order, are the words of the decoded content.\<close>

theorem plain_text_words:
  assumes "parse U P content did vid title (lit ''text/plain'') = Inr d" "utf8_decode content = Some text"
  shows "concat (map (\<lambda>b. words (blk_text b)) (doc_blocks d)) = words text"
proof -
  obtain c where c: "parse_plain_text text new_collector = Inr c" "kept_words c = words text" "collector_ok c"
    using parse_plain_text_ok [OF new_collector_ok, of "text"] by (auto simp: kept_words_def new_collector_def)
  have ne: "lit ''text/plain'' \<noteq> []" by (simp add: lit_def)
  from assms have "col_blocks c \<noteq> []" "CanonicalDocument did vid (normalize_block_text title) (lit ''text/plain'') (col_blocks c) = Inr d"
    by (auto simp: parse_def parse_content_def c(1) result_simps split: if_splits)
  with collector_document [OF c(3) this(1) ne, of did vid "normalize_block_text title"]
  have "doc_blocks d = col_blocks c" by auto
  then show ?thesis using c(2) by (simp add: kept_words_def)
qed

definition sample_parser :: parser where
  "sample_parser = \<lparr>max_pages = 1000, max_characters = 5000000,
     open_pdf = (\<lambda>_. raise_value ''not a PDF''), html_events = (\<lambda>t. [Data t])\<rparr>"

definition sample_text :: pystr where
  "sample_text = lit ''Refunds take'' @ [13, 10] @ lit ''5  days.'' @ [10, 32, 10] @ lit ''Ask us.''"

lemma sample_parsed:
  "\<exists>d. parse ascii_only sample_parser (utf8_encode sample_text) 1 2 (lit ''Help'') (lit ''text/plain'') = Inr d"
proof -
  have "\<not> isl (parse ascii_only sample_parser (utf8_encode sample_text) 1 2 (lit ''Help'') (lit ''text/plain''))"
    by code_simp
  then show ?thesis by (metis sum.collapse(2))
qed

lemma sample_decodes: "utf8_decode (utf8_encode sample_text) = Some sample_text"
  by (rule utf8_roundtrip) code_simp


theorem plain_text_words_witness:
  "\<exists>d. parse ascii_only sample_parser (utf8_encode sample_text) 1 2 (lit ''Help'') (lit ''text/plain'') = Inr d
    \<and> concat (map (\<lambda>b. words (blk_text b)) (doc_blocks d)) = words sample_text"
  using sample_parsed plain_text_words [OF _ sample_decodes] by blast

text \<open>The layout analysis of a PDF page loses, repeats and invents no line. When every line has
  its left edge left of its right edge, the paragraphs of the page in reading order consist of
  exactly the lines of the page, and no paragraph is empty.\<close>

theorem pdf_layout_keeps_lines:
  assumes "\<forall>l \<in> set ls. ln_x0 l \<le> ln_x1 l"
  shows "mset (concat (pdf_paragraphs U (reading_order ls width))) = mset ls
    \<and> [] \<notin> set (pdf_paragraphs U (reading_order ls width))"
  using reading_order_mset [of ls width] assms
  by (simp add: pdf_paragraphs_concat pdf_paragraphs_nonempty upright_def)

definition sample_line :: "real \<Rightarrow> pdf_line" where
  "sample_line x = \<lparr>ln_text = lit ''Some text'', ln_top = 100, ln_bottom = 110, ln_x0 = x, ln_x1 = x + 50,
     ln_size = 10, ln_font = lit ''Body''\<rparr>"

theorem pdf_layout_keeps_lines_witness:
  "mset (concat (pdf_paragraphs ascii_only (reading_order [sample_line 300, sample_line 40] 500)))
     = {#sample_line 300, sample_line 40#}"
proof -
  have "\<forall>l \<in> set [sample_line 300, sample_line 40]. ln_x0 l \<le> ln_x1 l" by (simp add: sample_line_def)
  from pdf_layout_keeps_lines [OF this, of ascii_only 500] show ?thesis by simp
qed

text \<open>
  A void element such as \<open>br\<close> inside a captured element raises the depth and no end tag lowers
  it, so the element is never finished, and nothing after it is collected.
\<close>

lemma html_void_element_drops_text:
  "parse_html ascii_only
     [StartTag (lit ''p''), Data (lit ''first''), StartTag (lit ''br''), Data (lit ''line''), EndTag (lit ''p''),
      StartTag (lit ''p''), Data (lit ''second''), EndTag (lit ''p'')] new_collector = Inr new_collector"
  by code_simp

end
