(* ===== verification/Indexing.thy ===== *)
theory Indexing
  imports Retrieval Pdf_Layout
begin

text \<open>
  \<open>packages/rag/service.py\<close>: the indexer, which takes the bytes of a document to embedded chunks,
  and the retrieval service, which takes a question to ranked chunks. The locale \<open>version_indexer\<close> is
  what the worker relies on; it is interpreted on the E1 indexer. The lemmas say that the records of
  an indexed document are its chunks in order, and that the batch size is a matter of speed only.
\<close>

section \<open>RAGIndexer\<close>

record rag_indexer =
  ix_parser :: parser
  ix_budget :: input_budget
  ix_embed :: "pystr list \<Rightarrow> pyfloat list list result"
  ix_batch_size :: int

definition index_batch :: "rag_indexer \<Rightarrow> embedded_chunk list \<Rightarrow> chunk list \<Rightarrow> embedded_chunk list result" where
  "index_batch X records batch =
     rbind (ix_embed X (map chk_embedding_text batch)) (\<lambda>embeddings.
     if length embeddings \<noteq> length batch then raise_runtime ''E1 returned the wrong indexing batch length''
     else rbind (traverse (\<lambda>(c, v). EmbeddedChunk c v) (zip batch embeddings)) (\<lambda>rs. Inr (records @ rs)))"

text \<open>\<open>range(0, n, step)\<close>: a step of zero raises, a negative one gives no start at all.\<close>

definition index_chunks :: "rag_indexer \<Rightarrow> chunk list \<Rightarrow> embedded_chunk list result" where
  "index_chunks X chunks =
     (if ix_batch_size X = 0 then raise_value ''range() arg 3 must not be zero''
      else rfold (index_batch X) []
        (if ix_batch_size X < 0 then [] else batches (nat (ix_batch_size X)) chunks))"

definition index_content :: "unicode \<Rightarrow> rag_indexer \<Rightarrow> pybytes \<Rightarrow> uuid \<Rightarrow> uuid \<Rightarrow> pystr \<Rightarrow> pystr
    \<Rightarrow> embedded_chunk list result" where
  "index_content U X content did vid title media =
     rbind (parse U (ix_parser X) content did vid title media) (\<lambda>document.
     rbind (chunk_document U (ix_budget X) document) (index_chunks X))"

text \<open>\<open>get_rag_indexer\<close>: \<open>CanonicalParser()\<close> with its default limits, and one tokenizer for the budget
  and the embedder. The two readers of the parser are the libraries'.\<close>

definition CanonicalParser :: "(pybytes \<Rightarrow> pdf_file result) \<Rightarrow> (pystr \<Rightarrow> html_event list) \<Rightarrow> parser" where
  "CanonicalParser pdf html = \<lparr>max_pages = 1000, max_characters = 5000000, open_pdf = pdf, html_events = html\<rparr>"

definition get_rag_indexer :: "parser \<Rightarrow> e1_embedder \<Rightarrow> int \<Rightarrow> rag_indexer" where
  "get_rag_indexer P E batch_size =
     \<lparr>ix_parser = P, ix_budget = e1_budget (e1_encode E), ix_embed = embed_documents E,
      ix_batch_size = batch_size\<rparr>"

section \<open>RetrievalService\<close>

definition retrieve :: "unicode \<Rightarrow> (pyfloat list \<Rightarrow> pyfloat list \<Rightarrow> real) \<Rightarrow> e1_embedder \<Rightarrow> tenant \<Rightarrow> uuid
    \<Rightarrow> pystr \<Rightarrow> int \<Rightarrow> db \<Rightarrow> search_result list result" where
  "retrieve U gap E t ws query result_count d =
     rbind (embed_queries E [query]) (\<lambda>vectors.
     if length vectors \<noteq> 1 then raise_runtime ''E1 returned the wrong query batch length''
     else search U gap t ws query (vectors ! 0) result_count d)"

section \<open>Facts\<close>

lemma EmbeddedChunk_Inr [result_simps]:
  "EmbeddedChunk c v = Inr r \<longleftrightarrow> v \<noteq> [] \<and> r = \<lparr>emb_chunk = c, emb_vector = v\<rparr>"
  by (auto simp: EmbeddedChunk_def)

lemma pair_records:
  assumes "length vs = length cs" "traverse (\<lambda>(c, v). EmbeddedChunk c v) (zip cs vs) = Inr rs"
  shows "map emb_chunk rs = cs \<and> map emb_vector rs = vs"
  using assms
proof (induction cs vs arbitrary: rs rule: list_induct2')
  case (4 c cs v vs)
  then show ?case by (auto simp: result_simps)
qed auto

lemma index_batch_Inr [result_simps]:
  "index_batch X acc b = Inr rs \<longleftrightarrow> (\<exists>vs new. ix_embed X (map chk_embedding_text b) = Inr vs \<and> length vs = length b
     \<and> traverse (\<lambda>(c, v). EmbeddedChunk c v) (zip b vs) = Inr new \<and> rs = acc @ new)"
  by (auto simp: index_batch_def result_simps)

text \<open>A property of all vectors of the embedder is one of all records, and the chunks are kept.\<close>

lemma index_batches_kept:
  assumes "rfold (index_batch X) acc bs = Inr rs"
    and "\<And>texts vs. ix_embed X texts = Inr vs \<Longrightarrow> \<forall>v \<in> set vs. P v" "\<forall>r \<in> set acc. P (emb_vector r)"
  shows "map emb_chunk rs = map emb_chunk acc @ concat bs \<and> (\<forall>r \<in> set rs. P (emb_vector r))"
  using assms(1,3)
proof (induction bs arbitrary: acc)
  case (Cons b bs)
  from Cons.prems(1) obtain vs new where v: "ix_embed X (map chk_embedding_text b) = Inr vs" "length vs = length b"
      "traverse (\<lambda>(c, v). EmbeddedChunk c v) (zip b vs) = Inr new" "rfold (index_batch X) (acc @ new) bs = Inr rs"
    by (auto simp: result_simps)
  from pair_records [OF v(2,3)] have new: "map emb_chunk new = b" "map emb_vector new = vs" by auto
  have "\<forall>r \<in> set (acc @ new). P (emb_vector r)"
    using assms(2) [OF v(1)] Cons.prems(2) new(2) by auto
  from Cons.IH [OF v(4) this] new(1) show ?case by simp
qed simp

lemma index_chunks_kept:
  assumes "index_chunks X cs = Inr rs" "\<And>texts vs. ix_embed X texts = Inr vs \<Longrightarrow> \<forall>v \<in> set vs. P v"
  shows "map emb_chunk rs = (if ix_batch_size X < 0 then [] else cs) \<and> (\<forall>r \<in> set rs. P (emb_vector r))"
proof -
  from assms(1) have "ix_batch_size X \<noteq> 0" "rfold (index_batch X) []
      (if ix_batch_size X < 0 then [] else batches (nat (ix_batch_size X)) cs) = Inr rs"
    by (auto simp: index_chunks_def split: if_splits)
  with index_batches_kept [OF this(2), of P, OF assms(2)] concat_batches [of "nat (ix_batch_size X)" cs]
  show ?thesis by (auto split: if_splits)
qed

definition unit_vector :: "pyfloat list \<Rightarrow> bool" where
  "unit_vector v \<longleftrightarrow> length v = embedding_dimension PIPELINE \<and> list_all isfinite v \<and> norm_of v = 1"

lemma e1_embed_unit: "e1_embed E query texts = Inr vs \<Longrightarrow> \<forall>v \<in> set vs. unit_vector v"
  using e1_embed_Inr [of E query texts vs] by (simp add: unit_vector_def)

lemma index_content_kept:
  assumes "index_content U (get_rag_indexer P E n) content did vid title media = Inr rs"
  shows "\<exists>d cs. parse U P content did vid title media = Inr d
    \<and> chunk_document U (e1_budget (e1_encode E)) d = Inr cs
    \<and> map emb_chunk rs = (if n < 0 then [] else cs) \<and> (\<forall>r \<in> set rs. unit_vector (emb_vector r))
    \<and> (\<forall>c \<in> set cs. chk_document_id c = did \<and> chk_version_id c = vid)"
proof -
  from assms obtain d cs where d: "parse U P content did vid title media = Inr d"
      "chunk_document U (e1_budget (e1_encode E)) d = Inr cs" "index_chunks (get_rag_indexer P E n) cs = Inr rs"
    by (auto simp: index_content_def get_rag_indexer_def result_simps)
  from parse_result [where U = U and P = P and content = content and did = did and vid = vid and title = title and media = media] d(1)
  have ok: "document_ok d" "doc_id d = did" "doc_version_id d = vid" by auto
  have "chk_document_id c = did \<and> chk_version_id c = vid" if "c \<in> set cs" for c
  proof -
    from chunk_member [OF ok(1) d(2) that] obtain i fs where "c = group_chunk U d i fs" by metis
    then show ?thesis using ok(2,3) by simp
  qed
  moreover have "map emb_chunk rs = (if n < 0 then [] else cs) \<and> (\<forall>r \<in> set rs. unit_vector (emb_vector r))"
    using index_chunks_kept [OF d(3), of unit_vector] e1_embed_unit by (simp add: get_rag_indexer_def)
  ultimately show ?thesis using d(1,2) by blast
qed

section \<open>The contract the worker relies on\<close>

text \<open>
  The protocol \<open>Indexer\<close>: the records of a version carry the identifiers the indexer was given, and
  vectors that the chunk table takes.
\<close>

locale version_indexer =
  fixes index :: "pybytes \<Rightarrow> uuid \<Rightarrow> uuid \<Rightarrow> pystr \<Rightarrow> pystr \<Rightarrow> embedded_chunk list result"
  assumes index_law: "index content did vid title media = Inr rs \<Longrightarrow> r \<in> set rs \<Longrightarrow>
    chk_document_id (emb_chunk r) = did \<and> chk_version_id (emb_chunk r) = vid
    \<and> length (emb_vector r) = embedding_dimension PIPELINE \<and> list_all isfinite (emb_vector r)"
begin

text \<open>Records of one call satisfy the storage contract of \<open>replace_version\<close>.\<close>

lemma records_storable:
  assumes "index content did vid title media = Inr rs"
  shows "list_all (record_ok (emb_chunk (hd rs))) rs"
proof (cases rs)
  case (Cons r rest)
  then have "hd rs \<in> set rs" by simp
  with index_law [OF assms] show ?thesis unfolding list_all_iff record_ok_def by metis
qed simp

lemma replaced_by_records:
  assumes "index content did vid title media = Inr rs" "replace_version t ws rs d = Inr d'"
  shows "filter (version_rows ws vid) (db_chunks d') = map (chunk_row ws) rs"
    "filter (\<lambda>c. \<not> version_rows ws vid c) (db_chunks d') = filter (\<lambda>c. \<not> version_rows ws vid c) (db_chunks d)"
    "d'\<lparr>db_chunks := db_chunks d\<rparr> = d" "rs \<noteq> []"
proof -
  note r = replace_version_Inr [OF assms(2)]
  then have "hd rs \<in> set rs" by simp
  with index_law [OF assms(1)] have "chk_version_id (emb_chunk (hd rs)) = vid" by blast
  moreover have "\<forall>x \<in> set rs. version_rows ws vid (chunk_row ws x)"
    using index_law [OF assms(1)] by (simp add: version_rows_def chunk_row_def Let_def)
  then have "filter (version_rows ws vid) (map (chunk_row ws) rs) = map (chunk_row ws) rs"
    "filter (\<lambda>c. \<not> version_rows ws vid c) (map (chunk_row ws) rs) = []"
    by (simp_all only: filter_id_conv filter_empty_conv) auto
  ultimately show "filter (version_rows ws vid) (db_chunks d') = map (chunk_row ws) rs"
    "filter (\<lambda>c. \<not> version_rows ws vid c) (db_chunks d') = filter (\<lambda>c. \<not> version_rows ws vid c) (db_chunks d)"
    "d'\<lparr>db_chunks := db_chunks d\<rparr> = d" "rs \<noteq> []"
    using r by simp_all
qed

end

interpretation e1_indexer: version_indexer "index_content U (get_rag_indexer P E n)" for U P E n
proof
  fix content did vid title media rs r
  assume a: "index_content U (get_rag_indexer P E n) content did vid title media = Inr rs" "r \<in> set rs"
  from index_content_kept [OF a(1)] a(2) obtain cs where "map emb_chunk rs = (if n < 0 then [] else cs)"
      "unit_vector (emb_vector r)" "\<forall>c \<in> set cs. chk_document_id c = did \<and> chk_version_id c = vid" by blast
  moreover from this(1) a(2) have "emb_chunk r \<in> set cs" by (cases "n < 0") auto
  ultimately show "chk_document_id (emb_chunk r) = did \<and> chk_version_id (emb_chunk r) = vid
      \<and> length (emb_vector r) = embedding_dimension PIPELINE \<and> list_all isfinite (emb_vector r)"
    by (simp add: unit_vector_def)
qed

section \<open>Batches\<close>

text \<open>The record of one chunk by a model \<open>f\<close> that treats each text by itself.\<close>

definition embed_chunk :: "(pystr \<Rightarrow> pyfloat list result) \<Rightarrow> chunk \<Rightarrow> embedded_chunk result" where
  "embed_chunk f c = rbind (f (strip (chk_embedding_text c))) (\<lambda>raw.
     rbind (normalize_embedding raw) (EmbeddedChunk c))"

lemma embed_chunk_stages:
  "(\<exists>raw vs. traverse f (map (\<lambda>c. strip (chk_embedding_text c)) cs) = Inr raw
      \<and> traverse normalize_embedding raw = Inr vs \<and> traverse (\<lambda>(c, v). EmbeddedChunk c v) (zip cs vs) = Inr rs)
    \<longleftrightarrow> traverse (embed_chunk f) cs = Inr rs" (is "?stages cs rs \<longleftrightarrow> _")
proof (induction cs arbitrary: rs)
  case (Cons c cs)
  show ?case
  proof
    assume "?stages (c # cs) rs"
    then have "\<exists>r rest. embed_chunk f c = Inr r \<and> ?stages cs rest \<and> rs = r # rest"
      by (fastforce simp: result_simps embed_chunk_def)
    then obtain r rest where "embed_chunk f c = Inr r" "?stages cs rest" "rs = r # rest" by blast
    then show "traverse (embed_chunk f) (c # cs) = Inr rs" unfolding Cons.IH by simp
  next
    assume "traverse (embed_chunk f) (c # cs) = Inr rs"
    then obtain r rest where r: "embed_chunk f c = Inr r" "traverse (embed_chunk f) cs = Inr rest" "rs = r # rest"
      by (auto simp: result_simps)
    from r(1) obtain a v where a: "f (strip (chk_embedding_text c)) = Inr a" "normalize_embedding a = Inr v"
        "EmbeddedChunk c v = Inr r" by (auto simp: embed_chunk_def rbind_Inr_iff)
    from r(2) Cons.IH [of rest] obtain raw vs where "traverse f (map (\<lambda>c. strip (chk_embedding_text c)) cs) = Inr raw"
        "traverse normalize_embedding raw = Inr vs" "traverse (\<lambda>(c, v). EmbeddedChunk c v) (zip cs vs) = Inr rest" by blast
    with a r(3) show "?stages (c # cs) rs"
      by (intro exI [of _ "a # raw"] exI [of _ "v # vs"]) simp
  qed
qed auto

lemma embed_batch:
  assumes "\<forall>c \<in> set cs. e1_prepare E False (chk_embedding_text c) = Inr (strip (chk_embedding_text c))"
    and "\<And>ts. e1_model E ts = traverse f ts"
  shows "(\<exists>vs new. embed_documents E (map chk_embedding_text cs) = Inr vs \<and> length vs = length cs
      \<and> traverse (\<lambda>(c, v). EmbeddedChunk c v) (zip cs vs) = Inr new \<and> rs = acc @ new)
    \<longleftrightarrow> (\<exists>new. traverse (embed_chunk f) cs = Inr new \<and> rs = acc @ new)"
proof -
  have prepared: "traverse (e1_prepare E False) (map chk_embedding_text cs) = Inr (map (\<lambda>c. strip (chk_embedding_text c)) cs)"
    using assms(1) by (simp add: traverse_Inr_iff list_all2_conv_all_nth)
  have "embed_documents E (map chk_embedding_text cs) = Inr vs \<and> length vs = length cs \<longleftrightarrow>
      (\<exists>raw. traverse f (map (\<lambda>c. strip (chk_embedding_text c)) cs) = Inr raw \<and> traverse normalize_embedding raw = Inr vs)" for vs
    using traverse_length [of f "map (\<lambda>c. strip (chk_embedding_text c)) cs"] traverse_length [of normalize_embedding]
    by (cases "cs = []") (auto simp: e1_embed_def prepared assms(2) result_simps)
  then show ?thesis unfolding embed_chunk_stages [symmetric] by blast
qed

lemma traverse_append:
  "traverse f (xs @ ys) = Inr zs \<longleftrightarrow> (\<exists>us vs. traverse f xs = Inr us \<and> traverse f ys = Inr vs \<and> zs = us @ vs)"
  by (induction xs arbitrary: zs) (auto simp: result_simps)

lemma index_batches_per_chunk:
  assumes "\<forall>c \<in> set (concat bs). e1_prepare E False (chk_embedding_text c) = Inr (strip (chk_embedding_text c))"
    and "\<And>ts. e1_model E ts = traverse f ts" "ix_embed X = embed_documents E"
  shows "rfold (index_batch X) acc bs = Inr rs \<longleftrightarrow>
    (\<exists>new. traverse (embed_chunk f) (concat bs) = Inr new \<and> rs = acc @ new)"
  using assms(1)
proof (induction bs arbitrary: acc)
  case (Cons b bs)
  have b: "\<forall>c \<in> set b. e1_prepare E False (chk_embedding_text c) = Inr (strip (chk_embedding_text c))"
    using Cons.prems by simp
  have "index_batch X acc b = Inr t \<longleftrightarrow> (\<exists>new. traverse (embed_chunk f) b = Inr new \<and> t = acc @ new)" for t
    unfolding index_batch_Inr assms(3) by (rule embed_batch [OF b assms(2)])
  moreover have "rfold (index_batch X) t bs = Inr rs \<longleftrightarrow>
      (\<exists>new. traverse (embed_chunk f) (concat bs) = Inr new \<and> rs = t @ new)" for t
    using Cons.IH Cons.prems by simp
  ultimately have "rfold (index_batch X) acc (b # bs) = Inr rs \<longleftrightarrow>
      (\<exists>t. (\<exists>new. traverse (embed_chunk f) b = Inr new \<and> t = acc @ new)
         \<and> (\<exists>new. traverse (embed_chunk f) (concat bs) = Inr new \<and> rs = t @ new))"
    by (simp only: rfold.simps rbind_Inr_iff)
  also have "\<dots> \<longleftrightarrow> (\<exists>new. traverse (embed_chunk f) (concat (b # bs)) = Inr new \<and> rs = acc @ new)"
    unfolding concat.simps traverse_append by auto
  finally show ?case .
qed auto

lemma index_content_per_chunk:
  assumes "\<And>ts. e1_model E ts = traverse f ts" "0 < n"
  shows "index_content U (get_rag_indexer P E n) content did vid title media = Inr rs \<longleftrightarrow>
    rbind (parse U P content did vid title media) (\<lambda>d.
      rbind (chunk_document U (e1_budget (e1_encode E)) d) (traverse (embed_chunk f))) = Inr rs"
proof -
  have "index_chunks (get_rag_indexer P E n) cs = Inr rs \<longleftrightarrow> traverse (embed_chunk f) cs = Inr rs"
    if "parse U P content did vid title media = Inr d" "chunk_document U (e1_budget (e1_encode E)) d = Inr cs" for d cs
  proof -
    have "document_ok d"
      using parse_result [where U = U and P = P and content = content and did = did and vid = vid
          and title = title and media = media] that(1) by simp
    from e1_prepare_chunk [OF this that(2)]
    have "\<forall>c \<in> set (concat (batches (nat n) cs)). e1_prepare E False (chk_embedding_text c) = Inr (strip (chk_embedding_text c))"
      using assms(2) by (simp only: concat_batches zero_less_nat_eq) blast
    from index_batches_per_chunk [OF this assms(1), of "get_rag_indexer P E n" "[]" rs] show ?thesis
      using assms(2) by (simp add: index_chunks_def get_rag_indexer_def concat_batches)
  qed
  then show ?thesis
    unfolding index_content_def get_rag_indexer_def rbind_Inr_iff rag_indexer.simps by blast
qed

section \<open>Properties\<close>

text \<open>C33: indexing is exact. When a version is indexed, its records are the chunks of the parsed
  document, all of them and in order, at least one, each with the identifiers of the version and a
  finite vector of the pipeline's dimension and length one.\<close>

theorem indexing_exact:
  assumes "index_content U (get_rag_indexer P E n) content did vid title media = Inr rs" "0 < n"
  shows "\<exists>d. parse U P content did vid title media = Inr d
    \<and> chunk_document U (e1_budget (e1_encode E)) d = Inr (map emb_chunk rs) \<and> rs \<noteq> []
    \<and> (\<forall>r \<in> set rs. unit_vector (emb_vector r) \<and> chk_document_id (emb_chunk r) = did
         \<and> chk_version_id (emb_chunk r) = vid)"
proof -
  from index_content_kept [OF assms(1)] assms(2) obtain d where d: "parse U P content did vid title media = Inr d"
      "chunk_document U (e1_budget (e1_encode E)) d = Inr (map emb_chunk rs)"
      "\<forall>r \<in> set rs. unit_vector (emb_vector r)"
    by auto
  moreover from d(2) have "rs \<noteq> []" by (auto simp: chunk_document_def result_simps split: if_splits)
  ultimately show ?thesis using e1_indexer.index_law [OF assms(1)] by blast
qed

text \<open>The batch size is a matter of speed only. For a model that treats each text by itself, the
  indexer returns the same records whatever the batch size, and they are those of the reference
  definition that embeds one chunk at a time.\<close>

theorem batch_size_irrelevant:
  assumes "\<And>ts. e1_model E ts = traverse f ts" "0 < m" "0 < n"
  shows "(index_content U (get_rag_indexer P E m) content did vid title media = Inr rs \<longleftrightarrow>
      index_content U (get_rag_indexer P E n) content did vid title media = Inr rs)
    \<and> (index_content U (get_rag_indexer P E n) content did vid title media = Inr rs \<longleftrightarrow>
      rbind (parse U P content did vid title media) (\<lambda>d.
        rbind (chunk_document U (e1_budget (e1_encode E)) d) (traverse (embed_chunk f))) = Inr rs)"
  unfolding index_content_per_chunk [OF assms(1,2)] index_content_per_chunk [OF assms(1,3)] by (intro conjI refl)

section \<open>Witnesses\<close>

definition sample_note :: pybytes where
  "sample_note = utf8_encode (lit ''Ask within 5 days.'')"

definition note_document :: canonical_document where
  "note_document = \<lparr>doc_id = 4, doc_version_id = 5, doc_title = lit ''Help'', doc_media_type = lit ''text/plain'',
     doc_blocks = [\<lparr>blk_id = lit ''b000000'', blk_order = 0, blk_kind = PARAGRAPH, blk_text = lit ''Ask within 5 days.'',
       blk_heading_path = [], blk_page_number = None\<rparr>]\<rparr>"

lemma sample_note_parsed:
  "parse ascii_only sample_parser sample_note 4 5 (lit ''Help'') (lit ''text/plain'') = Inr note_document"
  by code_simp

lemma traverse_const: "traverse (\<lambda>_. Inr v) ts = Inr (map (\<lambda>_. v) ts)"
  by (induction ts) simp_all

lemma flat_model: "e1_model flat_embedder ts = traverse (\<lambda>_. Inr (replicate 384 (Finite 1))) ts"
  by (simp add: flat_embedder_def traverse_const)

lemma sample_note_indexed:
  "\<exists>rs. index_content ascii_only (get_rag_indexer sample_parser flat_embedder 32) sample_note 4 5 (lit ''Help'')
    (lit ''text/plain'') = Inr rs"
proof -
  have ok: "document_ok note_document" by code_simp
  have "\<exists>cs. chunk_document ascii_only (e1_budget visible) note_document = Inr cs"
    unfolding e1_budget_def
  proof (rule e1.chunking_returns [OF ok])
    show "hd (doc_blocks note_document) \<in> set (doc_blocks note_document)" by (simp add: note_document_def)
    show "short_block ascii_only (hd (doc_blocks note_document))" by code_simp
  next
    fix f assume f: "frag_ok ascii_only (set (doc_blocks note_document)) f"
    have "length (visible (budget_text ascii_only note_document [f])) \<le> 512"
    proof (rule short_single_fits [OF f])
      show "\<forall>b \<in> set (doc_blocks note_document). length (blk_text b) \<le> 20 \<and> blk_heading_path b = []" by code_simp
    qed code_simp
    then show "e1_fits visible (budget_text ascii_only note_document [f])" by (simp add: e1_fits_def)
  qed (simp add: e1_fits_def)
  then obtain cs where cs: "chunk_document ascii_only (e1_budget visible) note_document = Inr cs" ..
  have "norm_of (replicate 384 (Finite 1)) \<noteq> 0" by (simp add: norm_of_def sum_list_replicate)
  then obtain w where "normalize_embedding (replicate 384 (Finite 1)) = Inr w"
    by (auto simp: normalize_embedding_def list_all_iff isfinite_def)
  then have "embed_chunk (\<lambda>_. Inr (replicate 384 (Finite 1))) c = Inr \<lparr>emb_chunk = c, emb_vector = w\<rparr>" for c
    using normalize_embedding_Inr(1) [of _ w] by (auto simp: embed_chunk_def EmbeddedChunk_def)
  then obtain rs where "traverse (embed_chunk (\<lambda>_. Inr (replicate 384 (Finite 1)))) cs = Inr rs"
    using traverse_total [of cs "embed_chunk (\<lambda>_. Inr (replicate 384 (Finite 1)))"] by auto
  then show ?thesis
    using index_content_per_chunk [OF flat_model, of 32] sample_note_parsed cs by (simp add: flat_embedder_def)
qed

theorem indexing_exact_witness:
  "\<exists>rs. index_content ascii_only (get_rag_indexer sample_parser flat_embedder 32) sample_note 4 5 (lit ''Help'')
      (lit ''text/plain'') = Inr rs
    \<and> chunk_document ascii_only (e1_budget visible) note_document = Inr (map emb_chunk rs) \<and> rs \<noteq> []"
proof -
  from sample_note_indexed obtain rs where rs: "index_content ascii_only (get_rag_indexer sample_parser flat_embedder 32)
      sample_note 4 5 (lit ''Help'') (lit ''text/plain'') = Inr rs" by blast
  from indexing_exact [OF this] rs sample_note_parsed show ?thesis by (simp add: flat_embedder_def)
qed

theorem batch_size_irrelevant_witness:
  "\<forall>rs. index_content ascii_only (get_rag_indexer sample_parser flat_embedder 32) sample_note 4 5 (lit ''Help'')
      (lit ''text/plain'') = Inr rs \<longleftrightarrow>
    index_content ascii_only (get_rag_indexer sample_parser flat_embedder 1) sample_note 4 5 (lit ''Help'')
      (lit ''text/plain'') = Inr rs"
  by (intro allI batch_size_irrelevant [OF flat_model, THEN conjunct1]) simp_all

end
