(* ===== verification/Documents.thy ===== *)
theory Documents
  imports Uploads Workspaces Job_Queue Indexing
begin

text \<open>
  \<open>apps/api/routes/documents.py\<close> and \<open>apps/api/routes/retrieval.py\<close>: the document routes and the search
  route, with the role each asks for. The lemmas say that a search answers a member of the workspace
  from the active versions of its live documents only, and that a deleted document is out of reach of
  every later request.
\<close>

section \<open>Responses\<close>

text \<open>The columns that the model of the tables leaves out are left out here too.\<close>

record version_response =
  vr_id :: uuid
  vr_document_id :: uuid
  vr_version_number :: int
  vr_original_filename :: pystr
  vr_media_type :: pystr
  vr_byte_size :: int
  vr_sha256 :: pystr
  vr_status :: version_status
  vr_created_by :: uuid

definition version_response_of :: "document_version \<Rightarrow> version_response" where
  "version_response_of v =
     \<lparr>vr_id = ver_id v, vr_document_id = ver_document_id v, vr_version_number = ver_version_number v,
      vr_original_filename = ver_original_filename v, vr_media_type = ver_media_type v, vr_byte_size = ver_byte_size v,
      vr_sha256 = ver_sha256 v, vr_status = ver_status v, vr_created_by = ver_created_by v\<rparr>"

record job_response =
  jr_id :: uuid
  jr_job_type :: job_type
  jr_state :: job_state
  jr_attempt_count :: int
  jr_max_attempts :: int
  jr_available_at :: timestamp
  jr_lease_expires_at :: "timestamp option"
  jr_error_code :: "pystr option"
  jr_error_message :: "pystr option"
  jr_created_at :: timestamp

definition job_response_of :: "job \<Rightarrow> job_response" where
  "job_response_of j =
     \<lparr>jr_id = job_id j, jr_job_type = job_job_type j, jr_state = job_state j, jr_attempt_count = job_attempt_count j,
      jr_max_attempts = job_max_attempts j, jr_available_at = job_available_at j,
      jr_lease_expires_at = job_lease_expires_at j, jr_error_code = job_error_code j,
      jr_error_message = job_error_message j, jr_created_at = job_created_at j\<rparr>"

record document_response =
  dr_id :: uuid
  dr_workspace_id :: uuid
  dr_display_name :: pystr
  dr_active_version_id :: "uuid option"
  dr_created_by :: uuid
  dr_deleted_at :: "timestamp option"
  dr_created_at :: timestamp
  dr_latest_version :: "version_response option"

text \<open>The versions of a document, the highest number first.\<close>

definition versions_of :: "uuid \<Rightarrow> tenant \<Rightarrow> db \<Rightarrow> document_version list" where
  "versions_of i t d = sort_key (\<lambda>v. - ver_version_number v) (filter (\<lambda>v. ver_document_id v = i) (select_versions t d))"

definition document_response_of :: "document \<Rightarrow> document_response action" where
  "document_response_of x =
     abind (query (versions_of (dcm_id x))) (\<lambda>vs.
     pure_action \<lparr>dr_id = dcm_id x, dr_workspace_id = dcm_workspace_id x, dr_display_name = dcm_display_name x,
       dr_active_version_id = dcm_active_version_id x, dr_created_by = dcm_created_by x, dr_deleted_at = dcm_deleted_at x,
       dr_created_at = dcm_created_at x,
       dr_latest_version = (case vs of [] \<Rightarrow> None | v # _ \<Rightarrow> Some (version_response_of v))\<rparr>)"

record upload_response =
  ur_document :: document_response
  ur_version :: version_response
  ur_job :: job_response

definition upload_response_of :: "upload_result \<Rightarrow> upload_response action" where
  "upload_response_of r =
     abind (document_response_of (up_document r)) (\<lambda>x.
     pure_action \<lparr>ur_document = x, ur_version = version_response_of (up_version r), ur_job = job_response_of (up_job r)\<rparr>)"

section \<open>The routes that read\<close>

text \<open>The action on each element in turn.\<close>

primrec for_each :: "('a \<Rightarrow> 'b action) \<Rightarrow> 'a list \<Rightarrow> 'b list action" where
  "for_each f [] = pure_action []"
| "for_each f (x # xs) = abind (f x) (\<lambda>y. abind (for_each f xs) (\<lambda>ys. pure_action (y # ys)))"

definition live_document :: "uuid \<Rightarrow> uuid \<Rightarrow> tenant \<Rightarrow> db \<Rightarrow> document option" where
  "live_document workspace_id i t d = find (\<lambda>x. dcm_id x = i \<and> dcm_workspace_id x = workspace_id \<and> dcm_deleted_at x = None)
     (select_documents t d)"

definition list_documents :: "uuid \<Rightarrow> workspace_access \<Rightarrow> document_response list action" where
  "list_documents workspace_id access =
     abind (query (\<lambda>t d. sort_key (\<lambda>x. - dcm_created_at x)
        (filter (\<lambda>x. dcm_workspace_id x = workspace_id \<and> dcm_deleted_at x = None) (select_documents t d))))
       (for_each document_response_of)"

record document_detail =
  dd_document :: document_response
  dd_versions :: "version_response list"
  dd_jobs :: "job_response list"

definition get_document :: "uuid \<Rightarrow> uuid \<Rightarrow> workspace_access \<Rightarrow> document_detail action" where
  "get_document workspace_id document_id access =
     abind (query (live_document workspace_id document_id)) (\<lambda>found.
       case found of None \<Rightarrow> raise_action (Domain NotFoundError (lit ''document not found''))
       | Some x \<Rightarrow>
           abind (query (versions_of (dcm_id x))) (\<lambda>vs.
           abind (query (\<lambda>t d. filter (\<lambda>j. map_of (job_payload j) (lit ''document_id'') = Some (uuid_str (dcm_id x)))
             (sort_key (\<lambda>j. - job_created_at j) (filter (\<lambda>j. job_workspace_id j = workspace_id) (select_jobs t d))))) (\<lambda>js.
           abind (document_response_of x) (\<lambda>base.
           pure_action \<lparr>dd_document = base, dd_versions = map version_response_of vs, dd_jobs = map job_response_of js\<rparr>))))"

section \<open>The routes that write\<close>

definition update_document_route :: "uuid \<Rightarrow> uuid \<Rightarrow> pystr \<Rightarrow> workspace_access \<Rightarrow> document_response action" where
  "update_document_route workspace_id document_id display_name access =
     abind (query (live_document workspace_id document_id)) (\<lambda>found.
       case found of None \<Rightarrow> raise_action (Domain NotFoundError (lit ''document not found''))
       | Some x \<Rightarrow>
           abind (statement (\<lambda>t. update_document t (dcm_id x) (\<lambda>y. y\<lparr>dcm_display_name := display_name\<rparr>))) (\<lambda>_.
           document_response_of (x\<lparr>dcm_display_name := display_name\<rparr>)))"

definition delete_object_job :: "uuid \<Rightarrow> uuid \<Rightarrow> timestamp \<Rightarrow> uuid \<Rightarrow> job" where
  "delete_object_job i workspace_id now document_id =
     \<lparr>job_id = i, job_workspace_id = workspace_id, job_job_type = DELETE_OBJECT,
      job_payload = [(lit ''document_id'', uuid_str document_id)], job_state = QUEUED,
      job_idempotency_key = lit ''delete:'' @ uuid_str document_id, job_available_at = now, job_lease_owner = None,
      job_lease_expires_at = None, job_attempt_count = 0, job_max_attempts = 5, job_error_code = None,
      job_error_message = None, job_created_at = now\<rparr>"

definition deleted_row :: "timestamp \<Rightarrow> document \<Rightarrow> document" where
  "deleted_row now x = x\<lparr>dcm_deleted_at := Some now, dcm_active_version_id := None\<rparr>"

definition delete_document :: "timestamp \<Rightarrow> uuid \<Rightarrow> uuid \<Rightarrow> uuid \<Rightarrow> workspace_access \<Rightarrow> unit action" where
  "delete_document now new_job_id workspace_id document_id access =
     abind (query (live_document workspace_id document_id)) (\<lambda>found.
       case found of None \<Rightarrow> raise_action (Domain NotFoundError (lit ''document not found''))
       | Some x \<Rightarrow>
           abind (statement (\<lambda>t. update_document t (dcm_id x) (deleted_row now))) (\<lambda>_.
           statement (\<lambda>t. insert_job t (delete_object_job new_job_id workspace_id now (dcm_id x)))))"

text \<open>A function of the queue as an action of the request's transaction.\<close>

definition job_action :: "(tenant \<Rightarrow> db \<Rightarrow> (job \<times> db) result) \<Rightarrow> job action" where
  "job_action f t = (case f (tx_tenant t) (tx_db t) of Inl e \<Rightarrow> (Inl e, t) | Inr (j, d) \<Rightarrow> (Inr j, t\<lparr>tx_db := d\<rparr>))"

definition retry_document_job :: "timestamp \<Rightarrow> uuid \<Rightarrow> uuid \<Rightarrow> workspace_access \<Rightarrow> job_response action" where
  "retry_document_job now workspace_id i access =
     abind (job_action (retry_job now i workspace_id)) (\<lambda>j. pure_action (job_response_of j))"

section \<open>The routes that upload\<close>

text \<open>A request whose route also works on the object store.\<close>

definition file_request :: "unicode \<Rightarrow> jwt_library \<Rightarrow> settings \<Rightarrow> caller \<Rightarrow> workspace_role list \<Rightarrow> uuid
    \<Rightarrow> (workspace_access \<Rightarrow> transaction \<Rightarrow> file_system \<Rightarrow> 'a result \<times> transaction \<times> file_system)
    \<Rightarrow> db \<Rightarrow> file_system \<Rightarrow> 'a result \<times> db \<times> file_system" where
  "file_request U J S c roles workspace_id route d fs =
     (case abind (get_current_principal U J S (cal_now c) (cal_credentials c))
             (\<lambda>u. require_workspace_roles roles u workspace_id) (begin_on d) of
        (Inl e, t) \<Rightarrow> (Inl e, tx_saved (rollback t), fs)
      | (Inr access, t) \<Rightarrow>
          (case route access t fs of
             (Inl e, t1, fs1) \<Rightarrow> (Inl e, tx_saved (rollback t1), fs1)
           | (Inr a, t1, fs1) \<Rightarrow> (Inr a, tx_saved (commit t1), fs1)))"

definition upload_route :: "unicode \<Rightarrow> settings \<Rightarrow> scanner \<Rightarrow> local_store \<Rightarrow> uuid \<Rightarrow> uuid option \<Rightarrow> upload_request
    \<Rightarrow> upload_draws \<Rightarrow> workspace_access \<Rightarrow> transaction \<Rightarrow> file_system \<Rightarrow> upload_response result \<times> transaction \<times> file_system" where
  "upload_route U S scan ls workspace_id document_id q n access t fs =
     (case upload_document_version U S scan ls workspace_id (usr_id (ac_user access)) document_id q n t fs of
        (Inl e, t1, fs1) \<Rightarrow> (Inl e, t1, fs1)
      | (Inr r, t1, fs1) \<Rightarrow> (case upload_response_of r t1 of (x, t2) \<Rightarrow> (x, t2, fs1)))"

definition create_document :: "unicode \<Rightarrow> jwt_library \<Rightarrow> settings \<Rightarrow> scanner \<Rightarrow> local_store \<Rightarrow> caller \<Rightarrow> uuid
    \<Rightarrow> upload_request \<Rightarrow> upload_draws \<Rightarrow> db \<Rightarrow> file_system \<Rightarrow> upload_response result \<times> db \<times> file_system" where
  "create_document U J S scan ls c workspace_id q n =
     file_request U J S c contributor_roles workspace_id (upload_route U S scan ls workspace_id None q n)"

definition create_document_version :: "unicode \<Rightarrow> jwt_library \<Rightarrow> settings \<Rightarrow> scanner \<Rightarrow> local_store \<Rightarrow> caller \<Rightarrow> uuid
    \<Rightarrow> uuid \<Rightarrow> upload_request \<Rightarrow> upload_draws \<Rightarrow> db \<Rightarrow> file_system \<Rightarrow> upload_response result \<times> db \<times> file_system" where
  "create_document_version U J S scan ls c workspace_id document_id q n =
     file_request U J S c contributor_roles workspace_id
       (upload_route U S scan ls workspace_id (Some document_id) (q\<lparr>uq_display_name := None\<rparr>) n)"

section \<open>The search route\<close>

record evidence_result =
  er_rank :: nat
  er_document_id :: uuid
  er_version_id :: uuid
  er_text :: pystr
  er_heading_path :: "pystr list"
  er_page_number :: "int option"
  er_locators :: "source_locator list"
  er_fused_score :: real
  er_dense_rank :: "nat option"
  er_lexical_rank :: "nat option"

definition evidence_results :: "search_result list \<Rightarrow> evidence_result list" where
  "evidence_results rs = map (\<lambda>(rank, r).
     \<lparr>er_rank = rank, er_document_id = chk_document_id (res_chunk r), er_version_id = chk_version_id (res_chunk r),
      er_text = chk_text (res_chunk r), er_heading_path = chk_heading_path (res_chunk r),
      er_page_number = chk_page_number (res_chunk r), er_locators = chk_locators (res_chunk r),
      er_fused_score = res_fused_score r, er_dense_rank = res_dense_rank r, er_lexical_rank = res_lexical_rank r\<rparr>)
     (enum_from 1 rs)"

definition retrieval_error :: "exn \<Rightarrow> exn" where
  "retrieval_error e = (if is_value_error e then Domain InvalidQueryError (message_of e)
     else if is_runtime_error e then Domain RetrievalUnavailableError (lit ''retrieval is temporarily unavailable'')
     else e)"

definition search_evidence :: "unicode \<Rightarrow> (pyfloat list \<Rightarrow> pyfloat list \<Rightarrow> real) \<Rightarrow> e1_embedder \<Rightarrow> settings \<Rightarrow> uuid
    \<Rightarrow> pystr \<Rightarrow> int \<Rightarrow> workspace_access \<Rightarrow> (pystr \<times> evidence_result list) action" where
  "search_evidence U gap E S workspace_id search_text result_count access =
     abind (guard (int (length search_text) \<le> st_max_query_characters S)
       (Domain InvalidQueryError (lit ''retrieval query is too long''))) (\<lambda>_.
     abind (\<lambda>t. (case retrieve U gap E (tx_tenant t) workspace_id search_text result_count (tx_db t) of
         Inl e \<Rightarrow> (Inl (retrieval_error e), t) | Inr rs \<Rightarrow> (Inr rs, t))) (\<lambda>results.
     pure_action (pipeline_version PIPELINE, evidence_results results)))"

text \<open>
  \<open>get_rag_service\<close>, the last dependency of the route, resolved after the gate: \<open>loaded\<close> is the embedding model, or the
  exception of loading it.
\<close>

definition get_rag_service :: "e1_embedder result \<Rightarrow> e1_embedder action" where
  "get_rag_service loaded =
     of_result (case loaded of Inr E \<Rightarrow> Inr E
       | Inl e \<Rightarrow> if is_runtime_error e then raise_domain RetrievalUnavailableError ''the retrieval model is unavailable''
           else Inl e)"

definition search_request :: "unicode \<Rightarrow> jwt_library \<Rightarrow> settings \<Rightarrow> (pyfloat list \<Rightarrow> pyfloat list \<Rightarrow> real) \<Rightarrow> e1_embedder result
    \<Rightarrow> caller \<Rightarrow> uuid \<Rightarrow> pystr \<Rightarrow> int \<Rightarrow> db \<Rightarrow> (pystr \<times> evidence_result list) result \<times> db" where
  "search_request U J S gap loaded c workspace_id search_text result_count =
     workspace_request U J S c any_role workspace_id (\<lambda>access.
       abind (get_rag_service loaded) (\<lambda>E. search_evidence U gap E S workspace_id search_text result_count access))"

lemma search_request_loaded:
  "search_request U J S gap (Inr E) c w s n = workspace_request U J S c any_role w (search_evidence U gap E S w s n)"
proof -
  have "abind (of_result (Inr E)) f = f E" for f :: "e1_embedder \<Rightarrow> (pystr \<times> evidence_result list) action"
    by (simp add: fun_eq_iff abind_def of_result_def)
  then show ?thesis by (simp add: search_request_def get_rag_service_def)
qed

section \<open>Search through the route\<close>

lemma outcome_Inr: "outcome x = (Inr a, d') \<longleftrightarrow> (\<exists>t. x = (Inr a, t) \<and> d' = tx_db t)"
  by (cases x) (auto simp: outcome_def)

lemma search_evidence_Inr:
  assumes "search_evidence U gap E S w search_text n access t = (Inr (pv, es), t')"
  obtains v rs where "t' = t" "search U gap (tx_tenant t) w search_text v n (tx_db t) = Inr rs" "es = evidence_results rs"
    "pv = pipeline_version PIPELINE"
  using assms
  by (auto simp: search_evidence_def action_simps retrieve_def rbind_Inr_iff split: sum.splits if_splits)

lemma search_bounded:
  assumes "search U gap t w search_text v n d = Inr rs"
  shows "1 \<le> n" "length rs \<le> nat n"
  using assms by (auto simp: search_def Let_def fuse_rankings_eq result_simps split: if_splits)

lemma stored_chunk_ids:
  "stored_chunk U c = Inr k \<Longrightarrow> chk_document_id k = row_document_id c \<and> chk_version_id k = row_version_id c"
  by (auto simp: stored_chunk_def result_simps)

lemma search_live:
  assumes "search U gap t w search_text v n d = Inr rs" "r \<in> set rs"
  shows "\<exists>x \<in> set (db_documents d). dcm_id x = chk_document_id (res_chunk r) \<and> dcm_workspace_id x = w
    \<and> dcm_active_version_id x = Some (chk_version_id (res_chunk r)) \<and> dcm_deleted_at x = None"
proof -
  from search_rows [OF assms] obtain c where c: "c \<in> set (active_rows t w d)" "stored_chunk U c = Inr (res_chunk r)" by blast
  with active_rowsD(4) [OF c(1)] stored_chunk_ids [OF c(2)] show ?thesis by auto
qed

lemma evidence_numbered: "length (evidence_results rs) = length rs" "map er_rank (evidence_results rs) = [1..<Suc (length rs)]"
proof -
  show len: "length (evidence_results rs) = length rs" by (simp add: evidence_results_def)
  show "map er_rank (evidence_results rs) = [1..<Suc (length rs)]"
    by (rule nth_equalityI) (simp_all add: evidence_results_def nth_enumerate_eq del: upt_Suc)
qed

lemma evidence_member:
  assumes "e \<in> set (evidence_results rs)"
  shows "\<exists>r \<in> set rs. er_document_id e = chk_document_id (res_chunk r) \<and> er_version_id e = chk_version_id (res_chunk r)"
proof -
  from assms obtain i r where "(i, r) \<in> set (enum_from 1 rs)" "er_document_id e = chk_document_id (res_chunk r)"
      "er_version_id e = chk_version_id (res_chunk r)"
    by (auto simp: evidence_results_def)
  moreover from this(1) have "r \<in> set rs" by (auto simp: enumerate_eq_zip dest: set_zip_rightD)
  ultimately show ?thesis by blast
qed

text \<open>C7: a search answers members only, from what is live in their workspace. When the search route
  returns, the caller is an authenticated member of the workspace, the database is unchanged, the
  results are numbered from one and no more than asked for, and each is from the active version of a
  document of that workspace that is not deleted.\<close>

theorem search_answers_members:
  assumes "workspace_request U J S c any_role w (search_evidence U gap E S w search_text n) d = (Inr (pv, es), d')"
  shows "d' = d \<and> (\<exists>u m. authenticated U J S c d u \<and> m \<in> set (db_memberships d) \<and> mem_workspace_id m = w \<and> mem_user_id m = usr_id u)
    \<and> length es \<le> nat n \<and> map er_rank es = [1..<Suc (length es)]
    \<and> (\<forall>e \<in> set es. \<exists>x \<in> set (db_documents d). dcm_id x = er_document_id e \<and> dcm_workspace_id x = w
         \<and> dcm_active_version_id x = Some (er_version_id e) \<and> dcm_deleted_at x = None)"
proof (cases rule: request_cases [of U J S c any_role w "search_evidence U gap E S w search_text n" d])
  case (admitted u m)
  from assms obtain t' where run: "search_evidence U gap E S w search_text n \<lparr>ac_user = u, ac_membership = m\<rparr>
      (tenant_on d (usr_id u) w) = (Inr (pv, es), t')" "d' = tx_db t'"
    unfolding admitted(4) outcome_Inr by blast
  from search_evidence_Inr [OF run(1)] obtain v rs where rs: "t' = tenant_on d (usr_id u) w"
      "search U gap (tx_tenant (tenant_on d (usr_id u) w)) w search_text v n d = Inr rs" "es = evidence_results rs"
    by (metis tenant_on_simps(1))
  have "\<exists>x \<in> set (db_documents d). dcm_id x = er_document_id e \<and> dcm_workspace_id x = w
      \<and> dcm_active_version_id x = Some (er_version_id e) \<and> dcm_deleted_at x = None" if "e \<in> set es" for e
    using evidence_member [OF that [unfolded rs(3)]] search_live [OF rs(2)] by metis
  then show ?thesis
    using admitted(1) member_ofD [OF admitted(2)] search_bounded(2) [OF rs(2)] evidence_numbered [of rs] run(2) rs(1)
    by (auto simp: rs(3))
qed (use assms in simp)

section \<open>Deletion\<close>

lemma live_documentD:
  "live_document w i t d = Some x \<Longrightarrow> x \<in> set (db_documents d) \<and> in_workspace t (dcm_workspace_id x)
    \<and> dcm_id x = i \<and> dcm_workspace_id x = w \<and> dcm_deleted_at x = None"
  by (auto simp: live_document_def select_documents_def dest!: find_SomeD)

lemma update_document_Inr:
  assumes "update_document t i f d = Inr d'"
  shows "d' = d\<lparr>db_documents := update_where (\<lambda>x. in_workspace t (dcm_workspace_id x) \<and> dcm_id x = i) f (db_documents d)\<rparr>"
    "x \<in> set (db_documents d) \<Longrightarrow> in_workspace t (dcm_workspace_id x) \<Longrightarrow> dcm_id x = i \<Longrightarrow>
      dcm_active_version_id (f x) = dcm_active_version_id x \<or> active_version_valid t d (f x)"
  using assms by (auto simp: update_document_def Let_def split: if_splits)

lemma delete_document_Inr:
  assumes "delete_document now i w di access t = (Inr u, t')"
  obtains x where "live_document w di (tx_tenant t) (tx_db t) = Some x"
    "tx_db t' = (tx_db t)\<lparr>db_documents := update_where (\<lambda>y. in_workspace (tx_tenant t) (dcm_workspace_id y) \<and> dcm_id y = di)
        (deleted_row now) (db_documents (tx_db t)), db_jobs := db_jobs (tx_db t) @ [delete_object_job i w now di]\<rparr>"
    "tx_saved t' = tx_saved t"
proof -
  from assms obtain x d1 d2 where x: "live_document w di (tx_tenant t) (tx_db t) = Some x"
      "update_document (tx_tenant t) (dcm_id x) (deleted_row now) (tx_db t) = Inr d1"
      "insert_job (tx_tenant t) (delete_object_job i w now (dcm_id x)) d1 = Inr d2" "t' = t\<lparr>tx_db := d2\<rparr>"
    by (auto simp: delete_document_def action_simps split: option.splits)
  have "dcm_id x = di" using live_documentD [OF x(1)] by simp
  moreover from x(3) have "d2 = d1\<lparr>db_jobs := db_jobs d1 @ [delete_object_job i w now (dcm_id x)]\<rparr>"
    by (auto simp: insert_job_def split: if_splits)
  ultimately show thesis using that x update_document_Inr(1) [OF x(2)] by simp
qed

lemma update_same_id:
  assumes "distinct (map dcm_id rows)" "x \<in> set rows" "P x"
  shows "update_where (\<lambda>y. P y \<and> dcm_id y = dcm_id x) f rows = update_where (\<lambda>y. dcm_id y = dcm_id x) f rows"
proof -
  have "y = x" if "y \<in> set rows" "dcm_id y = dcm_id x" for y
    using assms(1,2) that by (auto simp: distinct_map dest: inj_onD)
  then have "(P y \<and> dcm_id y = dcm_id x) = (dcm_id y = dcm_id x)" if "y \<in> set rows" for y
    using that assms(3) by blast
  then show ?thesis unfolding update_where_def by (intro list.map_cong0) simp
qed

lemma deleted_not_live:
  assumes "y \<in> set (update_where (\<lambda>x. dcm_id x = di) (deleted_row now) rows)" "dcm_id y = di"
  shows "dcm_deleted_at y = Some now \<and> dcm_active_version_id y = None"
proof -
  from assms(1) obtain x where x: "y = (if dcm_id x = di then deleted_row now x else x)"
    unfolding update_where_def set_map by blast
  with assms(2) have "y = deleted_row now x" by (cases "dcm_id x = di") auto
  then show ?thesis by (simp add: deleted_row_def)
qed

text \<open>C14: deleting takes a document out of reach at once. After a successful request to delete it (by an
  owner or administrator) exactly one row changed and one job to remove its data is queued; no request
  of any tenant finds it live any more (so it is neither listed, read, renamed, given a new version
  nor deleted again), and no search of any tenant returns a chunk of it.\<close>

theorem deleted_document_unreachable:
  assumes "workspace_request U J S c manager_roles w (delete_document now i w di) d = (Inr (), d')"
    and "distinct (map dcm_id (db_documents d))"
  shows "(\<exists>u m. authenticated U J S c d u \<and> member_of d (usr_id u) w m \<and> ADMIN \<le> mem_role m)
    \<and> (\<exists>x \<in> set (db_documents d). dcm_id x = di \<and> dcm_workspace_id x = w \<and> dcm_deleted_at x = None)
    \<and> d' = d\<lparr>db_documents := update_where (\<lambda>x. dcm_id x = di) (deleted_row now) (db_documents d),
             db_jobs := db_jobs d @ [delete_object_job i w now di]\<rparr>
    \<and> live_document w' di t d' = None
    \<and> (search U gap t w' search_text v n d' = Inr rs \<longrightarrow> (\<forall>r \<in> set rs. chk_document_id (res_chunk r) \<noteq> di))"
proof (cases rule: request_cases [of U J S c manager_roles w "delete_document now i w di" d])
  case (admitted u m)
  from assms(1) obtain t' where run: "delete_document now i w di \<lparr>ac_user = u, ac_membership = m\<rparr> (tenant_on d (usr_id u) w)
      = (Inr (), t')" "d' = tx_db t'"
    unfolding admitted(4) outcome_Inr by blast
  from delete_document_Inr [OF run(1), unfolded tenant_on_simps] obtain x where x: "live_document w di (tx_tenant (tenant_on d (usr_id u) w)) d = Some x"
      "d' = d\<lparr>db_documents := update_where (\<lambda>y. dcm_workspace_id y = w \<and> dcm_id y = di) (deleted_row now) (db_documents d),
        db_jobs := db_jobs d @ [delete_object_job i w now di]\<rparr>"
    using run(2) by blast
  note live = live_documentD [OF x(1)]
  have d': "d' = d\<lparr>db_documents := update_where (\<lambda>x. dcm_id x = di) (deleted_row now) (db_documents d),
        db_jobs := db_jobs d @ [delete_object_job i w now di]\<rparr>"
    using update_same_id [OF assms(2), of x "\<lambda>y. dcm_workspace_id y = w" "deleted_row now"] live x(2) by simp
  have gone: "dcm_deleted_at y \<noteq> None" if "y \<in> set (db_documents d')" "dcm_id y = di" for y
    using deleted_not_live [of y di now "db_documents d"] that by (simp add: d')
  have "live_document w' di t d' = None"
  proof (cases "live_document w' di t d'")
    case (Some y)
    from live_documentD [OF this] gone [of y] have False by simp
    then show ?thesis ..
  qed
  moreover have "\<forall>r \<in> set rs. chk_document_id (res_chunk r) \<noteq> di" if "search U gap t w' search_text v n d' = Inr rs"
  proof
    fix r assume "r \<in> set rs"
    from search_live [OF that this] gone show "chk_document_id (res_chunk r) \<noteq> di" by blast
  qed
  moreover have "ADMIN \<le> mem_role m" using admitted(3) by (auto simp: manager_roles_def role_order)
  ultimately show ?thesis using admitted(1,2) live d' by blast
qed (use assms in simp)

section \<open>A workspace with an indexed document\<close>

definition help_document :: document where
  "help_document = \<lparr>dcm_id = 4, dcm_workspace_id = 5, dcm_display_name = lit ''Help'', dcm_active_version_id = Some 5,
     dcm_created_by = 1, dcm_deleted_at = None, dcm_created_at = 0\<rparr>"

definition help_db :: db where
  "help_db = staff_db\<lparr>db_documents := [help_document], db_chunks := map (chunk_row 5) sample_records\<rparr>"

lemma authenticated_users: "db_users d = db_users d' \<Longrightarrow> authenticated U J S c d u = authenticated U J S c d' u"
  by (simp add: authenticated_def find_user_def)

lemma help_caller: "authenticated ascii_only sample_jwt default_settings staff_caller help_db staff_owner"
  using staff_authenticated authenticated_users [of help_db staff_db] by (simp add: help_db_def)

lemma help_member: "member_of help_db (usr_id staff_owner) 5 (owner_membership 6 5 1 0)"
  by (simp add: member_of_def help_db_def staff_db_def owner_membership_def staff_owner_def)

lemma flat_query: "\<exists>v. embed_queries flat_embedder [lit ''days''] = Inr [v] \<and> length v = 384"
proof -
  have "\<not> isl (e1_prepare flat_embedder True (lit ''days''))" by code_simp
  then obtain s where s: "e1_prepare flat_embedder True (lit ''days'') = Inr s" by (metis sum.collapse(2))
  have "norm_of (replicate 384 (Finite 1)) \<noteq> 0" by (simp add: norm_of_def sum_list_replicate)
  then obtain w where w: "normalize_embedding (replicate 384 (Finite 1)) = Inr w"
    by (auto simp: normalize_embedding_def list_all_iff isfinite_def)
  then have "embed_queries flat_embedder [lit ''days''] = Inr [w]"
    using s by (simp add: e1_embed_def) (simp add: flat_embedder_def)
  with normalize_embedding_Inr(1) [OF w] show ?thesis by simp
qed

lemma help_search:
  assumes "length v = 384"
  shows "\<exists>rs. search ascii_only (\<lambda>_ _. 0) (tx_tenant (tenant_on help_db 1 5)) 5 (lit ''days'') v 5 help_db = Inr rs"
proof -
  have "stored_chunk ascii_only (chunk_row 5 (hd sample_records)) = Inr (sample_chunk 0)"
    by (rule stored_chunk_row [OF sample_chunk_ok]) (simp add: sample_records_def)
  moreover have "active_rows (tx_tenant (tenant_on help_db 1 5)) 5 help_db = [chunk_row 5 (hd sample_records)]"
    by (simp add: active_rows_def select_chunks_def select_documents_def in_active_scope_def help_db_def
        help_document_def sample_records_def chunk_row_def sample_chunk_def Let_def)
  moreover have "strip (lit ''days'') \<noteq> []" by code_simp
  ultimately show ?thesis using assms by (simp add: search_def Let_def max_lexical_corpus_def)
qed

lemma help_searched:
  "\<exists>es. workspace_request ascii_only sample_jwt default_settings staff_caller any_role 5
      (search_evidence ascii_only (\<lambda>_ _. 0) flat_embedder default_settings 5 (lit ''days'') 5) help_db
    = (Inr (pipeline_version PIPELINE, es), help_db)"
proof -
  obtain v where v: "embed_queries flat_embedder [lit ''days''] = Inr [v]" "length v = 384" using flat_query by blast
  obtain rs where rs: "search ascii_only (\<lambda>_ _. 0) (tx_tenant (tenant_on help_db 1 5)) 5 (lit ''days'') v 5 help_db = Inr rs"
    using help_search [OF v(2)] by blast
  have "retrieve ascii_only (\<lambda>_ _. 0) flat_embedder (tx_tenant (tenant_on help_db 1 5)) 5 (lit ''days'') 5 help_db = Inr rs"
    using v(1) rs by (simp add: retrieve_def)
  moreover have "st_max_query_characters default_settings = 2000" by (simp add: default_settings_def)
  ultimately have "search_evidence ascii_only (\<lambda>_ _. 0) flat_embedder default_settings 5 (lit ''days'') 5 access (tenant_on help_db 1 5)
      = (Inr (pipeline_version PIPELINE, evidence_results rs), tenant_on help_db 1 5)" for access
    by (simp add: search_evidence_def abind_def guard_def pure_action_def)
  moreover have "usr_id staff_owner = 1" by (simp add: staff_owner_def)
  ultimately show ?thesis
    using admitted_request [OF help_caller help_member, of any_role
        "search_evidence ascii_only (\<lambda>_ _. 0) flat_embedder default_settings 5 (lit ''days'') 5"]
    by (simp add: any_role_def)
qed

theorem search_answers_members_witness:
  "\<exists>es. workspace_request ascii_only sample_jwt default_settings staff_caller any_role 5
      (search_evidence ascii_only (\<lambda>_ _. 0) flat_embedder default_settings 5 (lit ''days'') 5) help_db
    = (Inr (pipeline_version PIPELINE, es), help_db) \<and> length es \<le> 5"
proof -
  from help_searched obtain es where es: "workspace_request ascii_only sample_jwt default_settings staff_caller any_role 5
      (search_evidence ascii_only (\<lambda>_ _. 0) flat_embedder default_settings 5 (lit ''days'') 5) help_db
    = (Inr (pipeline_version PIPELINE, es), help_db)" by blast
  with search_answers_members [OF es] show ?thesis by simp
qed

lemma help_deleted:
  "\<exists>d'. workspace_request ascii_only sample_jwt default_settings staff_caller manager_roles 5 (delete_document 9 7 5 4) help_db
    = (Inr (), d')"
proof -
  have id: "usr_id staff_owner = 1" by (simp add: staff_owner_def)
  have "lit ''Help'' \<noteq> []" by (simp add: lit_simps)
  then have "\<exists>t'. delete_document 9 7 5 4 \<lparr>ac_user = staff_owner, ac_membership = owner_membership 6 5 1 0\<rparr> (tenant_on help_db 1 5) = (Inr (), t')"
    by (simp add: delete_document_def abind_def query_def live_document_def select_documents_def)
      (simp add: abind_def help_db_def help_document_def statement_def update_document_def Let_def deleted_row_def
        active_version_valid_def insert_job_def delete_object_job_def staff_db_def owned_workspace_def)
  then show ?thesis
    using admitted_request [OF help_caller help_member, of manager_roles "delete_document 9 7 5 4"]
    by (auto simp: manager_roles_def id owner_membership_def)
qed

theorem deleted_document_unreachable_witness:
  "\<exists>d'. workspace_request ascii_only sample_jwt default_settings staff_caller manager_roles 5 (delete_document 9 7 5 4) help_db
    = (Inr (), d') \<and> live_document 5 4 (tx_tenant (tenant_on d' 1 5)) d' = None"
proof -
  from help_deleted obtain d' where d': "workspace_request ascii_only sample_jwt default_settings staff_caller manager_roles 5
      (delete_document 9 7 5 4) help_db = (Inr (), d')" by blast
  have "distinct (map dcm_id (db_documents help_db))" by (simp add: help_db_def)
  from deleted_document_unreachable [OF d' this] d' show ?thesis by blast
qed

end
