(* ===== verification/Worker.thy ===== *)
theory Worker
  imports Documents
begin

text \<open>
  \<open>apps/worker/main.py\<close>: what a worker does with a claimed job. A job takes several transactions, with
  the object store and the indexer in between; the record \<open>surroundings\<close> gives what the rest of the
  system does before each of them, the clock, and how often the lease timer fires. The lemmas say
  what one successful run of the indexing job commits, and what a failed one leaves.
\<close>

section \<open>Transactions of a worker\<close>

definition SERVICE_USER_ID :: uuid where
  "SERVICE_USER_ID = 0"

text \<open>\<open>async with get_session_factory()() as session, session.begin()\<close> and \<open>set_tenant_context\<close>: one
  transaction, committed at the end of the block and rolled back on an exception.\<close>

definition session_begin :: "uuid \<Rightarrow> 'a action \<Rightarrow> db \<Rightarrow> 'a result \<times> db" where
  "session_begin workspace_id act =
     get_db_session (abind (set_tenant SERVICE_USER_ID (Some workspace_id)) (\<lambda>_. act))"

definition begin_processing :: "unicode \<Rightarrow> timestamp \<Rightarrow> job \<Rightarrow> pystr \<Rightarrow> unit action" where
  "begin_processing U now j worker_id =
     abind (job_action (mark_processing now (job_id j) worker_id)) (\<lambda>owned.
       if job_job_type owned = PROCESS_DOCUMENT then
         abind (of_result (payload_uuid U owned ''document_version_id'')) (\<lambda>vi.
         abind (query (find_version vi)) (\<lambda>found.
           case found of None \<Rightarrow> raise_action (RuntimeError (lit ''document version does not exist''))
           | Some v \<Rightarrow> change (\<lambda>t. set_version_status t (ver_id v) V_PROCESSING)))
       else pure_action ())"

text \<open>What the first transaction of an indexing job reads.\<close>

record work =
  wk_object_key :: pystr
  wk_size :: int
  wk_sha256 :: pystr
  wk_document_id :: uuid
  wk_media_type :: pystr
  wk_title :: pystr

definition load_work :: "uuid \<Rightarrow> work action" where
  "load_work version_id =
     abind (query (find_version version_id)) (\<lambda>found.
       case found of None \<Rightarrow> raise_action (RuntimeError (lit ''document version does not exist''))
       | Some v \<Rightarrow>
           abind (query (find_document (ver_document_id v))) (\<lambda>owner.
             case owner of None \<Rightarrow> raise_action (RuntimeError (lit ''document is missing or deleted''))
             | Some x \<Rightarrow>
                 if dcm_deleted_at x \<noteq> None then raise_action (RuntimeError (lit ''document is missing or deleted''))
                 else pure_action \<lparr>wk_object_key = ver_object_key v, wk_size = ver_byte_size v, wk_sha256 = ver_sha256 v,
                   wk_document_id = ver_document_id v, wk_media_type = ver_media_type v, wk_title = dcm_display_name x\<rparr>))"

section \<open>Reading the object\<close>

fun read_parts :: "int \<Rightarrow> pybytes \<Rightarrow> pybytes list \<Rightarrow> pybytes result" where
  "read_parts limit content [] = Inr content"
| "read_parts limit content (piece # pieces) =
     (if limit < int (length (content @ piece))
      then raise_runtime ''stored object exceeds the configured upload limit''
      else read_parts limit (content @ piece) pieces)"

definition read_object :: "local_store \<Rightarrow> settings \<Rightarrow> work \<Rightarrow> file_system \<Rightarrow> pybytes result" where
  "read_object ls S k fs =
     rbind (store_stat ls (wk_object_key k) fs) (\<lambda>metadata.
     if om_byte_size metadata \<noteq> wk_size k
       then raise_runtime ''stored object size no longer matches document metadata''
     else rbind (store_read ls (wk_object_key k) fs) (\<lambda>parts.
       rbind (read_parts (st_max_upload_bytes S) [] parts) (\<lambda>content.
       if int (length content) \<noteq> wk_size k \<or> sha256_hexdigest content \<noteq> wk_sha256 k
         then raise_runtime ''stored object digest no longer matches document metadata''
       else Inr content)))"

section \<open>Storing the index\<close>

text \<open>The last transaction. The document and the job are written by the flush at the commit, after
  \<open>mark_completed\<close> has read.\<close>

definition activated_row :: "uuid \<Rightarrow> document \<Rightarrow> document" where
  "activated_row version_id x = x\<lparr>dcm_active_version_id := Some version_id\<rparr>"

definition store_index :: "timestamp \<Rightarrow> job \<Rightarrow> pystr \<Rightarrow> uuid \<Rightarrow> embedded_chunk list \<Rightarrow> unit action" where
  "store_index now j worker_id version_id records =
     abind (query (find_version version_id)) (\<lambda>found.
       case found of None \<Rightarrow> raise_action (RuntimeError (lit ''document version does not exist''))
       | Some v \<Rightarrow>
           abind (query (find_document (ver_document_id v))) (\<lambda>owner.
             case owner of None \<Rightarrow> raise_action (RuntimeError (lit ''document is missing or deleted''))
             | Some x \<Rightarrow>
                 abind (guard (dcm_deleted_at x = None) (RuntimeError (lit ''document is missing or deleted''))) (\<lambda>_.
                 abind (statement (\<lambda>t. replace_version t (job_workspace_id j) records)) (\<lambda>_.
                 abind (change (\<lambda>t. set_version_status t (ver_id v) V_ACTIVE)) (\<lambda>_.
                 abind (job_action (mark_completed now (job_id j) worker_id)) (\<lambda>_.
                 statement (\<lambda>t. update_document t (dcm_id x) (activated_row (ver_id v)))))))))"

section \<open>The surroundings of a job\<close>

text \<open>
  \<open>su_others n\<close> is what other requests and workers did to the rows and the files before the \<open>n\<close>-th
  transaction of the job, \<open>su_now n\<close> the clock it reads, \<open>su_renewals\<close> how often the lease timer fires
  while the indexer runs, \<open>su_draw\<close> the random numbers, \<open>su_message\<close> the text \<open>str(exc)\<close>.
\<close>

type_synonym site = "db \<times> file_system"

record surroundings =
  su_others :: "nat \<Rightarrow> site \<Rightarrow> site"
  su_now :: "nat \<Rightarrow> timestamp"
  su_renewals :: nat
  su_draw :: "int \<Rightarrow> int"
  su_message :: "exn \<Rightarrow> pystr"

definition in_session :: "surroundings \<Rightarrow> nat \<Rightarrow> uuid \<Rightarrow> 'a action \<Rightarrow> site \<Rightarrow> 'a result \<times> site" where
  "in_session X n workspace_id act s =
     (case su_others X n s of (d, fs) \<Rightarrow> (case session_begin workspace_id act d of (r, d') \<Rightarrow> (r, (d', fs))))"

text \<open>Running one thing after another with an exception ending the run.\<close>

definition then_do :: "'a result \<times> site \<Rightarrow> ('a \<Rightarrow> site \<Rightarrow> 'b result \<times> site) \<Rightarrow> 'b result \<times> site" where
  "then_do m f = (case m of (Inl e, s) \<Rightarrow> (Inl e, s) | (Inr a, s) \<Rightarrow> f a s)"

text \<open>\<open>renew_document_lease\<close> with \<open>k\<close> firings of the timer, as transactions \<open>n\<close> and on.\<close>

primrec renew_document_lease :: "surroundings \<Rightarrow> settings \<Rightarrow> job \<Rightarrow> pystr \<Rightarrow> nat \<Rightarrow> nat \<Rightarrow> site \<Rightarrow> unit result \<times> site" where
  "renew_document_lease X S j worker_id 0 n s = (Inr (), s)"
| "renew_document_lease X S j worker_id (Suc k) n s =
     then_do (in_session X n (job_workspace_id j)
         (job_action (renew_lease (su_now X n) (st_job_lease_seconds S) (job_id j) worker_id)) s)
       (\<lambda>_. renew_document_lease X S j worker_id k (Suc n))"

type_synonym index_function = "pybytes \<Rightarrow> uuid \<Rightarrow> uuid \<Rightarrow> pystr \<Rightarrow> pystr \<Rightarrow> embedded_chunk list result"

text \<open>
  \<open>finish_document_job\<close>. The exception of the renewal task, awaited in the \<open>finally\<close>, takes the
  place of the indexer's result.
\<close>

definition finish_document_job :: "surroundings \<Rightarrow> unicode \<Rightarrow> settings \<Rightarrow> local_store \<Rightarrow> index_function
    \<Rightarrow> job \<Rightarrow> pystr \<Rightarrow> site \<Rightarrow> unit result \<times> site" where
  "finish_document_job X U S ls index j worker_id s =
     then_do (payload_uuid U j ''document_version_id'', s) (\<lambda>version_id s.
     then_do (in_session X 1 (job_workspace_id j) (load_work version_id) s) (\<lambda>k s.
     then_do (read_object ls S k (snd s), s) (\<lambda>content s.
     then_do (renew_document_lease X S j worker_id (su_renewals X) 2 s) (\<lambda>_ s.
     then_do (index content (wk_document_id k) version_id (wk_title k) (wk_media_type k), s) (\<lambda>records.
     in_session X (2 + su_renewals X) (job_workspace_id j)
       (store_index (su_now X (2 + su_renewals X)) j worker_id version_id records))))))"

section \<open>Deleting\<close>

fun delete_objects :: "local_store \<Rightarrow> pystr list \<Rightarrow> site \<Rightarrow> unit result \<times> site" where
  "delete_objects ls [] s = (Inr (), s)"
| "delete_objects ls (k # ks) (d, fs) =
     (case store_delete ls k fs of (Inl e, fs') \<Rightarrow> (Inl e, (d, fs')) | (Inr _, fs') \<Rightarrow> delete_objects ls ks (d, fs'))"

definition erase_chunks :: "timestamp \<Rightarrow> job \<Rightarrow> pystr \<Rightarrow> uuid \<Rightarrow> unit action" where
  "erase_chunks now j worker_id document_id =
     abind (change (\<lambda>t. delete_document_chunks t (job_workspace_id j) document_id)) (\<lambda>_.
     abind (job_action (mark_completed now (job_id j) worker_id)) (\<lambda>_. pure_action ()))"

definition finish_delete_job :: "surroundings \<Rightarrow> unicode \<Rightarrow> local_store \<Rightarrow> job \<Rightarrow> pystr \<Rightarrow> site \<Rightarrow> unit result \<times> site" where
  "finish_delete_job X U ls j worker_id s =
     then_do (payload_uuid U j ''document_id'', s) (\<lambda>document_id s.
     then_do (in_session X 1 (job_workspace_id j)
       (query (\<lambda>t d. map ver_object_key (filter (\<lambda>v. ver_document_id v = document_id) (select_versions t d)))) s) (\<lambda>keys s.
     then_do (delete_objects ls keys s) (\<lambda>_.
     in_session X 2 (job_workspace_id j) (erase_chunks (su_now X 2) j worker_id document_id))))"

section \<open>Failure\<close>

definition fail_job :: "unicode \<Rightarrow> timestamp \<Rightarrow> (int \<Rightarrow> int) \<Rightarrow> (exn \<Rightarrow> pystr) \<Rightarrow> job \<Rightarrow> pystr \<Rightarrow> exn \<Rightarrow> unit action" where
  "fail_job U now draw message j worker_id e =
     abind (job_action (mark_failed now draw (lit ''processing_failed'')
       (if message e \<noteq> [] then message e else class_name e) True (job_id j) worker_id)) (\<lambda>failed.
       if job_job_type failed = PROCESS_DOCUMENT then
         abind (of_result (payload_uuid U failed ''document_version_id'')) (\<lambda>vi.
         abind (query (find_version vi)) (\<lambda>found.
           case found of None \<Rightarrow> pure_action ()
           | Some v \<Rightarrow> change (\<lambda>t. set_version_status t (ver_id v)
               (if job_state failed = FAILED \<or> job_state failed = DEAD_LETTER then V_FAILED else V_QUEUED))))
       else pure_action ())"

section \<open>process_job and one round of the loop\<close>

text \<open>\<open>indexer\<close> is the indexer, or the exception of loading the model.\<close>

definition attempt_job :: "surroundings \<Rightarrow> unicode \<Rightarrow> settings \<Rightarrow> local_store \<Rightarrow> index_function result
    \<Rightarrow> job \<Rightarrow> pystr \<Rightarrow> site \<Rightarrow> unit result \<times> site" where
  "attempt_job X U S ls indexer j worker_id s =
     then_do (in_session X 0 (job_workspace_id j) (begin_processing U (su_now X 0) j worker_id) s) (\<lambda>_ s.
       case job_job_type j of
         PROCESS_DOCUMENT \<Rightarrow> then_do (indexer, s) (\<lambda>index. finish_document_job X U S ls index j worker_id)
       | DELETE_OBJECT \<Rightarrow> finish_delete_job X U ls j worker_id s)"

text \<open>The exception of recording a failure is only logged.\<close>

definition process_job :: "surroundings \<Rightarrow> unicode \<Rightarrow> settings \<Rightarrow> local_store \<Rightarrow> index_function result
    \<Rightarrow> job \<Rightarrow> pystr \<Rightarrow> site \<Rightarrow> site" where
  "process_job X U S ls indexer j worker_id s =
     (case attempt_job X U S ls indexer j worker_id s of
        (Inr _, s1) \<Rightarrow> s1
      | (Inl e, s1) \<Rightarrow> snd (in_session X (3 + su_renewals X) (job_workspace_id j)
          (fail_job U (su_now X (3 + su_renewals X)) (su_draw X) (su_message X) j worker_id e) s1))"

primrec process_jobs :: "(nat \<Rightarrow> surroundings) \<Rightarrow> unicode \<Rightarrow> settings \<Rightarrow> local_store \<Rightarrow> index_function result
    \<Rightarrow> pystr \<Rightarrow> nat \<Rightarrow> job list \<Rightarrow> site \<Rightarrow> site" where
  "process_jobs Xs U S ls indexer worker_id n [] s = s"
| "process_jobs Xs U S ls indexer worker_id n (j # js) s =
     process_jobs Xs U S ls indexer worker_id (Suc n) js (process_job (Xs n) U S ls indexer j worker_id s)"

text \<open>One round of \<open>run\<close>: claim, process each job, clear stale staging files; then the worker waits
  when there was no job. An exception of the last step ends the worker.\<close>

definition run_once :: "(nat \<Rightarrow> surroundings) \<Rightarrow> unicode \<Rightarrow> settings \<Rightarrow> local_store \<Rightarrow> index_function result
    \<Rightarrow> pystr \<Rightarrow> uuid set \<Rightarrow> timestamp \<Rightarrow> timestamp \<Rightarrow> site \<Rightarrow> (job list \<times> nat) result \<times> site" where
  "run_once Xs U S ls indexer worker_id locked claimed_at cleared_at s =
     (case claim_jobs locked claimed_at worker_id (nat (st_job_batch_size S)) (st_job_lease_seconds S) no_tenant (fst s) of
        (jobs, d1) \<Rightarrow>
          (case process_jobs Xs U S ls indexer worker_id 0 jobs (d1, snd s) of
             (d2, fs2) \<Rightarrow>
               (case delete_stale_staging ls (cleared_at - seconds 3600) fs2 of
                  (Inl e, fs3) \<Rightarrow> (Inl e, (d2, fs3))
                | (Inr n, fs3) \<Rightarrow> (Inr (jobs, n), (d2, fs3)))))"

section \<open>Taking a job apart\<close>

lemma session_begin_outcome: "session_begin w act d = outcome (act (tenant_on d SERVICE_USER_ID w))"
proof -
  have "set_tenant SERVICE_USER_ID (Some w) (begin_on d) = (Inr (), tenant_on d SERVICE_USER_ID w)"
    by (simp add: set_tenant_def tenant_on_def begin_on_def set_tenant_context_def no_tenant_def)
  then show ?thesis by (simp add: session_begin_def get_db_session_outcome abind_def)
qed

lemma session_begin_Inr:
  "session_begin w act d = (Inr a, d') \<longleftrightarrow> (\<exists>t. act (tenant_on d SERVICE_USER_ID w) = (Inr a, t) \<and> d' = tx_db t)"
  by (simp add: session_begin_outcome outcome_Inr)

text \<open>A transaction that raises leaves the rows as they were.\<close>

lemma session_begin_Inl: "keeps_saved act \<Longrightarrow> session_begin w act d = (Inl e, d') \<Longrightarrow> d' = d"
  unfolding session_begin_outcome outcome_def keeps_saved_def
  by (cases "act (tenant_on d SERVICE_USER_ID w)") (metis fst_conv old.sum.simps(5) prod.inject snd_conv tenant_on_simps(2))

lemma then_do_Inr [action_simps]: "then_do m f = (Inr b, s') \<longleftrightarrow> (\<exists>a s. m = (Inr a, s) \<and> f a s = (Inr b, s'))"
  by (auto simp: then_do_def split: prod.splits sum.splits)

lemma then_do_Inl [action_simps]:
  "then_do m f = (Inl e, s') \<longleftrightarrow> m = (Inl e, s') \<or> (\<exists>a s. m = (Inr a, s) \<and> f a s = (Inl e, s'))"
  by (auto simp: then_do_def split: prod.splits sum.splits)

lemma job_action_Inr [action_simps]:
  "job_action f t = (Inr j, t') \<longleftrightarrow> (\<exists>d. f (tx_tenant t) (tx_db t) = Inr (j, d) \<and> t' = t\<lparr>tx_db := d\<rparr>)"
  by (auto simp: job_action_def split: sum.splits)

lemma job_action_Inl [action_simps]: "job_action f t = (Inl e, t') \<longleftrightarrow> f (tx_tenant t) (tx_db t) = Inl e \<and> t' = t"
  by (auto simp: job_action_def split: sum.splits)

lemma keeps_saved_job_action [uncommitted]: "keeps_saved (job_action f)"
  by (auto simp: keeps_saved_def job_action_def split: sum.splits)

lemma in_session_Inr:
  "in_session X n w act s = (Inr a, s') \<longleftrightarrow> (\<exists>d fs d'. su_others X n s = (d, fs) \<and> session_begin w act d = (Inr a, d') \<and> s' = (d', fs))"
  by (auto simp: in_session_def split: prod.splits)

lemma find_versionD:
  "find_version i t d = Some v \<Longrightarrow> v \<in> set (db_versions d) \<and> in_workspace t (ver_workspace_id v) \<and> ver_id v = i"
  by (auto simp: find_version_def select_versions_def dest!: find_SomeD)

lemma find_documentD:
  "find_document i t d = Some x \<Longrightarrow> x \<in> set (db_documents d) \<and> in_workspace t (dcm_workspace_id x) \<and> dcm_id x = i"
  by (auto simp: find_document_def select_documents_def dest!: find_SomeD)

lemma load_work_Inr:
  assumes "load_work vi t = (Inr k, t')"
  obtains v x where "t' = t" "find_version vi (tx_tenant t) (tx_db t) = Some v"
    "find_document (ver_document_id v) (tx_tenant t) (tx_db t) = Some x" "dcm_deleted_at x = None"
    "k = \<lparr>wk_object_key = ver_object_key v, wk_size = ver_byte_size v, wk_sha256 = ver_sha256 v,
       wk_document_id = ver_document_id v, wk_media_type = ver_media_type v, wk_title = dcm_display_name x\<rparr>"
  using assms by (auto simp: load_work_def action_simps split: option.splits if_splits)

lemma read_parts_Inr:
  "read_parts limit c ps = Inr c' \<Longrightarrow> int (length c) \<le> limit \<Longrightarrow> c' = c @ concat ps \<and> int (length c') \<le> limit"
proof (induction ps arbitrary: c)
  case (Cons a ps)
  then have "\<not> limit < int (length (c @ a))" "read_parts limit (c @ a) ps = Inr c'" by (auto split: if_splits)
  then have "c' = (c @ a) @ concat ps \<and> int (length c') \<le> limit" by (intro Cons.IH) simp_all
  then show ?case unfolding append_assoc concat.simps .
qed simp

lemma read_object_Inr:
  assumes "read_object ls S k fs = Inr content" "0 < ls_read_chunk_bytes ls" "0 \<le> st_max_upload_bytes S"
  shows "store_contents ls fs (wk_object_key k) = Some content \<and> int (length content) = wk_size k
    \<and> sha256_hexdigest content = wk_sha256 k \<and> int (length content) \<le> st_max_upload_bytes S"
proof -
  from assms(1) obtain parts where p: "store_read ls (wk_object_key k) fs = Inr parts"
      "read_parts (st_max_upload_bytes S) [] parts = Inr content" "int (length content) = wk_size k"
      "sha256_hexdigest content = wk_sha256 k"
    by (auto simp: read_object_def result_simps split: if_splits)
  have "content = concat parts \<and> int (length content) \<le> st_max_upload_bytes S"
    using read_parts_Inr [OF p(2)] assms(3) by auto
  moreover have "store_contents ls fs (wk_object_key k) = Some (concat parts)"
    using object_store.read_law [OF store_interface [OF assms(2)], where k = "wk_object_key k" and s = fs] p(1) by simp
  ultimately show ?thesis using p by metis
qed

lemma store_index_Inr:
  assumes "store_index now j w vi records t = (Inr u, t')"
  obtains v x d1 d2 j' where "find_version vi (tx_tenant t) (tx_db t) = Some v"
    "find_document (ver_document_id v) (tx_tenant t) (tx_db t) = Some x" "dcm_deleted_at x = None"
    "replace_version (tx_tenant t) (job_workspace_id j) records (tx_db t) = Inr d1"
    "mark_completed now (job_id j) w (tx_tenant t) (set_version_status (tx_tenant t) vi V_ACTIVE d1) = Inr (j', d2)"
    "update_document (tx_tenant t) (dcm_id x) (activated_row vi) d2 = Inr (tx_db t')" "tx_saved t' = tx_saved t"
proof -
  from assms obtain v x d1 d2 j' d3 where a: "find_version vi (tx_tenant t) (tx_db t) = Some v"
    "find_document (ver_document_id v) (tx_tenant t) (tx_db t) = Some x" "dcm_deleted_at x = None"
    "replace_version (tx_tenant t) (job_workspace_id j) records (tx_db t) = Inr d1"
    "mark_completed now (job_id j) w (tx_tenant t) (set_version_status (tx_tenant t) (ver_id v) V_ACTIVE d1) = Inr (j', d2)"
    "update_document (tx_tenant t) (dcm_id x) (activated_row (ver_id v)) d2 = Inr d3" "t' = t\<lparr>tx_db := d3\<rparr>"
    by (auto simp: store_index_def action_simps split: option.splits)
  moreover have "ver_id v = vi" using find_versionD [OF a(1)] by simp
  ultimately show thesis using that by auto
qed

lemma mark_completed_Inr:
  assumes "mark_completed now i w t d = Inr (j', d')"
  shows "d' = d\<lparr>db_jobs := update_where (\<lambda>j. job_visible t j \<and> job_id j = i) completed_row (db_jobs d)\<rparr>
    \<and> (\<exists>j \<in> set (db_jobs d). job_visible t j \<and> job_id j = i \<and> owns now w j \<and> j' = completed_row j)"
proof -
  from assms obtain j where j: "require_owned_job now i w t d = Inr j" "j' = completed_row j" "d' = update_job t i completed_row d"
    by (auto simp: mark_completed_def with_owned_job_def result_simps)
  from j(1) have "find (\<lambda>j. job_id j = i) (select_jobs t d) = Some j" "owns now w j"
    by (auto simp: require_owned_job_def owns_def split: option.splits if_splits)
  with j(2,3) show ?thesis by (auto simp: update_job_def select_jobs_def dest!: find_SomeD)
qed

section \<open>What the last transaction commits\<close>

definition index_stored :: "timestamp \<Rightarrow> job \<Rightarrow> pystr \<Rightarrow> uuid \<Rightarrow> embedded_chunk list \<Rightarrow> db \<Rightarrow> db \<Rightarrow> bool" where
  "index_stored now j w vi records d d' \<longleftrightarrow> (\<exists>x v row.
     x \<in> set (db_documents d) \<and> dcm_workspace_id x = job_workspace_id j \<and> dcm_deleted_at x = None
     \<and> v \<in> set (db_versions d) \<and> ver_id v = vi \<and> ver_document_id v = dcm_id x \<and> ver_workspace_id v = job_workspace_id j
     \<and> row \<in> set (db_jobs d) \<and> job_id row = job_id j \<and> job_workspace_id row = job_workspace_id j \<and> owns now w row
     \<and> records \<noteq> []
     \<and> d' = d\<lparr>db_chunks := filter (\<lambda>c. \<not> version_rows (job_workspace_id j) vi c) (db_chunks d)
                 @ map (chunk_row (job_workspace_id j)) records,
             db_versions := update_where (\<lambda>y. ver_workspace_id y = job_workspace_id j \<and> ver_id y = vi)
                 (\<lambda>y. y\<lparr>ver_status := V_ACTIVE\<rparr>) (db_versions d),
             db_jobs := update_where (\<lambda>y. job_workspace_id y = job_workspace_id j \<and> job_id y = job_id j) completed_row (db_jobs d),
             db_documents := update_where (\<lambda>y. dcm_workspace_id y = job_workspace_id j \<and> dcm_id y = dcm_id x)
                 (activated_row vi) (db_documents d)\<rparr>)"

lemma store_index_stored:
  assumes "session_begin (job_workspace_id j) (store_index now j w vi records) d = (Inr (), d')"
    and "\<forall>r \<in> set records. chk_version_id (emb_chunk r) = vi"
  shows "index_stored now j w vi records d d'"
proof -
  let ?ws = "job_workspace_id j" and ?t = "tenant_on d SERVICE_USER_ID (job_workspace_id j)"
  from assms(1) obtain t' where t': "store_index now j w vi records ?t = (Inr (), t')" "d' = tx_db t'"
    unfolding session_begin_Inr by blast
  from store_index_Inr [OF t'(1), unfolded tenant_on_simps] obtain v x d1 d2 j' where i:
    "find_version vi (tx_tenant ?t) d = Some v" "find_document (ver_document_id v) (tx_tenant ?t) d = Some x"
    "dcm_deleted_at x = None" "replace_version (tx_tenant ?t) ?ws records d = Inr d1"
    "mark_completed now (job_id j) w (tx_tenant ?t) (set_version_status (tx_tenant ?t) vi V_ACTIVE d1) = Inr (j', d2)"
    "update_document (tx_tenant ?t) (dcm_id x) (activated_row vi) d2 = Inr (tx_db t')" .
  note v = find_versionD [OF i(1), unfolded tenant_on_simps] and x = find_documentD [OF i(2), unfolded tenant_on_simps]
  note r = replace_version_Inr [OF i(4)]
  then have "chk_version_id (emb_chunk (hd records)) = vi" using assms(2) by simp
  with r have d1: "d1 = d\<lparr>db_chunks := filter (\<lambda>c. \<not> version_rows ?ws vi c) (db_chunks d) @ map (chunk_row ?ws) records\<rparr>"
    by simp
  have visible: "job_visible (tx_tenant ?t) y \<longleftrightarrow> job_workspace_id y = ?ws" for y by (simp add: job_visible_def)
  note m = mark_completed_Inr [OF i(5), unfolded visible]
  then obtain row where row: "row \<in> set (db_jobs d)" "job_workspace_id row = ?ws" "job_id row = job_id j" "owns now w row"
    by (auto simp: d1 set_version_status_def)
  have d2: "d2 = d\<lparr>db_chunks := filter (\<lambda>c. \<not> version_rows ?ws vi c) (db_chunks d) @ map (chunk_row ?ws) records,
      db_versions := update_where (\<lambda>y. ver_workspace_id y = ?ws \<and> ver_id y = vi) (\<lambda>y. y\<lparr>ver_status := V_ACTIVE\<rparr>) (db_versions d),
      db_jobs := update_where (\<lambda>y. job_workspace_id y = ?ws \<and> job_id y = job_id j) completed_row (db_jobs d)\<rparr>"
    using m by (simp add: d1 set_version_status_def)
  have "d' = d2\<lparr>db_documents := update_where (\<lambda>y. dcm_workspace_id y = ?ws \<and> dcm_id y = dcm_id x) (activated_row vi) (db_documents d2)\<rparr>"
    using update_document_Inr(1) [OF i(6)] t'(2) by simp
  with d2 v x i(3) row r show ?thesis
    unfolding index_stored_def by (intro exI [of _ x] exI [of _ v] exI [of _ row]) simp
qed

text \<open>The bytes an indexing run verified, and the version and document they were read for.\<close>

definition content_verified :: "settings \<Rightarrow> local_store \<Rightarrow> job \<Rightarrow> uuid \<Rightarrow> pybytes \<Rightarrow> document_version \<Rightarrow> document \<Rightarrow> site \<Rightarrow> bool" where
  "content_verified S ls j vi content v x s \<longleftrightarrow>
     v \<in> set (db_versions (fst s)) \<and> ver_id v = vi \<and> ver_workspace_id v = job_workspace_id j
     \<and> x \<in> set (db_documents (fst s)) \<and> dcm_id x = ver_document_id v \<and> dcm_deleted_at x = None
     \<and> store_contents ls (snd s) (ver_object_key v) = Some content
     \<and> int (length content) = ver_byte_size v \<and> sha256_hexdigest content = ver_sha256 v
     \<and> int (length content) \<le> st_max_upload_bytes S"

lemma finish_document_job_Inr:
  assumes "finish_document_job X U S ls index j w s = (Inr (), s')" "version_indexer index"
    and "0 < ls_read_chunk_bytes ls" "0 \<le> st_max_upload_bytes S"
  obtains vi s1 content v x records d where "payload_uuid U j ''document_version_id'' = Inr vi" "su_others X 1 s = s1"
    "content_verified S ls j vi content v x s1"
    "index content (ver_document_id v) vi (dcm_display_name x) (ver_media_type v) = Inr records"
    "index_stored (su_now X (2 + su_renewals X)) j w vi records d (fst s')"
proof -
  from assms(1) obtain vi k s1 content s2 records where f: "payload_uuid U j ''document_version_id'' = Inr vi"
      "in_session X 1 (job_workspace_id j) (load_work vi) s = (Inr k, s1)"
      "read_object ls S k (snd s1) = Inr content"
      "index content (wk_document_id k) vi (wk_title k) (wk_media_type k) = Inr records"
      "in_session X (2 + su_renewals X) (job_workspace_id j)
         (store_index (su_now X (2 + su_renewals X)) j w vi records) s2 = (Inr (), s')"
    unfolding finish_document_job_def then_do_Inr by auto
  from f(2) obtain d1 fs1 d1' where o: "su_others X 1 s = (d1, fs1)"
      "session_begin (job_workspace_id j) (load_work vi) d1 = (Inr k, d1')" "s1 = (d1', fs1)"
    unfolding in_session_Inr by blast
  from o(2) obtain t where l: "load_work vi (tenant_on d1 SERVICE_USER_ID (job_workspace_id j)) = (Inr k, t)"
    unfolding session_begin_Inr by blast
  from load_work_Inr [OF l, unfolded tenant_on_simps] obtain v x where vx:
    "find_version vi (tx_tenant (tenant_on d1 SERVICE_USER_ID (job_workspace_id j))) d1 = Some v"
    "find_document (ver_document_id v) (tx_tenant (tenant_on d1 SERVICE_USER_ID (job_workspace_id j))) d1 = Some x"
    "dcm_deleted_at x = None"
    "k = \<lparr>wk_object_key = ver_object_key v, wk_size = ver_byte_size v, wk_sha256 = ver_sha256 v,
       wk_document_id = ver_document_id v, wk_media_type = ver_media_type v, wk_title = dcm_display_name x\<rparr>" .
  have read: "store_contents ls fs1 (wk_object_key k) = Some content \<and> int (length content) = wk_size k
    \<and> sha256_hexdigest content = wk_sha256 k \<and> int (length content) \<le> st_max_upload_bytes S"
    using read_object_Inr [OF f(3) assms(3,4)] by (simp add: o(3))
  have "content_verified S ls j vi content v x (d1, fs1)"
    using read find_versionD [OF vx(1)] find_documentD [OF vx(2)] vx(3,4) by (simp add: content_verified_def)
  moreover have idx: "index content (ver_document_id v) vi (dcm_display_name x) (ver_media_type v) = Inr records"
    using f(4) vx(4) by simp
  moreover have "\<forall>r \<in> set records. chk_version_id (emb_chunk r) = vi"
    using version_indexer.index_law [OF assms(2) idx] by blast
  then have "\<exists>d. index_stored (su_now X (2 + su_renewals X)) j w vi records d (fst s')"
    using f(5) store_index_stored unfolding in_session_Inr by fastforce
  ultimately show thesis using that f(1) o(1) by blast
qed

section \<open>What a failed attempt leaves\<close>

text \<open>
  From one database to another, only the row of the job changed in the jobs (never its workspace, type
  or payload), and only the status of the version it names in the versions.
\<close>

definition same_job :: "job \<Rightarrow> job \<Rightarrow> bool" where
  "same_job r r' \<longleftrightarrow> job_id r' = job_id r \<and> job_workspace_id r' = job_workspace_id r \<and> job_job_type r' = job_job_type r
     \<and> job_payload r' = job_payload r \<and> job_idempotency_key r' = job_idempotency_key r"

definition names_version :: "unicode \<Rightarrow> db \<Rightarrow> job \<Rightarrow> document_version \<Rightarrow> bool" where
  "names_version U d j v \<longleftrightarrow> ver_workspace_id v = job_workspace_id j
     \<and> (\<exists>r \<in> set (db_jobs d). job_id r = job_id j \<and> payload_uuid U r ''document_version_id'' = Inr (ver_id v))"

definition only_marks :: "unicode \<Rightarrow> job \<Rightarrow> db \<Rightarrow> db \<Rightarrow> bool" where
  "only_marks U j d d' \<longleftrightarrow> db_chunks d' = db_chunks d \<and> db_documents d' = db_documents d \<and> db_users d' = db_users d
     \<and> db_workspaces d' = db_workspaces d \<and> db_memberships d' = db_memberships d \<and> db_sessions d' = db_sessions d
     \<and> list_all2 (\<lambda>v v'. v' = v \<or> names_version U d j v \<and> (\<exists>st. v' = v\<lparr>ver_status := st\<rparr>)) (db_versions d) (db_versions d')
     \<and> list_all2 (\<lambda>r r'. r' = r \<or> job_id r = job_id j \<and> same_job r r') (db_jobs d) (db_jobs d')"

lemma same_job_refl [simp]: "same_job r r"
  by (simp add: same_job_def)

lemma only_marks_refl: "only_marks U j d d"
  by (simp add: only_marks_def list_all2_refl)

lemma payload_uuid_same: "same_job r r' \<Longrightarrow> payload_uuid U r' k = payload_uuid U r k"
  by (simp add: payload_uuid_def same_job_def)

lemma only_marks_names:
  assumes "only_marks U j d d'" "names_version U d' j v"
  shows "names_version U d j v"
proof -
  from assms(2) obtain r' where r': "r' \<in> set (db_jobs d')" "job_id r' = job_id j"
      "payload_uuid U r' ''document_version_id'' = Inr (ver_id v)" "ver_workspace_id v = job_workspace_id j"
    unfolding names_version_def by blast
  from r'(1) obtain i where i: "i < length (db_jobs d')" "r' = db_jobs d' ! i" by (auto simp: in_set_conv_nth)
  have rows: "list_all2 (\<lambda>r r'. r' = r \<or> job_id r = job_id j \<and> same_job r r') (db_jobs d) (db_jobs d')"
    using assms(1) unfolding only_marks_def by blast
  have "i < length (db_jobs d)" "same_job (db_jobs d ! i) r'"
    using list_all2_lengthD [OF rows] list_all2_nthD2 [OF rows i(1)] i by auto
  then have "db_jobs d ! i \<in> set (db_jobs d)" "job_id (db_jobs d ! i) = job_id j"
    "payload_uuid U (db_jobs d ! i) ''document_version_id'' = Inr (ver_id v)"
    using r' payload_uuid_same [of "db_jobs d ! i" r' U] by (auto simp: same_job_def)
  with r'(4) show ?thesis unfolding names_version_def by blast
qed

lemma only_marks_trans:
  assumes "only_marks U j d d1" "only_marks U j d1 d2"
  shows "only_marks U j d d2"
proof -
  have v: "list_all2 (\<lambda>v v'. v' = v \<or> names_version U d j v \<and> (\<exists>st. v' = v\<lparr>ver_status := st\<rparr>)) (db_versions d) (db_versions d2)"
  proof (rule list_all2_trans [where as = "db_versions d" and bs = "db_versions d1" and cs = "db_versions d2"])
    show "list_all2 (\<lambda>v v'. v' = v \<or> names_version U d j v \<and> (\<exists>st. v' = v\<lparr>ver_status := st\<rparr>)) (db_versions d) (db_versions d1)"
      using assms(1) unfolding only_marks_def by blast
    show "list_all2 (\<lambda>v v'. v' = v \<or> names_version U d1 j v \<and> (\<exists>st. v' = v\<lparr>ver_status := st\<rparr>)) (db_versions d1) (db_versions d2)"
      using assms(2) unfolding only_marks_def by blast
    fix a b c :: document_version
    assume ab: "b = a \<or> names_version U d j a \<and> (\<exists>st. b = a\<lparr>ver_status := st\<rparr>)"
      and bc: "c = b \<or> names_version U d1 j b \<and> (\<exists>st. c = b\<lparr>ver_status := st\<rparr>)"
    have "names_version U d j b \<Longrightarrow> b = a \<or> (\<exists>st. b = a\<lparr>ver_status := st\<rparr>) \<Longrightarrow> names_version U d j a"
      by (auto simp: names_version_def)
    with ab bc only_marks_names [OF assms(1)] show "c = a \<or> names_version U d j a \<and> (\<exists>st. c = a\<lparr>ver_status := st\<rparr>)" by auto
  qed
  have j: "list_all2 (\<lambda>r r'. r' = r \<or> job_id r = job_id j \<and> same_job r r') (db_jobs d) (db_jobs d2)"
  proof (rule list_all2_trans [where as = "db_jobs d" and bs = "db_jobs d1" and cs = "db_jobs d2"])
    show "list_all2 (\<lambda>r r'. r' = r \<or> job_id r = job_id j \<and> same_job r r') (db_jobs d) (db_jobs d1)"
      "list_all2 (\<lambda>r r'. r' = r \<or> job_id r = job_id j \<and> same_job r r') (db_jobs d1) (db_jobs d2)"
      using assms unfolding only_marks_def by blast+
  qed (auto simp: same_job_def)
  show ?thesis unfolding only_marks_def using v j assms by (auto simp: only_marks_def)
qed

lemma list_all2_update_where:
  "(\<And>x. x \<in> set xs \<Longrightarrow> P x \<Longrightarrow> R x (f x)) \<Longrightarrow> (\<And>x. R x x) \<Longrightarrow> list_all2 R xs (update_where P f xs)"
  by (induction xs) auto

lemma same_job_rows [simp]:
  "same_job j (processing_row j)" "same_job j (renewed_row now n j)" "same_job j (completed_row j)"
  "same_job j (failed_row now draw c m r j)" "same_job j (retried_row now j)" "same_job j (lease_to w now n j)"
  by (simp_all add: same_job_def processing_row_def renewed_row_def completed_row_def failed_row_def retried_row_def
      lease_to_def Let_def)

lemma with_owned_job_update:
  assumes "with_owned_job f now i w t d = Inr (r, d')"
  shows "d' = update_job t i f d
    \<and> (\<exists>row \<in> set (db_jobs d). job_visible t row \<and> job_id row = i \<and> owns now w row \<and> r = f row \<and> r \<in> set (db_jobs d'))"
proof -
  from assms obtain j where j: "require_owned_job now i w t d = Inr j" "r = f j" "d' = update_job t i f d"
    by (auto simp: with_owned_job_def result_simps)
  from j(1) have o: "find (\<lambda>j. job_id j = i) (select_jobs t d) = Some j" "owns now w j"
    by (auto simp: require_owned_job_def owns_def split: option.splits if_splits)
  from find_SomeD [OF o(1)] have row: "j \<in> set (db_jobs d)" "job_visible t j" "job_id j = i" by (auto simp: select_jobs_def)
  then have "f j \<in> set (db_jobs d')" by (auto simp: j(3) update_job_def set_update_where)
  with row o(2) j show ?thesis by blast
qed

lemma owned_marks:
  assumes "with_owned_job f now (job_id j) w t d = Inr (r, d')" "\<And>x. same_job x (f x)"
  shows "only_marks U j d d'"
proof -
  have "d' = update_job t (job_id j) f d" using with_owned_job_update [OF assms(1)] by simp
  then show ?thesis
    using assms(2) by (auto simp: only_marks_def update_job_def list_all2_refl intro!: list_all2_update_where)
qed

lemma owned_names:
  assumes "with_owned_job f now (job_id j) w t d = Inr (r, d')" "\<And>x. same_job x (f x)"
    and "payload_uuid U r ''document_version_id'' = Inr (ver_id v)" "ver_workspace_id v = job_workspace_id j"
  shows "names_version U d' j v"
proof -
  from with_owned_job_update [OF assms(1)] obtain row where "job_id row = job_id j" "r = f row" "r \<in> set (db_jobs d')"
    by blast
  moreover from this assms(2) have "job_id r = job_id j" by (simp add: same_job_def)
  ultimately show ?thesis using assms(3,4) unfolding names_version_def by blast
qed

lemma status_marks:
  assumes "names_version U d j v" "\<And>w. in_workspace t w \<longleftrightarrow> w = job_workspace_id j"
  shows "only_marks U j d (set_version_status t (ver_id v) st d)"
  using assms
  by (auto simp: only_marks_def set_version_status_def names_version_def list_all2_refl intro!: list_all2_update_where)

text \<open>Reading an identifier from a payload and going on.\<close>

lemma payload_step:
  "abind (of_result r) f t = (Inr b, t') \<longleftrightarrow> (\<exists>a. r = Inr a \<and> f a t = (Inr b, t'))"
  "abind (query g) h t = (y, t') \<longleftrightarrow> h (g (tx_tenant t) (tx_db t)) t = (y, t')"
  by (auto simp: abind_def of_result_def query_def split: sum.splits)

lemma begin_processing_marks:
  assumes "begin_processing U now j w (tenant_on d SERVICE_USER_ID (job_workspace_id j)) = (Inr u, t')"
  shows "only_marks U j d (tx_db t')"
proof -
  let ?t = "tenant_on d SERVICE_USER_ID (job_workspace_id j)"
  from assms obtain r d1 where r: "with_owned_job processing_row now (job_id j) w (tx_tenant ?t) d = Inr (r, d1)"
    and rest: "(if job_job_type r = PROCESS_DOCUMENT then
         abind (of_result (payload_uuid U r ''document_version_id'')) (\<lambda>vi.
         abind (query (find_version vi)) (\<lambda>found.
           case found of None \<Rightarrow> raise_action (RuntimeError (lit ''document version does not exist''))
           | Some v \<Rightarrow> change (\<lambda>t. set_version_status t (ver_id v) V_PROCESSING)))
       else pure_action ()) (?t\<lparr>tx_db := d1\<rparr>) = (Inr u, t')"
    unfolding begin_processing_def mark_processing_def abind_Inr job_action_Inr by auto
  note m = owned_marks [OF r, of U]
  show ?thesis
  proof (cases "job_job_type r = PROCESS_DOCUMENT")
    case True
    with rest obtain vi v where v: "payload_uuid U r ''document_version_id'' = Inr vi"
        "find_version vi (tx_tenant ?t) d1 = Some v" "tx_db t' = set_version_status (tx_tenant ?t) (ver_id v) V_PROCESSING d1"
      by (auto simp: payload_step simple_actions split: option.splits)
    have "names_version U d1 j v"
      using owned_names [OF r] v(1) find_versionD [OF v(2)] by simp
    with status_marks [of U d1 j v "tx_tenant ?t" V_PROCESSING] m v(3) only_marks_trans show ?thesis by fastforce
  next
    case False
    with rest m show ?thesis by (simp add: action_simps)
  qed
qed

lemma fail_job_marks:
  assumes "fail_job U now draw message j w e (tenant_on d SERVICE_USER_ID (job_workspace_id j)) = (Inr u, t')"
  shows "only_marks U j d (tx_db t')"
proof -
  let ?t = "tenant_on d SERVICE_USER_ID (job_workspace_id j)"
    and ?f = "failed_row now draw (lit ''processing_failed'') (if message e \<noteq> [] then message e else class_name e) True"
  from assms obtain r d1 where r: "with_owned_job ?f now (job_id j) w (tx_tenant ?t) d = Inr (r, d1)"
    and rest: "(if job_job_type r = PROCESS_DOCUMENT then
         abind (of_result (payload_uuid U r ''document_version_id'')) (\<lambda>vi.
         abind (query (find_version vi)) (\<lambda>found.
           case found of None \<Rightarrow> pure_action ()
           | Some v \<Rightarrow> change (\<lambda>t. set_version_status t (ver_id v)
               (if job_state r = FAILED \<or> job_state r = DEAD_LETTER then V_FAILED else V_QUEUED))))
       else pure_action ()) (?t\<lparr>tx_db := d1\<rparr>) = (Inr u, t')"
    unfolding fail_job_def mark_failed_def abind_Inr job_action_Inr by auto
  note m = owned_marks [OF r, of U, OF same_job_rows(4)]
  show ?thesis
  proof (cases "job_job_type r = PROCESS_DOCUMENT")
    case True
    with rest obtain vi where vi: "payload_uuid U r ''document_version_id'' = Inr vi" by (auto simp: payload_step)
    show ?thesis
    proof (cases "find_version vi (tx_tenant ?t) d1")
      case None
      with rest True vi m show ?thesis by (auto simp: payload_step simple_actions)
    next
      case (Some v)
      have "names_version U d1 j v"
        using owned_names [OF r] vi find_versionD [OF Some] by simp
      moreover from rest True vi Some obtain st where "tx_db t' = set_version_status (tx_tenant ?t) (ver_id v) st d1"
        by (auto simp: payload_step simple_actions)
      ultimately show ?thesis using status_marks [of U d1 j v "tx_tenant ?t"] m only_marks_trans by fastforce
    qed
  next
    case False
    with rest m show ?thesis by (simp add: action_simps)
  qed
qed

text \<open>No transaction of the worker commits by itself.\<close>

lemma worker_uncommitted:
  "keeps_saved (begin_processing U now j w)" "keeps_saved (load_work vi)" "keeps_saved (store_index now j w vi records)"
  "keeps_saved (erase_chunks now j w di)" "keeps_saved (fail_job U now draw message j w e)"
  unfolding begin_processing_def load_work_def store_index_def erase_chunks_def fail_job_def
  by (auto intro!: uncommitted split: option.split)

text \<open>No other request or worker acts while the job runs.\<close>

definition alone :: "surroundings \<Rightarrow> bool" where
  "alone X \<longleftrightarrow> (\<forall>n s. su_others X n s = s)"

text \<open>A step of the job that leaves the files, and of the rows all but the marks.\<close>

definition marks_site :: "unicode \<Rightarrow> job \<Rightarrow> site \<Rightarrow> site \<Rightarrow> bool" where
  "marks_site U j s s' \<longleftrightarrow> only_marks U j (fst s) (fst s') \<and> snd s' = snd s"

lemma marks_site_refl: "marks_site U j s s"
  by (simp add: marks_site_def only_marks_refl)

lemma marks_site_trans: "marks_site U j s s1 \<Longrightarrow> marks_site U j s1 s2 \<Longrightarrow> marks_site U j s s2"
  using only_marks_trans by (auto simp: marks_site_def)

lemma in_session_marks:
  assumes "alone X" "in_session X n (job_workspace_id j) act s = (r, s')" "keeps_saved act"
    and "\<And>a t'. r = Inr a \<Longrightarrow> act (tenant_on (fst s) SERVICE_USER_ID (job_workspace_id j)) = (Inr a, t') \<Longrightarrow>
      only_marks U j (fst s) (tx_db t')"
  shows "marks_site U j s s'"
proof -
  obtain d fs d' where s: "s = (d, fs)" "session_begin (job_workspace_id j) act d = (r, d')" "s' = (d', fs)"
    using assms(1,2) by (cases s) (auto simp: in_session_def alone_def split: prod.splits)
  have "only_marks U j d d'"
  proof (cases r)
    case (Inl e)
    with session_begin_Inl [OF assms(3)] s(2) only_marks_refl show ?thesis by metis
  next
    case (Inr a)
    with s assms(4) show ?thesis by (auto simp: session_begin_Inr)
  qed
  then show ?thesis by (simp add: marks_site_def s)
qed

lemma renew_marks:
  assumes "alone X"
  shows "renew_document_lease X S j w k n s = (r, s') \<Longrightarrow> marks_site U j s s'"
proof (induction k arbitrary: n s)
  case (Suc k)
  obtain y s1 where y: "in_session X n (job_workspace_id j)
      (job_action (renew_lease (su_now X n) (st_job_lease_seconds S) (job_id j) w)) s = (y, s1)" by (metis surj_pair)
  have m: "marks_site U j s s1"
  proof (rule in_session_marks [OF assms y keeps_saved_job_action])
    fix a t' assume "job_action (renew_lease (su_now X n) (st_job_lease_seconds S) (job_id j) w)
      (tenant_on (fst s) SERVICE_USER_ID (job_workspace_id j)) = (Inr a, t')"
    then have "\<exists>t d'. with_owned_job (renewed_row (su_now X n) (st_job_lease_seconds S)) (su_now X n) (job_id j) w t (fst s)
        = Inr (a, d') \<and> tx_db t' = d'"
      by (auto simp: job_action_Inr renew_lease_def)
    then show "only_marks U j (fst s) (tx_db t')" using owned_marks by fastforce
  qed
  show ?case
  proof (cases y)
    case (Inl e)
    with Suc.prems y m show ?thesis by (simp add: then_do_def)
  next
    case (Inr a)
    with Suc.prems y have "renew_document_lease X S j w k (Suc n) s1 = (r, s')" by (simp add: then_do_def)
    from Suc.IH [OF this] m marks_site_trans show ?thesis by blast
  qed
qed (simp add: marks_site_refl)

lemma finish_document_job_marks:
  assumes "alone X" "finish_document_job X U S ls index j w s = (Inl e, s')"
  shows "marks_site U j s s'"
proof -
  let ?ws = "job_workspace_id j" and ?n = "2 + su_renewals X"
  consider (start) "s' = s"
    | (load) vi where "in_session X 1 ?ws (load_work vi) s = (Inl e, s')"
    | (renew) vi k s1 where "in_session X 1 ?ws (load_work vi) s = (Inr k, s1)"
        "s' = s1 \<or> (\<exists>r. renew_document_lease X S j w (su_renewals X) 2 s1 = (r, s'))"
    | (store) vi k s1 s2 records where "in_session X 1 ?ws (load_work vi) s = (Inr k, s1)"
        "renew_document_lease X S j w (su_renewals X) 2 s1 = (Inr (), s2)"
        "in_session X ?n ?ws (store_index (su_now X ?n) j w vi records) s2 = (Inl e, s')"
    using assms(2) unfolding finish_document_job_def then_do_Inl then_do_Inr by (auto 0 4)
  then show ?thesis
  proof cases
    case (load vi)
    from in_session_marks [OF assms(1) this worker_uncommitted(2)] show ?thesis by simp
  next
    case (renew vi k s1)
    have "marks_site U j s s1"
      by (rule in_session_marks [OF assms(1) renew(1) worker_uncommitted(2)])
        (auto elim!: load_work_Inr simp: only_marks_refl)
    with renew(2) renew_marks [OF assms(1)] marks_site_trans show ?thesis by blast
  next
    case (store vi k s1 s2 records)
    have "marks_site U j s s1"
      by (rule in_session_marks [OF assms(1) store(1) worker_uncommitted(2)])
        (auto elim!: load_work_Inr simp: only_marks_refl)
    moreover have "marks_site U j s2 s'"
      by (rule in_session_marks [OF assms(1) store(3) worker_uncommitted(3)]) simp
    ultimately show ?thesis using renew_marks [OF assms(1) store(2)] marks_site_trans by blast
  qed (simp add: marks_site_refl)
qed

lemma delete_objects_rows: "delete_objects ls ks s = (r, s') \<Longrightarrow> fst s' = fst s"
  by (induction ls ks s rule: delete_objects.induct) (auto split: prod.splits sum.splits)

lemma finish_delete_job_marks:
  assumes "alone X" "finish_delete_job X U ls j w s = (Inl e, s')"
  shows "only_marks U j (fst s) (fst s')"
proof -
  let ?ws = "job_workspace_id j"
  let ?q = "\<lambda>di. query (\<lambda>t d. map ver_object_key (filter (\<lambda>v. ver_document_id v = di) (select_versions t d)))"
  consider (start) "s' = s"
    | (load) di where "in_session X 1 ?ws (?q di) s = (Inl e, s')"
    | (files) di k s1 r where "in_session X 1 ?ws (?q di) s = (Inr k, s1)" "delete_objects ls k s1 = (r, s')"
    | (erase) di k s1 s2 where "in_session X 1 ?ws (?q di) s = (Inr k, s1)" "delete_objects ls k s1 = (Inr (), s2)"
        "in_session X 2 ?ws (erase_chunks (su_now X 2) j w di) s2 = (Inl e, s')"
    using assms(2) unfolding finish_delete_job_def then_do_Inl then_do_Inr by (auto 0 4)
  then show ?thesis
  proof cases
    case (load di)
    from in_session_marks [OF assms(1) this keeps_saved_basic(3)] show ?thesis by (simp add: marks_site_def)
  next
    case (files di k s1 r)
    have "marks_site U j s s1"
      by (rule in_session_marks [OF assms(1) files(1) keeps_saved_basic(3)]) (auto simp: simple_actions only_marks_refl)
    with delete_objects_rows [OF files(2)] show ?thesis by (simp add: marks_site_def)
  next
    case (erase di k s1 s2)
    have "marks_site U j s s1"
      by (rule in_session_marks [OF assms(1) erase(1) keeps_saved_basic(3)]) (auto simp: simple_actions only_marks_refl)
    moreover have "marks_site U j s2 s'"
      by (rule in_session_marks [OF assms(1) erase(3) worker_uncommitted(4)]) simp
    ultimately show ?thesis using delete_objects_rows [OF erase(2)] only_marks_trans
      by (auto simp: marks_site_def)
  qed (simp add: only_marks_refl)
qed

section \<open>Properties\<close>


text \<open>C23: a failed attempt touches no content. When the attempt at a job raises at any step and nobody
  else acts meanwhile, then after the failure is recorded the chunks and documents (so every search
  result), and the rows of users, workspaces and sessions are what they were; of the jobs only its own
  row and of the versions only the status of the one it names may differ; and an indexing job has
  changed no file.\<close>

theorem failed_attempt_touches_no_content:
  assumes "alone X" "attempt_job X U S ls indexer j w s = (Inl e, s1)"
  shows "only_marks U j (fst s) (fst (process_job X U S ls indexer j w s))
    \<and> (job_job_type j = PROCESS_DOCUMENT \<longrightarrow> snd (process_job X U S ls indexer j w s) = snd s)"
proof -
  let ?ws = "job_workspace_id j" and ?n = "3 + su_renewals X"
  obtain y s0 where y: "in_session X 0 ?ws (begin_processing U (su_now X 0) j w) s = (y, s0)" by (metis surj_pair)
  have m0: "marks_site U j s s0"
    by (rule in_session_marks [OF assms(1) y worker_uncommitted(1)]) (auto intro: begin_processing_marks)
  have m1: "only_marks U j (fst s) (fst s1) \<and> (job_job_type j = PROCESS_DOCUMENT \<longrightarrow> snd s1 = snd s)"
  proof (cases y)
    case (Inl e0)
    with assms(2) y have "s1 = s0" by (simp add: attempt_job_def then_do_def)
    with m0 show ?thesis by (simp add: marks_site_def)
  next
    case (Inr a)
    with assms(2) y have rest: "(case job_job_type j of
        PROCESS_DOCUMENT \<Rightarrow> then_do (indexer, s0) (\<lambda>index. finish_document_job X U S ls index j w)
      | DELETE_OBJECT \<Rightarrow> finish_delete_job X U ls j w s0) = (Inl e, s1)"
      by (simp add: attempt_job_def then_do_def)
    show ?thesis
    proof (cases "job_job_type j")
      case PROCESS_DOCUMENT
      with rest have "s1 = s0 \<or> (\<exists>index. finish_document_job X U S ls index j w s0 = (Inl e, s1))"
        by (auto simp: then_do_Inl)
      then have "marks_site U j s0 s1" using finish_document_job_marks [OF assms(1)] marks_site_refl by blast
      with m0 have "marks_site U j s s1" by (rule marks_site_trans)
      then show ?thesis by (simp add: marks_site_def)
    next
      case DELETE_OBJECT
      with rest have "finish_delete_job X U ls j w s0 = (Inl e, s1)" by simp
      from finish_delete_job_marks [OF assms(1) this] m0 have "only_marks U j (fst s) (fst s1)"
        unfolding marks_site_def using only_marks_trans by blast
      with DELETE_OBJECT show ?thesis by simp
    qed
  qed
  obtain r s2 where f: "in_session X ?n ?ws (fail_job U (su_now X ?n) (su_draw X) (su_message X) j w e) s1 = (r, s2)"
    by (metis surj_pair)
  have "marks_site U j s1 s2"
    by (rule in_session_marks [OF assms(1) f worker_uncommitted(5)]) (auto intro: fail_job_marks)
  moreover have "process_job X U S ls indexer j w s = s2" using assms(2) f by (simp add: process_job_def)
  ultimately show ?thesis using m1 only_marks_trans [of U j "fst s" "fst s1" "fst s2"] by (simp add: marks_site_def)
qed

section \<open>Witnesses\<close>

definition leased_job :: job where
  "leased_job = \<lparr>job_id = 7, job_workspace_id = 3, job_job_type = PROCESS_DOCUMENT,
     job_payload = [(lit ''document_id'', uuid_str 4), (lit ''document_version_id'', uuid_str 5)],
     job_state = LEASED, job_idempotency_key = lit ''k1'', job_available_at = 0, job_lease_owner = Some (lit ''w1''),
     job_lease_expires_at = Some 60, job_attempt_count = 1, job_max_attempts = 5, job_error_code = None,
     job_error_message = None, job_created_at = 0\<rparr>"

definition queued_version :: document_version where
  "queued_version = \<lparr>ver_id = 5, ver_workspace_id = 3, ver_document_id = 4, ver_version_number = 1,
     ver_object_key = lit ''k'', ver_original_filename = lit ''help.txt'', ver_media_type = lit ''text/plain'',
     ver_byte_size = 18, ver_sha256 = sha256_hexdigest (lit ''Ask within 5 days.''), ver_status = V_QUEUED, ver_created_by = 1\<rparr>"

definition work_document :: document where
  "work_document = \<lparr>dcm_id = 4, dcm_workspace_id = 3, dcm_display_name = lit ''Help'', dcm_active_version_id = None,
     dcm_created_by = 1, dcm_deleted_at = None, dcm_created_at = 0\<rparr>"

definition work_db :: db where
  "work_db = shop_db\<lparr>db_documents := [work_document], db_versions := [queued_version], db_jobs := [leased_job]\<rparr>"

definition work_files :: file_system where
  "work_files = put_file [lit ''data'', lit ''k''] \<lparr>fl_bytes = lit ''Ask within 5 days.'', fl_modified = 0\<rparr> sample_files"

definition quiet_site :: surroundings where
  "quiet_site = \<lparr>su_others = (\<lambda>_ s. s), su_now = (\<lambda>_. 1), su_renewals = 0, su_draw = (\<lambda>_. 0), su_message = (\<lambda>_. [])\<rparr>"

text \<open>An indexer that makes one chunk of any content.\<close>

definition one_chunk :: index_function where
  "one_chunk content did vid title media = Inr (map (\<lambda>r. r\<lparr>emb_chunk := (emb_chunk r)\<lparr>chk_document_id := did,
     chk_version_id := vid\<rparr>\<rparr>) sample_records)"

lemma one_chunk_indexer: "version_indexer one_chunk"
  by unfold_locales (auto simp: one_chunk_def sample_records_def isfinite_def list_all_iff)

lemma one_chunk_records: "one_chunk content 4 5 title media = Inr sample_records"
  by (simp add: one_chunk_def sample_records_def sample_chunk_def)

lemma work_read:
  "read_object sample_store default_settings \<lparr>wk_object_key = lit ''k'', wk_size = 18,
     wk_sha256 = sha256_hexdigest (lit ''Ask within 5 days.''), wk_document_id = 4, wk_media_type = lit ''text/plain'',
     wk_title = lit ''Help''\<rparr> work_files = Inr (lit ''Ask within 5 days.'')"
proof -
  have st: "store_stat sample_store (lit ''k'') work_files
      = Inr \<lparr>om_key = lit ''k'', om_byte_size = 18, om_modified_at = 0\<rparr>" by code_simp
  have rd: "rbind (store_read sample_store (lit ''k'') work_files) (read_parts (10 * 1024 * 1024) [])
      = Inr (lit ''Ask within 5 days.'')" by code_simp
  then obtain parts where "store_read sample_store (lit ''k'') work_files = Inr parts"
      "read_parts (10 * 1024 * 1024) [] parts = Inr (lit ''Ask within 5 days.'')"
    by (auto simp: result_simps)
  then show ?thesis using st by (simp add: read_object_def default_settings_def)
qed

lemma work_stored:
  "\<exists>d'. session_begin 3 (store_index 1 leased_job (lit ''w1'') 5 sample_records) work_db = (Inr (), d')"
proof -
  let ?t = "tx_tenant (tenant_on work_db SERVICE_USER_ID 3)"
  have ne: "lit ''Ask within 5 days.'' \<noteq> []" by (simp add: lit_def)
  obtain d1 where d1: "replace_version ?t 3 sample_records work_db = Inr d1"
    using ne
    by (simp add: replace_version_def sample_records_def record_ok_def isfinite_def list_all_iff insert_chunk_def
        chunk_scope_valid_def select_versions_def select_documents_def work_db_def work_document_def queued_version_def
        shop_db_def chunk_row_def sample_chunk_def Let_def page_ok_def)
  from replace_version_Inr [OF d1] have rows: "db_versions d1 = [queued_version]" "db_documents d1 = [work_document]"
      "db_jobs d1 = [leased_job]"
    by (auto simp: work_db_def)
  have finds: "find_version 5 ?t work_db = Some queued_version" "find_document 4 ?t work_db = Some work_document"
    by (simp_all add: find_version_def find_document_def select_versions_def select_documents_def work_db_def
        queued_version_def work_document_def)
  let ?d2 = "set_version_status ?t 5 V_ACTIVE d1"
  have versions: "db_versions ?d2 = [queued_version\<lparr>ver_status := V_ACTIVE\<rparr>]" and others: "db_documents ?d2 = [work_document]"
      "db_jobs ?d2 = [leased_job]"
    using rows by (simp_all add: set_version_status_def queued_version_def)
  have completed: "mark_completed 1 7 (lit ''w1'') ?t ?d2 = Inr (completed_row leased_job, update_job ?t 7 completed_row ?d2)"
    using others by (simp add: mark_completed_def with_owned_job_def require_owned_job_def select_jobs_def job_visible_def leased_job_def)
  let ?d3 = "update_job ?t 7 completed_row ?d2"
  have "\<exists>d4. update_document ?t 4 (activated_row 5) ?d3 = Inr d4"
    using versions others
    by (simp add: update_document_def Let_def update_job_def active_version_valid_def select_versions_def activated_row_def
        work_document_def queued_version_def lit_def)
  then obtain d4 where d4: "update_document ?t 4 (activated_row 5) ?d3 = Inr d4" ..
  have ids: "ver_id queued_version = 5" "ver_document_id queued_version = 4" "dcm_id work_document = 4"
    "dcm_deleted_at work_document = None" "job_id leased_job = 7" "job_workspace_id leased_job = 3"
    by (simp_all add: queued_version_def work_document_def leased_job_def)
  have "\<exists>t'. store_index 1 leased_job (lit ''w1'') 5 sample_records (tenant_on work_db SERVICE_USER_ID 3) = (Inr (), t')"
    using finds d1 completed d4
    by (simp add: store_index_def abind_def query_def ids guard_def pure_action_def statement_def change_def job_action_def)
  then show ?thesis by (auto simp: session_begin_Inr)
qed


theorem failed_attempt_touches_no_content_witness:
  "\<exists>e s1. attempt_job quiet_site ascii_only default_settings sample_store (raise_runtime ''no model'') leased_job (lit ''w1'')
      (work_db, work_files) = (Inl e, s1)
    \<and> only_marks ascii_only leased_job work_db (fst (process_job quiet_site ascii_only default_settings sample_store
        (raise_runtime ''no model'') leased_job (lit ''w1'') (work_db, work_files)))"
proof -
  have process: "job_job_type leased_job = PROCESS_DOCUMENT" by (simp add: leased_job_def)
  obtain r s1 where r: "in_session quiet_site 0 (job_workspace_id leased_job)
      (begin_processing ascii_only (su_now quiet_site 0) leased_job (lit ''w1'')) (work_db, work_files) = (r, s1)"
    by (metis surj_pair)
  have "\<exists>e. attempt_job quiet_site ascii_only default_settings sample_store (raise_runtime ''no model'') leased_job (lit ''w1'')
      (work_db, work_files) = (Inl e, s1)"
    by (cases r) (simp_all add: attempt_job_def then_do_def r process)
  then obtain e where e: "attempt_job quiet_site ascii_only default_settings sample_store (raise_runtime ''no model'')
      leased_job (lit ''w1'') (work_db, work_files) = (Inl e, s1)" ..
  have "alone quiet_site" by (simp add: alone_def quiet_site_def)
  from failed_attempt_touches_no_content [OF this e] e show ?thesis by auto
qed

end
