(* ===== verification/Lifecycle.thy ===== *)
theory Lifecycle
  imports Worker
begin

text \<open>
  The components together: every committed transaction that requests and workers make on documents,
  versions, chunks and jobs, as the steps of one system. The steps of a worker that carries a job from one transaction
  to the next ask that the job was read from its row (\<open>claimed\<close>). The lemmas show one invariant across
  uploads, the queue, the indexing, the search scope and deletion: what a live document offers to
  searches is always a fully indexed version of its own, and what is deleted stays so.
\<close>

section \<open>The steps\<close>

definition claimed :: "db \<Rightarrow> job \<Rightarrow> bool" where
  "claimed d j \<longleftrightarrow> (\<exists>r \<in> set (db_jobs d). same_job r j)"

inductive lifecycle_step :: "unicode \<Rightarrow> db \<Rightarrow> db \<Rightarrow> bool" for U where
  upload: "upload_document_version U S scan ls w u di q n (tenant_on d u w) fs = (Inr r, t', fs') \<Longrightarrow>
    lifecycle_step U d (tx_saved t')"
| deletion: "delete_document now i w di access (tenant_on d u w) = (Inr (), t') \<Longrightarrow> lifecycle_step U d (tx_db t')"
| renaming: "update_document_route w di name access (tenant_on d u w) = (Inr x, t') \<Longrightarrow> lifecycle_step U d (tx_db t')"
| retry: "retry_job now i w (tx_tenant (tenant_on d u w)) d = Inr (j, d') \<Longrightarrow> lifecycle_step U d d'"
| claim: "claim_jobs locked now w n s no_tenant d = (js, d') \<Longrightarrow> lifecycle_step U d d'"
| begin_job: "session_begin (job_workspace_id j) (begin_processing U now j w) d = (Inr (), d') \<Longrightarrow> lifecycle_step U d d'"
| renewal: "session_begin (job_workspace_id j) (job_action (renew_lease now s (job_id (j :: job)) w)) d = (Inr r, d') \<Longrightarrow>
    lifecycle_step U d d'"
| index: "session_begin (job_workspace_id j) (store_index now j w vi records) d = (Inr (), d') \<Longrightarrow> claimed d j \<Longrightarrow>
    job_job_type j = PROCESS_DOCUMENT \<Longrightarrow> payload_uuid U j ''document_version_id'' = Inr vi \<Longrightarrow>
    \<forall>r \<in> set records. chk_version_id (emb_chunk r) = vi \<Longrightarrow> lifecycle_step U d d'"
| failure: "session_begin (job_workspace_id j) (fail_job U now draw message j w e) d = (Inr (), d') \<Longrightarrow> lifecycle_step U d d'"
| erasure: "session_begin (job_workspace_id j) (erase_chunks now j w di) d = (Inr (), d') \<Longrightarrow> claimed d j \<Longrightarrow>
    job_job_type j = DELETE_OBJECT \<Longrightarrow> payload_uuid U j ''document_id'' = Inr di \<Longrightarrow> lifecycle_step U d d'"
| accounts: "db_documents d' = db_documents d \<Longrightarrow> db_versions d' = db_versions d \<Longrightarrow> db_chunks d' = db_chunks d \<Longrightarrow>
    db_jobs d' = db_jobs d \<Longrightarrow> lifecycle_step U d d'"

inductive lifecycle_run :: "unicode \<Rightarrow> db \<Rightarrow> db \<Rightarrow> bool" for U where
  stop: "lifecycle_run U d d"
| step: "lifecycle_step U d d1 \<Longrightarrow> lifecycle_run U d1 d2 \<Longrightarrow> lifecycle_run U d d2"

section \<open>The invariant\<close>

text \<open>What a document offers to searches: a version of its own that is active, with chunks.\<close>

definition offers :: "db \<Rightarrow> document \<Rightarrow> uuid \<Rightarrow> bool" where
  "offers d x v \<longleftrightarrow> dcm_deleted_at x = None
     \<and> (\<exists>y \<in> set (db_versions d). ver_id y = v \<and> ver_document_id y = dcm_id x \<and> ver_workspace_id y = dcm_workspace_id x
          \<and> ver_status y = V_ACTIVE)
     \<and> (\<exists>c \<in> set (db_chunks d). row_version_id c = v \<and> row_document_id c = dcm_id x \<and> row_workspace_id c = dcm_workspace_id x
          \<and> row_pipeline_version c = pipeline_version PIPELINE)"

definition process_job_ok :: "unicode \<Rightarrow> db \<Rightarrow> job \<Rightarrow> bool" where
  "process_job_ok U d j \<longleftrightarrow> (\<exists>y \<in> set (db_versions d). payload_uuid U j ''document_version_id'' = Inr (ver_id y)
     \<and> ver_workspace_id y = job_workspace_id j \<and> (job_state j \<noteq> COMPLETED \<longrightarrow> ver_status y \<noteq> V_ACTIVE))"

definition delete_job_ok :: "unicode \<Rightarrow> db \<Rightarrow> job \<Rightarrow> bool" where
  "delete_job_ok U d j \<longleftrightarrow> (\<exists>x \<in> set (db_documents d). payload_uuid U j ''document_id'' = Inr (dcm_id x)
     \<and> dcm_workspace_id x = job_workspace_id j \<and> dcm_deleted_at x \<noteq> None)"

definition job_ok :: "unicode \<Rightarrow> db \<Rightarrow> job \<Rightarrow> bool" where
  "job_ok U d j = (case job_job_type j of PROCESS_DOCUMENT \<Rightarrow> process_job_ok U d j | DELETE_OBJECT \<Rightarrow> delete_job_ok U d j)"

definition one_job_each :: "unicode \<Rightarrow> job list \<Rightarrow> bool" where
  "one_job_each U js \<longleftrightarrow> (\<forall>j \<in> set js. \<forall>k \<in> set js. job_job_type j = PROCESS_DOCUMENT \<longrightarrow> job_job_type k = PROCESS_DOCUMENT \<longrightarrow>
     payload_uuid U j ''document_version_id'' = payload_uuid U k ''document_version_id'' \<longrightarrow> job_id j = job_id k)"

definition content_ok :: "unicode \<Rightarrow> db \<Rightarrow> bool" where
  "content_ok U d \<longleftrightarrow> distinct (map dcm_id (db_documents d)) \<and> distinct (map ver_id (db_versions d))
     \<and> distinct (map job_id (db_jobs d))
     \<and> (\<forall>x \<in> set (db_documents d). \<forall>v. dcm_active_version_id x = Some v \<longrightarrow> offers d x v)
     \<and> (\<forall>j \<in> set (db_jobs d). job_ok U d j) \<and> one_job_each U (db_jobs d)"

lemma one_jobD:
  assumes "one_job_each U js" "a \<in> set js" "b \<in> set js" "job_job_type a = PROCESS_DOCUMENT" "job_job_type b = PROCESS_DOCUMENT"
    "payload_uuid U a ''document_version_id'' = payload_uuid U b ''document_version_id''"
  shows "job_id a = job_id b"
  using assms unfolding one_job_each_def by blast

text \<open>Rows with one identifier are one row.\<close>

lemma same_row: "distinct (map k xs) \<Longrightarrow> x \<in> set xs \<Longrightarrow> y \<in> set xs \<Longrightarrow> k x = k y \<Longrightarrow> x = y"
  by (auto simp: distinct_map dest: inj_onD)

section \<open>Steps that only mark jobs and versions\<close>

text \<open>
  A job goes on, completed ones stay so; a version may take a status other than active if a job that is
  not completed names it.
\<close>

definition job_moves :: "job \<Rightarrow> job \<Rightarrow> bool" where
  "job_moves r r' \<longleftrightarrow> same_job r r' \<and> (job_state r = COMPLETED \<longrightarrow> job_state r' = COMPLETED)"

definition version_marked :: "unicode \<Rightarrow> db \<Rightarrow> document_version \<Rightarrow> document_version \<Rightarrow> bool" where
  "version_marked U d v v' \<longleftrightarrow> v' = v \<or> (\<exists>st. st \<noteq> V_ACTIVE \<and> v' = v\<lparr>ver_status := st\<rparr>)
     \<and> (\<exists>r \<in> set (db_jobs d). job_job_type r = PROCESS_DOCUMENT \<and> job_state r \<noteq> COMPLETED
          \<and> payload_uuid U r ''document_version_id'' = Inr (ver_id v))"

lemma list_all2_maps: "list_all2 R xs ys \<Longrightarrow> (\<And>x y. R x y \<Longrightarrow> k y = k x) \<Longrightarrow> map k ys = map k xs"
  by (induction rule: list_all2_induct) auto

lemma list_all2_right: "list_all2 R xs ys \<Longrightarrow> y \<in> set ys \<Longrightarrow> \<exists>x \<in> set xs. R x y"
  by (induction rule: list_all2_induct) auto

lemma list_all2_left: "list_all2 R xs ys \<Longrightarrow> x \<in> set xs \<Longrightarrow> \<exists>y \<in> set ys. R x y"
  by (induction rule: list_all2_induct) auto

lemma version_marked_same:
  "version_marked U d v v' \<Longrightarrow> ver_id v' = ver_id v \<and> ver_document_id v' = ver_document_id v
    \<and> ver_workspace_id v' = ver_workspace_id v \<and> (ver_status v' = V_ACTIVE \<longrightarrow> ver_status v = V_ACTIVE)"
  by (auto simp: version_marked_def)

lemma job_moves_same:
  assumes "job_moves r r'"
  shows "job_id r' = job_id r" "job_workspace_id r' = job_workspace_id r" "job_job_type r' = job_job_type r"
    "payload_uuid U r' k = payload_uuid U r k" "job_state r' \<noteq> COMPLETED \<Longrightarrow> job_state r \<noteq> COMPLETED"
proof -
  have m: "same_job r r'" "job_state r = COMPLETED \<longrightarrow> job_state r' = COMPLETED" using assms by (simp_all add: job_moves_def)
  then show "job_id r' = job_id r" "job_workspace_id r' = job_workspace_id r" "job_job_type r' = job_job_type r"
    unfolding same_job_def by blast+
  show "payload_uuid U r' k = payload_uuid U r k" by (rule payload_uuid_same [OF m(1)])
  show "job_state r' \<noteq> COMPLETED \<Longrightarrow> job_state r \<noteq> COMPLETED" using m(2) by blast
qed

text \<open>The parts of the invariant.\<close>

lemma content_okD:
  assumes "content_ok U d"
  shows "distinct (map dcm_id (db_documents d))" "distinct (map ver_id (db_versions d))" "distinct (map job_id (db_jobs d))"
    "x \<in> set (db_documents d) \<Longrightarrow> dcm_active_version_id x = Some v \<Longrightarrow> offers d x v"
    "j \<in> set (db_jobs d) \<Longrightarrow> job_ok U d j" "one_job_each U (db_jobs d)"
  using assms by (simp_all add: content_ok_def)

lemma process_job_of:
  assumes "content_ok U d" "r \<in> set (db_jobs d)" "job_job_type r = PROCESS_DOCUMENT"
    "payload_uuid U r ''document_version_id'' = Inr i" "y \<in> set (db_versions d)" "ver_id y = i"
  shows "ver_workspace_id y = job_workspace_id r" "job_state r \<noteq> COMPLETED \<Longrightarrow> ver_status y \<noteq> V_ACTIVE"
proof -
  from content_okD(5) [OF assms(1,2)] assms(3,4) obtain z where z: "z \<in> set (db_versions d)" "ver_id z = i"
      "ver_workspace_id z = job_workspace_id r" "job_state r \<noteq> COMPLETED \<longrightarrow> ver_status z \<noteq> V_ACTIVE"
    by (auto simp: job_ok_def process_job_ok_def)
  have "z = y" using same_row [OF content_okD(2) [OF assms(1)] z(1) assms(5)] z(2) assms(6) by simp
  with z show "ver_workspace_id y = job_workspace_id r" "job_state r \<noteq> COMPLETED \<Longrightarrow> ver_status y \<noteq> V_ACTIVE" by auto
qed

lemma active_not_marked:
  assumes "content_ok U d" "version_marked U d y y'" "y \<in> set (db_versions d)" "ver_status y = V_ACTIVE"
  shows "y' = y"
  using assms process_job_of(2) [OF assms(1) _ _ _ assms(3) refl] unfolding version_marked_def by blast

lemma one_job_moves:
  assumes "list_all2 job_moves js js'" "one_job_each U js"
  shows "one_job_each U js'"
  unfolding one_job_each_def
proof (intro ballI impI)
  fix a b assume ab: "a \<in> set js'" "b \<in> set js'" "job_job_type a = PROCESS_DOCUMENT"
    "job_job_type b = PROCESS_DOCUMENT" "payload_uuid U a ''document_version_id'' = payload_uuid U b ''document_version_id''"
  from list_all2_right [OF assms(1) ab(1)] list_all2_right [OF assms(1) ab(2)] obtain a0 b0 where
    m: "a0 \<in> set js" "job_moves a0 a" "b0 \<in> set js" "job_moves b0 b" by blast
  note a = job_moves_same [OF m(2)] and b = job_moves_same [OF m(4)]
  have "job_id a0 = job_id b0"
    using assms(2) m(1,3) ab(3-5) unfolding one_job_each_def a b by blast
  then show "job_id a = job_id b" unfolding a b .
qed

lemma marks_keep_content:
  assumes ok: "content_ok U d" and same: "db_documents d' = db_documents d" "db_chunks d' = db_chunks d"
    and v: "list_all2 (version_marked U d) (db_versions d) (db_versions d')"
    and j: "list_all2 job_moves (db_jobs d) (db_jobs d')"
  shows "content_ok U d'"
proof -
  have vid: "map ver_id (db_versions d') = map ver_id (db_versions d)"
    by (rule list_all2_maps [OF v]) (simp add: version_marked_same)
  have jid: "map job_id (db_jobs d') = map job_id (db_jobs d)"
    by (rule list_all2_maps [OF j]) (simp add: job_moves_same)
  have active: "y \<in> set (db_versions d')" if "y \<in> set (db_versions d)" "ver_status y = V_ACTIVE" for y
    using list_all2_left [OF v that(1)] active_not_marked [OF ok _ that] by blast
  have offers: "offers d' x w" if "offers d x w" for x w
    using that active unfolding offers_def same by blast
  have job: "job_ok U d' r'" if "r' \<in> set (db_jobs d')" for r'
  proof -
    from list_all2_right [OF j that] obtain r where r: "r \<in> set (db_jobs d)" "job_moves r r'" by blast
    note m = job_moves_same [OF r(2)]
    have "process_job_ok U d' r'" if "process_job_ok U d r"
    proof -
      from that obtain y where y: "y \<in> set (db_versions d)" "payload_uuid U r ''document_version_id'' = Inr (ver_id y)"
          "ver_workspace_id y = job_workspace_id r" "job_state r \<noteq> COMPLETED \<longrightarrow> ver_status y \<noteq> V_ACTIVE"
        unfolding process_job_ok_def by blast
      from list_all2_left [OF v y(1)] obtain y' where "y' \<in> set (db_versions d')" "version_marked U d y y'" by blast
      with y m(5) version_marked_same show ?thesis
        unfolding process_job_ok_def m(2,4) by (intro bexI [of _ y']) auto
    qed
    moreover have "delete_job_ok U d' r'" if "delete_job_ok U d r"
      using that unfolding delete_job_ok_def m(2,4) same .
    ultimately show ?thesis
      using content_okD(5) [OF ok r(1)] unfolding job_ok_def m(3) by (simp split: job_type.splits)
  qed
  show ?thesis
    unfolding content_ok_def vid jid same
    using content_okD [OF ok] offers job one_job_moves [OF j] by blast
qed

text \<open>A transaction of the worker that owns the job, and may set the status of the version it names.\<close>

definition status_set :: "unicode \<Rightarrow> job \<Rightarrow> document_version list \<Rightarrow> document_version list \<Rightarrow> bool" where
  "status_set U r vs vs' \<longleftrightarrow> vs' = vs \<or> (job_job_type r = PROCESS_DOCUMENT
     \<and> (\<exists>P i st. st \<noteq> V_ACTIVE \<and> payload_uuid U r ''document_version_id'' = Inr i
          \<and> vs' = update_where (\<lambda>v. P v \<and> ver_id v = i) (\<lambda>v. v\<lparr>ver_status := st\<rparr>) vs))"

lemma job_moves_refl [simp]: "job_moves r r"
  by (simp add: job_moves_def)

lemma version_marked_refl [simp]: "version_marked U d v v"
  by (simp add: version_marked_def)

lemma status_set_marked:
  assumes "status_set U (f row) (db_versions d) vs'" "row \<in> set (db_jobs d)" "same_job row (f row)" "job_state row \<noteq> COMPLETED"
  shows "list_all2 (version_marked U d) (db_versions d) vs'"
proof -
  have type: "job_job_type (f row) = job_job_type row" using assms(3) unfolding same_job_def by blast
  note pay = payload_uuid_same [OF assms(3), of U "''document_version_id''"]
  from assms(1) consider (same) "vs' = db_versions d"
    | (set) P i st where "st \<noteq> V_ACTIVE" "job_job_type row = PROCESS_DOCUMENT" "payload_uuid U row ''document_version_id'' = Inr i"
        "vs' = update_where (\<lambda>v. P v \<and> ver_id v = i) (\<lambda>v. v\<lparr>ver_status := st\<rparr>) (db_versions d)"
    unfolding status_set_def type pay by blast
  then show ?thesis
  proof cases
    case (set P i st)
    have "version_marked U d v (v\<lparr>ver_status := st\<rparr>)" if "ver_id v = i" for v
      unfolding version_marked_def using set(1-3) that assms(2,4) by blast
    then show ?thesis unfolding set(4) by (intro list_all2_update_where) simp_all
  qed (simp add: list_all2_refl)
qed

lemma moved_rows:
  assumes "\<And>x. x \<in> set js \<Longrightarrow> P x \<Longrightarrow> job_state x \<noteq> COMPLETED \<or> job_state (f x) = COMPLETED" "\<And>x. same_job x (f x)"
  shows "list_all2 job_moves js (update_where P f js)"
  by (rule list_all2_update_where) (use assms in \<open>auto simp: job_moves_def\<close>)

lemma owned_step:
  assumes ok: "content_ok U d" and r: "with_owned_job f now i w t d = Inr (r, d1)" and same: "\<And>x. same_job x (f x)"
    and rest: "db_documents d' = db_documents d" "db_chunks d' = db_chunks d" "db_jobs d' = db_jobs d1"
      "status_set U r (db_versions d) (db_versions d')"
  shows "content_ok U d'"
proof -
  from with_owned_job_update [OF r] obtain row where row: "d1 = update_job t i f d" "row \<in> set (db_jobs d)" "job_id row = i"
      "owns now w row" "r = f row" by blast
  have open_row: "job_state row \<noteq> COMPLETED" using row(4) by (auto simp: owns_def)
  have "x = row" if "x \<in> set (db_jobs d)" "job_id x = i" for x
    using same_row [OF content_okD(3) [OF ok] that(1) row(2)] that(2) row(3) by simp
  then have "list_all2 job_moves (db_jobs d) (db_jobs d')"
    unfolding rest(3) row(1) update_job_def using open_row same by (simp, intro moved_rows) auto
  moreover have "list_all2 (version_marked U d) (db_versions d) (db_versions d')"
    by (rule status_set_marked [where f = f, OF rest(4) [unfolded row(5)] row(2) same open_row])
  ultimately show ?thesis by (intro marks_keep_content [OF ok rest(1,2)])
qed

lemma status_action:
  assumes "(if job_job_type r = PROCESS_DOCUMENT then
         abind (of_result (payload_uuid U r ''document_version_id'')) (\<lambda>vi.
         abind (query (find_version vi)) (\<lambda>found.
           case found of None \<Rightarrow> absent
           | Some v \<Rightarrow> change (\<lambda>t. set_version_status t (ver_id v) st)))
       else pure_action ()) t = (Inr u, t')"
    and "st \<noteq> V_ACTIVE" "\<And>t1. absent t = (Inr (), t1) \<Longrightarrow> t1 = t"
  shows "db_documents (tx_db t') = db_documents (tx_db t) \<and> db_chunks (tx_db t') = db_chunks (tx_db t)
    \<and> db_jobs (tx_db t') = db_jobs (tx_db t) \<and> status_set U r (db_versions (tx_db t)) (db_versions (tx_db t'))"
proof (cases "job_job_type r = PROCESS_DOCUMENT")
  case True
  with assms(1) obtain i where i: "payload_uuid U r ''document_version_id'' = Inr i"
      "(case find_version i (tx_tenant t) (tx_db t) of None \<Rightarrow> absent
        | Some v \<Rightarrow> change (\<lambda>t. set_version_status t (ver_id v) st)) t = (Inr u, t')"
    by (auto simp: payload_step)
  show ?thesis
  proof (cases "find_version i (tx_tenant t) (tx_db t)")
    case None
    with i(2) assms(3) show ?thesis by (simp add: status_set_def)
  next
    case (Some v)
    then have "ver_id v = i" using find_versionD by blast
    with Some i(2) have "tx_db t' = set_version_status (tx_tenant t) i st (tx_db t)" by (simp add: simple_actions)
    then show ?thesis using True i(1) assms(2) by (auto simp: set_version_status_def status_set_def)
  qed
next
  case False
  with assms(1) show ?thesis by (simp add: simple_actions status_set_def)
qed

lemma begin_keeps_content:
  assumes "content_ok U d" "session_begin (job_workspace_id j) (begin_processing U now j w) d = (Inr (), d')"
  shows "content_ok U d'"
proof -
  let ?t = "tenant_on d SERVICE_USER_ID (job_workspace_id j)"
  from assms(2) obtain t' where t': "begin_processing U now j w ?t = (Inr (), t')" "d' = tx_db t'"
    unfolding session_begin_Inr by blast
  from t'(1) obtain r t1 where r: "job_action (mark_processing now (job_id j) w) ?t = (Inr r, t1)"
    and rest: "(if job_job_type r = PROCESS_DOCUMENT then
         abind (of_result (payload_uuid U r ''document_version_id'')) (\<lambda>vi.
         abind (query (find_version vi)) (\<lambda>found.
           case found of None \<Rightarrow> raise_action (RuntimeError (lit ''document version does not exist''))
           | Some v \<Rightarrow> change (\<lambda>t. set_version_status t (ver_id v) V_PROCESSING)))
       else pure_action ()) t1 = (Inr (), t')"
    unfolding begin_processing_def abind_Inr by blast
  have own: "with_owned_job processing_row now (job_id j) w (tx_tenant ?t) d = Inr (r, tx_db t1)"
    using r by (auto simp: job_action_Inr mark_processing_def)
  then have "tx_db t1 = update_job (tx_tenant ?t) (job_id j) processing_row d" using with_owned_job_update by blast
  then have d1: "db_documents (tx_db t1) = db_documents d" "db_chunks (tx_db t1) = db_chunks d"
      "db_versions (tx_db t1) = db_versions d" by (simp_all add: update_job_def)
  have "status_set U r (db_versions (tx_db t1)) (db_versions d') \<and> db_documents d' = db_documents d
    \<and> db_chunks d' = db_chunks d \<and> db_jobs d' = db_jobs (tx_db t1)"
    using status_action [OF rest] unfolding t'(2) d1 by (simp add: simple_actions)
  then show ?thesis using owned_step [OF assms(1) own same_job_rows(1)] unfolding d1 by blast
qed

lemma failure_keeps_content:
  assumes "content_ok U d" "session_begin (job_workspace_id j) (fail_job U now draw message j w e) d = (Inr (), d')"
  shows "content_ok U d'"
proof -
  let ?t = "tenant_on d SERVICE_USER_ID (job_workspace_id j)"
    and ?f = "failed_row now draw (lit ''processing_failed'') (if message e \<noteq> [] then message e else class_name e) True"
  from assms(2) obtain t' where t': "fail_job U now draw message j w e ?t = (Inr (), t')" "d' = tx_db t'"
    unfolding session_begin_Inr by blast
  from t'(1) obtain r t1 where r: "job_action (mark_failed now draw (lit ''processing_failed'')
       (if message e \<noteq> [] then message e else class_name e) True (job_id j) w) ?t = (Inr r, t1)"
    and rest: "(if job_job_type r = PROCESS_DOCUMENT then
         abind (of_result (payload_uuid U r ''document_version_id'')) (\<lambda>vi.
         abind (query (find_version vi)) (\<lambda>found.
           case found of None \<Rightarrow> pure_action ()
           | Some v \<Rightarrow> change (\<lambda>t. set_version_status t (ver_id v)
               (if job_state r = FAILED \<or> job_state r = DEAD_LETTER then V_FAILED else V_QUEUED))))
       else pure_action ()) t1 = (Inr (), t')"
    unfolding fail_job_def abind_Inr by blast
  have own: "with_owned_job ?f now (job_id j) w (tx_tenant ?t) d = Inr (r, tx_db t1)"
    using r by (auto simp: job_action_Inr mark_failed_def)
  then have "tx_db t1 = update_job (tx_tenant ?t) (job_id j) ?f d" using with_owned_job_update by blast
  then have d1: "db_documents (tx_db t1) = db_documents d" "db_chunks (tx_db t1) = db_chunks d"
      "db_versions (tx_db t1) = db_versions d" by (simp_all add: update_job_def)
  have "status_set U r (db_versions (tx_db t1)) (db_versions d') \<and> db_documents d' = db_documents d
    \<and> db_chunks d' = db_chunks d \<and> db_jobs d' = db_jobs (tx_db t1)"
    using status_action [OF rest] unfolding t'(2) d1 by (simp add: simple_actions)
  then show ?thesis using owned_step [OF assms(1) own same_job_rows(4)] unfolding d1 by blast
qed

lemma renewal_keeps_content:
  assumes "content_ok U d" "session_begin (job_workspace_id j) (job_action (renew_lease now s (job_id j) w)) d = (Inr r, d')"
  shows "content_ok U d'"
proof -
  let ?t = "tenant_on d SERVICE_USER_ID (job_workspace_id j)"
  from assms(2) have r: "with_owned_job (renewed_row now s) now (job_id j) w (tx_tenant ?t) d = Inr (r, d')"
    unfolding session_begin_Inr job_action_Inr renew_lease_def by auto
  then have "d' = update_job (tx_tenant ?t) (job_id j) (renewed_row now s) d" using with_owned_job_update by blast
  then show ?thesis by (intro owned_step [OF assms(1) r same_job_rows(2)]) (simp_all add: update_job_def status_set_def)
qed

lemma retry_keeps_content:
  assumes "content_ok U d" "retry_job now i w t d = Inr (j, d')"
  shows "content_ok U d'"
proof -
  from assms(2) obtain row where row: "find (\<lambda>j. job_id j = i \<and> job_workspace_id j = w) (select_jobs t d) = Some row"
      "job_state row = FAILED \<or> job_state row = DEAD_LETTER" "d' = update_job t i (retried_row now) d"
    by (auto simp: retry_job_def split: option.splits if_splits)
  from find_SomeD [OF row(1)] have r: "row \<in> set (db_jobs d)" "job_id row = i" by (auto simp: select_jobs_def)
  have "job_state x \<noteq> COMPLETED" if "x \<in> set (db_jobs d)" "job_id x = i" for x
    using same_row [OF content_okD(3) [OF assms(1)] that(1) r(1)] that(2) r(2) row(2) by auto
  then have "list_all2 job_moves (db_jobs d) (db_jobs d')"
    unfolding row(3) update_job_def by (simp, intro moved_rows) auto
  then show ?thesis
    by (intro marks_keep_content [OF assms(1)]) (simp_all add: row(3) update_job_def list_all2_refl)
qed

lemma claim_keeps_content:
  assumes "content_ok U d" "claim_jobs locked now w n s t d = (js, d')"
  shows "content_ok U d'"
proof -
  let ?t = "set_worker_context w t"
  let ?js = "claimable ?t locked now n d"
  have d': "d' = d\<lparr>db_jobs := update_where (\<lambda>j. job_visible ?t j \<and> job_id j \<in> set (map job_id ?js))
      (lease_to w now s) (db_jobs d)\<rparr>"
    using assms(2) by (simp add: claim_jobs_def Let_def)
  have claimed: "y \<in> set (db_jobs d) \<and> job_state y \<noteq> COMPLETED" if "y \<in> set ?js" for y
    using that by (auto simp: claimable_def select_jobs_def job_due_def lease_lapsed_def dest!: in_set_takeD)
  have "job_state x \<noteq> COMPLETED" if x: "x \<in> set (db_jobs d)" "job_id x \<in> set (map job_id ?js)" for x
  proof -
    from x(2) obtain y where y: "y \<in> set ?js" "job_id y = job_id x" by auto
    have "x = y" using same_row [OF content_okD(3) [OF assms(1)] x(1)] claimed [OF y(1)] y(2) by auto
    with claimed [OF y(1)] show ?thesis by simp
  qed
  then have "list_all2 job_moves (db_jobs d) (db_jobs d')"
    unfolding d' by (simp del: set_map, intro moved_rows) auto
  then show ?thesis by (intro marks_keep_content [OF assms(1)]) (simp_all add: d' list_all2_refl)
qed

section \<open>Steps on content\<close>

text \<open>Deleting chunks that no live document offers; new ones may take their place.\<close>

lemma erased_chunks_keep_content:
  assumes "content_ok U d" "\<And>c x. c \<in> set (db_chunks d) \<Longrightarrow> c \<notin> set cs \<Longrightarrow> x \<in> set (db_documents d) \<Longrightarrow>
      row_document_id c = dcm_id x \<Longrightarrow> dcm_active_version_id x = Some (row_version_id c) \<Longrightarrow> dcm_deleted_at x \<noteq> None"
  shows "content_ok U (d\<lparr>db_chunks := cs\<rparr>)"
proof -
  have "offers (d\<lparr>db_chunks := cs\<rparr>) x v" if "x \<in> set (db_documents d)" "dcm_active_version_id x = Some v" for x v
  proof -
    note o = content_okD(4) [OF assms(1) that, unfolded offers_def]
    then obtain c where c: "c \<in> set (db_chunks d)" "row_document_id c = dcm_id x" "row_version_id c = v"
        "row_workspace_id c = dcm_workspace_id x" "row_pipeline_version c = pipeline_version PIPELINE" by blast
    have "c \<in> set cs"
    proof (rule ccontr)
      assume "c \<notin> set cs"
      from assms(2) [OF c(1) this that(1) c(2)] that(2) c(3) o show False by simp
    qed
    with o c show ?thesis unfolding offers_def by (simp, blast)
  qed
  moreover have "job_ok U (d\<lparr>db_chunks := cs\<rparr>) j = job_ok U d j" for j
    by (cases "job_job_type j") (simp_all add: job_ok_def process_job_ok_def delete_job_ok_def)
  ultimately show ?thesis using content_okD [OF assms(1)] by (simp add: content_ok_def)
qed

lemma erasure_keeps_content:
  assumes ok: "content_ok U d" and run: "session_begin (job_workspace_id j) (erase_chunks now j w di) d = (Inr (), d')"
    and j: "claimed d j" "job_job_type j = DELETE_OBJECT" "payload_uuid U j ''document_id'' = Inr di"
  shows "content_ok U d'"
proof -
  let ?ws = "job_workspace_id j"
  let ?t = "tx_tenant (tenant_on d SERVICE_USER_ID ?ws)"
  let ?d1 = "delete_document_chunks ?t ?ws di d"
  from run obtain r where r: "with_owned_job completed_row now (job_id j) w ?t ?d1 = Inr (r, d')"
    by (auto simp: session_begin_Inr erase_chunks_def abind_Inr job_action_Inr mark_completed_def simple_actions)
  from j obtain row where row: "row \<in> set (db_jobs d)" "same_job row j" unfolding claimed_def by blast
  then have "delete_job_ok U d row"
    using content_okD(5) [OF ok row(1)] j(2) by (simp add: job_ok_def same_job_def)
  then obtain x where x: "x \<in> set (db_documents d)" "payload_uuid U row ''document_id'' = Inr (dcm_id x)"
      "dcm_deleted_at x \<noteq> None"
    unfolding delete_job_ok_def by blast
  have id: "dcm_id x = di" using x(2) payload_uuid_same [OF row(2), of U "''document_id''"] j(3) by simp
  have del: "dcm_deleted_at y \<noteq> None" if "y \<in> set (db_documents d)" "dcm_id y = di" for y
    using same_row [OF content_okD(1) [OF ok] that(1) x(1)] that(2) id x(3) by simp
  have d1: "content_ok U ?d1"
    unfolding delete_document_chunks_def by (rule erased_chunks_keep_content [OF ok]) (use del in auto)
  have "d' = update_job ?t (job_id j) completed_row ?d1" using with_owned_job_update [OF r] by blast
  then have "db_documents d' = db_documents ?d1" "db_chunks d' = db_chunks ?d1" "db_versions d' = db_versions ?d1"
    by (simp_all add: update_job_def)
  with owned_step [OF d1 r same_job_rows(3)] show ?thesis by (simp add: status_set_def)
qed

lemma update_where_hit: "r \<in> set rows \<Longrightarrow> P r \<Longrightarrow> f r \<in> set (update_where P f rows)"
  by (auto simp: set_update_where)

text \<open>Updating documents, appending a job, activating a version.\<close>

lemma offers_cong:
  "db_versions d' = db_versions d \<Longrightarrow> db_chunks d' = db_chunks d \<Longrightarrow> offers d' x v = offers d x v"
  by (simp add: offers_def)

lemma updated_documents_keep_content:
  assumes ok: "content_ok U d" and f: "\<And>x. dcm_id (f x) = dcm_id x \<and> dcm_workspace_id (f x) = dcm_workspace_id x
      \<and> (dcm_deleted_at x \<noteq> None \<longrightarrow> dcm_deleted_at (f x) \<noteq> None)"
    and act: "\<And>x v. x \<in> set (db_documents d) \<Longrightarrow> P x \<Longrightarrow> dcm_active_version_id (f x) = Some v \<Longrightarrow> offers d (f x) v"
  shows "content_ok U (d\<lparr>db_documents := update_where P f (db_documents d)\<rparr>)" (is "content_ok U ?d")
proof -
  have off: "offers ?d x v = offers d x v" for x v by (rule offers_cong) simp_all
  have "offers ?d x v" if x: "x \<in> set (db_documents ?d)" "dcm_active_version_id x = Some v" for x v
  proof -
    from x(1) obtain y where y: "y \<in> set (db_documents d)" "x = (if P y then f y else y)" by (auto simp: set_update_where)
    show ?thesis
      unfolding off using act [OF y(1)] content_okD(4) [OF ok y(1)] x(2) y(2) by (cases "P y") simp_all
  qed
  moreover have "job_ok U ?d j" if j: "j \<in> set (db_jobs ?d)" for j
  proof (cases "job_job_type j")
    case PROCESS_DOCUMENT
    with j content_okD(5) [OF ok, of j] show ?thesis by (simp add: job_ok_def process_job_ok_def)
  next
    case DELETE_OBJECT
    with j content_okD(5) [OF ok, of j] obtain x where x: "x \<in> set (db_documents d)"
        "payload_uuid U j ''document_id'' = Inr (dcm_id x)" "dcm_workspace_id x = job_workspace_id j" "dcm_deleted_at x \<noteq> None"
      by (auto simp: job_ok_def delete_job_ok_def)
    let ?y = "if P x then f x else x"
    have "?y \<in> set (db_documents ?d)" using x(1) by (auto simp: set_update_where)
    moreover have "dcm_id ?y = dcm_id x" "dcm_workspace_id ?y = dcm_workspace_id x" "dcm_deleted_at ?y \<noteq> None"
      using f x(4) by auto
    ultimately have "delete_job_ok U ?d j" unfolding delete_job_ok_def using x(2,3) by (intro bexI [of _ ?y]) simp_all
    with DELETE_OBJECT show ?thesis by (simp add: job_ok_def)
  qed
  moreover have "map dcm_id (update_where P f (db_documents d)) = map dcm_id (db_documents d)"
    using f by (intro map_update_where) simp
  ultimately show ?thesis using content_okD [OF ok] by (simp add: content_ok_def)
qed

lemma appended_job_keeps_content:
  assumes ok: "content_ok U d" and j: "job_ok U d j" "job_id j \<notin> job_id ` set (db_jobs d)"
    and one: "\<And>k. k \<in> set (db_jobs d) \<Longrightarrow> job_job_type j = PROCESS_DOCUMENT \<Longrightarrow> job_job_type k = PROCESS_DOCUMENT \<Longrightarrow>
      payload_uuid U k ''document_version_id'' \<noteq> payload_uuid U j ''document_version_id''"
  shows "content_ok U (d\<lparr>db_jobs := db_jobs d @ [j]\<rparr>)" (is "content_ok U ?d")
proof -
  have off: "offers ?d x v = offers d x v" for x v by (rule offers_cong) simp_all
  have job: "job_ok U ?d k = job_ok U d k" for k
    by (cases "job_job_type k") (simp_all add: job_ok_def process_job_ok_def delete_job_ok_def)
  have "one_job_each U (db_jobs ?d)"
    unfolding one_job_each_def
  proof (intro ballI impI)
    fix a b assume ab: "a \<in> set (db_jobs ?d)" "b \<in> set (db_jobs ?d)" "job_job_type a = PROCESS_DOCUMENT"
      "job_job_type b = PROCESS_DOCUMENT" "payload_uuid U a ''document_version_id'' = payload_uuid U b ''document_version_id''"
    then consider "a \<in> set (db_jobs d)" "b \<in> set (db_jobs d)" | "a = j" "b = j"
      | "a = j" "b \<in> set (db_jobs d)" | "a \<in> set (db_jobs d)" "b = j" by auto
    then show "job_id a = job_id b"
    proof cases
      case 1
      with ab content_okD(6) [OF ok] show ?thesis unfolding one_job_each_def by blast
    qed (use ab one in auto)
  qed
  then show ?thesis using content_okD [OF ok] j unfolding content_ok_def off job by auto
qed

lemma activated_version_keeps_content:
  assumes ok: "content_ok U d" and fin: "\<And>j. j \<in> set (db_jobs d) \<Longrightarrow> job_job_type j = PROCESS_DOCUMENT \<Longrightarrow>
      payload_uuid U j ''document_version_id'' = Inr i \<Longrightarrow> job_state j = COMPLETED"
  shows "content_ok U (d\<lparr>db_versions := update_where (\<lambda>y. P y \<and> ver_id y = i) (\<lambda>y. y\<lparr>ver_status := V_ACTIVE\<rparr>) (db_versions d)\<rparr>)"
    (is "content_ok U ?d")
proof -
  define g where "g y = (if P y \<and> ver_id y = i then y\<lparr>ver_status := V_ACTIVE\<rparr> else y)" for y
  have same: "ver_id (g y) = ver_id y" "ver_document_id (g y) = ver_document_id y" "ver_workspace_id (g y) = ver_workspace_id y"
      "ver_status y = V_ACTIVE \<Longrightarrow> ver_status (g y) = V_ACTIVE" "ver_id y \<noteq> i \<Longrightarrow> g y = y" for y by (simp_all add: g_def)
  have mem: "g y \<in> set (db_versions ?d)" if "y \<in> set (db_versions d)" for y
    using that by (simp add: set_update_where g_def)
  have off: "offers ?d x v" if o: "offers d x v" for x v
  proof -
    from o obtain y where y: "y \<in> set (db_versions d)" "ver_id y = v" "ver_document_id y = dcm_id x"
        "ver_workspace_id y = dcm_workspace_id x" "ver_status y = V_ACTIVE" unfolding offers_def by blast
    then have "\<exists>y \<in> set (db_versions ?d). ver_id y = v \<and> ver_document_id y = dcm_id x
        \<and> ver_workspace_id y = dcm_workspace_id x \<and> ver_status y = V_ACTIVE"
      by (intro bexI [OF _ mem [OF y(1)]] conjI) (simp_all add: same y)
    moreover have "db_chunks ?d = db_chunks d" by simp
    ultimately show ?thesis using o unfolding offers_def by (simp only: simp_thms)
  qed
  have job: "job_ok U ?d j" if j: "j \<in> set (db_jobs d)" for j
  proof (cases "job_job_type j")
    case PROCESS_DOCUMENT
    with content_okD(5) [OF ok j] obtain y where y: "y \<in> set (db_versions d)"
        "payload_uuid U j ''document_version_id'' = Inr (ver_id y)" "ver_workspace_id y = job_workspace_id j"
        "job_state j \<noteq> COMPLETED \<longrightarrow> ver_status y \<noteq> V_ACTIVE"
      by (auto simp: job_ok_def process_job_ok_def)
    have "job_state j \<noteq> COMPLETED \<longrightarrow> ver_status (g y) \<noteq> V_ACTIVE"
      using y(4) fin [OF j PROCESS_DOCUMENT] y(2) same(5) [of y] by (cases "ver_id y = i") auto
    then have "process_job_ok U ?d j"
      unfolding process_job_ok_def
      by (intro bexI [OF _ mem [OF y(1)]] conjI) (simp_all add: same y)
    with PROCESS_DOCUMENT show ?thesis by (simp add: job_ok_def)
  next
    case DELETE_OBJECT
    with content_okD(5) [OF ok j] show ?thesis by (simp add: job_ok_def delete_job_ok_def)
  qed
  have "map ver_id (db_versions ?d) = map ver_id (db_versions d)" by (simp add: map_update_where)
  with content_okD [OF ok] off job show ?thesis by (simp add: content_ok_def)
qed

lemma appended_document_keeps_content:
  assumes ok: "content_ok U d" and x: "dcm_id x \<notin> dcm_id ` set (db_documents d)" "dcm_active_version_id x = None"
  shows "content_ok U (d\<lparr>db_documents := db_documents d @ [x]\<rparr>)" (is "content_ok U ?d")
proof -
  have off: "offers ?d y v = offers d y v" for y v by (rule offers_cong) simp_all
  have "job_ok U ?d k" if "job_ok U d k" for k
    using that by (cases "job_job_type k") (auto simp: job_ok_def process_job_ok_def delete_job_ok_def)
  then show ?thesis using content_okD [OF ok] x unfolding content_ok_def off by auto
qed

lemma appended_version_keeps_content:
  assumes ok: "content_ok U d" and v: "ver_id v \<notin> ver_id ` set (db_versions d)"
  shows "content_ok U (d\<lparr>db_versions := db_versions d @ [v]\<rparr>)" (is "content_ok U ?d")
proof -
  have off: "offers ?d y i" if "offers d y i" for y i using that unfolding offers_def by auto
  have "job_ok U ?d k" if "job_ok U d k" for k
    using that by (cases "job_job_type k") (auto simp: job_ok_def process_job_ok_def delete_job_ok_def)
  with off show ?thesis using content_okD [OF ok] v unfolding content_ok_def by auto
qed

lemma upload_keeps_content:
  assumes ok: "content_ok U d"
    and up: "upload_document_version U S scan ls w u di q n (tenant_on d u w) fs = (Inr r, t', fs')"
  shows "content_ok U (tx_saved t')"
  using up
proof (cases rule: upload_cases)
  case (earlier r0)
  with ok show ?thesis by simp
next
  case (stored r0 pk)
  show ?thesis
  proof (rule store_upload_Inr [OF stored(3)])
    fix p staged x fresh v t1
    let ?j = "process_document_job S w (strip (uq_idempotency_key q)) n v"
    assume plan: "plan_version U S scan w u di q n p staged (tenant_on d u w) = (Inr (x, fresh, v), tenant_on d u w)"
      and fl: "flush_upload x fresh v ?j (tenant_on d u w) = (Inr (), t1)"
      and t': "t' = \<lparr>tx_db = tx_db t1, tx_saved = tx_db t1, tx_tenant = set_tenant_context u (Some w) no_tenant\<rparr>"
    note f = flush_upload_Inr [OF fl, unfolded tenant_on_simps] and pl = plan_version_Inr [OF plan]
    from fl have jid: "job_id ?j \<notin> job_id ` set (db_jobs d)"
      by (auto simp: flush_upload_def action_simps insert_document_def insert_version_def insert_job_def split: if_splits)
    have nv: "ver_id v \<notin> ver_id ` set (db_versions d)" using f by blast
    from pl have "fresh \<Longrightarrow> dcm_active_version_id x = None"
      by (auto simp: choose_document_def simple_actions abind_def query_def raise_action_def split: option.splits)
    then have d1: "content_ok U (d\<lparr>db_documents := db_documents d @ (if fresh then [x] else [])\<rparr>)" (is "content_ok U ?d1")
      using appended_document_keeps_content [OF ok, of x] f ok by (cases fresh) simp_all
    have d2: "content_ok U (?d1\<lparr>db_versions := db_versions ?d1 @ [v]\<rparr>)" (is "content_ok U ?d2")
      by (rule appended_version_keeps_content [OF d1]) (use f in simp)
    have v: "ver_workspace_id v = w" "ver_status v = V_QUEUED"
      by (subst pl [THEN conjunct2, THEN conjunct2, THEN conjunct2, THEN conjunct2], simp)+
    have j: "job_job_type ?j = PROCESS_DOCUMENT" "job_workspace_id ?j = w"
        "payload_uuid U ?j ''document_version_id'' = Inr (ver_id v)"
      by (simp_all add: process_document_job_def payload_uuid_def payload_item_def)
    have "content_ok U (?d2\<lparr>db_jobs := db_jobs ?d2 @ [?j]\<rparr>)"
    proof (rule appended_job_keeps_content [OF d2])
      show "job_ok U ?d2 ?j"
        unfolding job_ok_def j(1) using v j by (auto simp: process_job_ok_def)
      show "job_id ?j \<notin> job_id ` set (db_jobs ?d2)" using jid by simp
      fix k assume k: "k \<in> set (db_jobs ?d2)" "job_job_type k = PROCESS_DOCUMENT"
      then have "job_ok U d k" using content_okD(5) [OF ok] by simp
      then obtain y where "y \<in> set (db_versions d)" "payload_uuid U k ''document_version_id'' = Inr (ver_id y)"
        using k(2) by (auto simp: job_ok_def process_job_ok_def)
      moreover from this(1) have "ver_id y \<noteq> ver_id v" using nv imageI [of y "set (db_versions d)" ver_id] by metis
      ultimately show "payload_uuid U k ''document_version_id'' \<noteq> payload_uuid U ?j ''document_version_id''"
        unfolding j(3) by auto
    qed
    moreover have "tx_saved t' = ?d2\<lparr>db_jobs := db_jobs ?d2 @ [?j]\<rparr>" using f by (simp add: t')
    ultimately show ?thesis by (simp only:)
  qed
qed simp_all

lemma deletion_keeps_content:
  assumes ok: "content_ok U d" and del: "delete_document now i w di access (tenant_on d u w) = (Inr (), t')"
  shows "content_ok U (tx_db t')"
proof -
  let ?t = "tx_tenant (tenant_on d u w)" and ?j = "delete_object_job i w now di"
  let ?d1 = "d\<lparr>db_documents := update_where (\<lambda>y. in_workspace ?t (dcm_workspace_id y) \<and> dcm_id y = di)
      (deleted_row now) (db_documents d)\<rparr>"
  from delete_document_Inr [OF del] obtain x where x: "live_document w di ?t d = Some x"
      "tx_db t' = ?d1\<lparr>db_jobs := db_jobs ?d1 @ [?j]\<rparr>" by auto
  note lx = live_documentD [OF x(1)]
  from del have jid: "i \<notin> job_id ` set (db_jobs d)"
    by (auto simp: delete_document_def action_simps insert_job_def delete_object_job_def update_document_def Let_def
        split: option.splits if_splits)
  have d1: "content_ok U ?d1"
    by (rule updated_documents_keep_content [OF ok]) (simp_all add: deleted_row_def)
  have j: "job_job_type ?j = DELETE_OBJECT" "job_workspace_id ?j = w" "payload_uuid U ?j ''document_id'' = Inr di" "job_id ?j = i"
    by (simp_all add: delete_object_job_def payload_uuid_def payload_item_def)
  have "content_ok U (?d1\<lparr>db_jobs := db_jobs ?d1 @ [?j]\<rparr>)"
  proof (rule appended_job_keeps_content [OF d1])
    have "deleted_row now x \<in> set (db_documents ?d1)"
      using update_where_hit [of x "db_documents d" "\<lambda>y. in_workspace ?t (dcm_workspace_id y) \<and> dcm_id y = di" "deleted_row now"] lx
      by simp
    moreover have "dcm_id (deleted_row now x) = di" "dcm_workspace_id (deleted_row now x) = w"
        "dcm_deleted_at (deleted_row now x) \<noteq> None" using lx by (simp_all add: deleted_row_def)
    ultimately have "delete_job_ok U ?d1 ?j"
      unfolding delete_job_ok_def j(2,3) by (intro bexI [of _ "deleted_row now x"]) simp_all
    then show "job_ok U ?d1 ?j" by (simp add: job_ok_def j(1))
    show "job_id ?j \<notin> job_id ` set (db_jobs ?d1)" using jid by (simp add: j(4))
  qed (simp add: j(1))
  then show ?thesis unfolding x(2) .
qed

lemma document_response_reads: "document_response_of x t = (r, t') \<Longrightarrow> t' = t"
  by (auto simp: document_response_of_def abind_def query_def pure_action_def)

lemma renaming_keeps_content:
  assumes ok: "content_ok U d" and ren: "update_document_route w di name access (tenant_on d u w) = (Inr r, t')"
  shows "content_ok U (tx_db t')"
proof -
  let ?f = "\<lambda>y. y\<lparr>dcm_display_name := name\<rparr>"
  have "\<exists>i. update_document (tx_tenant (tenant_on d u w)) i ?f d = Inr (tx_db t')"
    using ren by (auto simp: update_document_route_def action_simps split: option.splits dest!: document_response_reads)
  then obtain i where x: "update_document (tx_tenant (tenant_on d u w)) i ?f d = Inr (tx_db t')" ..
  have "offers d (?f y) v" if "y \<in> set (db_documents d)" "dcm_active_version_id (?f y) = Some v" for y v
    using content_okD(4) [OF ok that(1)] that(2) by (simp add: offers_def)
  then show ?thesis
    unfolding update_document_Inr(1) [OF x] by (intro updated_documents_keep_content [OF ok]) simp_all
qed

text \<open>The records stored are of the document: the trigger of the table has checked it.\<close>

lemma insert_chunks_scope:
  "rfold (insert_chunk t) d rows = Inr d' \<Longrightarrow> c \<in> set rows \<Longrightarrow> chunk_scope_valid t d c"
proof (induction rows arbitrary: d)
  case (Cons r rows)
  from Cons.prems(1) obtain d1 where d1: "insert_chunk t d r = Inr d1" "rfold (insert_chunk t) d1 rows = Inr d'"
    by (auto simp: result_simps)
  then have r: "chunk_scope_valid t d r" "d1 = d\<lparr>db_chunks := db_chunks d @ [r]\<rparr>"
    by (auto simp: insert_chunk_def split: if_splits)
  have "chunk_scope_valid t d1 c = chunk_scope_valid t d c"
    by (simp add: r(2) chunk_scope_valid_def select_versions_def select_documents_def)
  with Cons.IH [OF d1(2)] Cons.prems(2) r(1) show ?case by auto
qed simp

lemma replaced_scope:
  assumes "replace_version t ws records d = Inr d'" "r \<in> set records"
  shows "chunk_scope_valid t d (chunk_row ws r)"
proof -
  from assms obtain d0 where d0: "rfold (insert_chunk t) d0 (map (chunk_row ws) records) = Inr d'"
      "db_versions d0 = db_versions d" "db_documents d0 = db_documents d"
    by (cases records) (auto simp: replace_version_def Let_def split: if_splits)
  from insert_chunks_scope [OF d0(1), of "chunk_row ws r"] assms(2) have "chunk_scope_valid t d0 (chunk_row ws r)" by simp
  then show ?thesis using d0(2,3) by (simp add: chunk_scope_valid_def select_versions_def select_documents_def)
qed

lemma stored_document:
  assumes ok: "content_ok U d" and run: "session_begin (job_workspace_id j) (store_index now j w vi records) d = (Inr (), d')"
    and r: "r \<in> set records" "chk_version_id (emb_chunk r) = vi" and v: "v \<in> set (db_versions d)" "ver_id v = vi"
  shows "chk_document_id (emb_chunk r) = ver_document_id v"
proof -
  let ?t = "tenant_on d SERVICE_USER_ID (job_workspace_id j)"
  from run obtain t' where t': "store_index now j w vi records ?t = (Inr (), t')"
    unfolding session_begin_Inr by blast
  from store_index_Inr [OF t', unfolded tenant_on_simps] obtain d1 where
    "replace_version (tx_tenant ?t) (job_workspace_id j) records d = Inr d1" .
  from replaced_scope [OF this r(1)] obtain y where y: "y \<in> set (db_versions d)" "ver_id y = vi"
      "ver_document_id y = chk_document_id (emb_chunk r)"
    by (auto simp: chunk_scope_valid_def chunk_row_def Let_def select_versions_def r(2))
  have "y = v" using same_row [OF content_okD(2) [OF ok] y(1) v(1)] y(2) v(2) by simp
  with y(3) show ?thesis by simp
qed

lemma index_keeps_content:
  assumes ok: "content_ok U d" and run: "session_begin (job_workspace_id j) (store_index now j w vi records) d = (Inr (), d')"
    and j: "claimed d j" "job_job_type j = PROCESS_DOCUMENT" "payload_uuid U j ''document_version_id'' = Inr vi"
    and rec: "\<forall>r \<in> set records. chk_version_id (emb_chunk r) = vi"
  shows "content_ok U d'"
proof -
  let ?ws = "job_workspace_id j"
  from store_index_stored [OF run rec] obtain x v row where i:
    "x \<in> set (db_documents d)" "dcm_workspace_id x = ?ws" "dcm_deleted_at x = None"
    "v \<in> set (db_versions d)" "ver_id v = vi" "ver_document_id v = dcm_id x" "ver_workspace_id v = ?ws"
    "row \<in> set (db_jobs d)" "job_id row = job_id j" "job_workspace_id row = ?ws" "owns now w row" "records \<noteq> []"
    "d' = d\<lparr>db_chunks := filter (\<lambda>c. \<not> version_rows ?ws vi c) (db_chunks d) @ map (chunk_row ?ws) records,
        db_versions := update_where (\<lambda>y. ver_workspace_id y = ?ws \<and> ver_id y = vi) (\<lambda>y. y\<lparr>ver_status := V_ACTIVE\<rparr>) (db_versions d),
        db_jobs := update_where (\<lambda>y. job_workspace_id y = ?ws \<and> job_id y = job_id j) completed_row (db_jobs d),
        db_documents := update_where (\<lambda>y. dcm_workspace_id y = ?ws \<and> dcm_id y = dcm_id x) (activated_row vi) (db_documents d)\<rparr>"
    unfolding index_stored_def by blast
  let ?d1 = "d\<lparr>db_chunks := filter (\<lambda>c. \<not> version_rows ?ws vi c) (db_chunks d) @ map (chunk_row ?ws) records\<rparr>"
  let ?d2 = "?d1\<lparr>db_jobs := update_where (\<lambda>y. job_workspace_id y = ?ws \<and> job_id y = job_id j) completed_row (db_jobs ?d1)\<rparr>"
  let ?d3 = "?d2\<lparr>db_versions := update_where (\<lambda>y. ver_workspace_id y = ?ws \<and> ver_id y = vi)
      (\<lambda>y. y\<lparr>ver_status := V_ACTIVE\<rparr>) (db_versions ?d2)\<rparr>"
  from j(1) obtain r where r: "r \<in> set (db_jobs d)" "same_job r j" unfolding claimed_def by blast
  have "r = row"
    using same_row [OF content_okD(3) [OF ok] r(1) i(8)] r(2) i(9) unfolding same_job_def by simp
  with r(2) have same: "same_job row j" by simp
  then have row: "job_job_type row = PROCESS_DOCUMENT" "payload_uuid U row ''document_version_id'' = Inr vi"
    using j(2,3) payload_uuid_same [OF same, of U "''document_version_id''"] by (simp_all add: same_job_def)
  have "job_state row \<noteq> COMPLETED" using i(11) by (auto simp: owns_def)
  then have pending: "ver_status v \<noteq> V_ACTIVE" by (rule process_job_of(2) [OF ok i(8) row i(4,5)])
  have unoffered: "dcm_active_version_id y \<noteq> Some vi" if "y \<in> set (db_documents d)" for y
  proof
    assume "dcm_active_version_id y = Some vi"
    from content_okD(4) [OF ok that this] obtain z where "z \<in> set (db_versions d)" "ver_id z = vi" "ver_status z = V_ACTIVE"
      unfolding offers_def by blast
    with same_row [OF content_okD(2) [OF ok] this(1) i(4)] i(5) pending show False by simp
  qed
  have d1: "content_ok U ?d1"
    by (rule erased_chunks_keep_content [OF ok]) (use unoffered in \<open>auto simp: version_rows_def\<close>)
  have d2: "content_ok U ?d2"
  proof (rule marks_keep_content [OF d1])
    show "list_all2 job_moves (db_jobs ?d1) (db_jobs ?d2)"
      by (simp, intro moved_rows same_job_rows disjI2) (simp add: completed_row_def)
  qed (simp_all add: list_all2_refl)
  have d3: "content_ok U ?d3"
  proof (rule activated_version_keeps_content [OF d2])
    fix k assume k: "k \<in> set (db_jobs ?d2)" "job_job_type k = PROCESS_DOCUMENT" "payload_uuid U k ''document_version_id'' = Inr vi"
    from k(1) obtain k0 where k0: "k0 \<in> set (db_jobs d)"
        "k = (if job_workspace_id k0 = ?ws \<and> job_id k0 = job_id j then completed_row k0 else k0)"
      by (auto simp: set_update_where)
    then have "same_job k0 k" by simp
    then have k0': "job_job_type k0 = PROCESS_DOCUMENT" "payload_uuid U k0 ''document_version_id'' = Inr vi"
      using k(2,3) payload_uuid_same [OF \<open>same_job k0 k\<close>, of U "''document_version_id''"] by (simp_all add: same_job_def)
    have "job_id k0 = job_id row"
      by (rule one_jobD [OF content_okD(6) [OF ok] k0(1) i(8) k0'(1) row(1)]) (simp only: k0'(2) row(2))
    then have "k0 = row" by (rule same_row [OF content_okD(3) [OF ok] k0(1) i(8)])
    with k0(2) i(9,10) show "job_state k = COMPLETED" by (simp add: completed_row_def)
  qed
  have "content_ok U (?d3\<lparr>db_documents := update_where (\<lambda>y. dcm_workspace_id y = ?ws \<and> dcm_id y = dcm_id x)
      (activated_row vi) (db_documents ?d3)\<rparr>)" (is "content_ok U ?d4")
  proof (rule updated_documents_keep_content [OF d3])
    fix y i0 assume y: "y \<in> set (db_documents ?d3)" "dcm_workspace_id y = ?ws \<and> dcm_id y = dcm_id x"
      "dcm_active_version_id (activated_row vi y) = Some i0"
    then have yx: "y = x" using same_row [OF content_okD(1) [OF ok] _ i(1)] by simp
    have i0: "i0 = vi" using y(3) by (simp add: activated_row_def)
    have hd: "hd records \<in> set records" using i(12) by simp
    with rec have vhd: "chk_version_id (emb_chunk (hd records)) = vi" by blast
    have chunk: "chunk_row ?ws (hd records) \<in> set (db_chunks ?d3)" using hd by simp
    have facts: "row_version_id (chunk_row ?ws (hd records)) = vi" "row_workspace_id (chunk_row ?ws (hd records)) = ?ws"
      "row_document_id (chunk_row ?ws (hd records)) = dcm_id x"
      "row_pipeline_version (chunk_row ?ws (hd records)) = pipeline_version PIPELINE"
      using vhd stored_document [OF ok run hd vhd i(4,5)] i(6) by (simp_all add: chunk_row_def Let_def)
    have version: "v\<lparr>ver_status := V_ACTIVE\<rparr> \<in> set (db_versions ?d3)"
      using update_where_hit [of v "db_versions d" "\<lambda>y. ver_workspace_id y = ?ws \<and> ver_id y = vi"
          "\<lambda>y. y\<lparr>ver_status := V_ACTIVE\<rparr>"] i(4,5,7) by simp
    show "offers ?d3 (activated_row vi y) i0"
      unfolding offers_def yx i0
    proof (intro conjI bexI [OF _ version] bexI [OF _ chunk])
    qed (use facts i(2,3,5-7) in \<open>simp_all add: activated_row_def\<close>)
  qed (simp_all add: activated_row_def)
  moreover have "d' = ?d4" unfolding i(13) by (rule db.equality) simp_all
  ultimately show ?thesis by (simp only:)
qed

section \<open>Every reachable state\<close>

lemma step_keeps_content:
  assumes "lifecycle_step U d d'" "content_ok U d"
  shows "content_ok U d'"
  using assms
proof (induction rule: lifecycle_step.induct)
  case (accounts d' d)
  then have "offers d' x v = offers d x v" "job_ok U d' k = job_ok U d k" for x v k
    by (cases "job_job_type k"; simp add: offers_def job_ok_def process_job_ok_def delete_job_ok_def)+
  with accounts show ?case by (simp add: content_ok_def)
qed (auto intro: upload_keeps_content deletion_keeps_content renaming_keeps_content retry_keeps_content claim_keeps_content
  begin_keeps_content renewal_keeps_content index_keeps_content failure_keeps_content erasure_keeps_content)

lemma run_keeps_content: "lifecycle_run U d d' \<Longrightarrow> content_ok U d \<Longrightarrow> content_ok U d'"
  by (induction rule: lifecycle_run.induct) (auto dest: step_keeps_content)

lemma no_content: "db_documents d = [] \<Longrightarrow> db_versions d = [] \<Longrightarrow> db_jobs d = [] \<Longrightarrow> content_ok U d"
  by (simp add: content_ok_def one_job_each_def)

section \<open>What is deleted stays deleted\<close>

definition deleted_kept :: "db \<Rightarrow> db \<Rightarrow> bool" where
  "deleted_kept d d' \<longleftrightarrow> (\<forall>x \<in> set (db_documents d). dcm_deleted_at x \<noteq> None \<longrightarrow>
     (\<exists>x' \<in> set (db_documents d'). dcm_id x' = dcm_id x \<and> dcm_deleted_at x' = dcm_deleted_at x)
     \<and> (\<forall>c \<in> set (db_chunks d'). row_document_id c = dcm_id x \<longrightarrow> c \<in> set (db_chunks d)))"

lemma deleted_keptI:
  assumes "\<And>x. x \<in> set (db_documents d) \<Longrightarrow> dcm_deleted_at x \<noteq> None \<Longrightarrow>
      \<exists>x' \<in> set (db_documents d'). dcm_id x' = dcm_id x \<and> dcm_deleted_at x' = dcm_deleted_at x"
    and "\<And>x c. x \<in> set (db_documents d) \<Longrightarrow> dcm_deleted_at x \<noteq> None \<Longrightarrow> c \<in> set (db_chunks d') \<Longrightarrow>
      row_document_id c = dcm_id x \<Longrightarrow> c \<in> set (db_chunks d)"
  shows "deleted_kept d d'"
  using assms unfolding deleted_kept_def by blast

lemma deleted_kept_more:
  assumes "set (db_documents d) \<subseteq> set (db_documents d')" "set (db_chunks d') \<subseteq> set (db_chunks d)"
  shows "deleted_kept d d'"
  using assms by (intro deleted_keptI) auto

lemma deleted_kept_trans:
  assumes "deleted_kept d d1" "deleted_kept d1 d2"
  shows "deleted_kept d d2"
proof (rule deleted_keptI)
  fix x assume x: "x \<in> set (db_documents d)" "dcm_deleted_at x \<noteq> None"
  with assms(1) obtain x1 where x1: "x1 \<in> set (db_documents d1)" "dcm_id x1 = dcm_id x" "dcm_deleted_at x1 = dcm_deleted_at x"
    unfolding deleted_kept_def by blast
  with assms(2) x(2) obtain x2 where "x2 \<in> set (db_documents d2)" "dcm_id x2 = dcm_id x1" "dcm_deleted_at x2 = dcm_deleted_at x1"
    unfolding deleted_kept_def by metis
  with x1 show "\<exists>x' \<in> set (db_documents d2). dcm_id x' = dcm_id x \<and> dcm_deleted_at x' = dcm_deleted_at x" by auto
  fix c assume "c \<in> set (db_chunks d2)" "row_document_id c = dcm_id x"
  with assms(2) x1 x(2) have "c \<in> set (db_chunks d1)" unfolding deleted_kept_def by metis
  with assms(1) x \<open>row_document_id c = dcm_id x\<close> show "c \<in> set (db_chunks d)" unfolding deleted_kept_def by blast
qed

text \<open>Updates of one live document leave the deleted ones.\<close>

lemma live_update_keeps_deleted:
  assumes "content_ok U d" "x \<in> set (db_documents d)" "dcm_deleted_at x = None"
    and "db_documents d' = update_where (\<lambda>y. P y \<and> dcm_id y = dcm_id x) f (db_documents d)"
    and "\<And>c y. y \<in> set (db_documents d) \<Longrightarrow> dcm_deleted_at y \<noteq> None \<Longrightarrow> c \<in> set (db_chunks d') \<Longrightarrow>
      row_document_id c = dcm_id y \<Longrightarrow> c \<in> set (db_chunks d)"
  shows "deleted_kept d d'"
proof (rule deleted_keptI)
  fix y assume y: "y \<in> set (db_documents d)" "dcm_deleted_at y \<noteq> None"
  then have "dcm_id y \<noteq> dcm_id x" using same_row [OF content_okD(1) [OF assms(1)] y(1) assms(2)] assms(3) by auto
  with y(1) have "y \<in> set (db_documents d')" unfolding assms(4) by (simp add: set_update_where)
  then show "\<exists>x' \<in> set (db_documents d'). dcm_id x' = dcm_id y \<and> dcm_deleted_at x' = dcm_deleted_at y" by blast
qed (rule assms(5))

lemma marks_keep_deleted: "only_marks U j d d' \<Longrightarrow> deleted_kept d d'"
  by (rule deleted_kept_more) (simp_all add: only_marks_def)

lemma step_keeps_deleted:
  assumes "lifecycle_step U d d'" "content_ok U d"
  shows "deleted_kept d d'"
  using assms
proof (induction rule: lifecycle_step.induct)
  case (upload S scan ls w u di q n d fs r t' fs')
  have "set (db_documents d) \<subseteq> set (db_documents (tx_saved t')) \<and> db_chunks (tx_saved t') = db_chunks d"
    using upload.hyps
  proof (cases rule: upload_cases)
    case (stored r0 pk)
    show ?thesis
      by (rule store_upload_Inr [OF stored(3)]) (auto dest: flush_upload_Inr)
  qed simp_all
  then show ?case by (intro deleted_kept_more) auto
next
  case (deletion now i w di access d u t')
  from delete_document_Inr [OF deletion.hyps] obtain x where x: "live_document w di (tx_tenant (tenant_on d u w)) d = Some x"
      "tx_db t' = d\<lparr>db_documents := update_where (\<lambda>y. in_workspace (tx_tenant (tenant_on d u w)) (dcm_workspace_id y) \<and> dcm_id y = di)
        (deleted_row now) (db_documents d), db_jobs := db_jobs d @ [delete_object_job i w now di]\<rparr>" by auto
  note l = live_documentD [OF x(1)]
  show ?case
    by (rule live_update_keeps_deleted [OF deletion.prems, of x]) (use l in \<open>simp_all add: x(2)\<close>)
next
  case (renaming w di name access d u r t')
  then have "\<exists>x. live_document w di (tx_tenant (tenant_on d u w)) d = Some x
      \<and> update_document (tx_tenant (tenant_on d u w)) (dcm_id x) (\<lambda>y. y\<lparr>dcm_display_name := name\<rparr>) d = Inr (tx_db t')"
    by (auto simp: update_document_route_def action_simps split: option.splits dest!: document_response_reads)
  then obtain x where x: "live_document w di (tx_tenant (tenant_on d u w)) d = Some x"
      "update_document (tx_tenant (tenant_on d u w)) (dcm_id x) (\<lambda>y. y\<lparr>dcm_display_name := name\<rparr>) d = Inr (tx_db t')" by blast
  note l = live_documentD [OF x(1)]
  show ?case
    by (rule live_update_keeps_deleted [OF renaming.prems, of x]) (use l in \<open>simp_all add: update_document_Inr(1) [OF x(2)]\<close>)
next
  case (retry now i w d u j d')
  then have "d' = update_job (tx_tenant (tenant_on d u w)) i (retried_row now) d"
    by (auto simp: retry_job_def split: option.splits if_splits)
  then show ?case by (intro deleted_kept_more) (simp_all add: update_job_def)
next
  case (claim locked now w n s d js d')
  then have "db_documents d' = db_documents d \<and> db_chunks d' = db_chunks d" by (auto simp: claim_jobs_def Let_def)
  then show ?case by (intro deleted_kept_more) simp_all
next
  case (begin_job j now w d d')
  then show ?case
    by (auto simp: session_begin_Inr dest: begin_processing_marks intro: marks_keep_deleted)
next
  case (renewal j now s w d r d')
  then have "with_owned_job (renewed_row now s) now (job_id j) w (tx_tenant (tenant_on d SERVICE_USER_ID (job_workspace_id j))) d
      = Inr (r, d')" by (auto simp: session_begin_Inr job_action_Inr renew_lease_def)
  from owned_marks [OF this] show ?case by (intro marks_keep_deleted) simp
next
  case (index j now w vi records d d')
  from store_index_stored [OF index.hyps(1,5)] obtain x v where i: "x \<in> set (db_documents d)" "dcm_deleted_at x = None"
      "v \<in> set (db_versions d)" "ver_id v = vi" "ver_document_id v = dcm_id x"
      "db_chunks d' = filter (\<lambda>c. \<not> version_rows (job_workspace_id j) vi c) (db_chunks d) @ map (chunk_row (job_workspace_id j)) records"
      "db_documents d' = update_where (\<lambda>y. dcm_workspace_id y = job_workspace_id j \<and> dcm_id y = dcm_id x) (activated_row vi) (db_documents d)"
    unfolding index_stored_def by auto
  show ?case
  proof (rule live_update_keeps_deleted [OF index.prems i(1,2,7)])
    fix c y assume c: "y \<in> set (db_documents d)" "dcm_deleted_at y \<noteq> None" "c \<in> set (db_chunks d')" "row_document_id c = dcm_id y"
    have "dcm_id y \<noteq> dcm_id x" using same_row [OF content_okD(1) [OF index.prems] c(1) i(1)] c(2) i(2) by auto
    moreover have "row_document_id (chunk_row (job_workspace_id j) r) = dcm_id x" if "r \<in> set records" for r
      using stored_document [OF index.prems index.hyps(1) that _ i(3,4)] index.hyps(5) that i(5)
      by (simp add: chunk_row_def Let_def)
    ultimately show "c \<in> set (db_chunks d)" using c(3,4) i(6) by auto
  qed
next
  case (failure j now draw message w e d d')
  then show ?case
    by (auto simp: session_begin_Inr dest: fail_job_marks intro: marks_keep_deleted)
next
  case (erasure j now w di d d')
  let ?t = "tx_tenant (tenant_on d SERVICE_USER_ID (job_workspace_id j))"
  from erasure.hyps(1) obtain r where
    "with_owned_job completed_row now (job_id j) w ?t (delete_document_chunks ?t (job_workspace_id j) di d) = Inr (r, d')"
    by (auto simp: session_begin_Inr erase_chunks_def abind_Inr job_action_Inr mark_completed_def simple_actions)
  then have "d' = update_job ?t (job_id j) completed_row (delete_document_chunks ?t (job_workspace_id j) di d)"
    using with_owned_job_update by blast
  then show ?case by (intro deleted_kept_more) (auto simp: update_job_def delete_document_chunks_def)
next
  case (accounts d' d)
  then show ?case by (intro deleted_kept_more) simp_all
qed

lemma run_keeps_deleted: "lifecycle_run U d d' \<Longrightarrow> content_ok U d \<Longrightarrow> deleted_kept d d'"
proof (induction rule: lifecycle_run.induct)
  case (stop d)
  then show ?case by (intro deleted_kept_more) simp_all
next
  case (step d d1 d2)
  then show ?case using step_keeps_deleted step_keeps_content deleted_kept_trans by blast
qed

section \<open>Properties\<close>

text \<open>C1: what a document offers is searchable, in every reachable state. After any sequence of uploads,
  renamings, deletions, retries and steps of workers, from tables without documents: if a document has
  an active version, then it is not deleted, that version is one of its own and has been indexed, and
  chunks of it are among the rows that a search of its workspace ranks.\<close>

theorem active_documents_searchable:
  assumes "lifecycle_run U d d'" "db_documents d = []" "db_versions d = []" "db_jobs d = []"
    and "x \<in> set (db_documents d')" "dcm_active_version_id x = Some v" "cur_workspace t = Some (dcm_workspace_id x)"
  shows "dcm_deleted_at x = None
    \<and> (\<exists>y \<in> set (db_versions d'). ver_id y = v \<and> ver_document_id y = dcm_id x \<and> ver_status y = V_ACTIVE)
    \<and> (\<exists>c \<in> set (active_rows t (dcm_workspace_id x) d'). row_document_id c = dcm_id x \<and> row_version_id c = v)"
proof -
  have "content_ok U d'" using run_keeps_content [OF assms(1)] no_content assms(2-4) by blast
  from content_okD(4) [OF this assms(5,6)] have o: "offers d' x v" .
  then obtain c where c: "c \<in> set (db_chunks d')" "row_version_id c = v" "row_document_id c = dcm_id x"
      "row_workspace_id c = dcm_workspace_id x" "row_pipeline_version c = pipeline_version PIPELINE"
    unfolding offers_def by blast
  then have "c \<in> set (active_rows t (dcm_workspace_id x) d')"
    using assms(5-7) o
    by (auto simp: active_rows_def select_chunks_def in_active_scope_def select_documents_def in_workspace_def list_ex_iff
        offers_def)
  with c o show ?thesis unfolding offers_def by blast
qed

text \<open>C12: deletion is final. Once a reachable state has a deleted document, then whatever requests and
  workers do afterwards, indexing jobs of its versions included: the document stays deleted, it never
  has an active version, and no chunk of it is stored that was not there already, so that none is ever there
  again after the job that erases them.\<close>

theorem deletion_is_final:
  assumes "lifecycle_run U d0 d" "db_documents d0 = []" "db_versions d0 = []" "db_jobs d0 = []"
    and "x \<in> set (db_documents d)" "dcm_deleted_at x \<noteq> None" "lifecycle_run U d d'"
  shows "(\<exists>x' \<in> set (db_documents d'). dcm_id x' = dcm_id x \<and> dcm_deleted_at x' = dcm_deleted_at x
      \<and> dcm_active_version_id x' = None)
    \<and> {c \<in> set (db_chunks d'). row_document_id c = dcm_id x} \<subseteq> set (db_chunks d)"
proof -
  have ok: "content_ok U d" using run_keeps_content [OF assms(1)] no_content assms(2-4) by blast
  then have ok': "content_ok U d'" using run_keeps_content [OF assms(7)] by blast
  have kept: "deleted_kept d d'" by (rule run_keeps_deleted [OF assms(7) ok])
  with assms(5,6) obtain x' where x': "x' \<in> set (db_documents d')" "dcm_id x' = dcm_id x" "dcm_deleted_at x' = dcm_deleted_at x"
    unfolding deleted_kept_def by blast
  have "dcm_active_version_id x' = None"
  proof (rule ccontr)
    assume "dcm_active_version_id x' \<noteq> None"
    then obtain v where "dcm_active_version_id x' = Some v" by blast
    from content_okD(4) [OF ok' x'(1) this] x'(3) assms(6) show False by (simp add: offers_def)
  qed
  with x' kept assms(5,6) show ?thesis unfolding deleted_kept_def by blast
qed

section \<open>Witnesses\<close>

text \<open>An upload, the claim of its job, and the transaction that stores its chunks.\<close>

lemma shop_first_version:
  "\<exists>x v d1. lifecycle_step ascii_only shop_db d1
    \<and> d1 = shop_db\<lparr>db_documents := [x], db_versions := [v], db_jobs := [process_document_job default_settings 3 (lit ''k1'') shop_draws v]\<rparr>
    \<and> dcm_id x = 4 \<and> dcm_workspace_id x = 3 \<and> dcm_deleted_at x = None \<and> dcm_display_name x \<noteq> []
    \<and> ver_id v = 5 \<and> ver_document_id v = 4 \<and> ver_workspace_id v = 3"
proof -
  let ?q = "shop_upload ''help.txt''"
  obtain r t' fs' where up: "upload_document_version ascii_only default_settings noop_scan sample_store 3 1 None ?q
     shop_draws (tenant_on shop_db 1 3) sample_files = (Inr r, t', fs')" using shop_uploaded by blast
  have step: "lifecycle_step ascii_only shop_db (tx_saved t')" by (rule upload [OF up])
  from up show ?thesis
  proof (cases rule: upload_cases)
    case (earlier r0)
    with shop_first shop_key [of "''help.txt''"] show ?thesis by simp
  next
    case (stored r0 pk)
    show ?thesis
    proof (rule store_upload_Inr [OF stored(3)])
      fix p staged x fresh v t1
      assume plan: "plan_version ascii_only default_settings noop_scan 3 1 None ?q shop_draws p staged (tenant_on shop_db 1 3)
          = (Inr (x, fresh, v), tenant_on shop_db 1 3)"
        and fl: "flush_upload x fresh v (process_document_job default_settings 3 (strip (uq_idempotency_key ?q)) shop_draws v)
          (tenant_on shop_db 1 3) = (Inr (), t1)"
        and t': "t' = \<lparr>tx_db = tx_db t1, tx_saved = tx_db t1, tx_tenant = set_tenant_context 1 (Some 3) no_tenant\<rparr>"
      note pl = plan_version_Inr [OF plan]
      from choose_document_Inr [OF pl [THEN conjunct1]] have x: "fresh" "dcm_id x = 4" "dcm_workspace_id x = 3" "dcm_deleted_at x = None"
        by (simp_all add: shop_draws_def)
      have v: "ver_id v = 5" "ver_document_id v = 4" "ver_workspace_id v = 3"
        by (subst pl [THEN conjunct2, THEN conjunct2, THEN conjunct2, THEN conjunct2], simp add: x shop_draws_def)+
      have "dcm_display_name x \<noteq> []"
        using fl x(1) by (auto simp: flush_upload_def action_simps insert_document_def split: if_splits)
      moreover have "tx_saved t' = shop_db\<lparr>db_documents := [x], db_versions := [v],
          db_jobs := [process_document_job default_settings 3 (lit ''k1'') shop_draws v]\<rparr>"
        using flush_upload_Inr [OF fl] x(1) by (simp add: t' shop_key) (simp add: shop_db_def)
      ultimately show ?thesis using step x v by blast
    qed
  qed simp_all
qed

lemma lifecycle_run_snoc: "lifecycle_run U d d1 \<Longrightarrow> lifecycle_step U d1 d2 \<Longrightarrow> lifecycle_run U d d2"
  by (induction rule: lifecycle_run.induct) (auto intro: lifecycle_run.intros)

lemma claim_only_job:
  assumes "db_jobs d = [j]" "job_state j = QUEUED" "job_available_at j \<le> now"
  shows "claim_jobs {} now (lit ''w1'') 1 60 no_tenant d
    = ([lease_to (lit ''w1'') now 60 j], d\<lparr>db_jobs := [lease_to (lit ''w1'') now 60 j]\<rparr>)"
  using assms by (simp add: claim_jobs_def claimable_def select_jobs_def job_visible_def job_due_def set_worker_context_def lit_def)

lemma first_index_stored:
  assumes rows: "db_documents d = [x]" "db_versions d = [v]" "db_chunks d = []" "db_jobs d = [j]"
    and x: "dcm_id x = 4" "dcm_workspace_id x = 3" "dcm_deleted_at x = None" "dcm_display_name x \<noteq> []"
    and v: "ver_id v = 5" "ver_document_id v = 4" "ver_workspace_id v = 3"
    and j: "job_workspace_id j = 3" "owns 9 (lit ''w1'') j"
  shows "\<exists>d'. session_begin (job_workspace_id j) (store_index 9 j (lit ''w1'') 5 sample_records) d = (Inr (), d')"
proof -
  let ?t = "tx_tenant (tenant_on d SERVICE_USER_ID 3)"
  have ne: "lit ''Ask within 5 days.'' \<noteq> []" by (simp add: lit_def)
  obtain d1 where d1: "replace_version ?t 3 sample_records d = Inr d1"
    using ne rows x(1,2) v
    by (simp add: replace_version_def sample_records_def record_ok_def isfinite_def list_all_iff insert_chunk_def
        chunk_scope_valid_def select_versions_def select_documents_def chunk_row_def sample_chunk_def Let_def page_ok_def)
  from replace_version_Inr [OF d1] rows have r: "db_versions d1 = [v]" "db_documents d1 = [x]" "db_jobs d1 = [j]" by auto
  have finds: "find_version 5 ?t d = Some v" "find_document 4 ?t d = Some x"
    using rows x v by (simp_all add: find_version_def find_document_def select_versions_def select_documents_def)
  let ?d2 = "set_version_status ?t 5 V_ACTIVE d1"
  have d2: "db_versions ?d2 = [v\<lparr>ver_status := V_ACTIVE\<rparr>]" "db_documents ?d2 = [x]" "db_jobs ?d2 = [j]"
    using r v by (simp_all add: set_version_status_def)
  have completed: "mark_completed 9 (job_id j) (lit ''w1'') ?t ?d2 = Inr (completed_row j, update_job ?t (job_id j) completed_row ?d2)"
    using d2 j by (auto simp: mark_completed_def with_owned_job_def require_owned_job_def select_jobs_def job_visible_def owns_def)
  let ?d3 = "update_job ?t (job_id j) completed_row ?d2"
  have "\<exists>d4. update_document ?t 4 (activated_row 5) ?d3 = Inr d4"
    using d2 x v
    by (simp add: update_document_def Let_def update_job_def active_version_valid_def select_versions_def activated_row_def)
  then obtain d4 where d4: "update_document ?t 4 (activated_row 5) ?d3 = Inr d4" ..
  have "\<exists>t'. store_index 9 j (lit ''w1'') 5 sample_records (tenant_on d SERVICE_USER_ID 3) = (Inr (), t')"
    using finds d1 completed d4 x v j(1)
    by (simp add: store_index_def abind_def query_def guard_def pure_action_def statement_def change_def job_action_def)
  then show ?thesis by (auto simp: session_begin_Inr j(1))
qed

theorem active_documents_searchable_witness:
  "\<exists>d x. lifecycle_run ascii_only shop_db d \<and> x \<in> set (db_documents d) \<and> dcm_active_version_id x = Some 5
    \<and> (\<exists>c \<in> set (active_rows sample_tenant 3 d). row_document_id c = 4 \<and> row_version_id c = 5)"
proof -
  obtain x v d1 where d1: "lifecycle_step ascii_only shop_db d1"
    "d1 = shop_db\<lparr>db_documents := [x], db_versions := [v], db_jobs := [process_document_job default_settings 3 (lit ''k1'') shop_draws v]\<rparr>"
    and x: "dcm_id x = 4" "dcm_workspace_id x = 3" "dcm_deleted_at x = None" "dcm_display_name x \<noteq> []"
    and v: "ver_id v = 5" "ver_document_id v = 4" "ver_workspace_id v = 3"
    using shop_first_version by blast
  define j where "j = lease_to (lit ''w1'') 8 60 (process_document_job default_settings 3 (lit ''k1'') shop_draws v)"
  define d2 where "d2 = d1\<lparr>db_jobs := [j]\<rparr>"
  have claim: "claim_jobs {} 8 (lit ''w1'') 1 60 no_tenant d1 = ([j], d2)"
    unfolding d2_def j_def by (rule claim_only_job) (simp_all add: d1(2) process_document_job_def shop_draws_def)
  have j: "job_workspace_id j = 3" "job_job_type j = PROCESS_DOCUMENT" "owns 9 (lit ''w1'') j"
      "payload_uuid ascii_only j ''document_version_id'' = Inr 5"
    by (simp_all add: j_def lease_to_def process_document_job_def owns_def seconds_def lit_def payload_uuid_def payload_item_def v)
  have rows: "db_documents d2 = [x]" "db_versions d2 = [v]" "db_chunks d2 = []" "db_jobs d2 = [j]"
    by (simp_all add: d2_def d1(2) shop_db_def)
  obtain d where d: "session_begin (job_workspace_id j) (store_index 9 j (lit ''w1'') 5 sample_records) d2 = (Inr (), d)"
    using first_index_stored [OF rows x v j(1,3)] by blast
  have rec: "\<forall>r \<in> set sample_records. chk_version_id (emb_chunk r) = 5" by (simp add: sample_records_def sample_chunk_def)
  have "lifecycle_step ascii_only d2 d"
    by (rule index [OF d _ j(2,4) rec]) (simp add: claimed_def rows)
  then have run: "lifecycle_run ascii_only shop_db d"
    using d1(1) lifecycle_step.claim [OF claim] lifecycle_run.intros by blast
  from store_index_stored [OF d rec] have docs: "db_documents d = [x\<lparr>dcm_active_version_id := Some 5\<rparr>]"
    unfolding index_stored_def j(1) by (auto simp: rows x activated_row_def)
  have "\<exists>c \<in> set (active_rows sample_tenant (dcm_workspace_id (x\<lparr>dcm_active_version_id := Some 5\<rparr>)) d).
      row_document_id c = dcm_id (x\<lparr>dcm_active_version_id := Some 5\<rparr>) \<and> row_version_id c = 5"
    by (rule active_documents_searchable [OF run, THEN conjunct2, THEN conjunct2])
      (simp_all add: shop_db_def docs sample_tenant_def x)
  then show ?thesis using run docs x by (intro exI [of _ d] exI [of _ "x\<lparr>dcm_active_version_id := Some 5\<rparr>"]) simp
qed

lemma first_deleted:
  assumes "db_documents d = [x]" "db_jobs d = [j]" "db_workspaces d = db_workspaces shop_db"
    and "dcm_id x = 4" "dcm_workspace_id x = 3" "dcm_deleted_at x = None" "dcm_display_name x \<noteq> []"
    and "job_id j = 6" "job_job_type j = PROCESS_DOCUMENT"
  shows "\<exists>t'. delete_document 9 8 3 4 access (tenant_on d 1 3) = (Inr (), t') \<and> db_documents (tx_db t') = [deleted_row 9 x]"
proof -
  have live: "live_document 3 4 (tx_tenant (tenant_on d 1 3)) d = Some x"
    using assms by (simp add: live_document_def select_documents_def)
  have "\<exists>d1. update_document (tx_tenant (tenant_on d 1 3)) 4 (deleted_row 9) d = Inr d1 \<and> db_jobs d1 = [j]
      \<and> db_workspaces d1 = db_workspaces shop_db \<and> db_documents d1 = [deleted_row 9 x]"
    using assms by (simp add: update_document_def Let_def deleted_row_def active_version_valid_def)
  then obtain d1 where d1: "update_document (tx_tenant (tenant_on d 1 3)) 4 (deleted_row 9) d = Inr d1" "db_jobs d1 = [j]"
      "db_workspaces d1 = db_workspaces shop_db" "db_documents d1 = [deleted_row 9 x]" by blast
  have "insert_job (tx_tenant (tenant_on d 1 3)) (delete_object_job 8 3 9 4) d1
      = Inr (d1\<lparr>db_jobs := [j, delete_object_job 8 3 9 4]\<rparr>)"
    using d1(2,3) assms(8,9) by (simp add: insert_job_def delete_object_job_def shop_db_def)
  with live d1 assms(4) show ?thesis
    by (simp add: delete_document_def abind_def query_def statement_def)
qed

theorem deletion_is_final_witness:
  "\<exists>d x d'. lifecycle_run ascii_only shop_db d \<and> x \<in> set (db_documents d) \<and> dcm_deleted_at x = Some 9
    \<and> d' = snd (claim_jobs {} 10 (lit ''w1'') 2 60 no_tenant d) \<and> {c \<in> set (db_chunks d'). row_document_id c = dcm_id x} \<subseteq> set (db_chunks d)"
proof -
  obtain x v d1 where d1: "lifecycle_step ascii_only shop_db d1"
    "d1 = shop_db\<lparr>db_documents := [x], db_versions := [v], db_jobs := [process_document_job default_settings 3 (lit ''k1'') shop_draws v]\<rparr>"
    and x: "dcm_id x = 4" "dcm_workspace_id x = 3" "dcm_deleted_at x = None" "dcm_display_name x \<noteq> []"
    using shop_first_version by blast
  define access where "access = \<lparr>ac_user = hd (db_users shop_db), ac_membership = hd (db_memberships shop_db)\<rparr>"
  have rows: "db_documents d1 = [x]" "db_jobs d1 = [process_document_job default_settings 3 (lit ''k1'') shop_draws v]"
    "db_workspaces d1 = db_workspaces shop_db" by (simp_all add: d1(2))
  obtain t' where t': "delete_document 9 8 3 4 access (tenant_on d1 1 3) = (Inr (), t')" "db_documents (tx_db t') = [deleted_row 9 x]"
    using first_deleted [OF rows x] by (auto simp: process_document_job_def shop_draws_def)
  have run: "lifecycle_run ascii_only shop_db (tx_db t')"
    by (rule lifecycle_run_snoc [OF lifecycle_run.step [OF d1(1) lifecycle_run.stop] deletion [OF t'(1)]])
  obtain js d' where c: "claim_jobs {} 10 (lit ''w1'') 2 60 no_tenant (tx_db t') = (js, d')" by fastforce
  have "lifecycle_run ascii_only (tx_db t') d'"
    by (rule lifecycle_run.step [OF claim [OF c] lifecycle_run.stop])
  from deletion_is_final [OF run _ _ _ _ _ this, of "deleted_row 9 x"]
  have "{c \<in> set (db_chunks d'). row_document_id c = dcm_id (deleted_row 9 x)} \<subseteq> set (db_chunks (tx_db t'))"
    by (simp add: t'(2) shop_db_def deleted_row_def)
  then show ?thesis
    using run c t'(2) by (intro exI [of _ "tx_db t'"] exI [of _ "deleted_row 9 x"] exI [of _ d']) (simp add: deleted_row_def)
qed

end
