(* ===== verification/Service.thy ===== *)
theory Service
  imports Worker
begin

text \<open>
  The service as a whole, across the accounts, the workspace and document routes, the uploads, the queue and
  the worker: \<open>service_run ws\<close> is everything it does for the workspaces \<open>ws\<close>. The locale \<open>statement_laws\<close> is an interface
  between the database and the rest: given a relation between the tables before and after, and that
  every statement the program issues respects it, every action, every request and every run of the service
  does. The collection \<open>safety\<close> holds the rules that carry the relation through composed actions.
\<close>

named_theorems safety "actions that respect the relation of a locale statement_laws"

section \<open>Statements\<close>

text \<open>Statements, updates and calls of the queue that respect a relation, begun under tenants that fit.\<close>

definition statement_keeps :: "(tenant \<Rightarrow> bool) \<Rightarrow> (db \<Rightarrow> db \<Rightarrow> bool) \<Rightarrow> (tenant \<Rightarrow> db \<Rightarrow> db result) \<Rightarrow> bool" where
  "statement_keeps fits keeps f \<longleftrightarrow> (\<forall>t d d'. fits t \<longrightarrow> f t d = Inr d' \<longrightarrow> keeps d d')"

definition change_keeps :: "(tenant \<Rightarrow> bool) \<Rightarrow> (db \<Rightarrow> db \<Rightarrow> bool) \<Rightarrow> (tenant \<Rightarrow> db \<Rightarrow> db) \<Rightarrow> bool" where
  "change_keeps fits keeps f \<longleftrightarrow> (\<forall>t d. fits t \<longrightarrow> keeps d (f t d))"

definition job_call_keeps :: "(tenant \<Rightarrow> bool) \<Rightarrow> (db \<Rightarrow> db \<Rightarrow> bool) \<Rightarrow> (tenant \<Rightarrow> db \<Rightarrow> (job \<times> db) result) \<Rightarrow> bool" where
  "job_call_keeps fits keeps f \<longleftrightarrow> (\<forall>t d j d'. fits t \<longrightarrow> f t d = Inr (j, d') \<longrightarrow> keeps d d')"

lemmas keeps_defs = statement_keeps_def change_keeps_def job_call_keeps_def

text \<open>
  What the functions of the queue and a claim write to a job: they keep what identifies it and its limit, and count no
  attempt backwards below zero.
\<close>

definition job_updates :: "(job \<Rightarrow> job) set" where
  "job_updates = {f. \<forall>j. same_job j (f j) \<and> job_max_attempts (f j) = job_max_attempts j
     \<and> (0 \<le> job_attempt_count j \<longrightarrow> 0 \<le> job_attempt_count (f j))}"

lemma job_updates [simp]:
  "processing_row \<in> job_updates" "completed_row \<in> job_updates" "renewed_row now n \<in> job_updates"
  "retried_row now \<in> job_updates" "failed_row now draw c m r \<in> job_updates" "lease_to k now n \<in> job_updates"
  by (simp_all add: job_updates_def) (simp_all add: processing_row_def completed_row_def renewed_row_def retried_row_def
      failed_row_def lease_to_def Let_def)

lemma owned_job_keeps:
  assumes "\<And>t d. fits t \<Longrightarrow> keeps d (update_job t i f d)"
  shows "job_call_keeps fits keeps (with_owned_job f now i k)"
  using assms by (auto simp: job_call_keeps_def with_owned_job_def result_simps)

lemma job_calls_keep:
  assumes "\<And>t d i f. fits t \<Longrightarrow> f \<in> job_updates \<Longrightarrow> keeps d (update_job t i f d)"
  shows "job_call_keeps fits keeps (mark_processing now i k)" "job_call_keeps fits keeps (renew_lease now n i k)"
    "job_call_keeps fits keeps (mark_completed now i k)" "job_call_keeps fits keeps (mark_failed now draw c m r i k)"
    "job_call_keeps fits keeps (retry_job now i v)"
proof -
  show "job_call_keeps fits keeps (retry_job now i v)"
    using assms by (auto simp: job_call_keeps_def retry_job_def split: option.splits if_splits)
qed (simp_all add: mark_processing_def renew_lease_def mark_completed_def mark_failed_def assms owned_job_keeps)

section \<open>Actions\<close>

text \<open>
  A transaction on its way from the tables \<open>d0\<close>: the relation leads to what it sees and to what is committed.
  An action is safe if it stays so.
\<close>

definition going :: "(tenant \<Rightarrow> bool) \<Rightarrow> (db \<Rightarrow> db \<Rightarrow> bool) \<Rightarrow> db \<Rightarrow> transaction \<Rightarrow> bool" where
  "going fits keeps d0 t \<longleftrightarrow> fits (tx_tenant t) \<and> keeps d0 (tx_db t) \<and> keeps d0 (tx_saved t)"

definition safe :: "(tenant \<Rightarrow> bool) \<Rightarrow> (db \<Rightarrow> db \<Rightarrow> bool) \<Rightarrow> 'a action \<Rightarrow> bool" where
  "safe fits keeps act \<longleftrightarrow> (\<forall>d0 t. going fits keeps d0 t \<longrightarrow> going fits keeps d0 (snd (act t)))"

lemma safeD: "safe fits keeps act \<Longrightarrow> act t = (r, t') \<Longrightarrow> going fits keeps d0 t \<Longrightarrow> going fits keeps d0 t'"
  unfolding safe_def by (metis snd_conv)

lemma safe_abind [safety]:
  assumes "safe fits keeps m" "\<And>a. safe fits keeps (f a)"
  shows "safe fits keeps (abind m f)"
  unfolding safe_def
proof (intro allI impI)
  fix d0 t assume t: "going fits keeps d0 t"
  obtain r t1 where m: "m t = (r, t1)" by fastforce
  from safeD [OF assms(1) m t] have t1: "going fits keeps d0 t1" .
  show "going fits keeps d0 (snd (abind m f t))"
  proof (cases r)
    case (Inl e)
    then show ?thesis using m t1 by (simp add: abind_def)
  next
    case (Inr a)
    then show ?thesis using m t1 assms(2) [of a] by (simp add: abind_def safe_def)
  qed
qed

lemma safe_on_integrity_error [safety]:
  assumes "safe fits keeps m"
  shows "safe fits keeps (on_integrity_error e m)"
proof -
  have "snd (on_integrity_error e m t) = snd (m t)" for t
    by (auto simp: on_integrity_error_def split: prod.split sum.split)
  then show ?thesis using assms by (simp add: safe_def)
qed

text \<open>What the rest of the system does between the transactions of a job, and the sites a job goes through.\<close>

definition others_keep :: "(db \<Rightarrow> db \<Rightarrow> bool) \<Rightarrow> surroundings \<Rightarrow> bool" where
  "others_keep keeps X \<longleftrightarrow> (\<forall>n d fs. keeps d (fst (su_others X n (d, fs))))"

definition site_kept :: "(db \<Rightarrow> db \<Rightarrow> bool) \<Rightarrow> db \<Rightarrow> 'a \<times> site \<Rightarrow> bool" where
  "site_kept keeps d0 x \<longleftrightarrow> keeps d0 (fst (snd x))"

lemma site_kept_pair [simp]: "site_kept keeps d0 (a, s) \<longleftrightarrow> keeps d0 (fst s)"
  by (simp add: site_kept_def)

lemma then_do_keeps:
  "site_kept keeps d0 m \<Longrightarrow> (\<And>a s. keeps d0 (fst s) \<Longrightarrow> site_kept keeps d0 (f a s)) \<Longrightarrow> site_kept keeps d0 (then_do m f)"
  by (auto simp: then_do_def split: prod.split sum.split)

lemma delete_objects_keeps: "keeps d0 (fst s) \<Longrightarrow> site_kept keeps d0 (delete_objects ls ks s)"
  by (induction ls ks s rule: delete_objects.induct) (auto split: prod.splits sum.splits)

section \<open>The service\<close>

text \<open>
  Everything that changes rows: the account routes, the routes of the workspaces \<open>ws\<close>, the claims of workers on their jobs,
  and the processing of those jobs, between whose transactions the rest of the service goes on. New workspaces and
  leased rows count among \<open>ws\<close>.
\<close>

inductive service_run :: "unicode \<Rightarrow> password_library \<Rightarrow> jwt_library \<Rightarrow> uuid set \<Rightarrow> db \<Rightarrow> db \<Rightarrow> bool"
  for U P J ws where
  idle: "service_run U P J ws d d"
| after: "service_run U P J ws d d1 \<Longrightarrow> service_run U P J ws d1 d2 \<Longrightarrow> service_run U P J ws d d2"
| register: "rd_workspace_id n \<in> ws \<Longrightarrow> get_db_session (register U P J S n c q) d = (r, d') \<Longrightarrow> service_run U P J ws d d'"
| login: "get_db_session (login U P J S dr c p) d = (r, d') \<Longrightarrow> service_run U P J ws d d'"
| refresh: "get_db_session (refresh U J S dr c cookie) d = (r, d') \<Longrightarrow> service_run U P J ws d d'"
| logout: "get_db_session (logout U S now cookie) d = (r, d') \<Longrightarrow> service_run U P J ws d d'"
| create_workspace: "wd_workspace_id n \<in> ws \<Longrightarrow>
    get_db_session (abind (get_current_principal U J S now creds) (create_workspace n name slug)) d = (r, d') \<Longrightarrow>
    service_run U P J ws d d'"
| update_workspace: "v \<in> ws \<Longrightarrow> workspace_request U J S c manager_roles v (update_workspace v name) d = (r, d') \<Longrightarrow>
    service_run U P J ws d d'"
| manage: "v \<in> ws \<Longrightarrow> manage_request U J S c m v op d = (r, d') \<Longrightarrow> service_run U P J ws d d'"
| update_document: "v \<in> ws \<Longrightarrow> workspace_request U J S c manager_roles v (update_document_route v i name) d = (r, d') \<Longrightarrow>
    service_run U P J ws d d'"
| delete_document: "v \<in> ws \<Longrightarrow> workspace_request U J S c manager_roles v (delete_document now k v i) d = (r, d') \<Longrightarrow>
    service_run U P J ws d d'"
| retry: "v \<in> ws \<Longrightarrow> workspace_request U J S c contributor_roles v (retry_document_job now v i) d = (r, d') \<Longrightarrow>
    service_run U P J ws d d'"
| create_document: "v \<in> ws \<Longrightarrow> create_document U J S scan ls c v q n d fs = (r, d', fs') \<Longrightarrow> service_run U P J ws d d'"
| create_version: "v \<in> ws \<Longrightarrow> create_document_version U J S scan ls c v i q n d fs = (r, d', fs') \<Longrightarrow> service_run U P J ws d d'"
| claim: "claim_jobs locked now k n s no_tenant d = (js, d') \<Longrightarrow>
    \<forall>x \<in> set (db_jobs d). job_id x \<in> job_id ` set js \<longrightarrow> job_workspace_id x \<in> ws \<Longrightarrow> service_run U P J ws d d'"
| process: "job_workspace_id j \<in> ws \<Longrightarrow> (\<And>n d fs. service_run U P J ws d (fst (su_others X n (d, fs)))) \<Longrightarrow>
    process_job X U S ls indexer j k (d, fs) = (d', fs') \<Longrightarrow> service_run U P J ws d d'"

section \<open>The interface\<close>

locale statement_laws =
  fixes fits :: "tenant \<Rightarrow> bool"
    and ours :: "uuid \<Rightarrow> bool"
    and keeps :: "db \<Rightarrow> db \<Rightarrow> bool"
  assumes fits_none: "fits no_tenant"
    and fits_set: "fits t \<Longrightarrow> (\<And>w. v = Some w \<Longrightarrow> ours w) \<Longrightarrow> fits (set_tenant_context u v t)"
    and keeps_refl: "keeps d d"
    and keeps_trans: "keeps d0 d1 \<Longrightarrow> keeps d1 d2 \<Longrightarrow> keeps d0 d2"
    and insert_user_law: "statement_keeps fits keeps (\<lambda>_. insert_user x1)"
    and insert_session_law: "statement_keeps fits keeps (\<lambda>_. insert_session x2)"
    and insert_workspace_law: "statement_keeps fits keeps (\<lambda>t. insert_workspace t x3)"
    and insert_membership_law: "statement_keeps fits keeps (\<lambda>t. insert_membership t x4)"
    and insert_document_law: "statement_keeps fits keeps (\<lambda>t. insert_document t x5)"
    and insert_version_law: "statement_keeps fits keeps (\<lambda>t. insert_version t x6)"
    and insert_job_law: "statement_keeps fits keeps (\<lambda>t. insert_job t x7)"
    and rename_law: "statement_keeps fits keeps (\<lambda>t. rename_row t i name)"
    and rename_document_law: "statement_keeps fits keeps (\<lambda>t. update_document t i (\<lambda>x. x\<lparr>dcm_display_name := name\<rparr>))"
    and delete_document_law: "statement_keeps fits keeps (\<lambda>t. update_document t i (deleted_row now))"
    and activate_law: "statement_keeps fits keeps (\<lambda>t. update_document t i (activated_row ver))"
    and replace_version_law: "statement_keeps fits keeps (\<lambda>t. replace_version t ws records)"
    and revoke_law: "change_keeps fits keeps (\<lambda>_. update_session i (revoked_row now))"
    and sign_out_law: "change_keeps fits keeps (\<lambda>_. update_session i
          (\<lambda>s. s\<lparr>rs_revoked_at := (case rs_revoked_at s of None \<Rightarrow> Some now | z \<Rightarrow> z)\<rparr>))"
    and spend_law: "change_keeps fits keeps (\<lambda>_. update_session i (spent_row now k))"
    and revoke_family_law: "change_keeps fits keeps (\<lambda>_. revoke_family i now)"
    and version_status_law: "change_keeps fits keeps (\<lambda>t. set_version_status t i st)"
    and change_role_law: "change_keeps fits keeps (\<lambda>t. update_membership t i (\<lambda>m. m\<lparr>mem_role := role\<rparr>))"
    and delete_membership_law: "change_keeps fits keeps (\<lambda>t. delete_membership t i)"
    and delete_chunks_law: "change_keeps fits keeps (\<lambda>t. delete_document_chunks t ws i)"
    and update_job_law: "fits t \<Longrightarrow> f \<in> job_updates \<Longrightarrow> keeps d (update_job t i f d)"
    and claim_law: "claim_jobs locked now worker n s no_tenant d = (js, d') \<Longrightarrow>
          \<forall>x \<in> set (db_jobs d). job_id x \<in> job_id ` set js \<longrightarrow> ours (job_workspace_id x) \<Longrightarrow> keeps d d'"
begin

lemmas statement_rules [safety] = insert_user_law insert_session_law insert_workspace_law insert_membership_law
  insert_document_law insert_version_law insert_job_law rename_law rename_document_law delete_document_law
  activate_law replace_version_law

lemmas change_rules [safety] = revoke_law sign_out_law spend_law revoke_family_law version_status_law change_role_law
  delete_membership_law delete_chunks_law

lemma job_call_rules [safety]:
  "job_call_keeps fits keeps (mark_processing now i k)" "job_call_keeps fits keeps (renew_lease now n i k)"
  "job_call_keeps fits keeps (mark_completed now i k)" "job_call_keeps fits keeps (mark_failed now draw c m r i k)"
  "job_call_keeps fits keeps (retry_job now i v)"
  by (rule job_calls_keep; erule (1) update_job_law)+

lemma safe_basic [safety]:
  "safe fits keeps (pure_action a)" "safe fits keeps (raise_action e)" "safe fits keeps (query f)"
  "safe fits keeps (of_result r)" "safe fits keeps (guard b e)" "safe fits keeps commit_action"
  by (auto simp: safe_def going_def pure_action_def raise_action_def query_def of_result_def guard_def
      commit_action_def commit_def fits_none)

lemma safe_set_tenant [safety]: "(\<And>w. v = Some w \<Longrightarrow> ours w) \<Longrightarrow> safe fits keeps (set_tenant u v)"
  by (auto simp: safe_def going_def set_tenant_def fits_set)

lemma safe_statement [safety]: "statement_keeps fits keeps f \<Longrightarrow> safe fits keeps (statement f)"
  by (auto simp: safe_def going_def statement_def statement_keeps_def split: sum.splits) (blast intro: keeps_trans)

lemma safe_change [safety]: "change_keeps fits keeps f \<Longrightarrow> safe fits keeps (change f)"
  by (auto simp: safe_def going_def change_def change_keeps_def intro: keeps_trans)

lemma safe_job_action [safety]: "job_call_keeps fits keeps f \<Longrightarrow> safe fits keeps (job_action f)"
  by (auto simp: safe_def going_def job_action_def job_call_keeps_def split: sum.splits) (blast intro: keeps_trans)

text \<open>Requests and transactions of workers.\<close>

lemma going_ends: "going fits keeps d0 t \<Longrightarrow> going fits keeps d0 (rollback t) \<and> going fits keeps d0 (commit t)"
  by (simp add: going_def rollback_def commit_def fits_none)

lemma going_begin: "going fits keeps d (begin_on d)"
  by (simp add: going_def fits_none keeps_refl)

lemma session_keeps:
  assumes "safe fits keeps act" "get_db_session act d = (r, d')"
  shows "keeps d d'"
proof -
  obtain x t where a: "act (begin_on d) = (x, t)" by fastforce
  from safeD [OF assms(1) a going_begin] assms(2) a show ?thesis
    by (auto simp: going_def get_db_session_def commit_def rollback_def split: sum.splits)
qed

lemma principal_safe [safety]: "safe fits keeps (get_current_principal U J S now creds)"
  unfolding get_current_principal_def by (auto intro!: safety split: option.split sum.split)

lemma require_roles_safe [safety]: "ours v \<Longrightarrow> safe fits keeps (require_workspace_roles roles u v)"
  unfolding require_workspace_roles_def by (auto intro!: safety split: option.split)

lemma request_keeps:
  assumes "workspace_request U J S c roles v route d = (r, d')" "ours v" "\<And>a. safe fits keeps (route a)"
  shows "keeps d d'"
  using session_keeps [OF _ assms(1) [unfolded workspace_request_def]] assms(2,3) by (auto intro!: safety)

lemma worker_session_keeps:
  assumes "safe fits keeps act" "ours v" "session_begin v act d = (r, d')"
  shows "keeps d d'"
  using session_keeps [OF _ assms(3) [unfolded session_begin_def]] assms(1,2) by (auto intro!: safety)

text \<open>The routes.\<close>

lemma issue_session_safe [safety]: "safe fits keeps (issue_session J S r c u fam)"
  unfolding issue_session_def Let_def by (auto intro!: safety)

lemma account_routes_safe [safety]:
  "ours (rd_workspace_id n) \<Longrightarrow> safe fits keeps (register U P J S n c q)" "safe fits keeps (login U P J S r c p)"
  "safe fits keeps (refresh U J S r c cookie)" "safe fits keeps (logout U S now cookie)"
proof -
  show "safe fits keeps (refresh U J S r c cookie)"
    unfolding refresh_def rotate_session_def by (auto intro!: safety split: option.split sum.split prod.split)
  show "safe fits keeps (logout U S now cookie)"
    unfolding logout_def revoke_session_def by (auto intro!: safety split: option.split sum.split)
  show "safe fits keeps (login U P J S r c p)"
    unfolding login_def Let_def by (auto intro!: safety split: option.split prod.split)
  show "ours (rd_workspace_id n) \<Longrightarrow> safe fits keeps (register U P J S n c q)"
    unfolding register_def Let_def by (auto intro!: safety split: prod.split)
qed

lemma workspace_routes_safe [safety]:
  "ours (wd_workspace_id n) \<Longrightarrow> safe fits keeps (create_workspace n name slug u)" "safe fits keeps (update_workspace i name a)"
  "safe fits keeps (manage_route U m i op a)"
proof -
  show "ours (wd_workspace_id n) \<Longrightarrow> safe fits keeps (create_workspace n name slug u)"
    unfolding create_workspace_def Let_def by (auto intro!: safety simp: owned_workspace_def)
  show "safe fits keeps (update_workspace i name a)"
    unfolding update_workspace_def by (auto intro!: safety split: option.split)
  show "safe fits keeps (manage_route U m i op a)"
    unfolding manage_route_def add_member_def update_member_def remove_member_def load_target_membership_def Let_def
    by (cases op) (auto intro!: safety split: option.split)
qed

lemma document_response_safe [safety]: "safe fits keeps (document_response_of x)" "safe fits keeps (upload_response_of r)"
  unfolding document_response_of_def upload_response_of_def by (auto intro!: safety)

lemma document_routes_safe [safety]:
  "safe fits keeps (update_document_route v i name a)" "safe fits keeps (delete_document now k v i a)"
  "safe fits keeps (retry_document_job now v i a)"
proof -
  show "safe fits keeps (update_document_route v i name a)"
    unfolding update_document_route_def by (auto intro!: safety split: option.split)
  show "safe fits keeps (delete_document now k v i a)"
    unfolding delete_document_def by (auto intro!: safety split: option.split)
  show "safe fits keeps (retry_document_job now v i a)"
    unfolding retry_document_job_def by (auto intro!: safety)
qed

text \<open>Uploads.\<close>

lemma flush_upload_safe [safety]: "safe fits keeps (flush_upload x fresh v j)"
  unfolding flush_upload_def by (auto intro!: safety)

lemma record_upload_keeps:
  assumes "record_upload ls v u x fresh y j t fs = (r, pk, t', fs')" "ours v" "going fits keeps d0 t"
  shows "going fits keeps d0 t'"
proof -
  obtain a t1 where f: "flush_upload x fresh y j t = (a, t1)" by fastforce
  have t1: "going fits keeps d0 t1" by (rule safeD [OF flush_upload_safe f assms(3)])
  have "safe fits keeps (set_tenant u (Some v))" using assms(2) by (auto intro!: safety)
  then have "going fits keeps d0 (snd (set_tenant u (Some v) (commit t1)))"
    using going_ends [OF t1] by (simp add: safe_def)
  then show ?thesis using assms(1) f going_ends [OF t1]
    by (auto simp: record_upload_def split: sum.splits prod.splits)
qed

lemma store_upload_keeps:
  assumes "store_upload U S scan ls v u di q n key t fs = (r, pk, t', fs')" "ours v" "going fits keeps d0 t"
  shows "going fits keeps d0 t'"
  using assms record_upload_keeps [OF _ assms(2)]
  by (auto simp: store_upload_def Let_def split: sum.splits prod.splits dest: plan_version_reads)

lemma upload_keeps:
  assumes "upload_document_version U S scan ls v u di q n t fs = (r, t', fs')" "ours v" "going fits keeps d0 t"
  shows "going fits keeps d0 t'"
  using assms store_upload_keeps [OF _ assms(2)]
  by (auto simp: upload_document_version_def Let_def split: sum.splits prod.splits option.splits if_splits
      dest: existing_result_reads)

lemma upload_route_keeps:
  assumes "upload_route U S scan ls v di q n access t fs = (r, t', fs')" "ours v" "going fits keeps d0 t"
  shows "going fits keeps d0 t'"
proof -
  obtain x t1 fs1 where up: "upload_document_version U S scan ls v (usr_id (ac_user access)) di q n t fs = (x, t1, fs1)"
    by (metis prod_cases3)
  then have t1: "going fits keeps d0 t1" by (rule upload_keeps [OF _ assms(2,3)])
  then show ?thesis using assms(1) up safeD [OF document_response_safe(2)]
    by (auto simp: upload_route_def split: sum.splits prod.splits)
qed

lemma file_request_keeps:
  assumes "file_request U J S c roles v route d fs = (r, d', fs')" "ours v"
    and "\<And>a d0 t fs r t' fs'. route a t fs = (r, t', fs') \<Longrightarrow> going fits keeps d0 t \<Longrightarrow> going fits keeps d0 t'"
  shows "keeps d d'"
proof -
  let ?gate = "abind (get_current_principal U J S (cal_now c) (cal_credentials c)) (\<lambda>u. require_workspace_roles roles u v)"
  obtain x t where g: "?gate (begin_on d) = (x, t)" by fastforce
  have "safe fits keeps ?gate" using assms(2) by (auto intro!: safety)
  from safeD [OF this g going_begin] have t: "going fits keeps d t" .
  have saved: "keeps d (tx_saved (rollback t))" if "going fits keeps d t" for t
    using going_ends [OF that] by (simp add: going_def)
  have committed: "keeps d (tx_saved (commit t))" if "going fits keeps d t" for t
    using going_ends [OF that] by (simp add: going_def)
  show ?thesis
  proof (cases x)
    case (Inl e)
    then show ?thesis using assms(1) g saved [OF t] by (simp add: file_request_def)
  next
    case (Inr a)
    obtain y t1 fs1 where route: "route a t fs = (y, t1, fs1)" by (metis prod_cases3)
    have "going fits keeps d t1" by (rule assms(3) [OF route t])
    then show ?thesis using assms(1) g Inr route saved committed by (cases y) (auto simp: file_request_def)
  qed
qed

text \<open>Jobs.\<close>

lemma worker_actions_safe [safety]:
  "safe fits keeps (begin_processing U now j k)" "safe fits keeps (load_work i)" "safe fits keeps (store_index now j k i records)"
  "safe fits keeps (erase_chunks now j k i)" "safe fits keeps (fail_job U now draw msg j k e)"
proof -
  show "safe fits keeps (begin_processing U now j k)"
    unfolding begin_processing_def by (auto intro!: safety split: option.split)
  show "safe fits keeps (load_work i)"
    unfolding load_work_def by (auto intro!: safety split: option.split)
  show "safe fits keeps (store_index now j k i records)"
    unfolding store_index_def by (auto intro!: safety split: option.split)
  show "safe fits keeps (erase_chunks now j k i)"
    unfolding erase_chunks_def by (auto intro!: safety)
  show "safe fits keeps (fail_job U now draw msg j k e)"
    unfolding fail_job_def by (auto intro!: safety split: option.split)
qed

lemma in_session_keeps:
  assumes "others_keep keeps X" "ours v" "safe fits keeps act" "keeps d0 (fst s)"
  shows "site_kept keeps d0 (in_session X n v act s)"
proof -
  obtain d fs where o: "su_others X n s = (d, fs)" by fastforce
  have "keeps (fst s) (fst (su_others X n s))" using assms(1) unfolding others_keep_def by (metis prod.collapse)
  then have "keeps d0 d" using o assms(4) keeps_trans by auto
  then show ?thesis using o worker_session_keeps [OF assms(3,2)]
    by (auto simp: in_session_def split: prod.split intro: keeps_trans)
qed

lemma renew_keeps:
  "others_keep keeps X \<Longrightarrow> ours (job_workspace_id j) \<Longrightarrow> keeps d0 (fst s) \<Longrightarrow>
    site_kept keeps d0 (renew_document_lease X S j k m n s)"
  by (induction m arbitrary: n s) (auto intro!: then_do_keeps in_session_keeps safety)

lemma attempt_job_keeps:
  assumes "others_keep keeps X" "ours (job_workspace_id j)" "keeps d0 (fst s)"
  shows "site_kept keeps d0 (attempt_job X U S ls indexer j k s)"
  using assms unfolding attempt_job_def finish_document_job_def finish_delete_job_def
  by (auto intro!: then_do_keeps in_session_keeps renew_keeps delete_objects_keeps safety split: job_type.split)

lemma process_job_keeps:
  assumes "others_keep keeps X" "ours (job_workspace_id j)"
  shows "keeps (fst s) (fst (process_job X U S ls indexer j k s))"
proof -
  obtain r s1 where a: "attempt_job X U S ls indexer j k s = (r, s1)" by (metis surj_pair)
  have s1: "keeps (fst s) (fst s1)"
    using attempt_job_keeps [OF assms keeps_refl] a by (metis site_kept_pair)
  show ?thesis
  proof (cases r)
    case (Inl e)
    have "site_kept keeps (fst s) (in_session X (3 + su_renewals X) (job_workspace_id j)
        (fail_job U (su_now X (3 + su_renewals X)) (su_draw X) (su_message X) j k e) s1)"
      by (rule in_session_keeps [OF assms worker_actions_safe(5) s1])
    then show ?thesis using a Inl by (simp add: process_job_def site_kept_def)
  qed (use a s1 in \<open>simp add: process_job_def\<close>)
qed


text \<open>The whole service.\<close>

lemma run_keeps:
  assumes "service_run U P J ws d d'" "\<And>v. v \<in> ws \<Longrightarrow> ours v"
  shows "keeps d d'"
  using assms(1)
proof induction
  case (idle d)
  show ?case by (rule keeps_refl)
next
  case (after d d1 d2)
  then show ?case by (blast intro: keeps_trans)
next
  case (register n S c q d r d')
  then show ?case using assms(2) session_keeps [OF account_routes_safe(1)] by metis
next
  case (login S dr c p d r d')
  then show ?case by (rule session_keeps [OF account_routes_safe(2)])
next
  case (refresh S dr c cookie d r d')
  then show ?case by (rule session_keeps [OF account_routes_safe(3)])
next
  case (logout S now cookie d r d')
  then show ?case by (rule session_keeps [OF account_routes_safe(4)])
next
  case (create_workspace n S now creds name slug d r d')
  then have "ours (wd_workspace_id n)" using assms(2) by blast
  then show ?case by (intro session_keeps [OF _ create_workspace.hyps(2)] safety)
next
  case (process j X S ls indexer k d fs d' fs')
  have "others_keep keeps X" using process.IH by (simp add: others_keep_def)
  moreover have "ours (job_workspace_id j)" using process.hyps(1) assms(2) by blast
  ultimately show ?case using process_job_keeps [where s = "(d, fs)"] process.hyps by (metis fst_conv)
next
  case (create_document v S scan ls c q n d fs r d' fs')
  then have v: "ours v" using assms(2) by blast
  show ?case
    by (rule file_request_keeps [OF create_document.hyps(2) [unfolded create_document_def] v]) (rule upload_route_keeps [OF _ v])
next
  case (create_version v S scan ls c i q n d fs r d' fs')
  then have v: "ours v" using assms(2) by blast
  show ?case
    by (rule file_request_keeps [OF create_version.hyps(2) [unfolded create_document_version_def] v])
      (rule upload_route_keeps [OF _ v])
next
  case (claim locked now k n s d js d')
  then show ?case using claim_law assms(2) by blast
qed (use assms(2) in \<open>auto simp: manage_request_def dest!: request_keeps intro!: safety\<close>)

end

end
