(* ===== verification/Isolation.thy ===== *)
theory Isolation
  imports Service
begin

text \<open>
  Tenant isolation, across the whole \<open>Service\<close>. The row policies make every statement under one workspace leave the
  rows of another as they are, so the interface \<open>statement_laws\<close> holds for that relation, and with it every
  run of the service. What the reading routes of a workspace answer depends on that workspace's rows
  alone (\<open>reads\<close>), which again composes; the collection \<open>reading\<close> holds its rules.
\<close>

named_theorems reading "actions that only read their own workspace"

section \<open>The rows of a workspace\<close>

definition tenant_rows :: "uuid \<Rightarrow> db \<Rightarrow> db" where
  "tenant_rows w d =
     \<lparr>db_users = [], db_workspaces = filter (\<lambda>x. ws_id x = w) (db_workspaces d),
      db_memberships = filter (\<lambda>x. mem_workspace_id x = w) (db_memberships d),
      db_documents = filter (\<lambda>x. dcm_workspace_id x = w) (db_documents d),
      db_versions = filter (\<lambda>x. ver_workspace_id x = w) (db_versions d),
      db_chunks = filter (\<lambda>x. row_workspace_id x = w) (db_chunks d),
      db_jobs = filter (\<lambda>x. job_workspace_id x = w) (db_jobs d), db_sessions = []\<rparr>"

lemma tenant_rows_eq:
  "tenant_rows w d' = tenant_rows w d \<longleftrightarrow>
     filter (\<lambda>x. ws_id x = w) (db_workspaces d') = filter (\<lambda>x. ws_id x = w) (db_workspaces d)
   \<and> filter (\<lambda>x. mem_workspace_id x = w) (db_memberships d') = filter (\<lambda>x. mem_workspace_id x = w) (db_memberships d)
   \<and> filter (\<lambda>x. dcm_workspace_id x = w) (db_documents d') = filter (\<lambda>x. dcm_workspace_id x = w) (db_documents d)
   \<and> filter (\<lambda>x. ver_workspace_id x = w) (db_versions d') = filter (\<lambda>x. ver_workspace_id x = w) (db_versions d)
   \<and> filter (\<lambda>x. row_workspace_id x = w) (db_chunks d') = filter (\<lambda>x. row_workspace_id x = w) (db_chunks d)
   \<and> filter (\<lambda>x. job_workspace_id x = w) (db_jobs d') = filter (\<lambda>x. job_workspace_id x = w) (db_jobs d)"
  by (simp add: tenant_rows_def)

text \<open>Updating and deleting rows outside a filter.\<close>

lemma filter_update_outside:
  assumes "\<And>r. r \<in> set rows \<Longrightarrow> P r \<Longrightarrow> \<not> Q r \<and> \<not> Q (f r)"
  shows "filter Q (update_where P f rows) = filter Q rows"
  using assms by (induction rows) auto

lemma filter_within: "(\<And>r. Q r \<Longrightarrow> P r) \<Longrightarrow> filter (\<lambda>r. P r \<and> Q r) rows = filter Q rows"
  by (induction rows) auto

section \<open>Statements under another tenant\<close>

definition elsewhere :: "uuid \<Rightarrow> tenant \<Rightarrow> bool" where
  "elsewhere w t \<longleftrightarrow> cur_workspace t \<noteq> Some w \<and> cur_worker t = None"

definition same_rows :: "uuid \<Rightarrow> db \<Rightarrow> db \<Rightarrow> bool" where
  "same_rows w d d' \<longleftrightarrow> tenant_rows w d' = tenant_rows w d"

lemma elsewhere_outside: "elsewhere w t \<Longrightarrow> in_workspace t v \<Longrightarrow> v \<noteq> w"
  by (auto simp: elsewhere_def in_workspace_def)

lemma elsewhere_job: "elsewhere w t \<Longrightarrow> job_visible t j \<Longrightarrow> job_workspace_id j \<noteq> w"
  by (auto simp: elsewhere_def job_visible_def in_workspace_def)

lemmas same_rows_defs = keeps_defs same_rows_def tenant_rows_eq

text \<open>Row security: an insert, an update or a delete passes for rows of the tenant only.\<close>

lemma inserts_elsewhere:
  "statement_keeps (elsewhere w) (same_rows w) (\<lambda>_. insert_user u)"
  "statement_keeps (elsewhere w) (same_rows w) (\<lambda>_. insert_session s)"
  "statement_keeps (elsewhere w) (same_rows w) (\<lambda>t. insert_workspace t x)"
  "statement_keeps (elsewhere w) (same_rows w) (\<lambda>t. insert_membership t m)"
  "statement_keeps (elsewhere w) (same_rows w) (\<lambda>t. insert_document t c)"
  "statement_keeps (elsewhere w) (same_rows w) (\<lambda>t. insert_version t v)"
  "statement_keeps (elsewhere w) (same_rows w) (\<lambda>t. insert_job t j)"
  by (auto simp: same_rows_defs insert_user_def insert_session_def insert_workspace_def insert_membership_def
      insert_document_def insert_version_def insert_job_def elsewhere_outside split: if_splits)

lemma updates_elsewhere:
  "statement_keeps (elsewhere w) (same_rows w) (\<lambda>t. rename_row t i name)"
  "(\<And>x. dcm_workspace_id (f x) = dcm_workspace_id x) \<Longrightarrow>
    statement_keeps (elsewhere w) (same_rows w) (\<lambda>t. update_document t i f)"
  by (auto simp: same_rows_defs rename_row_def update_document_def Let_def split: if_splits
      dest: elsewhere_outside intro!: filter_update_outside)

lemma replace_version_elsewhere: "statement_keeps (elsewhere w) (same_rows w) (\<lambda>t. replace_version t v records)"
  unfolding statement_keeps_def same_rows_def
proof (intro allI impI)
  fix t d d' assume t: "elsewhere w t" and "replace_version t v records d = Inr d'"
  note r = replace_version_Inr [OF this(2)]
  have "v \<noteq> w" using r t by (auto simp: elsewhere_def)
  then show "tenant_rows w d' = tenant_rows w d"
    using r by (auto simp: tenant_rows_eq version_rows_def chunk_row_def Let_def filter_empty_conv intro!: filter_within)
qed

lemma changes_elsewhere:
  "change_keeps (elsewhere w) (same_rows w) (\<lambda>_. update_session i g)"
  "change_keeps (elsewhere w) (same_rows w) (\<lambda>_. revoke_family i now)"
  "change_keeps (elsewhere w) (same_rows w) (\<lambda>t. set_version_status t i st)"
  "change_keeps (elsewhere w) (same_rows w) (\<lambda>t. update_membership t i (\<lambda>m. m\<lparr>mem_role := role\<rparr>))"
  "change_keeps (elsewhere w) (same_rows w) (\<lambda>t. delete_membership t i)"
  "change_keeps (elsewhere w) (same_rows w) (\<lambda>t. delete_document_chunks t ws i)"
  by (auto simp: same_rows_defs update_session_def revoke_family_def set_version_status_def update_membership_def
      delete_membership_def delete_document_chunks_def
      dest: elsewhere_outside intro!: filter_update_outside filter_within)

lemma job_updates_workspace: "f \<in> job_updates \<Longrightarrow> job_workspace_id (f j) = job_workspace_id j"
  by (simp add: job_updates_def same_job_def)

lemma update_job_elsewhere: "elsewhere w t \<Longrightarrow> f \<in> job_updates \<Longrightarrow> same_rows w d (update_job t i f d)"
  by (auto simp: update_job_def same_rows_defs job_updates_workspace dest: elsewhere_job intro!: filter_update_outside)

lemma claim_elsewhere:
  assumes "claim_jobs locked now k n s no_tenant d = (js, d')"
    and "\<forall>x \<in> set (db_jobs d). job_id x \<in> job_id ` set js \<longrightarrow> job_workspace_id x \<noteq> w"
  shows "same_rows w d d'"
proof -
  let ?t = "set_worker_context k no_tenant"
  let ?jobs = "claimable ?t locked now n d"
  have d': "d' = d\<lparr>db_jobs := update_where (\<lambda>j. job_visible ?t j \<and> job_id j \<in> set (map job_id ?jobs))
      (lease_to k now s) (db_jobs d)\<rparr>" and js: "js = map (lease_to k now s) ?jobs"
    using assms(1) by (auto simp: claim_jobs_def Let_def)
  have "job_workspace_id x \<noteq> w \<and> job_workspace_id (lease_to k now s x) \<noteq> w"
    if "x \<in> set (db_jobs d)" "job_id x \<in> set (map job_id ?jobs)" for x
    using assms(2) that by (auto simp: js image_image lease_to_def)
  then show ?thesis unfolding d' same_rows_def tenant_rows_eq
    by (simp, intro filter_update_outside) blast
qed

interpretation isolation: statement_laws "elsewhere w" "\<lambda>v. v \<noteq> w" "same_rows w" for w
proof
  show "elsewhere w no_tenant" by (simp add: elsewhere_def)
  show "elsewhere w (set_tenant_context u v t)" if "elsewhere w t" "\<And>x. v = Some x \<Longrightarrow> x \<noteq> w" for u v t
    using that by (auto simp: elsewhere_def)
  show "same_rows w d d" for d by (simp add: same_rows_def)
  show "same_rows w d0 d2" if "same_rows w d0 d1" "same_rows w d1 d2" for d0 d1 d2 using that by (simp add: same_rows_def)
  show "same_rows w d d'" if "claim_jobs locked now k n s no_tenant d = (js, d')"
      "\<forall>x \<in> set (db_jobs d). job_id x \<in> job_id ` set js \<longrightarrow> job_workspace_id x \<noteq> w" for locked now k n s d js d'
    using that by (rule claim_elsewhere)
qed (simp_all add: inserts_elsewhere updates_elsewhere replace_version_elsewhere changes_elsewhere update_job_elsewhere
    deleted_row_def activated_row_def)

section \<open>Reading\<close>

text \<open>Two transactions of one tenant on databases with the same users and the same rows of the workspace.\<close>

definition same_view :: "uuid \<Rightarrow> transaction \<Rightarrow> transaction \<Rightarrow> bool" where
  "same_view w t t' \<longleftrightarrow> tx_tenant t' = tx_tenant t \<and> cur_workspace (tx_tenant t) = Some w \<and> cur_worker (tx_tenant t) = None
     \<and> tenant_rows w (tx_db t) = tenant_rows w (tx_db t') \<and> db_users (tx_db t) = db_users (tx_db t')"

text \<open>The action changes nothing, and returns or raises the same for both.\<close>

definition reads :: "uuid \<Rightarrow> 'a action \<Rightarrow> bool" where
  "reads w act \<longleftrightarrow> (\<forall>t. snd (act t) = t) \<and> (\<forall>t t'. same_view w t t' \<longrightarrow> fst (act t) = fst (act t'))"

lemma readsD: "reads w act \<Longrightarrow> act t = (r, t1) \<Longrightarrow> same_view w t t' \<Longrightarrow> t1 = t \<and> act t' = (r, t')"
  unfolding reads_def by (metis fst_conv prod.collapse snd_conv)

lemma reads_basic [reading]: "reads w (pure_action a)" "reads w (raise_action e)" "reads w (guard b e)"
  by (simp_all add: reads_def pure_action_def raise_action_def guard_def)

lemma reads_query [reading]:
  "(\<And>t t'. same_view w t t' \<Longrightarrow> f (tx_tenant t) (tx_db t) = f (tx_tenant t') (tx_db t')) \<Longrightarrow> reads w (query f)"
  by (simp add: reads_def query_def)

lemma reads_abind [reading]:
  assumes "reads w m" "\<And>a. reads w (f a)"
  shows "reads w (abind m f)"
  unfolding reads_def
proof (intro conjI allI impI)
  have step: "snd (abind m f t) = t \<and> (same_view w t t' \<longrightarrow> fst (abind m f t) = fst (abind m f t'))" for t t'
  proof -
    obtain r t1 where m: "m t = (r, t1)" by fastforce
    have t1: "t1 = t" using assms(1) m unfolding reads_def by (metis snd_conv)
    show ?thesis
    proof (cases r)
      case (Inl e)
      then show ?thesis using m t1 readsD [OF assms(1) m] by (auto simp: abind_def)
    next
      case (Inr a)
      then show ?thesis using m t1 readsD [OF assms(1) m] assms(2) [of a] by (auto simp: abind_def reads_def)
    qed
  qed
  show "snd (abind m f t) = t" for t using step by blast
  show "fst (abind m f t) = fst (abind m f t')" if "same_view w t t'" for t t' using step that by blast
qed

text \<open>What a tenant sees of each table.\<close>

lemma find_in_filter: "find P xs = find (\<lambda>_. True) (filter P xs)"
  by (induction xs) auto

lemma same_view_selects:
  assumes "same_view w t t'"
  shows "select_documents (tx_tenant t) (tx_db t) = select_documents (tx_tenant t') (tx_db t')"
    "select_versions (tx_tenant t) (tx_db t) = select_versions (tx_tenant t') (tx_db t')"
    "select_chunks (tx_tenant t) (tx_db t) = select_chunks (tx_tenant t') (tx_db t')"
    "select_jobs (tx_tenant t) (tx_db t) = select_jobs (tx_tenant t') (tx_db t')"
    "filter (\<lambda>m. mem_workspace_id m = w) (select_memberships (tx_tenant t) (tx_db t))
      = filter (\<lambda>m. mem_workspace_id m = w) (select_memberships (tx_tenant t') (tx_db t'))"
    "find_workspace (tx_tenant t) w (tx_db t) = find_workspace (tx_tenant t') w (tx_db t')"
proof -
  have ws: "in_workspace (tx_tenant t) = (\<lambda>v. v = w)" "in_workspace (tx_tenant t') = (\<lambda>v. v = w)"
    using assms by (auto simp: same_view_def in_workspace_def)
  have worker: "cur_worker (tx_tenant t) = None" "cur_worker (tx_tenant t') = None" using assms by (auto simp: same_view_def)
  have jobs: "job_visible (tx_tenant t) = (\<lambda>j. job_workspace_id j = w)" "job_visible (tx_tenant t') = (\<lambda>j. job_workspace_id j = w)"
    by (simp_all add: fun_eq_iff job_visible_def ws worker)
  have rows: "tenant_rows w (tx_db t) = tenant_rows w (tx_db t')" using assms by (simp add: same_view_def)
  note rows = rows [unfolded tenant_rows_eq]
  show "select_documents (tx_tenant t) (tx_db t) = select_documents (tx_tenant t') (tx_db t')"
    "select_versions (tx_tenant t) (tx_db t) = select_versions (tx_tenant t') (tx_db t')"
    "select_chunks (tx_tenant t) (tx_db t) = select_chunks (tx_tenant t') (tx_db t')"
    "select_jobs (tx_tenant t) (tx_db t) = select_jobs (tx_tenant t') (tx_db t')"
    using rows by (simp_all add: select_documents_def select_versions_def select_chunks_def select_jobs_def ws jobs)
  have members: "filter (\<lambda>m. mem_workspace_id m = w) (select_memberships (tx_tenant x) (tx_db x))
      = filter (\<lambda>m. mem_workspace_id m = w) (db_memberships (tx_db x))" if "in_workspace (tx_tenant x) = (\<lambda>v. v = w)" for x
    using that by (auto simp: select_memberships_def membership_visible_def intro!: filter_cong)
  show "filter (\<lambda>m. mem_workspace_id m = w) (select_memberships (tx_tenant t) (tx_db t))
      = filter (\<lambda>m. mem_workspace_id m = w) (select_memberships (tx_tenant t') (tx_db t'))"
    unfolding members [OF ws(1)] members [OF ws(2)] using rows by blast
  have page: "find_workspace (tx_tenant x) w (tx_db x) = find (\<lambda>_. True) (filter (\<lambda>k. ws_id k = w) (db_workspaces (tx_db x)))"
    if "in_workspace (tx_tenant x) = (\<lambda>v. v = w)" for x
  proof -
    have "find_workspace (tx_tenant x) w (tx_db x) = find (\<lambda>k. ws_id k = w) (db_workspaces (tx_db x))"
      unfolding find_workspace_def select_workspaces_def by (rule find_filter) (simp add: workspace_visible_def that)
    also have "\<dots> = find (\<lambda>_. True) (filter (\<lambda>k. ws_id k = w) (db_workspaces (tx_db x)))"
      by (rule find_in_filter)
    finally show ?thesis .
  qed
  show "find_workspace (tx_tenant t) w (tx_db t) = find_workspace (tx_tenant t') w (tx_db t')"
    unfolding page [OF ws(1)] page [OF ws(2)] using rows by simp
qed

lemma versions_of_reads [reading]: "reads w (query (versions_of i))"
  by (rule reads_query) (simp add: versions_of_def same_view_selects)

lemma response_reads_own [reading]: "reads w (document_response_of x)"
  unfolding document_response_of_def by (auto intro!: reading)

lemma for_each_reads [reading]: "(\<And>x. reads w (f x)) \<Longrightarrow> reads w (for_each f xs)"
  by (induction xs) (auto intro!: reading)

lemma live_document_reads [reading]: "reads w (query (live_document v i))"
  by (rule reads_query) (simp add: live_document_def same_view_selects)

lemma document_reads [reading]:
  "reads w (list_documents v a)" "reads w (get_document v i a)"
proof -
  show "reads w (list_documents v a)"
    unfolding list_documents_def by (auto intro!: reading simp: same_view_selects)
  show "reads w (get_document v i a)"
    unfolding get_document_def by (auto intro!: reading split: option.split simp: same_view_selects)
qed

lemma workspace_reads [reading]: "reads w (get_workspace w a)" "reads w (list_members w a)"
proof -
  show "reads w (get_workspace w a)"
    unfolding get_workspace_def by (auto intro!: reading split: option.split simp: same_view_selects)
  show "reads w (list_members w a)"
    unfolding list_members_def by (rule reads_query) (simp add: same_view_selects, simp add: same_view_def)
qed

lemma rag_service_reads [reading]: "reads w (get_rag_service loaded)"
  by (simp add: reads_def get_rag_service_def of_result_def)

lemma search_reads [reading]: "reads w (search_evidence U gap E S v s n a)"
proof -
  have "reads w (\<lambda>t. (case retrieve U gap E (tx_tenant t) v s n (tx_db t) of
      Inl e \<Rightarrow> (Inl (retrieval_error e), t) | Inr rs \<Rightarrow> (Inr rs, t)))"
    unfolding reads_def
  proof (intro conjI allI impI)
    fix t t' assume view: "same_view w t t'"
    have searches: "search U gap (tx_tenant t) v s x n (tx_db t) = search U gap (tx_tenant t') v s x n (tx_db t')" for x
      using search_noninterference [of "tx_tenant t" w "tx_db t" "tx_db t'"] view
      by (simp add: same_view_def tenant_rows_eq)
    have "retrieve U gap E (tx_tenant t) v s n (tx_db t) = retrieve U gap E (tx_tenant t') v s n (tx_db t')"
      unfolding retrieve_def searches by (rule refl)
    then show "fst (case retrieve U gap E (tx_tenant t) v s n (tx_db t) of
        Inl e \<Rightarrow> (Inl (retrieval_error e), t) | Inr rs \<Rightarrow> (Inr rs, t))
      = fst (case retrieve U gap E (tx_tenant t') v s n (tx_db t') of
        Inl e \<Rightarrow> (Inl (retrieval_error e), t') | Inr rs \<Rightarrow> (Inr rs, t'))"
      by (simp split: sum.split)
  qed (simp split: sum.split)
  then show ?thesis unfolding search_evidence_def by (auto intro!: reading)
qed

text \<open>The gate, too, looks at the users and the workspace's memberships only.\<close>

lemma request_reads:
  assumes "\<And>a. reads w (route a)" "tenant_rows w d1 = tenant_rows w d2" "db_users d1 = db_users d2"
  shows "\<exists>r. workspace_request U J S c roles w route d1 = (r, d1) \<and> workspace_request U J S c roles w route d2 = (r, d2)"
proof -
  have req: "workspace_request U J S c roles w route d = outcome (case get_current_principal U J S (cal_now c) (cal_credentials c) (begin_on d) of
      (Inl e, t) \<Rightarrow> (Inl e, t) | (Inr u, t) \<Rightarrow> abind (require_workspace_roles roles u w) route t)" for d
    by (simp add: workspace_request_def get_db_session_outcome abind_def)
  have same: "authenticated U J S c d1 u = authenticated U J S c d2 u" for u by (rule authenticated_users) (rule assms(3))
  have find_in: "find (\<lambda>m. mem_workspace_id m = w \<and> P m) ms = find P (filter (\<lambda>m. mem_workspace_id m = w) ms)" for P ms
    by (induction ms) auto
  have member: "find (\<lambda>m. mem_workspace_id m = w \<and> P m) (db_memberships d1) = find (\<lambda>m. mem_workspace_id m = w \<and> P m) (db_memberships d2)" for P
    using assms(2) unfolding tenant_rows_eq find_in by simp
  show ?thesis
  proof (cases rule: principal_cases [of U J S c d1])
    case 1
    then have "get_current_principal U J S (cal_now c) (cal_credentials c) (begin_on d2) = (Inl auth_error, begin_on d2)"
      using same by (cases rule: principal_cases [of U J S c d2]) auto
    with 1 show ?thesis by (simp add: req)
  next
    case (2 u)
    have u2: "get_current_principal U J S (cal_now c) (cal_credentials c) (begin_on d2)
        = (Inr u, (begin_on d2)\<lparr>tx_tenant := set_tenant_context (usr_id u) None no_tenant\<rparr>)"
    proof (cases rule: principal_cases [of U J S c d2])
      case 1
      then show ?thesis using 2(1) same by blast
    next
      case (2 u')
      then have "u' = u" using \<open>authenticated U J S c d1 u\<close> same by (auto simp: authenticated_def)
      with 2 show ?thesis by simp
    qed
    have view: "same_view w (tenant_on d1 (usr_id u) w) (tenant_on d2 (usr_id u) w)"
      using assms(2,3) by (simp add: same_view_def)
    have out: "outcome (r, tenant_on d (usr_id u) w) = (r, d)" for r :: "'a result" and d by (cases r) simp_all
    have "\<exists>r. route a (tenant_on d1 (usr_id u) w) = (r, tenant_on d1 (usr_id u) w)
        \<and> route a (tenant_on d2 (usr_id u) w) = (r, tenant_on d2 (usr_id u) w)" for a
      using readsD [OF assms(1) _ view] by (metis surj_pair)
    then have routed: "\<exists>r. outcome (route a (tenant_on d1 (usr_id u) w)) = (r, d1)
        \<and> outcome (route a (tenant_on d2 (usr_id u) w)) = (r, d2)" for a by (metis out)
    show ?thesis
      using routed 2(2) u2 member [of "\<lambda>m. mem_user_id m = usr_id u"]
      by (cases "find (\<lambda>m. mem_workspace_id m = w \<and> mem_user_id m = usr_id u) (db_memberships d2)")
        (auto simp: req abind_def require_roles_cases)
  qed
qed

section \<open>Properties\<close>

text \<open>
  C2: tenants do not touch each other's data. Whatever the service does for other workspaces -- any requests by any
  callers, uploads, retries, deletions, workers that claim and process their jobs, all interleaved, in success and
  in failure -- a workspace's own row, its memberships, documents, versions, chunks and jobs stay exactly as
  they were.
\<close>

theorem tenants_isolated:
  assumes "service_run U P J ws d d'" "w \<notin> ws"
  shows "tenant_rows w d' = tenant_rows w d"
proof -
  have "same_rows w d d'" by (rule isolation.run_keeps [OF assms(1)]) (use assms(2) in blast)
  then show ?thesis by (simp add: same_rows_def)
qed

text \<open>
  C21: a workspace's answers come from its own rows. On two databases that hold the same users and the same rows for
  a workspace, and anything at all for others, every reading route of the workspace -- its page, its members,
  its documents, one document, a search -- answers every caller alike, errors and refusals included, and
  changes neither database.
\<close>

theorem answers_from_own_rows:
  assumes "tenant_rows w d1 = tenant_rows w d2" "db_users d1 = db_users d2"
  shows "(\<exists>r. workspace_request U J S c any_role w (get_workspace w) d1 = (r, d1)
        \<and> workspace_request U J S c any_role w (get_workspace w) d2 = (r, d2))
    \<and> (\<exists>r. workspace_request U J S c any_role w (list_members w) d1 = (r, d1)
        \<and> workspace_request U J S c any_role w (list_members w) d2 = (r, d2))
    \<and> (\<exists>r. workspace_request U J S c any_role w (list_documents w) d1 = (r, d1)
        \<and> workspace_request U J S c any_role w (list_documents w) d2 = (r, d2))
    \<and> (\<exists>r. workspace_request U J S c any_role w (get_document w i) d1 = (r, d1)
        \<and> workspace_request U J S c any_role w (get_document w i) d2 = (r, d2))
    \<and> (\<exists>r. search_request U J S gap loaded c w s n d1 = (r, d1) \<and> search_request U J S gap loaded c w s n d2 = (r, d2))"
  unfolding search_request_def by (intro conjI request_reads [OF _ assms] reading)

section \<open>Witnesses\<close>

text \<open>Workspace 8 beside the workspace 5 of \<open>staff_db\<close>, and workspace 5 renamed.\<close>

definition town_db :: db where
  "town_db = staff_db\<lparr>db_workspaces := [owned_workspace 8 (lit ''Port'') (lit ''port'') 2 0, owned_workspace 5 (lit ''Acme'') (lit ''acme'') 1 0],
     db_memberships := [owner_membership 9 8 2 0, owner_membership 6 5 1 0]\<rparr>"

definition renamed_town :: db where
  "renamed_town = town_db\<lparr>db_workspaces := [owned_workspace 8 (lit ''Port'') (lit ''port'') 2 0, owned_workspace 5 (lit ''Mill'') (lit ''acme'') 1 0]\<rparr>"

lemma town_renamed:
  "\<exists>r. workspace_request ascii_only sample_jwt default_settings staff_caller manager_roles 5 (update_workspace 5 (lit ''Mill'')) town_db
    = (Inr r, renamed_town)"
proof -
  have caller: "authenticated ascii_only sample_jwt default_settings staff_caller town_db staff_owner"
    using staff_authenticated authenticated_users [of town_db staff_db] by (simp add: town_db_def)
  have id: "usr_id staff_owner = 1" by (simp add: staff_owner_def)
  have member: "member_of town_db (usr_id staff_owner) 5 (owner_membership 6 5 1 0)"
    by (simp add: member_of_def town_db_def owner_membership_def id)
  have name: "strip (lit ''Mill'') = lit ''Mill''" by code_simp
  have found: "find_workspace (tx_tenant (tenant_on town_db 1 5)) 5 town_db = Some (owned_workspace 5 (lit ''Acme'') (lit ''acme'') 1 0)"
    unfolding find_workspace_def select_workspaces_def
    by (subst find_filter) (auto simp: workspace_visible_def town_db_def owned_workspace_def)
  have row: "rename_row (tx_tenant (tenant_on town_db 1 5)) 5 (lit ''Mill'') town_db = Inr renamed_town"
    by (simp add: rename_row_def renamed_town_def) (simp add: town_db_def owned_workspace_def lit_def)
  let ?a = "\<lparr>ac_user = staff_owner, ac_membership = owner_membership 6 5 1 0\<rparr>"
  have "\<exists>r. update_workspace 5 (lit ''Mill'') ?a (tenant_on town_db 1 5) = (Inr r, (tenant_on town_db 1 5)\<lparr>tx_db := renamed_town\<rparr>)"
    by (simp add: update_workspace_def abind_def query_def statement_def pure_action_def found row name)
  then obtain r where r: "update_workspace 5 (lit ''Mill'') ?a (tenant_on town_db 1 5)
      = (Inr r, (tenant_on town_db 1 5)\<lparr>tx_db := renamed_town\<rparr>)" ..
  have "manager_roles = [] \<or> mem_role (owner_membership 6 5 1 0) \<in> set manager_roles"
    by (simp add: manager_roles_def owner_membership_def)
  from admitted_request [OF caller member this, of "update_workspace 5 (lit ''Mill'')"]
  have "workspace_request ascii_only sample_jwt default_settings staff_caller manager_roles 5 (update_workspace 5 (lit ''Mill'')) town_db
      = (Inr r, renamed_town)" unfolding id r outcome_simps by simp
  then show ?thesis ..
qed

theorem tenants_isolated_witness:
  "service_run ascii_only sample_passwords sample_jwt {5} town_db renamed_town \<and> renamed_town \<noteq> town_db
    \<and> tenant_rows 8 renamed_town = tenant_rows 8 town_db"
proof -
  have run: "service_run ascii_only sample_passwords sample_jwt {5} town_db renamed_town"
    using town_renamed service_run.update_workspace [of 5 "{5}"] by blast
  moreover have "db_workspaces renamed_town \<noteq> db_workspaces town_db"
    by (simp add: renamed_town_def town_db_def owned_workspace_def lit_def)
  then have "renamed_town \<noteq> town_db" by metis
  ultimately show ?thesis using tenants_isolated [OF run, of 8] by simp
qed

text \<open>A search in workspace 5, and the same search with chunks of workspace 8 in the table.\<close>

definition crowded_db :: db where
  "crowded_db = help_db\<lparr>db_chunks := chunk_row 8 (hd sample_records) # db_chunks help_db\<rparr>"

theorem answers_from_own_rows_witness:
  "\<exists>es. search_request ascii_only sample_jwt default_settings (\<lambda>_ _. 0) (Inr flat_embedder) staff_caller 5 (lit ''days'') 5 help_db
      = (Inr (pipeline_version PIPELINE, es), help_db)
    \<and> search_request ascii_only sample_jwt default_settings (\<lambda>_ _. 0) (Inr flat_embedder) staff_caller 5 (lit ''days'') 5 crowded_db
      = (Inr (pipeline_version PIPELINE, es), crowded_db)"
proof -
  obtain es where es: "search_request ascii_only sample_jwt default_settings (\<lambda>_ _. 0) (Inr flat_embedder) staff_caller 5
      (lit ''days'') 5 help_db = (Inr (pipeline_version PIPELINE, es), help_db)"
    unfolding search_request_loaded using help_searched by blast
  have "tenant_rows 5 help_db = tenant_rows 5 crowded_db" "db_users help_db = db_users crowded_db"
    by (simp_all add: tenant_rows_def crowded_db_def chunk_row_def Let_def)
  note answers_from_own_rows [OF this, THEN conjunct2, THEN conjunct2, THEN conjunct2, THEN conjunct2,
      of ascii_only sample_jwt default_settings "\<lambda>_ _. 0" "Inr flat_embedder" staff_caller "lit ''days''" 5]
  then show ?thesis using es by auto
qed

end
