(* ===== verification/Integrity.thy ===== *)
theory Integrity
  imports Service "HOL-Library.Sublist"
begin

text \<open>
  The constraints of the schema as one invariant of the tables: primary keys, unique constraints, foreign keys and
  checks, and the two triggers on scope. The database enforces them statement by statement; the
  lemmas say that every statement the program issues, updates and deletions included, keeps all of them, and with
  the interface \<open>statement_laws\<close> every run of the service does. A second relation says what
  no run takes away.
\<close>

section \<open>The constraints, table by table\<close>

text \<open>Each table with the keys it refers to: users \<open>us\<close>, workspaces \<open>ws\<close>, documents and versions with their scope.\<close>

definition users_ok :: "user list \<Rightarrow> bool" where
  "users_ok xs \<longleftrightarrow> distinct (map usr_id xs) \<and> distinct (map usr_email xs)"

definition workspaces_ok :: "uuid set \<Rightarrow> workspace list \<Rightarrow> bool" where
  "workspaces_ok us xs \<longleftrightarrow> distinct (map ws_id xs) \<and> distinct (map ws_slug xs)
     \<and> (\<forall>x \<in> set xs. 2 \<le> length (ws_name x) \<and> ws_created_by x \<in> us)"

definition memberships_ok :: "uuid set \<Rightarrow> uuid set \<Rightarrow> membership list \<Rightarrow> bool" where
  "memberships_ok us ws xs \<longleftrightarrow> distinct (map mem_id xs)
     \<and> distinct (map (\<lambda>x. (mem_workspace_id x, mem_user_id x)) xs)
     \<and> (\<forall>x \<in> set xs. mem_workspace_id x \<in> ws \<and> mem_user_id x \<in> us)"

definition documents_ok :: "uuid set \<Rightarrow> uuid set \<Rightarrow> (uuid \<times> uuid \<times> uuid) set \<Rightarrow> document list \<Rightarrow> bool" where
  "documents_ok us ws vs xs \<longleftrightarrow> distinct (map dcm_id xs)
     \<and> (\<forall>x \<in> set xs. dcm_display_name x \<noteq> [] \<and> dcm_workspace_id x \<in> ws \<and> dcm_created_by x \<in> us
          \<and> (\<forall>v. dcm_active_version_id x = Some v \<longrightarrow> (v, dcm_id x, dcm_workspace_id x) \<in> vs))"

definition versions_ok :: "uuid set \<Rightarrow> uuid set \<Rightarrow> uuid set \<Rightarrow> document_version list \<Rightarrow> bool" where
  "versions_ok us ws ds xs \<longleftrightarrow> distinct (map ver_id xs) \<and> distinct (map ver_object_key xs)
     \<and> distinct (map (\<lambda>x. (ver_document_id x, ver_version_number x)) xs)
     \<and> distinct (map (\<lambda>x. (ver_workspace_id x, ver_document_id x, ver_sha256 x)) xs)
     \<and> (\<forall>x \<in> set xs. 0 < ver_version_number x \<and> 0 \<le> ver_byte_size x \<and> length (ver_sha256 x) = 64
          \<and> ver_workspace_id x \<in> ws \<and> ver_document_id x \<in> ds \<and> ver_created_by x \<in> us)"

definition chunks_ok :: "(uuid \<times> uuid \<times> uuid) set \<Rightarrow> (uuid \<times> uuid) set \<Rightarrow> document_chunk list \<Rightarrow> bool" where
  "chunks_ok vs ds xs \<longleftrightarrow> distinct (map row_chunk_id xs)
     \<and> distinct (map (\<lambda>x. (row_version_id x, row_pipeline_version x, row_chunk_order x)) xs)
     \<and> (\<forall>x \<in> set xs. length (row_chunk_id x) = 64 \<and> row_pipeline_version x = pipeline_version PIPELINE
          \<and> 0 \<le> row_chunk_order x \<and> row_original_text x \<noteq> [] \<and> 0 < row_token_count x \<and> page_ok (row_page_number x)
          \<and> length (row_embedding x) = embedding_dimension PIPELINE
          \<and> (row_version_id x, row_document_id x, row_workspace_id x) \<in> vs \<and> (row_document_id x, row_workspace_id x) \<in> ds)"

definition jobs_ok :: "uuid set \<Rightarrow> job list \<Rightarrow> bool" where
  "jobs_ok ws xs \<longleftrightarrow> distinct (map job_id xs)
     \<and> distinct (map (\<lambda>x. (job_workspace_id x, job_job_type x, job_idempotency_key x)) xs)
     \<and> (\<forall>x \<in> set xs. 0 \<le> job_attempt_count x \<and> 0 < job_max_attempts x \<and> job_workspace_id x \<in> ws)"

definition refresh_sessions_ok :: "uuid set \<Rightarrow> refresh_session list \<Rightarrow> bool" where
  "refresh_sessions_ok us xs \<longleftrightarrow> distinct (map rs_id xs) \<and> distinct (map rs_token_hash xs) \<and> (\<forall>x \<in> set xs. rs_user_id x \<in> us)"

text \<open>The keys of the tables.\<close>

definition user_keys :: "db \<Rightarrow> uuid set" where "user_keys d = usr_id ` set (db_users d)"
definition workspace_keys :: "db \<Rightarrow> uuid set" where "workspace_keys d = ws_id ` set (db_workspaces d)"
definition document_keys :: "db \<Rightarrow> (uuid \<times> uuid) set" where
  "document_keys d = (\<lambda>x. (dcm_id x, dcm_workspace_id x)) ` set (db_documents d)"
definition version_keys :: "db \<Rightarrow> (uuid \<times> uuid \<times> uuid) set" where
  "version_keys d = (\<lambda>x. (ver_id x, ver_document_id x, ver_workspace_id x)) ` set (db_versions d)"

definition tables_ok :: "db \<Rightarrow> bool" where
  "tables_ok d \<longleftrightarrow> users_ok (db_users d) \<and> workspaces_ok (user_keys d) (db_workspaces d)
     \<and> memberships_ok (user_keys d) (workspace_keys d) (db_memberships d)
     \<and> documents_ok (user_keys d) (workspace_keys d) (version_keys d) (db_documents d)
     \<and> versions_ok (user_keys d) (workspace_keys d) (fst ` document_keys d) (db_versions d)
     \<and> chunks_ok (version_keys d) (document_keys d) (db_chunks d) \<and> jobs_ok (workspace_keys d) (db_jobs d)
     \<and> refresh_sessions_ok (user_keys d) (db_sessions d)"

text \<open>More keys do no harm.\<close>

lemma more_keys:
  "us \<subseteq> us' \<Longrightarrow> workspaces_ok us xs1 \<Longrightarrow> workspaces_ok us' xs1"
  "us \<subseteq> us' \<Longrightarrow> ws \<subseteq> ws' \<Longrightarrow> memberships_ok us ws xs2 \<Longrightarrow> memberships_ok us' ws' xs2"
  "us \<subseteq> us' \<Longrightarrow> ws \<subseteq> ws' \<Longrightarrow> vs \<subseteq> vs' \<Longrightarrow> documents_ok us ws vs xs3 \<Longrightarrow> documents_ok us' ws' vs' xs3"
  "us \<subseteq> us' \<Longrightarrow> ws \<subseteq> ws' \<Longrightarrow> fst ` ds \<subseteq> fst ` ds' \<Longrightarrow> versions_ok us ws (fst ` ds) xs4 \<Longrightarrow> versions_ok us' ws' (fst ` ds') xs4"
  "vs \<subseteq> vs' \<Longrightarrow> ds \<subseteq> ds' \<Longrightarrow> chunks_ok vs ds xs5 \<Longrightarrow> chunks_ok vs' ds' xs5"
  "ws \<subseteq> ws' \<Longrightarrow> jobs_ok ws xs6 \<Longrightarrow> jobs_ok ws' xs6"
  "us \<subseteq> us' \<Longrightarrow> refresh_sessions_ok us xs7 \<Longrightarrow> refresh_sessions_ok us' xs7"
  by (simp_all add: workspaces_ok_def memberships_ok_def documents_ok_def versions_ok_def chunks_ok_def jobs_ok_def
      refresh_sessions_ok_def subset_iff)

text \<open>
  A change of the tables that adds keys and takes none away keeps the constraints of the tables it leaves as they are,
  so only the changed tables have to be looked at.
\<close>

lemma tables_okI:
  assumes ok: "tables_ok d" and keys: "user_keys d \<subseteq> user_keys d'" "workspace_keys d \<subseteq> workspace_keys d'"
      "document_keys d \<subseteq> document_keys d'" "version_keys d \<subseteq> version_keys d'"
    and users: "users_ok (db_users d')"
    and ws: "db_workspaces d' = db_workspaces d \<or> workspaces_ok (user_keys d') (db_workspaces d')"
    and mem: "db_memberships d' = db_memberships d \<or> memberships_ok (user_keys d') (workspace_keys d') (db_memberships d')"
    and dcm: "db_documents d' = db_documents d
      \<or> documents_ok (user_keys d') (workspace_keys d') (version_keys d') (db_documents d')"
    and ver: "db_versions d' = db_versions d
      \<or> versions_ok (user_keys d') (workspace_keys d') (fst ` document_keys d') (db_versions d')"
    and row: "db_chunks d' = db_chunks d \<or> chunks_ok (version_keys d') (document_keys d') (db_chunks d')"
    and job: "db_jobs d' = db_jobs d \<or> jobs_ok (workspace_keys d') (db_jobs d')"
    and ses: "db_sessions d' = db_sessions d \<or> refresh_sessions_ok (user_keys d') (db_sessions d')"
  shows "tables_ok d'"
proof -
  note o = ok [unfolded tables_ok_def]
  have fst: "fst ` document_keys d \<subseteq> fst ` document_keys d'" using keys(3) by blast
  show ?thesis unfolding tables_ok_def
  proof (intro conjI)
    show "users_ok (db_users d')" by (rule users)
    show "workspaces_ok (user_keys d') (db_workspaces d')"
      using ws o more_keys(1) [OF keys(1)] by auto
    show "memberships_ok (user_keys d') (workspace_keys d') (db_memberships d')"
      using mem o more_keys(2) [OF keys(1,2)] by auto
    show "documents_ok (user_keys d') (workspace_keys d') (version_keys d') (db_documents d')"
      using dcm o more_keys(3) [OF keys(1,2,4)] by auto
    show "versions_ok (user_keys d') (workspace_keys d') (fst ` document_keys d') (db_versions d')"
      using ver o more_keys(4) [OF keys(1,2) fst] by auto
    show "chunks_ok (version_keys d') (document_keys d') (db_chunks d')"
      using row o more_keys(5) [OF keys(4,3)] by auto
    show "jobs_ok (workspace_keys d') (db_jobs d')"
      using job o more_keys(6) [OF keys(2)] by auto
    show "refresh_sessions_ok (user_keys d') (db_sessions d')"
      using ses o more_keys(7) [OF keys(1)] by auto
  qed
qed

text \<open>The parts of the invariant.\<close>

lemma tables_okD:
  assumes "tables_ok d"
  shows "users_ok (db_users d)" "workspaces_ok (user_keys d) (db_workspaces d)"
    "memberships_ok (user_keys d) (workspace_keys d) (db_memberships d)"
    "documents_ok (user_keys d) (workspace_keys d) (version_keys d) (db_documents d)"
    "versions_ok (user_keys d) (workspace_keys d) (fst ` document_keys d) (db_versions d)"
    "chunks_ok (version_keys d) (document_keys d) (db_chunks d)" "jobs_ok (workspace_keys d) (db_jobs d)"
    "refresh_sessions_ok (user_keys d) (db_sessions d)"
  using assms unfolding tables_ok_def by blast+

lemmas key_defs = user_keys_def workspace_keys_def document_keys_def version_keys_def

section \<open>Inserting\<close>

lemma insert_user_ok:
  assumes "insert_user u d = Inr d'" "tables_ok d"
  shows "tables_ok d'"
  using assms(1) tables_okD(1) [OF assms(2)]
  by (intro tables_okI [OF assms(2)]) (auto simp: insert_user_def key_defs users_ok_def split: if_splits)

lemma insert_session_ok:
  assumes "insert_session s d = Inr d'" "tables_ok d"
  shows "tables_ok d'"
  using assms(1) tables_okD(1) [OF assms(2)] tables_okD(8) [OF assms(2)]
  by (intro tables_okI [OF assms(2)]) (auto simp: insert_session_def key_defs refresh_sessions_ok_def split: if_splits)

lemma insert_workspace_ok:
  assumes "insert_workspace t w d = Inr d'" "tables_ok d"
  shows "tables_ok d'"
  using assms(1) tables_okD(1) [OF assms(2)] tables_okD(2) [OF assms(2)]
  by (intro tables_okI [OF assms(2)]) (auto simp: insert_workspace_def key_defs workspaces_ok_def split: if_splits)

lemma insert_membership_ok:
  assumes "insert_membership t m d = Inr d'" "tables_ok d"
  shows "tables_ok d'"
  using assms(1) tables_okD(1) [OF assms(2)] tables_okD(3) [OF assms(2)]
  by (intro tables_okI [OF assms(2)]; auto simp: insert_membership_def key_defs memberships_ok_def split: if_splits; blast)

lemma active_version_keys:
  "active_version_valid t d x \<Longrightarrow> dcm_active_version_id x = Some v \<Longrightarrow> (v, dcm_id x, dcm_workspace_id x) \<in> version_keys d"
  by (force simp: active_version_valid_def select_versions_def version_keys_def)

lemma insert_document_ok:
  assumes "insert_document t x d = Inr d'" "tables_ok d"
  shows "tables_ok d'"
proof -
  have d': "d' = d\<lparr>db_documents := db_documents d @ [x]\<rparr>" "active_version_valid t d x" "dcm_display_name x \<noteq> []"
      "dcm_id x \<notin> dcm_id ` set (db_documents d)" "dcm_workspace_id x \<in> workspace_keys d" "dcm_created_by x \<in> user_keys d"
    using assms(1) by (auto simp: insert_document_def key_defs split: if_splits)
  have "documents_ok (user_keys d) (workspace_keys d) (version_keys d) (db_documents d @ [x])"
    using tables_okD(4) [OF assms(2)] d' active_version_keys [OF d'(2)] by (auto simp: documents_ok_def)
  with tables_okD(1) [OF assms(2)] show ?thesis
    by (intro tables_okI [OF assms(2)]) (auto simp: d'(1) user_keys_def workspace_keys_def document_keys_def version_keys_def)
qed

lemma insert_version_ok:
  assumes "insert_version t v d = Inr d'" "tables_ok d"
  shows "tables_ok d'"
  using assms(1) tables_okD(1) [OF assms(2)] tables_okD(5) [OF assms(2)]
  by (intro tables_okI [OF assms(2)]; auto simp: insert_version_def key_defs versions_ok_def image_image split: if_splits; blast)

lemma insert_job_ok:
  assumes "insert_job t j d = Inr d'" "tables_ok d"
  shows "tables_ok d'"
  using assms(1) tables_okD(1) [OF assms(2)] tables_okD(7) [OF assms(2)]
  by (intro tables_okI [OF assms(2)]; auto simp: insert_job_def key_defs jobs_ok_def split: if_splits; blast)

lemma chunk_scope_keys:
  assumes "chunk_scope_valid t d c"
  shows "(row_version_id c, row_document_id c, row_workspace_id c) \<in> version_keys d"
    "(row_document_id c, row_workspace_id c) \<in> document_keys d"
proof -
  from assms obtain v x where v: "v \<in> set (db_versions d)" "x \<in> set (db_documents d)" "dcm_id x = ver_document_id v"
      "ver_id v = row_version_id c" "ver_document_id v = row_document_id c" "ver_workspace_id v = row_workspace_id c"
      "dcm_workspace_id x = row_workspace_id c"
    by (auto simp: chunk_scope_valid_def select_versions_def select_documents_def)
  show "(row_version_id c, row_document_id c, row_workspace_id c) \<in> version_keys d"
    unfolding version_keys_def by (rule image_eqI [of _ _ v]) (simp_all add: v)
  show "(row_document_id c, row_workspace_id c) \<in> document_keys d"
    unfolding document_keys_def by (rule image_eqI [of _ _ x]) (simp_all add: v)
qed

lemma insert_chunk_ok:
  assumes "insert_chunk t d c = Inr d'" "tables_ok d"
  shows "tables_ok d'"
proof -
  from assms(1) have d': "d' = d\<lparr>db_chunks := db_chunks d @ [c]\<rparr>" and scope: "chunk_scope_valid t d c"
    and new: "row_chunk_id c \<notin> row_chunk_id ` set (db_chunks d)"
      "\<not> (\<exists>x \<in> set (db_chunks d). row_version_id x = row_version_id c
          \<and> row_pipeline_version x = row_pipeline_version c \<and> row_chunk_order x = row_chunk_order c)"
    and row: "length (row_chunk_id c) = 64 \<and> row_pipeline_version c = pipeline_version PIPELINE
        \<and> 0 \<le> row_chunk_order c \<and> row_original_text c \<noteq> [] \<and> 0 < row_token_count c \<and> page_ok (row_page_number c)
        \<and> length (row_embedding c) = embedding_dimension PIPELINE"
    unfolding insert_chunk_def by (simp_all split: if_splits)
  have "(row_version_id c, row_pipeline_version c, row_chunk_order c)
      \<notin> (\<lambda>x. (row_version_id x, row_pipeline_version x, row_chunk_order x)) ` set (db_chunks d)"
    using new(2) by auto
  with new(1) row tables_okD(6) [OF assms(2)] chunk_scope_keys [OF scope]
  have "chunks_ok (version_keys d) (document_keys d) (db_chunks d @ [c])"
    unfolding chunks_ok_def by simp
  moreover have "version_keys d' = version_keys d" "document_keys d' = document_keys d"
    by (simp_all add: d' version_keys_def document_keys_def)
  ultimately show ?thesis using tables_okD(1) [OF assms(2)]
    by (intro tables_okI [OF assms(2)]) (simp_all add: d' user_keys_def workspace_keys_def)
qed

section \<open>Updating and deleting\<close>

text \<open>An update that keeps a column keeps the set of its values; deleting rows keeps distinct keys distinct.\<close>

lemma image_update_where: "(\<And>r. P r \<Longrightarrow> g (f r) = g r) \<Longrightarrow> g ` set (update_where P f rows) = g ` set rows"
  by (metis list.set_map map_update_where)

lemma rename_row_ok:
  assumes "rename_row t i name d = Inr d'" "tables_ok d"
  shows "tables_ok d'"
proof -
  let ?rows = "update_where (\<lambda>w. in_workspace t (ws_id w) \<and> ws_id w = i) (\<lambda>w. w\<lparr>ws_name := name\<rparr>) (db_workspaces d)"
  have d': "d' = d\<lparr>db_workspaces := ?rows\<rparr>" "2 \<le> length name"
    using assms(1) by (auto simp: rename_row_def split: if_splits)
  have "workspaces_ok (user_keys d) ?rows"
    using tables_okD(2) [OF assms(2)] d'(2) by (auto simp: workspaces_ok_def map_update_where set_update_where)
  then show ?thesis using tables_okD(1) [OF assms(2)]
    by (intro tables_okI [OF assms(2)]) (auto simp: d'(1) key_defs image_update_where)
qed

lemma update_document_ok:
  assumes "update_document t i f d = Inr d'" "tables_ok d"
    and f: "\<And>x. dcm_id (f x) = dcm_id x \<and> dcm_workspace_id (f x) = dcm_workspace_id x \<and> dcm_created_by (f x) = dcm_created_by x"
  shows "tables_ok d'"
proof -
  let ?P = "\<lambda>x. in_workspace t (dcm_workspace_id x) \<and> dcm_id x = i"
  let ?rows = "update_where ?P f (db_documents d)"
  have d': "d' = d\<lparr>db_documents := ?rows\<rparr>"
    and hit: "\<forall>x \<in> set (db_documents d). ?P x \<longrightarrow> dcm_display_name (f x) \<noteq> []
      \<and> (dcm_active_version_id (f x) = dcm_active_version_id x \<or> active_version_valid t d (f x))"
    using assms(1) by (auto simp: update_document_def Let_def split: if_splits)
  note ok = tables_okD(4) [OF assms(2), unfolded documents_ok_def]
  have "(v, dcm_id (f x), dcm_workspace_id (f x)) \<in> version_keys d"
    if "x \<in> set (db_documents d)" "?P x" "dcm_active_version_id (f x) = Some v" for x v
    using hit ok active_version_keys [of t d "f x" v] that f [of x] by metis
  moreover have "map dcm_id ?rows = map dcm_id (db_documents d)" using f by (simp add: map_update_where)
  ultimately have rows: "documents_ok (user_keys d) (workspace_keys d) (version_keys d) ?rows"
    using ok hit f by (auto simp: documents_ok_def set_update_where)
  have keys: "user_keys d' = user_keys d" "workspace_keys d' = workspace_keys d" "version_keys d' = version_keys d"
      "document_keys d' = document_keys d"
    using f by (simp_all add: d' key_defs image_update_where)
  show ?thesis
    by (rule tables_okI [OF assms(2)]) (use keys rows tables_okD(1) [OF assms(2)] in \<open>simp_all add: d'\<close>)
qed

lemma sessions_change_ok:
  assumes "tables_ok d" "\<And>s. rs_id (f s) = rs_id s \<and> rs_token_hash (f s) = rs_token_hash s \<and> rs_user_id (f s) = rs_user_id s"
  shows "tables_ok (d\<lparr>db_sessions := update_where P f (db_sessions d)\<rparr>)"
proof -
  have "refresh_sessions_ok (user_keys d) (update_where P f (db_sessions d))"
    using tables_okD(8) [OF assms(1)] assms(2) by (auto simp: refresh_sessions_ok_def map_update_where set_update_where)
  then show ?thesis using tables_okD(1) [OF assms(1)] by (intro tables_okI [OF assms(1)]) (auto simp: key_defs)
qed

lemma version_status_ok: "tables_ok d \<Longrightarrow> tables_ok (set_version_status t i st d)"
proof -
  assume ok: "tables_ok d"
  let ?rows = "update_where (\<lambda>v. in_workspace t (ver_workspace_id v) \<and> ver_id v = i) (\<lambda>v. v\<lparr>ver_status := st\<rparr>) (db_versions d)"
  have "versions_ok (user_keys d) (workspace_keys d) (fst ` document_keys d) ?rows"
    using tables_okD(5) [OF ok] by (auto simp: versions_ok_def map_update_where set_update_where)
  then show ?thesis using tables_okD(1) [OF ok]
    by (intro tables_okI [OF ok]) (auto simp: set_version_status_def key_defs image_update_where)
qed

lemma memberships_change_ok:
  assumes "tables_ok d" "memberships_ok (user_keys d) (workspace_keys d) rows"
  shows "tables_ok (d\<lparr>db_memberships := rows\<rparr>)"
  using assms(2) tables_okD(1) [OF assms(1)] by (intro tables_okI [OF assms(1)]) (auto simp: key_defs)

lemma change_role_ok: "tables_ok d \<Longrightarrow> tables_ok (update_membership t i (\<lambda>m. m\<lparr>mem_role := role\<rparr>) d)"
  unfolding update_membership_def
  by (rule memberships_change_ok) (auto simp: memberships_ok_def map_update_where set_update_where dest: tables_okD(3))

lemma delete_membership_ok: "tables_ok d \<Longrightarrow> tables_ok (delete_membership t i d)"
  unfolding delete_membership_def
  by (rule memberships_change_ok) (auto simp: memberships_ok_def distinct_map_filter dest: tables_okD(3))

lemma fewer_chunks_ok: "tables_ok d \<Longrightarrow> tables_ok (d\<lparr>db_chunks := filter P (db_chunks d)\<rparr>)"
proof -
  assume ok: "tables_ok d"
  have "chunks_ok (version_keys d) (document_keys d) (filter P (db_chunks d))"
    using tables_okD(6) [OF ok] by (auto simp: chunks_ok_def distinct_map_filter)
  then show ?thesis using tables_okD(1) [OF ok] by (intro tables_okI [OF ok]) (auto simp: key_defs)
qed

lemma replace_version_ok:
  assumes "replace_version t ws records d = Inr d'" "tables_ok d"
  shows "tables_ok d'"
proof -
  obtain P where "rfold (insert_chunk t) (d\<lparr>db_chunks := filter P (db_chunks d)\<rparr>) (map (chunk_row ws) records) = Inr d'"
    using assms(1) by (cases records) (auto simp: replace_version_def Let_def simp del: filter_filter rfold.simps split: if_splits)
  then show ?thesis
    by (rule rfold_invariant) (auto intro: fewer_chunks_ok [OF assms(2)] insert_chunk_ok)
qed

lemma jobs_change_ok:
  assumes "tables_ok d" "f \<in> job_updates"
  shows "tables_ok (d\<lparr>db_jobs := update_where P f (db_jobs d)\<rparr>)"
proof -
  have "jobs_ok (workspace_keys d) (update_where P f (db_jobs d))"
    using tables_okD(7) [OF assms(1)] assms(2)
    by (auto simp: jobs_ok_def job_updates_def same_job_def map_update_where set_update_where)
  then show ?thesis using tables_okD(1) [OF assms(1)] by (intro tables_okI [OF assms(1)]) (auto simp: key_defs)
qed

lemma claim_ok: "claim_jobs locked now k n s t d = (js, d') \<Longrightarrow> tables_ok d \<Longrightarrow> tables_ok d'"
  by (auto simp: claim_jobs_def Let_def intro: jobs_change_ok)

section \<open>Every run\<close>

interpretation integrity: statement_laws "\<lambda>_. True" "\<lambda>_. True" "\<lambda>d d'. tables_ok d \<longrightarrow> tables_ok d'"
proof
  show "tables_ok d \<longrightarrow> tables_ok d'" if "claim_jobs locked now k n s no_tenant d = (js, d')" for locked now k n s d js d'
    using claim_ok [OF that] by blast
  show "tables_ok d \<longrightarrow> tables_ok (update_job t i f d)" if "f \<in> job_updates" for t i f d
    using jobs_change_ok that unfolding update_job_def by blast
qed (auto simp: keeps_defs update_session_def revoke_family_def delete_document_chunks_def deleted_row_def activated_row_def
    revoked_row_def spent_row_def
    intro: insert_user_ok insert_session_ok insert_workspace_ok insert_membership_ok insert_document_ok insert_version_ok
      insert_job_ok rename_row_ok update_document_ok replace_version_ok sessions_change_ok version_status_ok
      change_role_ok delete_membership_ok fewer_chunks_ok)

section \<open>What no run takes away\<close>

text \<open>The columns of a row that are written once: all but those some statement updates.\<close>

definition history :: "db \<Rightarrow> db" where
  "history d = d\<lparr>db_workspaces := map (\<lambda>x. x\<lparr>ws_name := []\<rparr>) (db_workspaces d), db_memberships := [],
     db_documents := map (\<lambda>x. x\<lparr>dcm_display_name := [], dcm_active_version_id := None, dcm_deleted_at := None\<rparr>) (db_documents d),
     db_versions := map (\<lambda>x. x\<lparr>ver_status := V_QUEUED\<rparr>) (db_versions d), db_chunks := [],
     db_jobs := [], db_sessions := map (\<lambda>x. x\<lparr>rs_used_at := None, rs_revoked_at := None, rs_replaced_by_id := None\<rparr>) (db_sessions d)\<rparr>"

definition job_names :: "db \<Rightarrow> (uuid \<times> uuid \<times> job_type \<times> (pystr \<times> pystr) list \<times> pystr \<times> int) list" where
  "job_names d = map (\<lambda>j. (job_id j, job_workspace_id j, job_job_type j, job_payload j, job_idempotency_key j, job_max_attempts j))
     (db_jobs d)"

definition recorded :: "db \<Rightarrow> db \<Rightarrow> bool" where
  "recorded d d' \<longleftrightarrow> prefix (db_users d) (db_users d') \<and> prefix (db_workspaces (history d)) (db_workspaces (history d'))
     \<and> prefix (db_documents (history d)) (db_documents (history d'))
     \<and> prefix (db_versions (history d)) (db_versions (history d'))
     \<and> prefix (db_sessions (history d)) (db_sessions (history d')) \<and> prefix (job_names d) (job_names d')"

lemma recorded_refl: "recorded d d"
  by (simp add: recorded_def)

lemma recorded_trans: "recorded d0 d1 \<Longrightarrow> recorded d1 d2 \<Longrightarrow> recorded d0 d2"
  unfolding recorded_def by (meson prefix_order.trans)

lemmas recorded_simps = recorded_def history_def job_names_def map_update_where

lemma job_update_recorded: "f \<in> job_updates \<Longrightarrow> recorded d (d\<lparr>db_jobs := update_where P f (db_jobs d)\<rparr>)"
  by (simp add: recorded_simps job_updates_def same_job_def)

lemma inserts_recorded:
  "insert_user u d = Inr d' \<Longrightarrow> recorded d d'" "insert_session s d = Inr d' \<Longrightarrow> recorded d d'"
  "insert_workspace t w d = Inr d' \<Longrightarrow> recorded d d'" "insert_membership t m d = Inr d' \<Longrightarrow> recorded d d'"
  "insert_document t x d = Inr d' \<Longrightarrow> recorded d d'" "insert_version t v d = Inr d' \<Longrightarrow> recorded d d'"
  "insert_job t j d = Inr d' \<Longrightarrow> recorded d d'"
  by (auto simp: recorded_simps insert_user_def insert_session_def insert_workspace_def insert_membership_def
      insert_document_def insert_version_def insert_job_def split: if_splits)

lemma rename_recorded: "rename_row t i name d = Inr d' \<Longrightarrow> recorded d d'"
  by (auto simp: recorded_simps rename_row_def split: if_splits)

lemma update_document_recorded:
  assumes "update_document t i f d = Inr d'"
    "\<And>x. (f x)\<lparr>dcm_display_name := [], dcm_active_version_id := None, dcm_deleted_at := None\<rparr>
       = x\<lparr>dcm_display_name := [], dcm_active_version_id := None, dcm_deleted_at := None\<rparr>"
  shows "recorded d d'"
  using assms by (auto simp: recorded_simps update_document_def Let_def split: if_splits)

lemma replace_version_recorded: "replace_version t ws records d = Inr d' \<Longrightarrow> recorded d d'"
  using replace_version_Inr by (fastforce simp: recorded_simps)

lemma changes_recorded:
  "recorded d (update_session i (revoked_row now) d)" "recorded d (update_session i (spent_row now k) d)"
  "recorded d (update_session i (\<lambda>s. s\<lparr>rs_revoked_at := (case rs_revoked_at s of None \<Rightarrow> Some now | z \<Rightarrow> z)\<rparr>) d)"
  "recorded d (revoke_family i now d)" "recorded d (set_version_status t i st d)" "recorded d (update_membership t i f d)"
  "recorded d (delete_membership t i d)" "recorded d (delete_document_chunks t ws i d)"
  by (simp_all add: recorded_simps update_session_def revoke_family_def set_version_status_def update_membership_def
      delete_membership_def delete_document_chunks_def revoked_row_def spent_row_def)

interpretation permanence: statement_laws "\<lambda>_. True" "\<lambda>_. True" recorded
proof
  show "recorded d0 d2" if "recorded d0 d1" "recorded d1 d2" for d0 d1 d2 using that by (rule recorded_trans)
  show "recorded d d'" if "claim_jobs locked now k n s no_tenant d = (js, d')" for locked now k n s d js d'
    using that by (auto simp: claim_jobs_def Let_def intro: job_update_recorded)
  show "recorded d (update_job t i f d)" if "f \<in> job_updates" for t i f d
    using job_update_recorded that unfolding update_job_def by blast
qed (auto simp: keeps_defs recorded_refl inserts_recorded rename_recorded replace_version_recorded changes_recorded deleted_row_def activated_row_def
    intro: update_document_recorded)

section \<open>Properties\<close>


lemma empty_tables_ok:
  "tables_ok \<lparr>db_users = [], db_workspaces = [], db_memberships = [], db_documents = [], db_versions = [], db_chunks = [],
     db_jobs = [], db_sessions = []\<rparr>"
  by (simp add: tables_ok_def users_ok_def workspaces_ok_def memberships_ok_def documents_ok_def versions_ok_def chunks_ok_def
      jobs_ok_def refresh_sessions_ok_def)

text \<open>
  C13: history is only added to. Whatever the service does, users, workspaces, documents, versions, jobs and sessions stay
  in their tables in order, new ones come after them, and what was written once is never rewritten: accounts,
  the identity and founder of a workspace, the origin of a document, everything of a version but its
  status (number, key, media type, size, SHA-256), what a job is to do, whose session it is and till when.
\<close>

theorem history_only_grows:
  assumes "service_run U P J ws d d'"
  shows "recorded d d'"
  by (rule permanence.run_keeps [OF assms]) simp

section \<open>Witnesses\<close>

definition staffed_db :: db where
  "staffed_db = staff_db\<lparr>db_memberships := [owner_membership 6 5 1 0, \<lparr>mem_id = 7, mem_workspace_id = 5, mem_user_id = 2,
     mem_role = VIEWER, mem_created_at = 9\<rparr>]\<rparr>"

lemma staff_run: "service_run ascii_only sample_passwords sample_jwt {5} staff_db staffed_db"
  unfolding staffed_db_def by (rule service_run.manage [OF _ staff_added]) simp

lemma staff_tables_ok: "tables_ok staff_db"
proof -
  have "usr_email staff_owner \<noteq> usr_email staff_guest" by (simp add: staff_owner_def staff_guest_def lit_def)
  then show ?thesis
    by (simp add: tables_ok_def users_ok_def workspaces_ok_def memberships_ok_def documents_ok_def versions_ok_def chunks_ok_def
        jobs_ok_def refresh_sessions_ok_def key_defs staff_db_def owned_workspace_def owner_membership_def staff_owner_def staff_guest_def)
qed


theorem history_only_grows_witness: "recorded staff_db staffed_db \<and> prefix [staff_owner] (db_users staffed_db)"
proof -
  have "prefix [staff_owner] (db_users staff_db)" by (simp add: staff_db_def)
  then show ?thesis using history_only_grows [OF staff_run] unfolding recorded_def by (meson prefix_order.trans)
qed

end
