(* ===== verification/Application.thy ===== *)
theory Application
  imports Integrity
begin

text \<open>
  The application object of \<open>apps/api/main.py\<close>: one function, \<open>serve\<close>, from a request to a response and the state after
  it. It dispatches to the routes, with the order of FastAPI's steps (the dependencies of a route, then its body, then
  the route), the status codes the decorators name, the error responses of the exception handlers and the headers of
  the middleware. The lemmas say what an error response can leave behind, when the service can answer 500,
  and that serving is a run of the service in the sense of \<open>Service\<close>.
\<close>

section \<open>Requests and responses\<close>

datatype api_request =
    Register_Account register_request | Log_In login_request | Refresh_Session "pystr option" | Log_Out "pystr option" | Who_Am_I
  | My_Workspaces | New_Workspace pystr pystr | Show_Workspace uuid | Rename_Workspace uuid pystr
  | Show_Members uuid | Invite_Member uuid pystr workspace_role | Change_Member uuid uuid workspace_role
  | Drop_Member uuid uuid | Show_Documents uuid | Show_Document uuid uuid | Rename_Document uuid uuid pystr
  | Drop_Document uuid uuid | Retry_Document_Job uuid uuid | Upload_Document uuid upload_request
  | Upload_Version uuid uuid upload_request | Search_Evidence uuid pystr int | Api_Root | Live | Ready

datatype api_body =
    Auth_Body auth_response | User_Body user | Workspace_Body workspace_response | Workspaces_Body "workspace_response list"
  | Member_Body membership_response | Membership_Body membership | Members_Body "membership_response list"
  | Document_Body document_response | Documents_Body "document_response list" | Detail_Body document_detail
  | Job_Body job_response | Upload_Body upload_response | Evidence_Body pystr "evidence_result list"
  | Text_Body "(pystr \<times> pystr) list" | Empty_Body | Error_Body error_response | Detail_Message pystr | Server_Error

record http_response =
  hr_status :: nat
  hr_body :: api_body
  hr_cookie :: "refresh_cookie option"
  hr_headers :: "(pystr \<times> pystr) list"

text \<open>The configured service: the libraries, the settings, the store, the embedding model or the exception of loading it.\<close>

record server =
  sv_unicode :: unicode
  sv_passwords :: password_library
  sv_jwt :: jwt_library
  sv_settings :: settings
  sv_email :: email_check
  sv_store :: local_store
  sv_gap :: "pyfloat list \<Rightarrow> pyfloat list \<Rightarrow> real"
  sv_model :: "e1_embedder result"

text \<open>What comes with a request, and what its route draws from the clock and the random sources.\<close>

record arrival =
  av_caller :: caller
  av_client :: client
  av_request_id :: pystr
  av_register :: register_draws
  av_session :: draws
  av_workspace :: workspace_draws
  av_member :: member_draws
  av_upload :: upload_draws
  av_job_id :: uuid

section \<open>Responses\<close>

text \<open>
  The response to an exception: a \<open>DomainError\<close> goes to \<open>handle_domain_error\<close>, an \<open>HTTPException\<close> gives its status and
  detail (the one for a missing login names the scheme), anything else ends outside the middleware in a bare 500.
\<close>

definition authenticate_header :: "pystr option \<Rightarrow> (pystr \<times> pystr) list" where
  "authenticate_header a = (case a of None \<Rightarrow> [] | Some v \<Rightarrow> [(lit ''WWW-Authenticate'', v)])"

definition error_response_to :: "pystr \<Rightarrow> exn \<Rightarrow> http_response" where
  "error_response_to rid e =
     (case e of
        Domain c m \<Rightarrow> (let r = handle_domain_error (Some rid) c m in
          \<lparr>hr_status = resp_status r, hr_body = Error_Body r, hr_cookie = None,
           hr_headers = response_headers rid @ authenticate_header (resp_authenticate r)\<rparr>)
      | HttpError n m \<Rightarrow>
          \<lparr>hr_status = n, hr_body = Detail_Message m, hr_cookie = None,
           hr_headers = response_headers rid @ authenticate_header (if e = auth_error then Some (lit ''Bearer'') else None)\<rparr>
      | _ \<Rightarrow> \<lparr>hr_status = 500, hr_body = Server_Error, hr_cookie = None, hr_headers = []\<rparr>)"

definition answer :: "pystr \<Rightarrow> nat \<Rightarrow> ('a \<Rightarrow> api_body \<times> refresh_cookie option) \<Rightarrow> 'a result \<Rightarrow> http_response" where
  "answer rid status body r =
     (case r of Inl e \<Rightarrow> error_response_to rid e
      | Inr a \<Rightarrow> \<lparr>hr_status = status, hr_body = fst (body a), hr_cookie = snd (body a), hr_headers = response_headers rid\<rparr>)"

definition plain_body :: "('a \<Rightarrow> api_body) \<Rightarrow> 'a \<Rightarrow> api_body \<times> refresh_cookie option" where
  "plain_body f a = (f a, None)"

text \<open>A request body that its schema refuses is answered with 422.\<close>

definition validated :: "'a result \<Rightarrow> 'a action" where
  "validated r = (case r of Inl _ \<Rightarrow> raise_action (HttpError 422 (lit ''request validation'')) | Inr x \<Rightarrow> pure_action x)"

section \<open>Serving a request\<close>

text \<open>A request on the tables only, answered with its status.\<close>

definition on_tables :: "pystr \<Rightarrow> nat \<Rightarrow> ('a \<Rightarrow> api_body \<times> refresh_cookie option) \<Rightarrow> 'a result \<times> db \<Rightarrow> file_system
    \<Rightarrow> http_response \<times> db \<times> file_system" where
  "on_tables rid status body rd fs = (answer rid status body (fst rd), snd rd, fs)"

text \<open>The routes of a user: those of \<open>routes/auth.py\<close> and the first two of \<open>routes/workspaces.py\<close>.\<close>

definition auth_body :: "auth_response \<times> refresh_cookie \<Rightarrow> api_body \<times> refresh_cookie option" where
  "auth_body x = (Auth_Body (fst x), Some (snd x))"

definition register_call :: "server \<Rightarrow> arrival \<Rightarrow> register_request \<Rightarrow> (auth_response \<times> refresh_cookie) action" where
  "register_call V n q = abind (validated (RegisterRequest (sv_email V) q))
     (register (sv_unicode V) (sv_passwords V) (sv_jwt V) (sv_settings V) (av_register n) (av_client n))"

definition login_call :: "server \<Rightarrow> arrival \<Rightarrow> login_request \<Rightarrow> (auth_response \<times> refresh_cookie) action" where
  "login_call V n q = abind (validated (LoginRequest (sv_email V) q))
     (login (sv_unicode V) (sv_passwords V) (sv_jwt V) (sv_settings V) (av_session n) (av_client n))"

definition principal :: "server \<Rightarrow> arrival \<Rightarrow> user action" where
  "principal V n = get_current_principal (sv_unicode V) (sv_jwt V) (sv_settings V) (cal_now (av_caller n)) (cal_credentials (av_caller n))"

definition create_workspace_call :: "server \<Rightarrow> arrival \<Rightarrow> pystr \<Rightarrow> pystr \<Rightarrow> workspace_response action" where
  "create_workspace_call V n name slug = abind (principal V n) (\<lambda>u.
     abind (validated (WorkspaceCreate name slug)) (\<lambda>(name, slug). create_workspace (av_workspace n) name slug u))"

text \<open>A route behind the gate of its workspace.\<close>

definition gated :: "server \<Rightarrow> arrival \<Rightarrow> workspace_role list \<Rightarrow> uuid \<Rightarrow> (workspace_access \<Rightarrow> 'a action) \<Rightarrow> db \<Rightarrow> 'a result \<times> db" where
  "gated V n = workspace_request (sv_unicode V) (sv_jwt V) (sv_settings V) (av_caller n)"

definition rename_call :: "uuid \<Rightarrow> pystr \<Rightarrow> workspace_access \<Rightarrow> workspace_response action" where
  "rename_call w name a = abind (validated (WorkspaceUpdate name)) (\<lambda>name. update_workspace w name a)"

definition invite_call :: "server \<Rightarrow> arrival \<Rightarrow> uuid \<Rightarrow> pystr \<Rightarrow> workspace_role \<Rightarrow> workspace_access \<Rightarrow> membership_response action" where
  "invite_call V n w email role a = abind (validated (MembershipCreate (sv_email V) email role)) (\<lambda>(email, role).
     add_member (sv_unicode V) (av_member n) w email role a)"

definition change_call :: "uuid \<Rightarrow> uuid \<Rightarrow> workspace_role \<Rightarrow> workspace_access \<Rightarrow> membership action" where
  "change_call w i role a = abind (validated (MembershipUpdate role)) (\<lambda>role. update_member w i role a)"

definition rename_document_call :: "uuid \<Rightarrow> uuid \<Rightarrow> pystr \<Rightarrow> workspace_access \<Rightarrow> document_response action" where
  "rename_document_call w i name a = abind (validated (DocumentUpdate name)) (\<lambda>name. update_document_route w i name a)"

definition search_call :: "server \<Rightarrow> uuid \<Rightarrow> pystr \<Rightarrow> int \<Rightarrow> workspace_access \<Rightarrow> (pystr \<times> evidence_result list) action" where
  "search_call V w search_text k a = abind (get_rag_service (sv_model V)) (\<lambda>E.
     abind (validated (EvidenceSearchRequest search_text k)) (\<lambda>(search_text, k).
     search_evidence (sv_unicode V) (sv_gap V) E (sv_settings V) w search_text k a))"

text \<open>\<open>routes/health.py\<close> and the root of the API.\<close>

definition liveness :: "(pystr \<times> pystr) list" where
  "liveness = [(lit ''status'', lit ''ok'')]"

definition readiness :: "(pystr \<times> pystr) list action" where
  "readiness = abind (query (\<lambda>_ _. 1 :: int)) (\<lambda>_. pure_action [(lit ''status'', lit ''ready'')])"

definition api_root :: "(pystr \<times> pystr) list" where
  "api_root = [(lit ''name'', lit ''SupportPilot API''), (lit ''version'', lit ''v1'')]"

text \<open>An upload: the gate, the scanner of the settings, the form, then the route.\<close>

definition upload_call :: "server \<Rightarrow> arrival \<Rightarrow> uuid \<Rightarrow> pystr option
    \<Rightarrow> (scanner \<Rightarrow> db \<Rightarrow> file_system \<Rightarrow> upload_response result \<times> db \<times> file_system)
    \<Rightarrow> db \<Rightarrow> file_system \<Rightarrow> http_response \<times> db \<times> file_system" where
  "upload_call V n w display_name route d fs =
     (let refuse = (\<lambda>e. file_request (sv_unicode V) (sv_jwt V) (sv_settings V) (av_caller n) contributor_roles w
            (\<lambda>_ t fs. (Inl e, t, fs)) d fs);
          out = (case get_malware_scanner (sv_settings V) of
              Inl e \<Rightarrow> refuse e
            | Inr scan \<Rightarrow>
                if (case display_name of None \<Rightarrow> False | Some s \<Rightarrow> 255 < length s)
                then refuse (HttpError 422 (lit ''request validation'')) else route scan d fs)
      in (answer (av_request_id n) 201 (plain_body Upload_Body) (fst out), snd out))"

definition serve :: "server \<Rightarrow> arrival \<Rightarrow> api_request \<Rightarrow> db \<Rightarrow> file_system \<Rightarrow> http_response \<times> db \<times> file_system" where
  "serve V n q d fs =
     (let U = sv_unicode V; J = sv_jwt V; S = sv_settings V; rid = av_request_id n; now = cal_now (av_caller n) in
      case q of
        Register_Account r \<Rightarrow> on_tables rid 201 auth_body (get_db_session (register_call V n r) d) fs
      | Log_In r \<Rightarrow> on_tables rid 200 auth_body (get_db_session (login_call V n r) d) fs
      | Refresh_Session cookie \<Rightarrow>
          on_tables rid 200 auth_body (get_db_session (refresh U J S (av_session n) (av_client n) cookie) d) fs
      | Log_Out cookie \<Rightarrow> on_tables rid 204 (\<lambda>k. (Empty_Body, Some k)) (get_db_session (logout U S now cookie) d) fs
      | Who_Am_I \<Rightarrow> on_tables rid 200 (plain_body User_Body) (get_db_session (abind (principal V n) me) d) fs
      | My_Workspaces \<Rightarrow>
          on_tables rid 200 (plain_body Workspaces_Body) (get_db_session (abind (principal V n) list_workspaces) d) fs
      | New_Workspace name slug \<Rightarrow>
          on_tables rid 201 (plain_body Workspace_Body) (get_db_session (create_workspace_call V n name slug) d) fs
      | Show_Workspace w \<Rightarrow> on_tables rid 200 (plain_body Workspace_Body) (gated V n any_role w (get_workspace w) d) fs
      | Rename_Workspace w name \<Rightarrow>
          on_tables rid 200 (plain_body Workspace_Body) (gated V n manager_roles w (rename_call w name) d) fs
      | Show_Members w \<Rightarrow> on_tables rid 200 (plain_body Members_Body) (gated V n any_role w (list_members w) d) fs
      | Invite_Member w email role \<Rightarrow>
          on_tables rid 201 (plain_body Member_Body) (gated V n manager_roles w (invite_call V n w email role) d) fs
      | Change_Member w i role \<Rightarrow>
          on_tables rid 200 (plain_body Membership_Body) (gated V n manager_roles w (change_call w i role) d) fs
      | Drop_Member w i \<Rightarrow>
          on_tables rid 204 (plain_body (\<lambda>_. Empty_Body)) (gated V n manager_roles w (remove_member w i) d) fs
      | Show_Documents w \<Rightarrow> on_tables rid 200 (plain_body Documents_Body) (gated V n any_role w (list_documents w) d) fs
      | Show_Document w i \<Rightarrow> on_tables rid 200 (plain_body Detail_Body) (gated V n any_role w (get_document w i) d) fs
      | Rename_Document w i name \<Rightarrow>
          on_tables rid 200 (plain_body Document_Body) (gated V n manager_roles w (rename_document_call w i name) d) fs
      | Drop_Document w i \<Rightarrow>
          on_tables rid 204 (plain_body (\<lambda>_. Empty_Body)) (gated V n manager_roles w (delete_document now (av_job_id n) w i) d) fs
      | Retry_Document_Job w i \<Rightarrow>
          on_tables rid 200 (plain_body Job_Body) (gated V n contributor_roles w (retry_document_job now w i) d) fs
      | Upload_Document w u \<Rightarrow> upload_call V n w (uq_display_name u)
          (\<lambda>scan. create_document U J S scan (sv_store V) (av_caller n) w u (av_upload n)) d fs
      | Upload_Version w i u \<Rightarrow> upload_call V n w None
          (\<lambda>scan. create_document_version U J S scan (sv_store V) (av_caller n) w i u (av_upload n)) d fs
      | Search_Evidence w s k \<Rightarrow>
          on_tables rid 200 (plain_body (case_prod Evidence_Body)) (gated V n any_role w (search_call V w s k) d) fs
      | Api_Root \<Rightarrow> on_tables rid 200 (plain_body Text_Body) (Inr api_root, d) fs
      | Live \<Rightarrow> on_tables rid 200 (plain_body Text_Body) (Inr liveness, d) fs
      | Ready \<Rightarrow> on_tables rid 200 (plain_body Text_Body) (get_db_session readiness d) fs)"

section \<open>Errors\<close>

text \<open>The exceptions that the handlers turn into an answer of their own.\<close>

definition reported :: "exn \<Rightarrow> bool" where
  "reported e \<longleftrightarrow> (case e of Domain _ _ \<Rightarrow> True | HttpError n _ \<Rightarrow> n < 500 | _ \<Rightarrow> False)"

lemma reported_simps [simp]: "reported (Domain c m)" "reported (HttpError n m) \<longleftrightarrow> n < 500" "reported auth_error" "\<not> reported IntegrityError"
    "reported invalid_session" "reported session_reused"
  by (simp_all add: reported_def auth_error_def invalid_session_def session_reused_def)

lemma reported_status: "reported e \<Longrightarrow> hr_status (error_response_to rid e) < 600 \<and> hr_status (error_response_to rid e) \<noteq> 500"
proof (cases e)
  case (Domain c m)
  then show ?thesis by (cases c) (simp_all add: error_response_to_def handle_domain_error_def)
qed (auto simp: reported_def error_response_to_def)

lemma validated_Inl [action_simps]: "validated r t = (Inl e, t') \<longleftrightarrow> isl r \<and> e = HttpError 422 (lit ''request validation'') \<and> t' = t"
  by (cases r) (auto simp: validated_def action_simps)

lemma validated_Inr [action_simps]: "validated r t = (Inr x, t') \<longleftrightarrow> r = Inr x \<and> t' = t"
  by (cases r) (auto simp: validated_def action_simps)

lemma validated_keeps_saved [uncommitted]: "keeps_saved (validated r)"
  by (cases r) (simp_all add: validated_def uncommitted)

lemma keeps_saved_for_each [uncommitted]: "(\<And>x. keeps_saved (f x)) \<Longrightarrow> keeps_saved (for_each f xs)"
  by (induction xs) (auto intro!: uncommitted)

lemma keeps_saved_principal [uncommitted]: "keeps_saved (get_current_principal U J S now creds)"
  unfolding get_current_principal_def by (auto intro!: uncommitted split: option.split sum.split)

lemma keeps_saved_roles [uncommitted]: "keeps_saved (require_workspace_roles roles u w)"
  unfolding require_workspace_roles_def by (auto intro!: uncommitted split: option.split)

lemma keeps_saved_search [uncommitted]:
  "keeps_saved (\<lambda>t. case f t of Inl e \<Rightarrow> (Inl (g e), t) | Inr rs \<Rightarrow> (Inr rs, t))"
  by (auto simp: keeps_saved_def split: sum.split)

text \<open>An answer with a status from 400 on is that of an exception.\<close>

lemma failed_answer:
  assumes "on_tables rid status body rd fs = (resp, d', fs')" "400 \<le> hr_status resp" "status < 400"
  obtains e where "rd = (Inl e, d')" "resp = error_response_to rid e"
  using assms by (cases rd) (auto simp: on_tables_def answer_def split: sum.splits)

lemma gated_failure:
  assumes "gated V n roles w route d = (Inl e, d')" "\<And>a. keeps_saved (route a)"
  shows "d' = d"
  using assms(1) unfolding gated_def workspace_request_def
  by (rule failed_request_changes_nothing [rotated]) (intro uncommitted assms(2))

lemma routes_keep_saved [uncommitted]:
  "keeps_saved (get_workspace w a)" "keeps_saved (rename_call w name a)" "keeps_saved (list_members w a)"
  "keeps_saved (invite_call V n w email role a)" "keeps_saved (change_call w i role a)" "keeps_saved (remove_member w i a)"
  "keeps_saved (list_documents w a)" "keeps_saved (get_document w i a)" "keeps_saved (rename_document_call w i name a)"
  "keeps_saved (delete_document now k w i a)" "keeps_saved (retry_document_job now w i a)" "keeps_saved (search_call V w s m a)"
  "keeps_saved (login_call V n r)" "keeps_saved (register_call V n q)" "keeps_saved (create_workspace_call V n name slug)"
  "keeps_saved (abind (principal V n) me)" "keeps_saved (abind (principal V n) list_workspaces)" "keeps_saved readiness"
  unfolding readiness_def get_workspace_def rename_call_def update_workspace_def list_members_def invite_call_def add_member_def
    change_call_def update_member_def remove_member_def load_target_membership_def list_documents_def get_document_def
    document_response_of_def rename_document_call_def update_document_route_def delete_document_def
    retry_document_job_def search_call_def search_evidence_def get_rag_service_def login_call_def login_def
    issue_session_def register_call_def create_workspace_call_def create_workspace_def principal_def me_def list_workspaces_def Let_def
  by (auto intro!: uncommitted keeps_saved_register split: option.split prod.split)


lemma session_answer_failure:
  assumes "on_tables rid status body (get_db_session act d) fs = (resp, d', fs')" "400 \<le> hr_status resp" "status < 400"
    and "keeps_saved act"
  shows "d' = d"
  by (rule failed_answer [OF assms(1-3)]) (rule failed_request_changes_nothing [OF assms(4)])

lemma gated_answer_failure:
  assumes "on_tables rid status body (gated V n roles w route d) fs = (resp, d', fs')" "400 \<le> hr_status resp" "status < 400"
    and "\<And>a. keeps_saved (route a)"
  shows "d' = d"
  by (rule failed_answer [OF assms(1-3)]) (rule gated_failure [OF _ assms(4)])

lemma rotate_failure:
  assumes "get_db_session (rotate_session U J S r c raw) d = (Inl e, d')"
  shows "d' = d \<or> (\<exists>s. presented U d raw s \<and> spent s \<and> d' = revoke_family (rs_family_id s) (dr_now r) d)"
proof (cases "\<exists>s. presented U d raw s")
  case True
  then obtain s where s: "presented U d raw s" by blast
  consider "spent s" | "\<not> spent s" "\<not> acceptable (dr_now r) d s" | "acceptable (dr_now r) d s" by blast
  then show ?thesis
  proof cases
    case 1
    with s assms show ?thesis using rotate_spent [OF s 1, of J S r c] by auto
  next
    case 2
    with s assms show ?thesis using rotate_unacceptable [OF s 2, of J S c] by auto
  next
    case 3
    with s assms show ?thesis using rotate_acceptable [OF s 3, of J S c] by (auto split: sum.splits)
  qed
next
  case False
  then show ?thesis using assms rotate_unpresented [of U d raw J S r c] by auto
qed

lemma refresh_failure:
  assumes "get_db_session (refresh U J S r c cookie) d = (Inl e, d')"
  shows "d' = d \<or> (\<exists>raw s. cookie = Some raw \<and> presented U d raw s \<and> spent s \<and> d' = revoke_family (rs_family_id s) (dr_now r) d)"
proof (cases "\<exists>raw. cookie = Some raw \<and> raw \<noteq> []")
  case True
  then obtain raw where raw: "cookie = Some raw" "raw \<noteq> []" by blast
  have "get_db_session (rotate_session U J S r c raw) d = (Inl e, d')"
    using assms by (auto simp: refresh_def raw get_db_session_Inl action_simps split: prod.splits)
  from rotate_failure [OF this] raw(1) show ?thesis by auto
next
  case False
  then show ?thesis using assms by (cases cookie) (auto simp: refresh_def get_db_session_Inl action_simps)
qed

text \<open>A request to the store that is refused before its route.\<close>

lemma gate_saved:
  assumes "abind (get_current_principal U J S now creds) (\<lambda>u. require_workspace_roles roles u w) (begin_on d) = (r, t)"
  shows "tx_saved t = d"
proof -
  have "keeps_saved (abind (get_current_principal U J S now creds) (\<lambda>u. require_workspace_roles roles u w))"
    by (intro uncommitted)
  then show ?thesis using assms unfolding keeps_saved_def by (metis begin_on_simps(2) snd_conv)
qed

lemma refused_file_request:
  "fst (snd (file_request U J S c roles w (\<lambda>_ t fs. (Inl e, t, fs)) d fs)) = d"
  using gate_saved by (auto simp: file_request_def rollback_def split: prod.split sum.split)

lemma store_upload_saved:
  assumes "store_upload U S scan ls w u di q n key t fs = (Inl e, pk, t', fs')"
  shows "tx_saved t' = tx_saved t"
  using assms
  by (auto simp: store_upload_def record_upload_def rollback_def Let_def
      dest!: plan_version_reads flush_upload_saved split: prod.splits sum.splits)

lemma upload_response_of_Inr: "\<exists>x. upload_response_of r t = (Inr x, t)"
  by (simp add: upload_response_of_def document_response_of_def abind_def query_def pure_action_def)

lemma upload_route_saved:
  assumes "upload_route U S scan ls w i q n access t fs = (Inl e, t', fs')"
  shows "tx_saved t' = tx_saved t"
proof -
  obtain r t1 fs1 where up: "upload_document_version U S scan ls w (usr_id (ac_user access)) i q n t fs = (r, t1, fs1)"
    by (metis prod_cases3)
  show ?thesis
  proof (cases r)
    case (Inl e1)
    then have "t' = t1" using assms up by (simp add: upload_route_def)
    from up [unfolded Inl] have "tx_saved t1 = tx_saved t"
      by (cases rule: upload_cases) (auto dest: store_upload_saved)
    then show ?thesis by (simp add: \<open>t' = t1\<close>)
  next
    case (Inr a)
    then show ?thesis using assms up upload_response_of_Inr [of a t1] by (auto simp: upload_route_def)
  qed
qed

lemma file_request_failure:
  assumes "file_request U J S c roles w route d fs = (Inl e, d', fs')"
    and "\<And>a t t' e fs fs'. route a t fs = (Inl e, t', fs') \<Longrightarrow> tx_saved t' = tx_saved t"
  shows "d' = d"
proof -
  obtain r t where gate: "abind (get_current_principal U J S (cal_now c) (cal_credentials c))
      (\<lambda>u. require_workspace_roles roles u w) (begin_on d) = (r, t)" by fastforce
  then have t: "tx_saved t = d" by (rule gate_saved)
  show ?thesis
  proof (cases r)
    case (Inl e1)
    then show ?thesis using assms(1) gate t by (simp add: file_request_def rollback_def)
  next
    case (Inr a)
    obtain x t1 fs1 where x: "route a t fs = (x, t1, fs1)" by (metis prod_cases3)
    show ?thesis
    proof (cases x)
      case (Inl e1)
      then show ?thesis using assms(1) gate Inr x t assms(2) [of a t fs e1 t1 fs1]
        by (simp add: file_request_def rollback_def)
    qed (use assms(1) gate Inr x in \<open>simp add: file_request_def\<close>)
  qed
qed

lemma upload_failure:
  assumes "upload_call V n w x (\<lambda>scan. file_request U J S c roles w (upload_route U S scan ls w i u k)) d fs = (resp, d', fs')"
    and "400 \<le> hr_status resp"
  shows "d' = d"
proof -
  have route: "d' = d" if "file_request U J S c roles w (upload_route U S scan ls w i u k) d fs = (Inl e, d', fs')" for scan e
    using that by (rule file_request_failure) (rule upload_route_saved)
  show ?thesis
  proof (cases "get_malware_scanner (sv_settings V)")
    case (Inl e)
    with assms(1) show ?thesis
      by (auto simp: upload_call_def Let_def dest!: arg_cong [of _ "(d', fs')" fst] simp: refused_file_request)
  next
    case (Inr scan)
    show ?thesis
    proof (cases "case x of None \<Rightarrow> False | Some s \<Rightarrow> 255 < length s")
      case True
      with assms(1) Inr show ?thesis
        by (auto simp: upload_call_def Let_def dest!: arg_cong [of _ "(d', fs')" fst] simp: refused_file_request)
    next
      case False
      obtain r where "file_request U J S c roles w (upload_route U S scan ls w i u k) d fs = (r, d', fs')"
          "resp = answer (av_request_id n) 201 (plain_body Upload_Body) r"
        using assms(1) Inr False by (cases "file_request U J S c roles w (upload_route U S scan ls w i u k) d fs")
          (auto simp: upload_call_def Let_def)
      with assms(2) route show ?thesis by (cases r) (auto simp: answer_def)
    qed
  qed
qed

text \<open>
  C4: A request that is answered with an error has changed no row. Whatever the route, whether the caller is refused, the
  body is invalid, a rule of the domain is broken, an upload fails half-way or the database rejects a statement: when the
  status is 400 or more the committed tables are those before the request. The one exception is the intended one: a refresh
  that presents a spent session is answered with an error and revokes the family of that session.
\<close>

theorem error_responses_change_no_row:
  assumes "serve V n q d fs = (resp, d', fs')" "400 \<le> hr_status resp"
  shows "d' = d \<or> (\<exists>raw s. q = Refresh_Session (Some raw) \<and> presented (sv_unicode V) d raw s \<and> spent s
    \<and> d' = revoke_family (rs_family_id s) (dr_now (av_session n)) d)"
proof (cases q)
  case (Refresh_Session cookie)
  with assms show ?thesis
    by (auto simp: serve_def Let_def elim!: failed_answer dest!: refresh_failure)
next
  case (Upload_Document w u)
  with assms show ?thesis
    by (auto simp: serve_def Let_def create_document_def dest: upload_failure)
next
  case (Upload_Version w i u)
  with assms show ?thesis
    by (auto simp: serve_def Let_def create_document_version_def dest: upload_failure)
next
  case (Log_Out cookie)
  have "keeps_saved (logout U S now cookie)" for U S now
    unfolding logout_def revoke_session_def by (auto intro!: uncommitted split: option.split sum.split)
  with assms Log_Out show ?thesis
    by (auto simp: serve_def Let_def intro!: session_answer_failure)
next
  case Api_Root
  with assms show ?thesis by (simp add: serve_def Let_def on_tables_def)
next
  case Live
  with assms show ?thesis by (simp add: serve_def Let_def on_tables_def)
qed (insert assms, simp_all add: serve_def Let_def, (elim session_answer_failure gated_answer_failure; simp add: uncommitted)+)

section \<open>When the service answers 500\<close>

definition fresh_draws :: "arrival \<Rightarrow> db \<Rightarrow> bool" where
  "fresh_draws n d \<longleftrightarrow> rd_user_id (av_register n) \<notin> usr_id ` set (db_users d)
     \<and> dr_session_id (av_session n) \<notin> rs_id ` set (db_sessions d)
     \<and> hash_refresh_secret (dr_secret (av_session n)) \<notin> rs_token_hash ` set (db_sessions d)
     \<and> av_job_id n \<notin> job_id ` set (db_jobs d)"

definition deletion_queued :: "db \<Rightarrow> uuid \<Rightarrow> uuid \<Rightarrow> bool" where
  "deletion_queued d w i \<longleftrightarrow> list_ex (\<lambda>j. job_workspace_id j = w \<and> job_job_type j = DELETE_OBJECT
     \<and> job_idempotency_key j = lit ''delete:'' @ uuid_str i) (db_jobs d)"

lemma error_500: "hr_status (error_response_to rid e) = 500 \<Longrightarrow> \<not> reported e"
  using reported_status by blast

text \<open>The exceptions an action can raise from a state, with rules that follow its steps.\<close>

definition raises :: "(exn \<Rightarrow> bool) \<Rightarrow> 'a action \<Rightarrow> transaction \<Rightarrow> bool" where
  "raises Q act t \<longleftrightarrow> (\<forall>e t'. act t = (Inl e, t') \<longrightarrow> Q e)"

named_theorems raising "exceptions of composed actions"

lemma raises_abind [raising]:
  "raises Q m t \<Longrightarrow> (\<And>a t1. m t = (Inr a, t1) \<Longrightarrow> raises Q (f a) t1) \<Longrightarrow> raises Q (abind m f) t"
  by (auto simp: raises_def action_simps)

lemma raises_simple [simp]:
  "raises Q (pure_action a) t" "raises Q (raise_action e) t \<longleftrightarrow> Q e" "raises Q (query f) t" "raises Q (change g) t"
  "raises Q (set_tenant u w) t" "raises Q (guard b e) t \<longleftrightarrow> b \<or> Q e"
  "raises Q (statement h) t \<longleftrightarrow> (\<forall>e. h (tx_tenant t) (tx_db t) = Inl e \<longrightarrow> Q e)"
  "raises Q (validated r) t \<longleftrightarrow> \<not> isl r \<or> Q (HttpError 422 (lit ''request validation''))"
  by (auto simp: raises_def action_simps)

lemma raises_on_integrity_error [raising]:
  "raises (\<lambda>x. x = IntegrityError \<or> Q x) m t \<Longrightarrow> Q e \<Longrightarrow> raises Q (on_integrity_error e m) t"
  by (auto simp: raises_def action_simps)

lemma raises_session: "get_db_session act d = (Inl e, d') \<Longrightarrow> raises Q act (begin_on d) \<Longrightarrow> Q e"
  by (auto simp: raises_def get_db_session_Inl)

text \<open>Inserts under the tenant they are for are refused by constraints only.\<close>

lemma insert_refusals:
  "insert_workspace t w d = Inl e \<Longrightarrow> in_workspace t (ws_id w) \<Longrightarrow> cur_user t = Some (ws_created_by w) \<Longrightarrow> e = IntegrityError"
  "insert_membership t m d = Inl e \<Longrightarrow> in_workspace t (mem_workspace_id m) \<Longrightarrow> e = IntegrityError"
  "insert_session s d = Inl e \<Longrightarrow> e = IntegrityError"
  by (auto simp: insert_workspace_def insert_membership_def insert_session_def split: if_splits)

lemma find_email_None: "find_email e d = None \<longleftrightarrow> e \<notin> usr_email ` set (db_users d)"
  by (auto simp: find_email_def find_None_iff)

lemma register_reported:
  assumes "rd_user_id (rd) \<notin> usr_id ` set (db_users d)"
  shows "raises reported (register U P J S rd c r) (begin_on d)"
proof -
  have fresh: "find_email (normalized_email U (reg_email r)) d = None \<Longrightarrow> insert_user (new_user U P rd r) d \<noteq> Inl e" for e
    using assms by (simp add: find_email_None insert_user_def new_user_def)
  show ?thesis
    unfolding register_def Let_def issue_session_def
    by (intro raising) (auto simp: action_simps owned_workspace_def owner_membership_def new_user_def
        fresh [unfolded new_user_def] dest: insert_refusals)
qed

lemma issue_session_raises:
  assumes "dr_session_id r \<notin> rs_id ` set (db_sessions (tx_db t))" "u \<in> usr_id ` set (db_users (tx_db t))"
    "hash_refresh_secret (dr_secret r) \<notin> rs_token_hash ` set (db_sessions (tx_db t))"
  shows "raises Q (issue_session J S r c u f) t"
  using assms unfolding issue_session_def Let_def
  by (intro raising) (auto simp: draft_session_def create_refresh_token_def insert_session_def)

lemma found_email: "find_email e d = Some u \<Longrightarrow> usr_id u \<in> usr_id ` set (db_users d)"
  by (auto simp: find_email_def dest!: find_SomeD)

lemma login_reported:
  assumes "fresh_draws n d"
  shows "raises reported (login_call V n r) (begin_on d)"
  unfolding login_call_def login_def Let_def
  by (intro raising; (simp add: action_simps)?; (intro conjI impI)?) 
   (use assms in \<open>auto simp: fresh_draws_def action_simps intro!: raising issue_session_raises found_email split: option.split prod.split\<close>)

lemma refresh_reported:
  assumes "get_db_session (refresh U J S (av_session n) c cookie) d = (Inl e, d')" "fresh_draws n d"
  shows "reported e"
proof (cases "\<exists>raw. cookie = Some raw \<and> raw \<noteq> []")
  case True
  then obtain raw where raw: "cookie = Some raw" "raw \<noteq> []" by blast
  have rot: "get_db_session (rotate_session U J S (av_session n) c raw) d = (Inl e, d')"
    using assms(1) by (auto simp: refresh_def raw get_db_session_Inl action_simps split: prod.splits)
  show ?thesis
  proof (cases "\<exists>s. presented U d raw s")
    case True
    then obtain s where s: "presented U d raw s" by blast
    consider "spent s" | "\<not> spent s" "\<not> acceptable (dr_now (av_session n)) d s" | "acceptable (dr_now (av_session n)) d s" by blast
    then show ?thesis
    proof cases
      case 1
      with rotate_spent [OF s 1, of J S "av_session n" c] rot show ?thesis by simp
    next
      case 2
      with rotate_unacceptable [OF s 2, of J S c] rot show ?thesis by simp
    next
      case 3
      then have "rs_user_id s \<in> usr_id ` set (db_users d)"
        by (auto simp: acceptable_def find_user_def image_iff dest!: find_SomeD intro: sym)
      with assms(2) have "insert_session (fst (replacement_of J S (av_session n) c s)) d \<noteq> Inl x" for x
        by (simp add: replacement_of_def draft_session_def create_refresh_token_def insert_session_def fresh_draws_def)
      with rotate_acceptable [OF s 3, of J S c] rot show ?thesis by (auto split: sum.splits)
    qed
  next
    case False
    with rotate_unpresented [of U d raw J S "av_session n" c] rot show ?thesis by simp
  qed
next
  case False
  then show ?thesis using assms(1) by (cases cookie) (auto simp: refresh_def get_db_session_Inl action_simps)
qed

lemma principal_raises: "raises reported (principal V n) t"
  unfolding principal_def get_current_principal_def
  by (auto intro!: raising split: option.split sum.split)

lemma create_workspace_reported: "raises reported (create_workspace_call V n name slug) (begin_on d)"
  unfolding create_workspace_call_def create_workspace_def Let_def
  by (intro raising principal_raises)
    (auto simp: action_simps owned_workspace_def owner_membership_def split: prod.split intro!: raising dest!: insert_refusals)

text \<open>A request behind a gate raises what the gate refuses with, or what its route raises as a member.\<close>

lemma gated_reported:
  assumes "gated V n roles w route d = (Inl e, d')"
    and "\<And>u m. member_of d (usr_id u) w m \<Longrightarrow> raises Q (route \<lparr>ac_user = u, ac_membership = m\<rparr>) (tenant_on d (usr_id u) w)"
    and "\<And>x. reported x \<Longrightarrow> Q x"
  shows "Q e"
  using assms(1) unfolding gated_def
proof (cases rule: request_cases [of "sv_unicode V" "sv_jwt V" "sv_settings V" "av_caller n" roles w route d])
  case (refused x)
  then have "e = x" using assms(1) by (simp add: gated_def)
  with refused(2) assms(3) show ?thesis by auto
next
  case (admitted u m)
  obtain r t where r: "route \<lparr>ac_user = u, ac_membership = m\<rparr> (tenant_on d (usr_id u) w) = (r, t)" by fastforce
  with assms(1) admitted(4) have "r = Inl e" by (cases r) (simp_all add: gated_def)
  with r assms(2) [OF admitted(2)] show ?thesis by (simp add: raises_def)
qed

lemma raises_for_each [raising]: "(\<And>x t. raises Q (f x) t) \<Longrightarrow> raises Q (for_each f xs) t"
  by (induction xs arbitrary: t) (auto intro!: raising)

lemma document_response_raises: "raises Q (document_response_of x) t"
  by (auto simp: document_response_of_def intro!: raising)

lemma retry_job_Inl: "retry_job now i w t d = Inl e \<Longrightarrow> reported e"
  by (auto simp: retry_job_def split: option.splits if_splits)

lemma member_routes_reported:
  "raises reported (get_workspace w a) t" "raises reported (list_members w a) t" "raises reported (change_call w i role a) t"
  "raises reported (remove_member w i a) t" "raises reported (list_documents w a) t" "raises reported (get_document w i a) t"
  "raises reported (retry_document_job now w k a) t"
proof -
  have target: "raises reported (load_target_membership w i) t" for t
    unfolding load_target_membership_def by (auto intro!: raising split: option.split)
  show "raises reported (get_workspace w a) t"
    unfolding get_workspace_def by (auto intro!: raising split: option.split)
  show "raises reported (list_members w a) t" by (simp add: list_members_def)
  show "raises reported (change_call w i role a) t"
    unfolding change_call_def update_member_def by (intro raising target) simp_all
  show "raises reported (remove_member w i a) t"
    unfolding remove_member_def by (intro raising target) simp_all
  show "raises reported (list_documents w a) t"
    unfolding list_documents_def by (intro raising document_response_raises) simp
  show "raises reported (get_document w i a) t"
    unfolding get_document_def by (auto intro!: raising document_response_raises split: option.split)
  show "raises reported (retry_document_job now w k a) t"
    unfolding retry_document_job_def
    by (intro raising) (auto simp: raises_def job_action_def action_simps dest: retry_job_Inl split: sum.splits prod.splits)
qed

lemma invite_reported:
  assumes "in_workspace (tx_tenant t) w"
  shows "raises reported (invite_call V n w email role a) t"
  unfolding invite_call_def add_member_def Let_def
  by (auto simp: action_simps assms intro!: raising split: option.split prod.split dest!: insert_refusals)

lemma rename_reported:
  assumes "2 \<le> length (strip name)"
  shows "raises reported (rename_call w name a) t"
  unfolding rename_call_def update_workspace_def using assms
  by (auto simp: action_simps WorkspaceUpdate_def result_simps rename_row_def intro!: raising split: option.split if_splits)

lemma rename_document_reported:
  assumes "strip name \<noteq> []"
  shows "raises reported (rename_document_call w i name a) t"
  unfolding rename_document_call_def update_document_route_def
  by (auto simp: action_simps DocumentUpdate_def result_simps update_document_def Let_def assms
      intro!: raising document_response_raises split: option.split if_splits)

lemma delete_reported:
  assumes "tables_ok d" "k \<notin> job_id ` set (db_jobs d)" "\<not> deletion_queued d w i" "member_of d (usr_id u) w m"
  shows "raises reported (delete_document now k w i a) (tenant_on d (usr_id u) w)"
proof -
  have w: "w \<in> ws_id ` set (db_workspaces d)"
    using member_ofD [OF assms(4)] tables_okD(3) [OF assms(1)] by (auto simp: memberships_ok_def key_defs)
  have names: "dcm_display_name x \<noteq> []" if "x \<in> set (db_documents d)" for x
    using that tables_okD(4) [OF assms(1)] by (auto simp: documents_ok_def)
  have update: "update_document t y (deleted_row now) d \<noteq> Inl e"
      and jobs: "update_document t y (deleted_row now) d = Inr d1 \<Longrightarrow> db_jobs d1 = db_jobs d \<and> db_workspaces d1 = db_workspaces d" for t y e d1
    using names by (auto simp: update_document_def deleted_row_def active_version_valid_def Let_def split: if_splits)
  have insert: "insert_job (tx_tenant (tenant_on d (usr_id u) w)) (delete_object_job k w now i) d1 \<noteq> Inl e"
    if "db_jobs d1 = db_jobs d" "db_workspaces d1 = db_workspaces d" for d1 e
    using assms(2,3) w that
    by (auto simp: insert_job_def delete_object_job_def deletion_queued_def list_ex_iff split: if_splits)
  have id: "dcm_id x = i" if "live_document w i t d = Some x" for t x
    using that by (auto simp: live_document_def dest!: find_SomeD)
  show ?thesis unfolding delete_document_def
    by (auto simp: action_simps update id insert dest!: jobs intro!: raising split: option.split)
qed

definition uses_store_or_model :: "api_request \<Rightarrow> bool" where
  "uses_store_or_model q \<longleftrightarrow> (case q of Upload_Document _ _ \<Rightarrow> True | Upload_Version _ _ _ \<Rightarrow> True | Search_Evidence _ _ _ \<Rightarrow> True | _ \<Rightarrow> False)"

lemma session_answer_reported:
  assumes "on_tables rid status body (get_db_session act d) fs = (resp, d', fs')" "hr_status resp = 500" "status < 400"
    and "raises reported act (begin_on d)"
  shows False
proof -
  obtain e where "get_db_session act d = (Inl e, d')" "resp = error_response_to rid e"
    using assms(1-3) by (elim failed_answer) simp_all
  with raises_session [OF _ assms(4)] error_500 assms(2) show False by blast
qed

lemma gated_answer_reported:
  assumes "on_tables rid status body (gated V n roles w route d) fs = (resp, d', fs')" "hr_status resp = 500" "status < 400"
    and "\<And>u m. member_of d (usr_id u) w m \<Longrightarrow> raises reported (route \<lparr>ac_user = u, ac_membership = m\<rparr>) (tenant_on d (usr_id u) w)"
  shows False
proof -
  obtain e where e: "gated V n roles w route d = (Inl e, d')" "resp = error_response_to rid e"
    using assms(1-3) by (elim failed_answer) simp_all
  have "reported e" using gated_reported [OF e(1), of reported] assms(4) by blast
  with error_500 assms(2) e(2) show False by blast
qed

lemma logout_raises: "raises reported (logout U S now cookie) t"
  unfolding logout_def revoke_session_def
  by (auto intro!: raising dest: parse_error_value split: option.split sum.split)


section \<open>Serving is a run of the service\<close>

definition reads_only :: "'a action \<Rightarrow> bool" where
  "reads_only act \<longleftrightarrow> (\<forall>t. tx_db (snd (act t)) = tx_db t \<and> tx_saved (snd (act t)) = tx_saved t)"

named_theorems only_reading "actions that change no row"

lemma reads_only_basic [only_reading]:
  "reads_only (pure_action a)" "reads_only (raise_action e)" "reads_only (query f)" "reads_only (set_tenant u w)"
  "reads_only (of_result r)" "reads_only (guard b e)" "reads_only (validated v)"
  "reads_only (\<lambda>t. case g t of Inl e \<Rightarrow> (Inl (h e), t) | Inr rs \<Rightarrow> (Inr rs, t))"
  by (auto simp: reads_only_def pure_action_def raise_action_def query_def set_tenant_def of_result_def guard_def validated_def
      split: sum.split)

lemma reads_only_abind [only_reading]:
  assumes "reads_only m" "\<And>a. reads_only (f a)"
  shows "reads_only (abind m f)"
  unfolding reads_only_def
proof
  fix t
  obtain r t1 where m: "m t = (r, t1)" by fastforce
  with assms(1) have t1: "tx_db t1 = tx_db t" "tx_saved t1 = tx_saved t" unfolding reads_only_def by (metis snd_conv)+
  show "tx_db (snd (abind m f t)) = tx_db t \<and> tx_saved (snd (abind m f t)) = tx_saved t"
    using m t1 assms(2) by (cases r) (auto simp: abind_def reads_only_def)
qed

lemma reads_only_for_each [only_reading]: "(\<And>x. reads_only (f x)) \<Longrightarrow> reads_only (for_each f xs)"
  by (induction xs) (auto intro!: only_reading)

lemma reads_only_gate [only_reading]:
  "reads_only (get_current_principal U J S now creds)" "reads_only (require_workspace_roles roles u w)"
  unfolding get_current_principal_def require_workspace_roles_def
  by (auto intro!: only_reading split: option.split sum.split)

lemma reads_only_session: "reads_only act \<Longrightarrow> snd (get_db_session act d) = d"
  by (auto simp: reads_only_def get_db_session_def commit_def rollback_def split: prod.split sum.split)
    (metis begin_on_simps snd_conv)+

lemma reads_only_routes [only_reading]:
  "reads_only (abind (principal V n) me)" "reads_only (abind (principal V n) list_workspaces)" "reads_only (get_workspace w a)"
  "reads_only (list_members w a)" "reads_only (list_documents w a)" "reads_only (get_document w i a)"
  "reads_only (search_call V w s k a)" "reads_only readiness"
  unfolding readiness_def principal_def me_def list_workspaces_def get_workspace_def list_members_def list_documents_def get_document_def
    document_response_of_def search_call_def search_evidence_def get_rag_service_def
  by (auto intro!: only_reading split: option.split prod.split)

lemma reads_only_gated: "(\<And>a. reads_only (route a)) \<Longrightarrow> snd (gated V n roles w route d) = d"
  unfolding gated_def workspace_request_def by (intro reads_only_session only_reading)

lemma validated_bind [simp]:
  "abind (validated (Inr x)) f = f x" "abind (validated (Inl e)) f = raise_action (HttpError 422 (lit ''request validation''))"
  by (auto simp: validated_def abind_def pure_action_def raise_action_def fun_eq_iff)

lemma abind_assoc: "abind (abind m f) g = abind m (\<lambda>x. abind (f x) g)"
  by (auto simp: abind_def fun_eq_iff split: prod.split sum.split)

lemma discard_value: "snd (get_db_session (abind m (\<lambda>_. pure_action ())) d) = snd (get_db_session m d)"
  by (auto simp: get_db_session_def abind_def pure_action_def split: prod.split sum.split)

lemma gated_discard: "snd (gated V n roles w (\<lambda>a. abind (f a) (\<lambda>_. pure_action ())) d) = snd (gated V n roles w f d)"
  unfolding gated_def workspace_request_def by (simp add: abind_assoc [symmetric] discard_value)

text \<open>The workspaces a request is about; a request that makes a workspace is about the new one.\<close>

definition about_workspaces :: "arrival \<Rightarrow> api_request \<Rightarrow> uuid set" where
  "about_workspaces n q =
     (case q of
        Register_Account _ \<Rightarrow> {rd_workspace_id (av_register n)} | New_Workspace _ _ \<Rightarrow> {wd_workspace_id (av_workspace n)}
      | Rename_Workspace w _ \<Rightarrow> {w} | Invite_Member w _ _ \<Rightarrow> {w} | Change_Member w _ _ \<Rightarrow> {w} | Drop_Member w _ \<Rightarrow> {w}
      | Rename_Document w _ _ \<Rightarrow> {w} | Drop_Document w _ \<Rightarrow> {w} | Retry_Document_Job w _ \<Rightarrow> {w}
      | Upload_Document w _ \<Rightarrow> {w} | Upload_Version w _ _ \<Rightarrow> {w} | _ \<Rightarrow> {})"

lemma gated_validated:
  assumes "\<And>x. v = Inr x \<Longrightarrow> service_run U P J ws d (snd (gated V n roles w (r x) d))"
  shows "service_run U P J ws d (snd (gated V n roles w (\<lambda>a. abind (validated v) (\<lambda>x. r x a)) d))"
proof (cases v)
  case (Inl e)
  have "snd (gated V n roles w (\<lambda>a. abind (validated v) (\<lambda>x. r x a)) d) = d"
    unfolding Inl validated_bind by (rule reads_only_gated) (rule only_reading)
  then show ?thesis by (simp add: service_run.idle)
qed (simp add: assms)

lemma manage_runs:
  assumes "w \<in> ws"
  shows "service_run (sv_unicode V) P (sv_jwt V) ws d (snd (gated V n manager_roles w (add_member (sv_unicode V) (av_member n) w email role) d))"
    "service_run (sv_unicode V) P (sv_jwt V) ws d (snd (gated V n manager_roles w (update_member w i role) d))"
    "service_run (sv_unicode V) P (sv_jwt V) ws d (snd (gated V n manager_roles w (remove_member w i) d))"
proof -
  have run: "service_run (sv_unicode V) P (sv_jwt V) ws d (snd (gated V n manager_roles w (manage_route (sv_unicode V) (av_member n) w op) d))" for op
  proof -
    obtain r d' where m: "manage_request (sv_unicode V) (sv_jwt V) (sv_settings V) (av_caller n) (av_member n) w op d = (r, d')"
      by fastforce
    from service_run.manage [OF assms m] m show ?thesis by (simp add: manage_request_def gated_def)
  qed
  have ops: "manage_route U m w (Add_Member email role) = (\<lambda>a. abind (add_member U m w email role a) (\<lambda>_. pure_action ()))"
      "manage_route U m w (Change_Role i role) = (\<lambda>a. abind (update_member w i role a) (\<lambda>_. pure_action ()))"
      "manage_route U m w (Remove_Member i) = remove_member w i" for U m
    by (simp_all add: manage_route_def fun_eq_iff)
  show "service_run (sv_unicode V) P (sv_jwt V) ws d (snd (gated V n manager_roles w (add_member (sv_unicode V) (av_member n) w email role) d))"
    using run [of "Add_Member email role"] by (simp add: ops gated_discard)
  show "service_run (sv_unicode V) P (sv_jwt V) ws d (snd (gated V n manager_roles w (update_member w i role) d))"
    using run [of "Change_Role i role"] by (simp add: ops gated_discard)
  show "service_run (sv_unicode V) P (sv_jwt V) ws d (snd (gated V n manager_roles w (remove_member w i) d))"
    using run [of "Remove_Member i"] by (simp add: ops)
qed

text \<open>The other routes that write, as steps.\<close>

lemma gated_runs:
  assumes "w \<in> ws"
  shows "service_run (sv_unicode V) P (sv_jwt V) ws d (snd (gated V n manager_roles w (update_workspace w name) d))"
    "service_run (sv_unicode V) P (sv_jwt V) ws d (snd (gated V n manager_roles w (update_document_route w i name) d))"
    "service_run (sv_unicode V) P (sv_jwt V) ws d (snd (gated V n manager_roles w (delete_document now k w i) d))"
    "service_run (sv_unicode V) P (sv_jwt V) ws d (snd (gated V n contributor_roles w (retry_document_job now w i) d))"
  unfolding gated_def
  by (rule service_run.update_workspace service_run.update_document service_run.delete_document service_run.retry;
      rule assms prod.collapse [symmetric])+

lemma account_runs:
  shows "rd_workspace_id (av_register n) \<in> ws \<Longrightarrow>
      service_run (sv_unicode V) (sv_passwords V) (sv_jwt V) ws d (snd (get_db_session (register_call V n q) d))"
    "service_run (sv_unicode V) (sv_passwords V) (sv_jwt V) ws d (snd (get_db_session (login_call V n r) d))"
    "wd_workspace_id (av_workspace n) \<in> ws \<Longrightarrow>
      service_run (sv_unicode V) (sv_passwords V) (sv_jwt V) ws d (snd (get_db_session (create_workspace_call V n name slug) d))"
proof -
  have refused: "snd (get_db_session (raise_action e) d) = d" for e :: exn
    by (rule reads_only_session) (rule only_reading)
  show "service_run (sv_unicode V) (sv_passwords V) (sv_jwt V) ws d (snd (get_db_session (register_call V n q) d))"
    if "rd_workspace_id (av_register n) \<in> ws"
  proof (cases "RegisterRequest (sv_email V) q")
    case (Inr x)
    show ?thesis unfolding register_call_def Inr validated_bind
      by (rule service_run.register [OF that prod.collapse [symmetric]])
  qed (simp add: register_call_def reads_only_session only_reading service_run.idle)
  show "service_run (sv_unicode V) (sv_passwords V) (sv_jwt V) ws d (snd (get_db_session (login_call V n r) d))"
  proof (cases "LoginRequest (sv_email V) r")
    case (Inr x)
    show ?thesis unfolding login_call_def Inr validated_bind
      by (rule service_run.login [OF prod.collapse [symmetric]])
  qed (simp add: login_call_def reads_only_session only_reading service_run.idle)
  show "service_run (sv_unicode V) (sv_passwords V) (sv_jwt V) ws d (snd (get_db_session (create_workspace_call V n name slug) d))"
    if "wd_workspace_id (av_workspace n) \<in> ws"
  proof (cases "WorkspaceCreate name slug")
    case (Inl e)
    have "reads_only (create_workspace_call V n name slug)"
      unfolding create_workspace_call_def principal_def Inl validated_bind by (intro only_reading)
    then show ?thesis by (simp add: reads_only_session service_run.idle)
  next
    case (Inr x)
    obtain a b where "x = (a, b)" by (cases x)
    then show ?thesis unfolding create_workspace_call_def principal_def Inr validated_bind prod.case
      by simp (rule service_run.create_workspace [OF that prod.collapse [symmetric]])
  qed
qed

lemma upload_runs:
  assumes "w \<in> ws" "\<And>scan r d' fs'. route scan d fs = (r, d', fs') \<Longrightarrow> service_run U P J ws d d'"
    and "upload_call V n w x route d fs = (resp, d', fs')"
  shows "service_run U P J ws d d'"
proof (cases "get_malware_scanner (sv_settings V)")
  case (Inl e)
  with assms(3) have "d' = d"
    by (auto simp: upload_call_def Let_def dest!: arg_cong [of _ "(d', fs')" fst] simp: refused_file_request)
  then show ?thesis by (simp add: service_run.idle)
next
  case (Inr scan)
  show ?thesis
  proof (cases "case x of None \<Rightarrow> False | Some s \<Rightarrow> 255 < length s")
    case True
    with assms(3) Inr have "d' = d"
      by (auto simp: upload_call_def Let_def dest!: arg_cong [of _ "(d', fs')" fst] simp: refused_file_request)
    then show ?thesis by (simp add: service_run.idle)
  next
    case False
    with assms(3) Inr have "route scan d fs = (fst (route scan d fs), d', fs')"
      by (auto simp: upload_call_def Let_def prod_eq_iff)
    then show ?thesis by (rule assms(2))
  qed
qed

lemma on_tables_run:
  "on_tables rid status body rd fs = (resp, d', fs') \<Longrightarrow> service_run U P J ws d (snd rd) \<Longrightarrow> service_run U P J ws d d'"
  by (simp add: on_tables_def)


section \<open>Witnesses\<close>

definition sample_server :: server where
  "sample_server = \<lparr>sv_unicode = ascii_only, sv_passwords = sample_passwords, sv_jwt = sample_jwt, sv_settings = default_settings,
     sv_email = Some, sv_store = sample_store, sv_gap = (\<lambda>_ _. 0), sv_model = Inr flat_embedder\<rparr>"

definition sample_arrival :: arrival where
  "sample_arrival = (let r = \<lparr>dr_now = 1000000, dr_session_id = 21, dr_family_id = 22, dr_jti = 23, dr_secret = replicate 32 65\<rparr> in
     \<lparr>av_caller = staff_caller, av_client = \<lparr>ct_user_agent = None, ct_ip_address = None\<rparr>, av_request_id = lit ''r1'',
      av_register = \<lparr>rd_user_id = 24, rd_workspace_id = 25, rd_membership_id = 26, rd_salt = [], rd_session = r\<rparr>,
      av_session = r, av_workspace = \<lparr>wd_workspace_id = 27, wd_membership_id = 28, wd_now = 1000000\<rparr>,
      av_member = staff_draws, av_upload = \<lparr>un_now = 1000000, un_staging = 29, un_document_id = 30, un_version_id = 31, un_job_id = 32\<rparr>,
      av_job_id = 33\<rparr>)"

text \<open>Workspace 5 renamed by its owner: to two blanks, and to a proper name.\<close>

lemma staff_rename:
  assumes "2 \<le> length s" "length s \<le> 120"
  shows "gated sample_server sample_arrival manager_roles 5 (rename_call 5 s) staff_db = outcome (update_workspace 5 s
    \<lparr>ac_user = staff_owner, ac_membership = owner_membership 6 5 1 0\<rparr> (tenant_on staff_db 1 5))"
proof -
  have id: "usr_id staff_owner = 1" by (simp add: staff_owner_def)
  have member: "member_of staff_db (usr_id staff_owner) 5 (owner_membership 6 5 1 0)"
    by (simp add: member_of_def staff_db_def owner_membership_def id)
  have role: "manager_roles = [] \<or> mem_role (owner_membership 6 5 1 0) \<in> set manager_roles"
    by (simp add: manager_roles_def owner_membership_def)
  have "WorkspaceUpdate s = Inr s"
    using assms by (simp add: WorkspaceUpdate_def check_length_def)
  then have "rename_call 5 s = update_workspace 5 s"
    by (intro ext) (simp add: rename_call_def)
  then show ?thesis
    using admitted_request [OF staff_authenticated member role, of "update_workspace 5 s"]
    by (simp add: gated_def sample_server_def sample_arrival_def Let_def id)
qed

lemma staff_workspace: "find_workspace (tx_tenant (tenant_on staff_db 1 5)) 5 staff_db = Some (owned_workspace 5 (lit ''Acme'') (lit ''acme'') 1 0)"
  unfolding find_workspace_def select_workspaces_def
  by (subst find_filter) (auto simp: workspace_visible_def staff_db_def owned_workspace_def)

lemma blank_rename:
  "\<exists>resp. serve sample_server sample_arrival (Rename_Workspace 5 [32, 32]) staff_db sample_files = (resp, staff_db, sample_files)
     \<and> hr_status resp = 500"
proof -
  have "strip [32, 32] = []" by code_simp
  then have "update_workspace 5 [32, 32] a (tenant_on staff_db 1 5) = (Inl IntegrityError, tenant_on staff_db 1 5)" for a
    by (simp add: update_workspace_def abind_def query_def statement_def rename_row_def staff_workspace)
  with staff_rename [of "[32, 32]"] show ?thesis
    by (simp add: serve_def Let_def on_tables_def answer_def error_response_to_def)
qed

theorem error_responses_change_no_row_witness:
  "\<exists>resp d'. serve sample_server sample_arrival (Rename_Workspace 5 [32, 32]) staff_db sample_files = (resp, d', sample_files)
     \<and> 400 \<le> hr_status resp \<and> d' = staff_db"
proof -
  obtain resp where r: "serve sample_server sample_arrival (Rename_Workspace 5 [32, 32]) staff_db sample_files = (resp, staff_db, sample_files)"
      "hr_status resp = 500"
    using blank_rename by blast
  then have "400 \<le> hr_status resp" by simp
  with error_responses_change_no_row [OF r(1) this] r(1) show ?thesis by blast
qed



end
