(* ===== verification/Migrations.thy ===== *)
theory Migrations
  imports Db_Tables
begin

text \<open>
  The revisions under \<open>migrations/versions\<close> as lists of DDL statements on a catalog of tables, indexes, functions, row
  policies and triggers, with PostgreSQL's rules on names and dependent objects; a statement that PostgreSQL refuses
  gives \<open>None\<close>. Grants and the bodies of functions are not part of a catalog (what the triggers do to rows is in
  \<open>Db_Tables\<close>). A statement acts only on the part of a catalog that it mentions, so what the revisions do to an empty
  database, which is evaluated, they do beside any other schema: each can be applied, and each downgrade undoes its
  upgrade.
\<close>

section \<open>Catalogs\<close>

datatype sql_type = Uuid | Varchar nat | Text_Type | Timestamptz | Boolean_Type | Integer_Type | Big_Integer | Json_Type
  | Jsonb_Type | Vector_Type nat | Tsvector | Enum_Type string "string list"

record column =
  col_name :: string
  col_type :: sql_type
  col_nullable :: bool
  col_default :: "string option"

datatype on_delete = Restrict | Cascade | Set_Null

datatype table_constraint =
    Primary_Key string "string list"
  | Unique_Key string "string list"
  | Foreign_Key string "string list" string on_delete
  | Check_Expr string string

record table_def =
  tab_name :: string
  tab_columns :: "column list"
  tab_constraints :: "table_constraint list"

record index_def =
  ind_name :: string
  ind_table :: string
  ind_columns :: "string list"
  ind_unique :: bool

datatype row_command = Select | Insert | Update | Delete

text \<open>
  The predicates of the policies: a column equals the workspace or the user of the session, a worker is set, the
  session's user has a membership of the row's workspace.
\<close>

datatype predicate = Current_Workspace string | Current_User string | Worker_Set | Membership_Of string
  | Either predicate predicate | Both predicate predicate

record policy_def =
  pol_name :: string
  pol_table :: string
  pol_command :: row_command
  pol_using :: "predicate option"
  pol_check :: "predicate option"

record trigger_def =
  trg_name :: string
  trg_table :: string
  trg_function :: string

record catalog =
  cat_tables :: "table_def list"
  cat_indexes :: "index_def list"
  cat_functions :: "string list"
  cat_policies :: "policy_def list"
  cat_triggers :: "trigger_def list"
  cat_enabled :: "string list"
  cat_forced :: "string list"

definition empty_catalog :: catalog where
  "empty_catalog = \<lparr>cat_tables = [], cat_indexes = [], cat_functions = [], cat_policies = [], cat_triggers = [], cat_enabled = [], cat_forced = []\<rparr>"

fun references :: "table_constraint \<Rightarrow> string list" where
  "references (Foreign_Key _ _ t _) = [t]"
| "references _ = []"

fun constraint_name :: "table_constraint \<Rightarrow> string" where
  "constraint_name (Primary_Key n _) = n"
| "constraint_name (Unique_Key n _) = n"
| "constraint_name (Foreign_Key n _ _ _) = n"
| "constraint_name (Check_Expr n _) = n"

text \<open>The functions and tables of a policy, which it depends on.\<close>

primrec predicate_uses :: "predicate \<Rightarrow> string list" where
  "predicate_uses (Current_Workspace _) = [''app_current_workspace_id'']"
| "predicate_uses (Current_User _) = [''app_current_user_id'']"
| "predicate_uses Worker_Set = [''app_current_worker_id'']"
| "predicate_uses (Membership_Of _) = [''workspace_memberships'', ''app_current_user_id'']"
| "predicate_uses (Either p q) = predicate_uses p @ predicate_uses q"
| "predicate_uses (Both p q) = predicate_uses p @ predicate_uses q"

definition pol_uses :: "policy_def \<Rightarrow> string list" where
  "pol_uses p = (case pol_using p of None \<Rightarrow> [] | Some q \<Rightarrow> predicate_uses q)
     @ (case pol_check p of None \<Rightarrow> [] | Some q \<Rightarrow> predicate_uses q)"

definition table_names :: "catalog \<Rightarrow> string list" where
  "table_names c = map tab_name (cat_tables c)"

text \<open>Tables and indexes share a name space.\<close>

definition relation_names :: "catalog \<Rightarrow> string list" where
  "relation_names c = table_names c @ map ind_name (cat_indexes c)"

section \<open>Statements\<close>

datatype ddl =
    Create_Table table_def
  | Create_Index index_def
  | Add_Foreign_Key string table_constraint
  | Create_Function string
  | Enable_Row_Security string
  | Force_Row_Security string
  | Create_Policy policy_def
  | Create_Trigger trigger_def
  | Drop_Policy string string
  | Drop_Trigger string string
  | Drop_Function bool string
  | Drop_Constraint string string
  | Drop_Table string

definition all_in :: "string list \<Rightarrow> string list \<Rightarrow> bool" where
  "all_in xs ys \<longleftrightarrow> list_all (\<lambda>x. List.member ys x) xs"

text \<open>
  \<open>DROP FUNCTION\<close> is refused while a policy or a trigger uses the function, \<open>DROP TABLE\<close> while a foreign key or a
  policy of another table refers to it; a dropped table takes its indexes, policies and triggers along.
  The flag of \<open>Drop_Function\<close> is \<open>IF EXISTS\<close>, which the policies and triggers are dropped with throughout.
\<close>

fun execute :: "ddl \<Rightarrow> catalog \<Rightarrow> catalog option" where
  "execute (Create_Table t) c =
     (if List.member (relation_names c) (tab_name t)
         \<or> \<not> all_in (concat (map references (tab_constraints t))) (tab_name t # table_names c) then None
      else Some (c\<lparr>cat_tables := cat_tables c @ [t]\<rparr>))"
| "execute (Create_Index i) c =
     (if List.member (relation_names c) (ind_name i) \<or> \<not> List.member (table_names c) (ind_table i) then None
      else Some (c\<lparr>cat_indexes := cat_indexes c @ [i]\<rparr>))"
| "execute (Add_Foreign_Key t k) c =
     (if \<not> all_in (t # references k) (table_names c) then None
      else Some (c\<lparr>cat_tables := map (\<lambda>x. if tab_name x = t then x\<lparr>tab_constraints := tab_constraints x @ [k]\<rparr> else x) (cat_tables c)\<rparr>))"
| "execute (Create_Function f) c =
     (if List.member (cat_functions c) f then None else Some (c\<lparr>cat_functions := cat_functions c @ [f]\<rparr>))"
| "execute (Enable_Row_Security t) c =
     (if \<not> List.member (table_names c) t then None else Some (c\<lparr>cat_enabled := cat_enabled c @ [t]\<rparr>))"
| "execute (Force_Row_Security t) c =
     (if \<not> List.member (table_names c) t then None else Some (c\<lparr>cat_forced := cat_forced c @ [t]\<rparr>))"
| "execute (Create_Policy p) c =
     (if \<not> List.member (table_names c) (pol_table p) \<or> \<not> all_in (pol_uses p) (table_names c @ cat_functions c)
         \<or> list_ex (\<lambda>q. pol_table q = pol_table p \<and> pol_name q = pol_name p) (cat_policies c) then None
      else Some (c\<lparr>cat_policies := cat_policies c @ [p]\<rparr>))"
| "execute (Create_Trigger g) c =
     (if \<not> List.member (table_names c) (trg_table g) \<or> \<not> List.member (cat_functions c) (trg_function g)
         \<or> list_ex (\<lambda>h. trg_table h = trg_table g \<and> trg_name h = trg_name g) (cat_triggers c) then None
      else Some (c\<lparr>cat_triggers := cat_triggers c @ [g]\<rparr>))"
| "execute (Drop_Policy n t) c =
     Some (c\<lparr>cat_policies := filter (\<lambda>p. \<not> (pol_table p = t \<and> pol_name p = n)) (cat_policies c)\<rparr>)"
| "execute (Drop_Trigger n t) c =
     Some (c\<lparr>cat_triggers := filter (\<lambda>g. \<not> (trg_table g = t \<and> trg_name g = n)) (cat_triggers c)\<rparr>)"
| "execute (Drop_Function if_exists f) c =
     (if list_ex (\<lambda>p. List.member (pol_uses p) f) (cat_policies c) \<or> list_ex (\<lambda>g. trg_function g = f) (cat_triggers c)
         \<or> \<not> if_exists \<and> \<not> List.member (cat_functions c) f then None
      else Some (c\<lparr>cat_functions := filter (\<lambda>g. g \<noteq> f) (cat_functions c)\<rparr>))"
| "execute (Drop_Constraint n t) c =
     (if \<not> list_ex (\<lambda>x. tab_name x = t \<and> list_ex (\<lambda>k. constraint_name k = n) (tab_constraints x)) (cat_tables c) then None
      else Some (c\<lparr>cat_tables := map (\<lambda>x. if tab_name x = t
        then x\<lparr>tab_constraints := filter (\<lambda>k. constraint_name k \<noteq> n) (tab_constraints x)\<rparr> else x) (cat_tables c)\<rparr>))"
| "execute (Drop_Table t) c =
     (if \<not> List.member (table_names c) t
         \<or> list_ex (\<lambda>x. tab_name x \<noteq> t \<and> list_ex (\<lambda>k. List.member (references k) t) (tab_constraints x)) (cat_tables c)
         \<or> list_ex (\<lambda>p. pol_table p \<noteq> t \<and> List.member (pol_uses p) t) (cat_policies c) then None
      else Some \<lparr>cat_tables = filter (\<lambda>x. tab_name x \<noteq> t) (cat_tables c),
          cat_indexes = filter (\<lambda>i. ind_table i \<noteq> t) (cat_indexes c), cat_functions = cat_functions c,
          cat_policies = filter (\<lambda>p. pol_table p \<noteq> t) (cat_policies c),
          cat_triggers = filter (\<lambda>g. trg_table g \<noteq> t) (cat_triggers c),
          cat_enabled = filter (\<lambda>x. x \<noteq> t) (cat_enabled c), cat_forced = filter (\<lambda>x. x \<noteq> t) (cat_forced c)\<rparr>)"

primrec run_ddl :: "ddl list \<Rightarrow> catalog \<Rightarrow> catalog option" where
  "run_ddl [] c = Some c"
| "run_ddl (s # ss) c = (case execute s c of None \<Rightarrow> None | Some c' \<Rightarrow> run_ddl ss c')"

section \<open>Columns\<close>

definition required :: "string \<Rightarrow> sql_type \<Rightarrow> column" where
  "required n t = \<lparr>col_name = n, col_type = t, col_nullable = False, col_default = None\<rparr>"

definition nullable :: "string \<Rightarrow> sql_type \<Rightarrow> column" where
  "nullable n t = \<lparr>col_name = n, col_type = t, col_nullable = True, col_default = None\<rparr>"

definition defaulted :: "string \<Rightarrow> sql_type \<Rightarrow> string \<Rightarrow> column" where
  "defaulted n t e = \<lparr>col_name = n, col_type = t, col_nullable = False, col_default = Some e\<rparr>"

definition index_on :: "string \<Rightarrow> string \<Rightarrow> string list \<Rightarrow> index_def" where
  "index_on n t cs = \<lparr>ind_name = n, ind_table = t, ind_columns = cs, ind_unique = False\<rparr>"

definition unique_index_on :: "string \<Rightarrow> string \<Rightarrow> string list \<Rightarrow> index_def" where
  "unique_index_on n t cs = \<lparr>ind_name = n, ind_table = t, ind_columns = cs, ind_unique = True\<rparr>"

section \<open>20260713_0001_week1_foundation\<close>

definition created_users :: table_def where
  "created_users = \<lparr>tab_name = ''users'',
     tab_columns = [required ''email'' (Varchar 320), required ''display_name'' (Varchar 120),
       required ''password_hash'' (Varchar 255), defaulted ''is_active'' Boolean_Type ''true'', required ''id'' Uuid,
       defaulted ''created_at'' Timestamptz ''now()'', defaulted ''updated_at'' Timestamptz ''now()''],
     tab_constraints = [Primary_Key ''pk_users'' [''id'']]\<rparr>"

definition created_workspaces :: table_def where
  "created_workspaces = \<lparr>tab_name = ''workspaces'',
     tab_columns = [required ''name'' (Varchar 120), required ''slug'' (Varchar 80), required ''created_by'' Uuid,
       required ''id'' Uuid, defaulted ''created_at'' Timestamptz ''now()'', defaulted ''updated_at'' Timestamptz ''now()''],
     tab_constraints = [Check_Expr ''ck_workspaces_name_min_length'' ''char_length(name) >= 2'',
       Foreign_Key ''fk_workspaces_created_by_users'' [''created_by''] ''users'' Restrict,
       Primary_Key ''pk_workspaces'' [''id'']]\<rparr>"

definition role_enum :: sql_type where
  "role_enum = Enum_Type ''workspace_role'' [''owner'', ''admin'', ''agent'', ''viewer'']"

definition created_memberships :: table_def where
  "created_memberships = \<lparr>tab_name = ''workspace_memberships'',
     tab_columns = [required ''workspace_id'' Uuid, required ''user_id'' Uuid, required ''role'' role_enum, required ''id'' Uuid,
       defaulted ''created_at'' Timestamptz ''now()'', defaulted ''updated_at'' Timestamptz ''now()''],
     tab_constraints = [Foreign_Key ''fk_workspace_memberships_user_id_users'' [''user_id''] ''users'' Cascade,
       Foreign_Key ''fk_workspace_memberships_workspace_id_workspaces'' [''workspace_id''] ''workspaces'' Cascade,
       Primary_Key ''pk_workspace_memberships'' [''id''],
       Unique_Key ''uq_workspace_memberships_workspace_user'' [''workspace_id'', ''user_id'']]\<rparr>"

definition created_refresh_sessions :: table_def where
  "created_refresh_sessions = \<lparr>tab_name = ''refresh_sessions'',
     tab_columns = [required ''user_id'' Uuid, required ''family_id'' Uuid, required ''token_hash'' (Varchar 64),
       nullable ''user_agent'' (Varchar 512), nullable ''ip_address'' (Varchar 64), required ''created_at'' Timestamptz,
       required ''expires_at'' Timestamptz, nullable ''used_at'' Timestamptz, nullable ''revoked_at'' Timestamptz,
       nullable ''replaced_by_id'' Uuid, required ''id'' Uuid],
     tab_constraints = [Foreign_Key ''fk_refresh_sessions_replaced_by_id_refresh_sessions'' [''replaced_by_id''] ''refresh_sessions'' Set_Null,
       Foreign_Key ''fk_refresh_sessions_user_id_users'' [''user_id''] ''users'' Cascade,
       Primary_Key ''pk_refresh_sessions'' [''id''], Unique_Key ''uq_refresh_sessions_token_hash'' [''token_hash'']]\<rparr>"

text \<open>\<open>CREATE POLICY n ON t FOR k\<close> with \<open>USING\<close>, with \<open>WITH CHECK\<close>, with both.\<close>

definition policy_using :: "string \<Rightarrow> string \<Rightarrow> row_command \<Rightarrow> predicate \<Rightarrow> ddl" where
  "policy_using n t k p = Create_Policy \<lparr>pol_name = n, pol_table = t, pol_command = k, pol_using = Some p, pol_check = None\<rparr>"

definition policy_check :: "string \<Rightarrow> string \<Rightarrow> row_command \<Rightarrow> predicate \<Rightarrow> ddl" where
  "policy_check n t k p = Create_Policy \<lparr>pol_name = n, pol_table = t, pol_command = k, pol_using = None, pol_check = Some p\<rparr>"

definition policy_both :: "string \<Rightarrow> string \<Rightarrow> row_command \<Rightarrow> predicate \<Rightarrow> ddl" where
  "policy_both n t k p = Create_Policy \<lparr>pol_name = n, pol_table = t, pol_command = k, pol_using = Some p, pol_check = Some p\<rparr>"

definition policies_0001 :: "ddl list" where
  "policies_0001 =
     [policy_using ''workspaces_select'' ''workspaces'' Select (Either (Current_Workspace ''id'') (Membership_Of ''id'')),
      policy_check ''workspaces_insert'' ''workspaces'' Insert (Both (Current_Workspace ''id'') (Current_User ''created_by'')),
      policy_both ''workspaces_update'' ''workspaces'' Update (Current_Workspace ''id''),
      policy_using ''workspaces_delete'' ''workspaces'' Delete (Current_Workspace ''id''),
      policy_using ''memberships_select'' ''workspace_memberships'' Select
        (Either (Current_Workspace ''workspace_id'') (Current_User ''user_id'')),
      policy_check ''memberships_insert'' ''workspace_memberships'' Insert (Current_Workspace ''workspace_id''),
      policy_both ''memberships_update'' ''workspace_memberships'' Update (Current_Workspace ''workspace_id''),
      policy_using ''memberships_delete'' ''workspace_memberships'' Delete (Current_Workspace ''workspace_id'')]"

definition upgrade_0001 :: "ddl list" where
  "upgrade_0001 =
     [Create_Table created_users, Create_Index (unique_index_on ''ix_users_email'' ''users'' [''email'']),
      Create_Table created_workspaces, Create_Index (unique_index_on ''ix_workspaces_slug'' ''workspaces'' [''slug'']),
      Create_Table created_memberships,
      Create_Index (index_on ''ix_workspace_memberships_user_id'' ''workspace_memberships'' [''user_id'']),
      Create_Index (index_on ''ix_workspace_memberships_user_workspace'' ''workspace_memberships'' [''user_id'', ''workspace_id'']),
      Create_Index (index_on ''ix_workspace_memberships_workspace_id'' ''workspace_memberships'' [''workspace_id'']),
      Create_Table created_refresh_sessions,
      Create_Index (index_on ''ix_refresh_sessions_expires_at'' ''refresh_sessions'' [''expires_at'']),
      Create_Index (index_on ''ix_refresh_sessions_user_id'' ''refresh_sessions'' [''user_id'']),
      Create_Index (index_on ''ix_refresh_sessions_user_family'' ''refresh_sessions'' [''user_id'', ''family_id'']),
      Create_Function ''app_current_user_id'', Create_Function ''app_current_workspace_id'',
      Enable_Row_Security ''workspaces'', Force_Row_Security ''workspaces'',
      Enable_Row_Security ''workspace_memberships'', Force_Row_Security ''workspace_memberships''] @ policies_0001"

definition downgrade_0001 :: "ddl list" where
  "downgrade_0001 =
     [Drop_Policy ''memberships_delete'' ''workspace_memberships'', Drop_Policy ''memberships_update'' ''workspace_memberships'',
      Drop_Policy ''memberships_insert'' ''workspace_memberships'', Drop_Policy ''memberships_select'' ''workspace_memberships'',
      Drop_Policy ''workspaces_delete'' ''workspaces'', Drop_Policy ''workspaces_update'' ''workspaces'',
      Drop_Policy ''workspaces_insert'' ''workspaces'', Drop_Policy ''workspaces_select'' ''workspaces'',
      Drop_Function True ''app_current_workspace_id'', Drop_Function True ''app_current_user_id'',
      Drop_Table ''refresh_sessions'', Drop_Table ''workspace_memberships'', Drop_Table ''workspaces'', Drop_Table ''users'']"

section \<open>20260716_0002_document_lifecycle\<close>

definition version_status_enum :: sql_type where
  "version_status_enum = Enum_Type ''document_version_status'' [''queued'', ''processing'', ''active'', ''failed'']"

definition job_type_enum :: sql_type where
  "job_type_enum = Enum_Type ''job_type'' [''process_document'', ''delete_object'']"

definition job_state_enum :: sql_type where
  "job_state_enum = Enum_Type ''job_state''
     [''queued'', ''leased'', ''processing'', ''retrying'', ''failed'', ''dead_letter'', ''completed'']"

definition created_documents :: table_def where
  "created_documents = \<lparr>tab_name = ''documents'',
     tab_columns = [required ''workspace_id'' Uuid, required ''display_name'' (Varchar 255), nullable ''active_version_id'' Uuid,
       required ''created_by'' Uuid, nullable ''deleted_at'' Timestamptz, required ''id'' Uuid,
       defaulted ''created_at'' Timestamptz ''now()'', defaulted ''updated_at'' Timestamptz ''now()''],
     tab_constraints = [Check_Expr ''ck_documents_display_name_not_empty'' ''char_length(display_name) >= 1'',
       Foreign_Key ''fk_documents_created_by_users'' [''created_by''] ''users'' Restrict,
       Foreign_Key ''fk_documents_workspace_id_workspaces'' [''workspace_id''] ''workspaces'' Cascade,
       Primary_Key ''pk_documents'' [''id'']]\<rparr>"

definition created_versions :: table_def where
  "created_versions = \<lparr>tab_name = ''document_versions'',
     tab_columns = [required ''workspace_id'' Uuid, required ''document_id'' Uuid, required ''version_number'' Integer_Type,
       required ''object_key'' (Varchar 512), required ''original_filename'' (Varchar 255), required ''media_type'' (Varchar 100),
       required ''byte_size'' Big_Integer, required ''sha256'' (Varchar 64), defaulted ''status'' version_status_enum ''queued'',
       required ''created_by'' Uuid, required ''id'' Uuid,
       defaulted ''created_at'' Timestamptz ''now()'', defaulted ''updated_at'' Timestamptz ''now()''],
     tab_constraints = [Check_Expr ''ck_document_versions_version_number_positive'' ''version_number > 0'',
       Check_Expr ''ck_document_versions_byte_size_nonnegative'' ''byte_size >= 0'',
       Check_Expr ''ck_document_versions_sha256_length'' ''char_length(sha256) = 64'',
       Foreign_Key ''fk_document_versions_created_by_users'' [''created_by''] ''users'' Restrict,
       Foreign_Key ''fk_document_versions_document_id_documents'' [''document_id''] ''documents'' Cascade,
       Foreign_Key ''fk_document_versions_workspace_id_workspaces'' [''workspace_id''] ''workspaces'' Cascade,
       Primary_Key ''pk_document_versions'' [''id''],
       Unique_Key ''uq_document_versions_document_version_number'' [''document_id'', ''version_number''],
       Unique_Key ''uq_document_versions_document_content'' [''workspace_id'', ''document_id'', ''sha256''],
       Unique_Key ''uq_document_versions_object_key'' [''object_key'']]\<rparr>"

definition active_version_key :: table_constraint where
  "active_version_key =
     Foreign_Key ''fk_documents_active_version_id_document_versions'' [''active_version_id''] ''document_versions'' Set_Null"

definition created_jobs :: table_def where
  "created_jobs = \<lparr>tab_name = ''jobs'',
     tab_columns = [required ''workspace_id'' Uuid, required ''job_type'' job_type_enum,
       defaulted ''payload_version'' Integer_Type ''1'', required ''payload'' Json_Type, defaulted ''state'' job_state_enum ''queued'',
       required ''idempotency_key'' (Varchar 255), defaulted ''available_at'' Timestamptz ''now()'',
       nullable ''lease_owner'' (Varchar 128), nullable ''lease_expires_at'' Timestamptz,
       defaulted ''attempt_count'' Integer_Type ''0'', defaulted ''max_attempts'' Integer_Type ''5'',
       nullable ''error_code'' (Varchar 64), nullable ''error_message'' Text_Type, required ''id'' Uuid,
       defaulted ''created_at'' Timestamptz ''now()'', defaulted ''updated_at'' Timestamptz ''now()''],
     tab_constraints = [Check_Expr ''ck_jobs_payload_version_positive'' ''payload_version > 0'',
       Check_Expr ''ck_jobs_attempt_count_nonnegative'' ''attempt_count >= 0'',
       Check_Expr ''ck_jobs_max_attempts_positive'' ''max_attempts > 0'',
       Foreign_Key ''fk_jobs_workspace_id_workspaces'' [''workspace_id''] ''workspaces'' Cascade,
       Primary_Key ''pk_jobs'' [''id''],
       Unique_Key ''uq_jobs_job_idempotency'' [''workspace_id'', ''job_type'', ''idempotency_key'']]\<rparr>"

text \<open>The policies of one table in the loop over \<open>documents\<close> and \<open>document_versions\<close>.\<close>

definition tenant_policies :: "string \<Rightarrow> ddl list" where
  "tenant_policies t =
     [policy_using (t @ ''_select'') t Select (Current_Workspace ''workspace_id''),
      policy_check (t @ ''_insert'') t Insert (Current_Workspace ''workspace_id''),
      policy_both (t @ ''_update'') t Update (Current_Workspace ''workspace_id''),
      policy_using (t @ ''_delete'') t Delete (Current_Workspace ''workspace_id'')]"

definition job_policies :: "ddl list" where
  "job_policies =
     [policy_using ''jobs_select'' ''jobs'' Select (Either (Current_Workspace ''workspace_id'') Worker_Set),
      policy_check ''jobs_insert'' ''jobs'' Insert (Current_Workspace ''workspace_id''),
      policy_both ''jobs_update'' ''jobs'' Update (Either (Current_Workspace ''workspace_id'') Worker_Set),
      policy_using ''jobs_delete'' ''jobs'' Delete (Either (Current_Workspace ''workspace_id'') Worker_Set)]"

definition trigger_on :: "string \<Rightarrow> string \<Rightarrow> string \<Rightarrow> ddl" where
  "trigger_on n t f = Create_Trigger \<lparr>trg_name = n, trg_table = t, trg_function = f\<rparr>"

definition upgrade_0002 :: "ddl list" where
  "upgrade_0002 =
     [Create_Table created_documents,
      Create_Index (index_on ''ix_documents_workspace_created'' ''documents'' [''workspace_id'', ''created_at'']),
      Create_Table created_versions,
      Create_Index (index_on ''ix_document_versions_workspace_document'' ''document_versions'' [''workspace_id'', ''document_id'']),
      Add_Foreign_Key ''documents'' active_version_key,
      Create_Table created_jobs,
      Create_Index (index_on ''ix_jobs_workspace_state_available'' ''jobs'' [''workspace_id'', ''state'', ''available_at'']),
      Create_Index (index_on ''ix_jobs_claim'' ''jobs'' [''state'', ''available_at'', ''lease_expires_at'']),
      Create_Function ''app_current_worker_id'', Create_Function ''protect_document_version_immutability'',
      trigger_on ''document_versions_immutable'' ''document_versions'' ''protect_document_version_immutability'',
      Create_Function ''validate_active_document_version'',
      trigger_on ''documents_active_version_valid'' ''documents'' ''validate_active_document_version'']
     @ concat (map (\<lambda>t. [Enable_Row_Security t, Force_Row_Security t]) [''documents'', ''document_versions'', ''jobs''])
     @ concat (map tenant_policies [''documents'', ''document_versions'']) @ job_policies"

definition drop_policies :: "string \<Rightarrow> string list \<Rightarrow> ddl list" where
  "drop_policies t commands = map (\<lambda>k. Drop_Policy (t @ ''_'' @ k) t) commands"

definition downgrade_0002 :: "ddl list" where
  "downgrade_0002 =
     concat (map (\<lambda>t. drop_policies t [''delete'', ''update'', ''insert'', ''select'']) [''jobs'', ''document_versions'', ''documents''])
     @ [Drop_Trigger ''documents_active_version_valid'' ''documents'', Drop_Function True ''validate_active_document_version'',
        Drop_Trigger ''document_versions_immutable'' ''document_versions'',
        Drop_Function True ''protect_document_version_immutability'', Drop_Function True ''app_current_worker_id'',
        Drop_Table ''jobs'', Drop_Constraint ''fk_documents_active_version_id_document_versions'' ''documents'',
        Drop_Table ''document_versions'', Drop_Table ''documents'']"

section \<open>20260911_0003_production_rag_chunks\<close>

definition created_chunks :: table_def where
  "created_chunks = \<lparr>tab_name = ''document_chunks'',
     tab_columns = [required ''chunk_id'' (Varchar 64), required ''workspace_id'' Uuid, required ''document_id'' Uuid,
       required ''version_id'' Uuid, required ''pipeline_version'' (Varchar 64), required ''chunk_order'' Integer_Type,
       required ''original_text'' Text_Type, required ''token_count'' Integer_Type, required ''locators'' Jsonb_Type,
       required ''heading_path'' Jsonb_Type, nullable ''page_number'' Integer_Type, required ''document_title'' (Varchar 255),
       required ''embedding'' (Vector_Type 384), nullable ''search_vector'' Tsvector,
       defaulted ''created_at'' Timestamptz ''now()''],
     tab_constraints = [Primary_Key ''document_chunks_pkey'' [''chunk_id''],
       Foreign_Key ''fk_document_chunks_workspace'' [''workspace_id''] ''workspaces'' Cascade,
       Foreign_Key ''fk_document_chunks_document'' [''document_id''] ''documents'' Cascade,
       Foreign_Key ''fk_document_chunks_version'' [''version_id''] ''document_versions'' Cascade,
       Unique_Key ''uq_document_chunks_version_order'' [''version_id'', ''pipeline_version'', ''chunk_order''],
       Check_Expr ''ck_document_chunks_chunk_id'' ''char_length(chunk_id) = 64'',
       Check_Expr ''ck_document_chunks_pipeline'' (''pipeline_version = '' @ [CHR 0x27] @ ''rag-v1-c1-e1'' @ [CHR 0x27]),
       Check_Expr ''ck_document_chunks_order'' ''chunk_order >= 0'',
       Check_Expr ''ck_document_chunks_text'' ''length(original_text) > 0'',
       Check_Expr ''ck_document_chunks_tokens'' ''token_count > 0'',
       Check_Expr ''ck_document_chunks_page'' ''page_number IS NULL OR page_number > 0'']\<rparr>"

definition upgrade_0003 :: "ddl list" where
  "upgrade_0003 =
     [Create_Table created_chunks,
      Create_Index (index_on ''ix_document_chunks_workspace_version'' ''document_chunks''
        [''workspace_id'', ''version_id'', ''pipeline_version'', ''chunk_order'']),
      Create_Index (index_on ''ix_document_chunks_search'' ''document_chunks'' [''search_vector'']),
      Create_Function ''validate_document_chunk_scope'',
      trigger_on ''document_chunks_validate_scope'' ''document_chunks'' ''validate_document_chunk_scope'',
      Enable_Row_Security ''document_chunks'', Force_Row_Security ''document_chunks'',
      policy_using ''document_chunks_select'' ''document_chunks'' Select (Current_Workspace ''workspace_id''),
      policy_using ''document_chunks_update'' ''document_chunks'' Update (Current_Workspace ''workspace_id''),
      policy_using ''document_chunks_delete'' ''document_chunks'' Delete (Current_Workspace ''workspace_id''),
      policy_check ''document_chunks_insert'' ''document_chunks'' Insert (Current_Workspace ''workspace_id'')]"

definition downgrade_0003 :: "ddl list" where
  "downgrade_0003 =
     drop_policies ''document_chunks'' [''insert'', ''delete'', ''update'', ''select'']
     @ [Drop_Table ''document_chunks'', Drop_Function False ''validate_document_chunk_scope'']"

section \<open>The history of revisions\<close>

record revision =
  rev_id :: string
  rev_down :: "string option"
  rev_upgrade :: "ddl list"
  rev_downgrade :: "ddl list"

definition revisions :: "revision list" where
  "revisions =
     [\<lparr>rev_id = ''20260713_0001'', rev_down = None, rev_upgrade = upgrade_0001, rev_downgrade = downgrade_0001\<rparr>,
      \<lparr>rev_id = ''20260716_0002'', rev_down = Some ''20260713_0001'', rev_upgrade = upgrade_0002, rev_downgrade = downgrade_0002\<rparr>,
      \<lparr>rev_id = ''20260911_0003'', rev_down = Some ''20260716_0002'', rev_upgrade = upgrade_0003, rev_downgrade = downgrade_0003\<rparr>]"

text \<open>\<open>alembic upgrade\<close> through the first \<open>k\<close> revisions, and \<open>alembic downgrade\<close> of the last of \<open>k\<close>.\<close>

definition upgrade_to :: "nat \<Rightarrow> catalog \<Rightarrow> catalog option" where
  "upgrade_to k = run_ddl (concat (map rev_upgrade (take k revisions)))"

definition downgrade_from :: "nat \<Rightarrow> catalog \<Rightarrow> catalog option" where
  "downgrade_from k = run_ddl (rev_downgrade (revisions ! (k - 1)))"

section \<open>A schema beside another\<close>

definition beside :: "catalog \<Rightarrow> catalog \<Rightarrow> catalog" where
  "beside c d = \<lparr>cat_tables = cat_tables c @ cat_tables d, cat_indexes = cat_indexes c @ cat_indexes d,
     cat_functions = cat_functions c @ cat_functions d, cat_policies = cat_policies c @ cat_policies d,
     cat_triggers = cat_triggers c @ cat_triggers d, cat_enabled = cat_enabled c @ cat_enabled d,
     cat_forced = cat_forced c @ cat_forced d\<rparr>"

text \<open>The names that a catalog declares or depends on, and those of a statement.\<close>

definition about :: "catalog \<Rightarrow> string list" where
  "about c = relation_names c @ cat_functions c @ concat (map (\<lambda>x. concat (map references (tab_constraints x))) (cat_tables c))
     @ map ind_table (cat_indexes c) @ concat (map (\<lambda>p. pol_table p # pol_uses p) (cat_policies c))
     @ concat (map (\<lambda>g. [trg_table g, trg_function g]) (cat_triggers c)) @ cat_enabled c @ cat_forced c"

fun mentions :: "ddl \<Rightarrow> string list" where
  "mentions (Create_Table t) = tab_name t # concat (map references (tab_constraints t))"
| "mentions (Create_Index i) = [ind_name i, ind_table i]"
| "mentions (Add_Foreign_Key t k) = t # references k"
| "mentions (Create_Function f) = [f]"
| "mentions (Enable_Row_Security t) = [t]"
| "mentions (Force_Row_Security t) = [t]"
| "mentions (Create_Policy p) = pol_table p # pol_uses p"
| "mentions (Create_Trigger g) = [trg_table g, trg_function g]"
| "mentions (Drop_Policy n t) = [t]"
| "mentions (Drop_Trigger n t) = [t]"
| "mentions (Drop_Function b f) = [f]"
| "mentions (Drop_Constraint n t) = [t]"
| "mentions (Drop_Table t) = [t]"

definition apart :: "string list \<Rightarrow> catalog \<Rightarrow> bool" where
  "apart ns c \<longleftrightarrow> list_all (\<lambda>n. \<not> List.member (about c) n) ns"

lemma beside_simps [simp]:
  "cat_tables (beside c d) = cat_tables c @ cat_tables d" "cat_indexes (beside c d) = cat_indexes c @ cat_indexes d"
  "cat_functions (beside c d) = cat_functions c @ cat_functions d" "cat_policies (beside c d) = cat_policies c @ cat_policies d"
  "cat_triggers (beside c d) = cat_triggers c @ cat_triggers d" "cat_enabled (beside c d) = cat_enabled c @ cat_enabled d"
  "cat_forced (beside c d) = cat_forced c @ cat_forced d"
  by (simp_all add: beside_def)

lemma beside_updates [simp]:
  "beside c d\<lparr>cat_tables := cat_tables c @ x\<rparr> = beside c (d\<lparr>cat_tables := x\<rparr>)"
  "beside c d\<lparr>cat_indexes := cat_indexes c @ i\<rparr> = beside c (d\<lparr>cat_indexes := i\<rparr>)"
  "beside c d\<lparr>cat_functions := cat_functions c @ f\<rparr> = beside c (d\<lparr>cat_functions := f\<rparr>)"
  "beside c d\<lparr>cat_policies := cat_policies c @ p\<rparr> = beside c (d\<lparr>cat_policies := p\<rparr>)"
  "beside c d\<lparr>cat_triggers := cat_triggers c @ g\<rparr> = beside c (d\<lparr>cat_triggers := g\<rparr>)"
  "beside c d\<lparr>cat_enabled := cat_enabled c @ e\<rparr> = beside c (d\<lparr>cat_enabled := e\<rparr>)"
  "beside c d\<lparr>cat_forced := cat_forced c @ e\<rparr> = beside c (d\<lparr>cat_forced := e\<rparr>)"
  "\<lparr>cat_tables = cat_tables c @ x, cat_indexes = cat_indexes c @ i, cat_functions = cat_functions c @ f,
     cat_policies = cat_policies c @ p, cat_triggers = cat_triggers c @ g, cat_enabled = cat_enabled c @ e,
     cat_forced = cat_forced c @ h\<rparr>
   = beside c \<lparr>cat_tables = x, cat_indexes = i, cat_functions = f, cat_policies = p, cat_triggers = g, cat_enabled = e, cat_forced = h\<rparr>"
  by (simp_all add: beside_def)

lemma apart_iff: "apart ns c \<longleftrightarrow> (\<forall>n \<in> set ns. n \<notin> set (about c))"
  by (auto simp: apart_def list_all_iff)

lemma all_in_iff: "all_in xs ys \<longleftrightarrow> set xs \<subseteq> set ys"
  by (auto simp: all_in_def list_all_iff)

text \<open>What a name apart from a catalog is not in it.\<close>

lemma apart_name:
  assumes "n \<notin> set (about c)"
  shows "n \<notin> set (relation_names c)" "n \<notin> set (table_names c)" "n \<notin> set (cat_functions c)" "n \<notin> tab_name ` set (cat_tables c)"
    "x \<in> set (cat_tables c) \<Longrightarrow> tab_name x \<noteq> n" "x \<in> set (cat_tables c) \<Longrightarrow> k \<in> set (tab_constraints x) \<Longrightarrow> n \<notin> set (references k)"
    "i \<in> set (cat_indexes c) \<Longrightarrow> ind_name i \<noteq> n" "i \<in> set (cat_indexes c) \<Longrightarrow> ind_table i \<noteq> n"
    "p \<in> set (cat_policies c) \<Longrightarrow> pol_table p \<noteq> n" "p \<in> set (cat_policies c) \<Longrightarrow> n \<notin> set (pol_uses p)"
    "g \<in> set (cat_triggers c) \<Longrightarrow> trg_table g \<noteq> n" "g \<in> set (cat_triggers c) \<Longrightarrow> trg_function g \<noteq> n"
    "n \<notin> set (cat_enabled c)" "n \<notin> set (cat_forced c)"
  using assms by (auto simp: about_def relation_names_def table_names_def)

lemma names_beside [simp]:
  "table_names (beside c d) = table_names c @ table_names d"
  "set (relation_names (beside c d)) = set (relation_names c) \<union> set (relation_names d)"
  by (auto simp: relation_names_def table_names_def)

text \<open>The checks and the changes that such a name causes in a catalog: none.\<close>

lemma apart_checks:
  assumes "n \<notin> set (about c)"
  shows "\<not> list_ex (\<lambda>p. n \<in> set (pol_uses p)) (cat_policies c)" "\<not> list_ex (\<lambda>g. trg_function g = n) (cat_triggers c)"
    "\<not> list_ex (\<lambda>x. tab_name x = n \<and> Q x) (cat_tables c)" "\<not> list_ex (\<lambda>p. pol_table p = n \<and> P p) (cat_policies c)"
    "\<not> list_ex (\<lambda>g. trg_table g = n \<and> R g) (cat_triggers c)"
    "\<not> list_ex (\<lambda>x. tab_name x \<noteq> n \<and> list_ex (\<lambda>k. n \<in> set (references k)) (tab_constraints x)) (cat_tables c)"
    "\<not> list_ex (\<lambda>p. pol_table p \<noteq> n \<and> n \<in> set (pol_uses p)) (cat_policies c)"
  using assms by (auto simp: list_ex_iff dest: apart_name)

lemma apart_changes:
  assumes "n \<notin> set (about c)"
  shows "map (\<lambda>x. if tab_name x = n then f x else x) (cat_tables c) = cat_tables c"
    "filter (\<lambda>x. tab_name x \<noteq> n) (cat_tables c) = cat_tables c" "filter (\<lambda>i. ind_table i \<noteq> n) (cat_indexes c) = cat_indexes c"
    "filter (\<lambda>g. g \<noteq> n) (cat_functions c) = cat_functions c" "filter (\<lambda>p. pol_table p \<noteq> n) (cat_policies c) = cat_policies c"
    "filter (\<lambda>p. pol_table p = n \<longrightarrow> P p) (cat_policies c) = cat_policies c"
    "filter (\<lambda>g. trg_table g \<noteq> n) (cat_triggers c) = cat_triggers c"
    "filter (\<lambda>g. trg_table g = n \<longrightarrow> R g) (cat_triggers c) = cat_triggers c"
    "filter (\<lambda>x. x \<noteq> n) (cat_enabled c) = cat_enabled c" "filter (\<lambda>x. x \<noteq> n) (cat_forced c) = cat_forced c"
  using assms by (auto simp: filter_id_conv dest: apart_name intro!: map_idI)

text \<open>A statement acts on the part of the catalog that it mentions.\<close>

lemma change_apart: "n \<notin> set (about c) \<Longrightarrow> map (\<lambda>x. if tab_name x = n then f x else x) (cat_tables c) = cat_tables c"
  by (rule map_idI) (simp add: apart_name)

lemma execute_beside:
  assumes "apart (mentions s) c"
  shows "execute s (beside c d) = map_option (beside c) (execute s d)"
proof (cases s)
  case (Create_Table t)
  with assms show ?thesis by (auto simp: apart_iff all_in_iff apart_name subset_iff)
next
  case (Create_Index i)
  with assms show ?thesis by (auto simp: apart_iff apart_name)
next
  case (Add_Foreign_Key t k)
  with assms show ?thesis by (auto simp: apart_iff all_in_iff apart_name subset_iff apart_changes)
next
  case (Create_Policy p)
  with assms show ?thesis by (auto simp: apart_iff all_in_iff subset_iff apart_name apart_checks)
qed (use assms in \<open>simp_all add: apart_iff apart_name apart_checks apart_changes\<close>)

lemma run_beside:
  "apart (concat (map mentions ss)) c \<Longrightarrow> run_ddl ss (beside c d) = map_option (beside c) (run_ddl ss d)"
proof (induction ss arbitrary: d)
  case (Cons s ss)
  then have "apart (mentions s) c" "apart (concat (map mentions ss)) c"
    by (auto simp: apart_def)
  with Cons.IH show ?case
    by (simp add: execute_beside split: option.splits)
qed simp

lemma beside_empty: "beside c empty_catalog = c"
  by (simp add: beside_def empty_catalog_def)

definition revision_names :: "string list" where
  "revision_names = concat (map mentions (concat (map (\<lambda>r. rev_upgrade r @ rev_downgrade r) revisions)))"

text \<open>Each revision on an empty database, by evaluation.\<close>

lemma empty_0001: "Option.bind (upgrade_to 1 empty_catalog) (downgrade_from 1) = Some empty_catalog"
  by code_simp

lemma empty_0002: "Option.bind (upgrade_to 2 empty_catalog) (downgrade_from 2) = upgrade_to 1 empty_catalog"
  by code_simp

lemma empty_0003: "Option.bind (upgrade_to 3 empty_catalog) (downgrade_from 3) = upgrade_to 2 empty_catalog"
  by code_simp

lemma revisions_length: "length revisions = 3"
  by (simp add: revisions_def)

text \<open>The two directions of a revision on any database whose schema is apart.\<close>

lemma upgrade_beside:
  assumes "apart revision_names c"
  shows "upgrade_to n (beside c d) = map_option (beside c) (upgrade_to n d)"
  unfolding upgrade_to_def using assms
  by (intro run_beside) (auto simp: apart_iff revision_names_def dest!: in_set_takeD)

lemma downgrade_beside:
  assumes "apart revision_names c" "k < length revisions"
  shows "downgrade_from (Suc k) (beside c d) = map_option (beside c) (downgrade_from (Suc k) d)"
proof -
  have "revisions ! k \<in> set revisions" using assms(2) by simp
  with assms(1) show ?thesis
    unfolding downgrade_from_def by (intro run_beside) (auto simp: apart_iff revision_names_def)
qed

lemma empty_reversible:
  assumes "k < length revisions"
  obtains d e where "upgrade_to (Suc k) empty_catalog = Some d" "downgrade_from (Suc k) d = Some e"
    "upgrade_to k empty_catalog = Some e"
proof -
  obtain c1 c2 c3 where c: "upgrade_to 1 empty_catalog = Some c1" "downgrade_from 1 c1 = Some empty_catalog"
      "upgrade_to 2 empty_catalog = Some c2" "downgrade_from 2 c2 = Some c1"
      "upgrade_to 3 empty_catalog = Some c3" "downgrade_from 3 c3 = Some c2"
    using empty_0001 empty_0002 empty_0003 by (auto simp: bind_eq_Some_conv)
  have "upgrade_to 0 empty_catalog = Some empty_catalog" by (simp add: upgrade_to_def)
  moreover have "k = 0 \<or> k = 1 \<or> k = 2" using assms by (auto simp: revisions_length)
  ultimately show ?thesis using c that by (auto simp: eval_nat_numeral)
qed


text \<open>The table in which Alembic keeps the revision of a database.\<close>

definition alembic_version :: table_def where
  "alembic_version = \<lparr>tab_name = ''alembic_version'', tab_columns = [required ''version_num'' (Varchar 32)],
     tab_constraints = [Primary_Key ''alembic_version_pkc'' [''version_num'']]\<rparr>"


end
