(* ===== verification/Schema.thy ===== *)
theory Schema
  imports Migrations
begin

text \<open>
  The schema that the revisions of \<open>Migrations\<close> end with, against its two readers: the declarative classes of
  \<open>packages/database/models.py\<close> under the naming convention of \<open>base.py\<close>, and the row-level policies that \<open>Db_Tables\<close>
  writes into its operations. The ORM and the schema agree but for \<open>document_chunks\<close>, the reads and writes of
  \<open>Db_Tables\<close> are those that the policies admit, and no table of a tenant is left without them.
\<close>

section \<open>The schema at the head\<close>

definition head_catalog :: catalog where
  "head_catalog = the (upgrade_to (length revisions) empty_catalog)"

fun policies_of :: "ddl list \<Rightarrow> policy_def list" where
  "policies_of [] = []"
| "policies_of (Create_Policy p # ss) = p # policies_of ss"
| "policies_of (s # ss) = policies_of ss"

fun indexes_of :: "ddl list \<Rightarrow> index_def list" where
  "indexes_of [] = []"
| "indexes_of (Create_Index i # ss) = i # indexes_of ss"
| "indexes_of (s # ss) = indexes_of ss"

definition tenant_tables :: "string list" where
  "tenant_tables = [''workspaces'', ''workspace_memberships'', ''documents'', ''document_versions'', ''jobs'', ''document_chunks'']"

lemma head_evaluated:
  "upgrade_to (length revisions) empty_catalog = Some
    \<lparr>cat_tables = [created_users, created_workspaces, created_memberships, created_refresh_sessions,
       created_documents\<lparr>tab_constraints := tab_constraints created_documents @ [active_version_key]\<rparr>,
       created_versions, created_jobs, created_chunks],
     cat_indexes = indexes_of (upgrade_0001 @ upgrade_0002 @ upgrade_0003),
     cat_functions = [''app_current_user_id'', ''app_current_workspace_id'', ''app_current_worker_id'',
       ''protect_document_version_immutability'', ''validate_active_document_version'', ''validate_document_chunk_scope''],
     cat_policies = policies_of (upgrade_0001 @ upgrade_0002 @ upgrade_0003),
     cat_triggers = [\<lparr>trg_name = ''document_versions_immutable'', trg_table = ''document_versions'', trg_function = ''protect_document_version_immutability''\<rparr>,
       \<lparr>trg_name = ''documents_active_version_valid'', trg_table = ''documents'', trg_function = ''validate_active_document_version''\<rparr>,
       \<lparr>trg_name = ''document_chunks_validate_scope'', trg_table = ''document_chunks'', trg_function = ''validate_document_chunk_scope''\<rparr>],
     cat_enabled = tenant_tables, cat_forced = tenant_tables\<rparr>"
  by code_simp

lemma head_simps [simp]:
  "cat_tables head_catalog = [created_users, created_workspaces, created_memberships, created_refresh_sessions,
     created_documents\<lparr>tab_constraints := tab_constraints created_documents @ [active_version_key]\<rparr>,
     created_versions, created_jobs, created_chunks]"
  "cat_indexes head_catalog = indexes_of (upgrade_0001 @ upgrade_0002 @ upgrade_0003)"
  "cat_policies head_catalog = policies_of (upgrade_0001 @ upgrade_0002 @ upgrade_0003)"
  "cat_enabled head_catalog = tenant_tables" "cat_forced head_catalog = tenant_tables"
  unfolding head_catalog_def head_evaluated option.sel by simp_all

section \<open>The models of the ORM\<close>

text \<open>
  \<open>mapped_column\<close> with its options; \<open>Mapped[T | None]\<close> is \<open>optional\<close>. A foreign key refers to the \<open>id\<close> of its
  table, under the name given with it or that of the naming convention.
\<close>

record orm_column =
  oc_column :: column
  oc_primary :: bool
  oc_unique :: bool
  oc_index :: bool
  oc_key :: "(string \<times> on_delete \<times> string option) option"

definition mapped_column :: "string \<Rightarrow> sql_type \<Rightarrow> orm_column" where
  "mapped_column n t = \<lparr>oc_column = required n t, oc_primary = False, oc_unique = False, oc_index = False, oc_key = None\<rparr>"

definition optional :: "orm_column \<Rightarrow> orm_column" where
  "optional c = c\<lparr>oc_column := (oc_column c)\<lparr>col_nullable := True\<rparr>\<rparr>"

definition server_default :: "string \<Rightarrow> orm_column \<Rightarrow> orm_column" where
  "server_default e c = c\<lparr>oc_column := (oc_column c)\<lparr>col_default := Some e\<rparr>\<rparr>"

definition indexed :: "orm_column \<Rightarrow> orm_column" where
  "indexed c = c\<lparr>oc_index := True\<rparr>"

definition unique :: "orm_column \<Rightarrow> orm_column" where
  "unique c = c\<lparr>oc_unique := True\<rparr>"

definition foreign_key :: "string \<Rightarrow> on_delete \<Rightarrow> orm_column \<Rightarrow> orm_column" where
  "foreign_key t d c = c\<lparr>oc_key := Some (t, d, None)\<rparr>"

definition named_foreign_key :: "string \<Rightarrow> on_delete \<Rightarrow> string \<Rightarrow> orm_column \<Rightarrow> orm_column" where
  "named_foreign_key t d n c = c\<lparr>oc_key := Some (t, d, Some n)\<rparr>"

datatype table_arg = Unique_Constraint "string list" string | Index string "string list" | Check_Constraint string string

record orm_class =
  tablename :: string
  table_args :: "table_arg list"
  mapped :: "orm_column list"

text \<open>\<open>UUIDPrimaryKeyMixin\<close> and \<open>TimestampMixin\<close>.\<close>

definition uuid_primary_key :: "orm_column list" where
  "uuid_primary_key = [(mapped_column ''id'' Uuid)\<lparr>oc_primary := True\<rparr>]"

definition timestamps :: "orm_column list" where
  "timestamps = [server_default ''now()'' (mapped_column ''created_at'' Timestamptz),
     server_default ''now()'' (mapped_column ''updated_at'' Timestamptz)]"

text \<open>The values of the enumerations, which the columns hold.\<close>

primrec role_value :: "workspace_role \<Rightarrow> string" where
  "role_value OWNER = ''owner''" | "role_value ADMIN = ''admin''" | "role_value AGENT = ''agent''"
| "role_value VIEWER = ''viewer''"

primrec status_value :: "version_status \<Rightarrow> string" where
  "status_value V_QUEUED = ''queued''" | "status_value V_PROCESSING = ''processing''"
| "status_value V_ACTIVE = ''active''" | "status_value V_FAILED = ''failed''"

primrec job_type_value :: "job_type \<Rightarrow> string" where
  "job_type_value PROCESS_DOCUMENT = ''process_document''" | "job_type_value DELETE_OBJECT = ''delete_object''"

primrec job_state_value :: "job_state \<Rightarrow> string" where
  "job_state_value QUEUED = ''queued''" | "job_state_value LEASED = ''leased''"
| "job_state_value PROCESSING = ''processing''" | "job_state_value RETRYING = ''retrying''"
| "job_state_value FAILED = ''failed''" | "job_state_value DEAD_LETTER = ''dead_letter''"
| "job_state_value COMPLETED = ''completed''"

definition workspace_role_type :: sql_type where
  "workspace_role_type = Enum_Type ''workspace_role'' (map role_value [OWNER, ADMIN, AGENT, VIEWER])"

definition document_version_status_type :: sql_type where
  "document_version_status_type =
     Enum_Type ''document_version_status'' (map status_value [V_QUEUED, V_PROCESSING, V_ACTIVE, V_FAILED])"

definition job_type_type :: sql_type where
  "job_type_type = Enum_Type ''job_type'' (map job_type_value [PROCESS_DOCUMENT, DELETE_OBJECT])"

definition job_state_type :: sql_type where
  "job_state_type = Enum_Type ''job_state''
     (map job_state_value [QUEUED, LEASED, PROCESSING, RETRYING, FAILED, DEAD_LETTER, COMPLETED])"

definition User :: orm_class where
  "User = \<lparr>tablename = ''users'', table_args = [],
     mapped = uuid_primary_key @ timestamps @
       [indexed (unique (mapped_column ''email'' (Varchar 320))), mapped_column ''display_name'' (Varchar 120),
        mapped_column ''password_hash'' (Varchar 255), server_default ''true'' (mapped_column ''is_active'' Boolean_Type)]\<rparr>"

definition Workspace :: orm_class where
  "Workspace = \<lparr>tablename = ''workspaces'', table_args = [Check_Constraint ''char_length(name) >= 2'' ''name_min_length''],
     mapped = uuid_primary_key @ timestamps @
       [mapped_column ''name'' (Varchar 120), indexed (unique (mapped_column ''slug'' (Varchar 80))),
        foreign_key ''users'' Restrict (mapped_column ''created_by'' Uuid)]\<rparr>"

definition WorkspaceMembership :: orm_class where
  "WorkspaceMembership = \<lparr>tablename = ''workspace_memberships'',
     table_args = [Unique_Constraint [''workspace_id'', ''user_id''] ''workspace_user'',
       Index ''ix_workspace_memberships_user_workspace'' [''user_id'', ''workspace_id'']],
     mapped = uuid_primary_key @ timestamps @
       [indexed (foreign_key ''workspaces'' Cascade (mapped_column ''workspace_id'' Uuid)),
        indexed (foreign_key ''users'' Cascade (mapped_column ''user_id'' Uuid)),
        mapped_column ''role'' workspace_role_type]\<rparr>"

definition Document :: orm_class where
  "Document = \<lparr>tablename = ''documents'',
     table_args = [Index ''ix_documents_workspace_created'' [''workspace_id'', ''created_at''],
       Check_Constraint ''char_length(display_name) >= 1'' ''display_name_not_empty''],
     mapped = uuid_primary_key @ timestamps @
       [foreign_key ''workspaces'' Cascade (mapped_column ''workspace_id'' Uuid), mapped_column ''display_name'' (Varchar 255),
        optional (named_foreign_key ''document_versions'' Set_Null ''fk_documents_active_version_id_document_versions''
          (mapped_column ''active_version_id'' Uuid)),
        foreign_key ''users'' Restrict (mapped_column ''created_by'' Uuid),
        optional (mapped_column ''deleted_at'' Timestamptz)]\<rparr>"

definition DocumentVersion :: orm_class where
  "DocumentVersion = \<lparr>tablename = ''document_versions'',
     table_args = [Unique_Constraint [''document_id'', ''version_number''] ''document_version_number'',
       Unique_Constraint [''workspace_id'', ''document_id'', ''sha256''] ''document_content'',
       Index ''ix_document_versions_workspace_document'' [''workspace_id'', ''document_id''],
       Check_Constraint ''version_number > 0'' ''version_number_positive'',
       Check_Constraint ''byte_size >= 0'' ''byte_size_nonnegative'',
       Check_Constraint ''char_length(sha256) = 64'' ''sha256_length''],
     mapped = uuid_primary_key @ timestamps @
       [foreign_key ''workspaces'' Cascade (mapped_column ''workspace_id'' Uuid),
        foreign_key ''documents'' Cascade (mapped_column ''document_id'' Uuid), mapped_column ''version_number'' Integer_Type,
        unique (mapped_column ''object_key'' (Varchar 512)), mapped_column ''original_filename'' (Varchar 255),
        mapped_column ''media_type'' (Varchar 100), mapped_column ''byte_size'' Big_Integer, mapped_column ''sha256'' (Varchar 64),
        server_default (status_value V_QUEUED) (mapped_column ''status'' document_version_status_type),
        foreign_key ''users'' Restrict (mapped_column ''created_by'' Uuid)]\<rparr>"

definition DocumentChunk :: orm_class where
  "DocumentChunk = \<lparr>tablename = ''document_chunks'', table_args = [],
     mapped =
       [(mapped_column ''chunk_id'' (Varchar 64))\<lparr>oc_primary := True\<rparr>,
        foreign_key ''workspaces'' Cascade (mapped_column ''workspace_id'' Uuid),
        foreign_key ''documents'' Cascade (mapped_column ''document_id'' Uuid),
        foreign_key ''document_versions'' Cascade (mapped_column ''version_id'' Uuid),
        mapped_column ''pipeline_version'' (Varchar 64), mapped_column ''chunk_order'' Integer_Type,
        mapped_column ''original_text'' Text_Type, mapped_column ''token_count'' Integer_Type,
        mapped_column ''locators'' Json_Type, mapped_column ''heading_path'' Json_Type,
        optional (mapped_column ''page_number'' Integer_Type), mapped_column ''document_title'' (Varchar 255),
        mapped_column ''embedding'' (Vector_Type 384), server_default ''now()'' (mapped_column ''created_at'' Timestamptz)]\<rparr>"

definition Job :: orm_class where
  "Job = \<lparr>tablename = ''jobs'',
     table_args = [Unique_Constraint [''workspace_id'', ''job_type'', ''idempotency_key''] ''job_idempotency'',
       Index ''ix_jobs_workspace_state_available'' [''workspace_id'', ''state'', ''available_at''],
       Index ''ix_jobs_claim'' [''state'', ''available_at'', ''lease_expires_at''],
       Check_Constraint ''payload_version > 0'' ''payload_version_positive'',
       Check_Constraint ''attempt_count >= 0'' ''attempt_count_nonnegative'',
       Check_Constraint ''max_attempts > 0'' ''max_attempts_positive''],
     mapped = uuid_primary_key @ timestamps @
       [foreign_key ''workspaces'' Cascade (mapped_column ''workspace_id'' Uuid), mapped_column ''job_type'' job_type_type,
        server_default ''1'' (mapped_column ''payload_version'' Integer_Type), mapped_column ''payload'' Json_Type,
        server_default (job_state_value QUEUED) (mapped_column ''state'' job_state_type),
        mapped_column ''idempotency_key'' (Varchar 255), server_default ''now()'' (mapped_column ''available_at'' Timestamptz),
        optional (mapped_column ''lease_owner'' (Varchar 128)), optional (mapped_column ''lease_expires_at'' Timestamptz),
        server_default ''0'' (mapped_column ''attempt_count'' Integer_Type),
        server_default ''5'' (mapped_column ''max_attempts'' Integer_Type),
        optional (mapped_column ''error_code'' (Varchar 64)), optional (mapped_column ''error_message'' Text_Type)]\<rparr>"

definition RefreshSession :: orm_class where
  "RefreshSession = \<lparr>tablename = ''refresh_sessions'',
     table_args = [Index ''ix_refresh_sessions_user_family'' [''user_id'', ''family_id''],
       Index ''ix_refresh_sessions_expires_at'' [''expires_at'']],
     mapped = uuid_primary_key @
       [indexed (foreign_key ''users'' Cascade (mapped_column ''user_id'' Uuid)), mapped_column ''family_id'' Uuid,
        unique (mapped_column ''token_hash'' (Varchar 64)), optional (mapped_column ''user_agent'' (Varchar 512)),
        optional (mapped_column ''ip_address'' (Varchar 64)), mapped_column ''created_at'' Timestamptz,
        mapped_column ''expires_at'' Timestamptz, optional (mapped_column ''used_at'' Timestamptz),
        optional (mapped_column ''revoked_at'' Timestamptz),
        optional (foreign_key ''refresh_sessions'' Set_Null (mapped_column ''replaced_by_id'' Uuid))]\<rparr>"

definition orm_models :: "orm_class list" where
  "orm_models = [User, Workspace, WorkspaceMembership, Document, DocumentVersion, DocumentChunk, Job, RefreshSession]"

text \<open>
  The metadata of a class under \<open>NAMING_CONVENTION\<close>. A unique key with a name of its own keeps it, since the
  convention for \<open>uq\<close> has no \<open>constraint_name\<close>; a column both unique and indexed gets a unique index only.
\<close>

definition column_constraints :: "string \<Rightarrow> orm_column \<Rightarrow> table_constraint list" where
  "column_constraints t c =
     (if oc_unique c \<and> \<not> oc_index c
      then [Unique_Key (''uq_'' @ t @ ''_'' @ col_name (oc_column c)) [col_name (oc_column c)]] else [])
     @ (case oc_key c of None \<Rightarrow> []
        | Some (r, d, n) \<Rightarrow>
            [Foreign_Key (case n of Some x \<Rightarrow> x | None \<Rightarrow> ''fk_'' @ t @ ''_'' @ col_name (oc_column c) @ ''_'' @ r)
               [col_name (oc_column c)] r d])"

fun arg_constraints :: "string \<Rightarrow> table_arg \<Rightarrow> table_constraint list" where
  "arg_constraints t (Unique_Constraint cs n) = [Unique_Key n cs]"
| "arg_constraints t (Check_Constraint e n) = [Check_Expr (''ck_'' @ t @ ''_'' @ n) e]"
| "arg_constraints t (Index n cs) = []"

definition orm_table :: "orm_class \<Rightarrow> table_def" where
  "orm_table k = \<lparr>tab_name = tablename k, tab_columns = map oc_column (mapped k),
     tab_constraints =
       Primary_Key (''pk_'' @ tablename k) (map (\<lambda>c. col_name (oc_column c)) (filter oc_primary (mapped k)))
       # concat (map (column_constraints (tablename k)) (mapped k))
       @ concat (map (arg_constraints (tablename k)) (table_args k))\<rparr>"

fun arg_indexes :: "string \<Rightarrow> table_arg \<Rightarrow> index_def list" where
  "arg_indexes t (Index n cs) = [index_on n t cs]"
| "arg_indexes t _ = []"

definition orm_indexes :: "orm_class \<Rightarrow> index_def list" where
  "orm_indexes k =
     map (\<lambda>c. \<lparr>ind_name = ''ix_'' @ tablename k @ ''_'' @ col_name (oc_column c), ind_table = tablename k,
        ind_columns = [col_name (oc_column c)], ind_unique = oc_unique c\<rparr>) (filter oc_index (mapped k))
     @ concat (map (arg_indexes (tablename k)) (table_args k))"

section \<open>The models and the schema\<close>

text \<open>A table of the ORM agrees with one of the schema: the same columns and the same constraints, the names of unique keys aside.\<close>

fun unnamed :: "table_constraint \<Rightarrow> table_constraint" where
  "unnamed (Unique_Key n cs) = Unique_Key [] cs"
| "unnamed k = k"

definition same_members :: "'a list \<Rightarrow> 'a list \<Rightarrow> bool" where
  "same_members xs ys \<longleftrightarrow> list_all (List.member ys) xs \<and> list_all (List.member xs) ys"

definition same_table :: "table_def \<Rightarrow> table_def \<Rightarrow> bool" where
  "same_table x y \<longleftrightarrow> tab_name x = tab_name y \<and> same_members (tab_columns x) (tab_columns y)
     \<and> same_members (map unnamed (tab_constraints x)) (map unnamed (tab_constraints y))"

fun as_json :: "column \<Rightarrow> column" where
  "as_json c = (if col_type c = Jsonb_Type then c\<lparr>col_type := Json_Type\<rparr> else c)"


section \<open>What the policies admit\<close>

text \<open>
  A row by the values of its \<open>uuid\<close> columns; \<open>ms\<close> are the memberships that the session sees, which the subquery of a
  predicate ranges over.
\<close>

type_synonym row_ids = "string \<Rightarrow> uuid option"

fun holds :: "tenant \<Rightarrow> membership list \<Rightarrow> row_ids \<Rightarrow> predicate \<Rightarrow> bool" where
  "holds t ms r (Current_Workspace c) \<longleftrightarrow> cur_workspace t \<noteq> None \<and> r c = cur_workspace t"
| "holds t ms r (Current_User c) \<longleftrightarrow> cur_user t \<noteq> None \<and> r c = cur_user t"
| "holds t ms r Worker_Set \<longleftrightarrow> cur_worker t \<noteq> None"
| "holds t ms r (Membership_Of c) \<longleftrightarrow> list_ex (\<lambda>m. r c = Some (mem_workspace_id m) \<and> cur_user t = Some (mem_user_id m)) ms"
| "holds t ms r (Either p q) \<longleftrightarrow> holds t ms r p \<or> holds t ms r q"
| "holds t ms r (Both p q) \<longleftrightarrow> holds t ms r p \<and> holds t ms r q"

text \<open>
  The predicate for the rows that a command reads or removes, and for those it writes, where \<open>USING\<close> stands in for
  an absent \<open>WITH CHECK\<close>. A table with row security and no policy for a command admits no row.
\<close>

definition written_predicate :: "policy_def \<Rightarrow> predicate option" where
  "written_predicate p = (if pol_check p = None then pol_using p else pol_check p)"

definition policies_for :: "catalog \<Rightarrow> string \<Rightarrow> row_command \<Rightarrow> policy_def list" where
  "policies_for c tab k = filter (\<lambda>p. pol_table p = tab \<and> pol_command p = k) (cat_policies c)"

definition satisfied :: "tenant \<Rightarrow> membership list \<Rightarrow> row_ids \<Rightarrow> predicate option \<Rightarrow> bool" where
  "satisfied t ms r q = (case q of None \<Rightarrow> True | Some p \<Rightarrow> holds t ms r p)"

definition may_touch :: "catalog \<Rightarrow> tenant \<Rightarrow> membership list \<Rightarrow> string \<Rightarrow> row_command \<Rightarrow> row_ids \<Rightarrow> bool" where
  "may_touch c t ms tab k r \<longleftrightarrow> \<not> List.member (cat_enabled c) tab
     \<or> list_ex (\<lambda>p. satisfied t ms r (pol_using p)) (policies_for c tab k)"

definition may_write :: "catalog \<Rightarrow> tenant \<Rightarrow> membership list \<Rightarrow> string \<Rightarrow> row_command \<Rightarrow> row_ids \<Rightarrow> bool" where
  "may_write c t ms tab k r \<longleftrightarrow> \<not> List.member (cat_enabled c) tab
     \<or> list_ex (\<lambda>p. satisfied t ms r (written_predicate p)) (policies_for c tab k)"

definition workspace_row :: "workspace \<Rightarrow> row_ids" where
  "workspace_row w = [''id'' \<mapsto> ws_id w, ''created_by'' \<mapsto> ws_created_by w]"

definition membership_row :: "membership \<Rightarrow> row_ids" where
  "membership_row m = [''id'' \<mapsto> mem_id m, ''workspace_id'' \<mapsto> mem_workspace_id m, ''user_id'' \<mapsto> mem_user_id m]"

definition tenant_row :: "uuid \<Rightarrow> row_ids" where
  "tenant_row w = [''workspace_id'' \<mapsto> w]"

text \<open>The policies at the head, table by table.\<close>

abbreviation own :: "string \<Rightarrow> predicate option" where
  "own c \<equiv> Some (Current_Workspace c)"

abbreviation own_or_worker :: "predicate option" where
  "own_or_worker \<equiv> Some (Either (Current_Workspace ''workspace_id'') Worker_Set)"

definition predicates :: "catalog \<Rightarrow> string \<Rightarrow> row_command \<Rightarrow> (predicate option \<times> predicate option) list" where
  "predicates c tab k = map (\<lambda>p. (pol_using p, pol_check p)) (policies_for c tab k)"

lemma head_predicates:
  "map (predicates head_catalog ''workspaces'') [Select, Insert, Update, Delete]
    = [[(Some (Either (Current_Workspace ''id'') (Membership_Of ''id'')), None)],
       [(None, Some (Both (Current_Workspace ''id'') (Current_User ''created_by'')))], [(own ''id'', own ''id'')], [(own ''id'', None)]]"
  "map (predicates head_catalog ''workspace_memberships'') [Select, Insert, Update, Delete]
    = [[(Some (Either (Current_Workspace ''workspace_id'') (Current_User ''user_id'')), None)],
       [(None, own ''workspace_id'')], [(own ''workspace_id'', own ''workspace_id'')], [(own ''workspace_id'', None)]]"
  "tab \<in> {''documents'', ''document_versions''} \<Longrightarrow> map (predicates head_catalog tab) [Select, Insert, Update, Delete]
    = [[(own ''workspace_id'', None)], [(None, own ''workspace_id'')], [(own ''workspace_id'', own ''workspace_id'')], [(own ''workspace_id'', None)]]"
  "map (predicates head_catalog ''document_chunks'') [Select, Insert, Update, Delete]
    = [[(own ''workspace_id'', None)], [(None, own ''workspace_id'')], [(own ''workspace_id'', None)], [(own ''workspace_id'', None)]]"
  "map (predicates head_catalog ''jobs'') [Select, Insert, Update, Delete]
    = [[(own_or_worker, None)], [(None, own ''workspace_id'')], [(own_or_worker, own_or_worker)], [(own_or_worker, None)]]"
  subgoal unfolding predicates_def policies_for_def head_simps by code_simp
  subgoal unfolding predicates_def policies_for_def head_simps by code_simp
  subgoal unfolding predicates_def policies_for_def head_simps by (elim insertE emptyE; (simp only:; code_simp))
  subgoal unfolding predicates_def policies_for_def head_simps by code_simp
  subgoal unfolding predicates_def policies_for_def head_simps by code_simp
  done

definition guarded :: "catalog \<Rightarrow> string \<Rightarrow> bool" where
  "guarded c tab \<longleftrightarrow> List.member (cat_enabled c) tab \<and> List.member (cat_forced c) tab"

lemma tenant_tables_guarded: "tab \<in> set tenant_tables \<Longrightarrow> guarded head_catalog tab"
  by (simp add: guarded_def)

lemma may_touch_predicates:
  "guarded c tab \<Longrightarrow> may_touch c t ms tab k r \<longleftrightarrow> (\<exists>(u, v) \<in> set (predicates c tab k). satisfied t ms r u)"
  by (auto simp: may_touch_def guarded_def predicates_def list_ex_iff)

lemma may_write_predicates:
  "guarded c tab \<Longrightarrow> may_write c t ms tab k r \<longleftrightarrow>
     (\<exists>(u, v) \<in> set (predicates c tab k). satisfied t ms r (if v = None then u else v))"
  by (auto simp: may_write_def guarded_def predicates_def list_ex_iff written_predicate_def)

lemmas head_policies = may_touch_predicates [OF tenant_tables_guarded] may_write_predicates [OF tenant_tables_guarded]
  head_predicates [simplified] satisfied_def

definition here :: "tenant \<Rightarrow> uuid option \<Rightarrow> bool" where
  "here t x \<longleftrightarrow> cur_workspace t \<noteq> None \<and> x = cur_workspace t"

lemma here_Some [simp]: "here t (Some w) \<longleftrightarrow> in_workspace t w" "\<not> here t None"
  by (auto simp: here_def in_workspace_def)

lemma head_touch:
  "may_touch head_catalog t ms ''workspaces'' Select r \<longleftrightarrow> here t (r ''id'') \<or> holds t ms r (Membership_Of ''id'')"
  "may_touch head_catalog t ms ''workspace_memberships'' Select r \<longleftrightarrow> here t (r ''workspace_id'') \<or> cur_user t \<noteq> None \<and> r ''user_id'' = cur_user t"
  "may_touch head_catalog t ms ''workspace_memberships'' Update r \<longleftrightarrow> here t (r ''workspace_id'')"
  "may_touch head_catalog t ms ''workspace_memberships'' Delete r \<longleftrightarrow> here t (r ''workspace_id'')"
  "may_touch head_catalog t ms ''workspaces'' Update r \<longleftrightarrow> here t (r ''id'')"
  "may_touch head_catalog t ms ''workspaces'' Delete r \<longleftrightarrow> here t (r ''id'')"
  by (simp_all add: head_policies tenant_tables_def here_def)

lemma head_touch_tenant:
  "tab \<in> {''documents'', ''document_versions'', ''document_chunks''} \<Longrightarrow> k \<noteq> Insert \<Longrightarrow>
     may_touch head_catalog t ms tab k r \<longleftrightarrow> here t (r ''workspace_id'')"
  "k \<noteq> Insert \<Longrightarrow> may_touch head_catalog t ms ''jobs'' k r \<longleftrightarrow> here t (r ''workspace_id'') \<or> cur_worker t \<noteq> None"
  by (cases k; auto simp: head_policies tenant_tables_def here_def)+

lemma head_write:
  "may_write head_catalog t ms ''workspaces'' Insert r \<longleftrightarrow> here t (r ''id'') \<and> cur_user t \<noteq> None \<and> r ''created_by'' = cur_user t"
  "may_write head_catalog t ms ''workspaces'' Update r \<longleftrightarrow> here t (r ''id'')"
  "may_write head_catalog t ms ''jobs'' Insert r \<longleftrightarrow> here t (r ''workspace_id'')"
  "may_write head_catalog t ms ''jobs'' Update r \<longleftrightarrow> here t (r ''workspace_id'') \<or> cur_worker t \<noteq> None"
  by (auto simp: head_policies tenant_tables_def here_def)

lemma head_write_tenant:
  "tab \<in> {''workspace_memberships'', ''documents'', ''document_versions'', ''document_chunks''} \<Longrightarrow> k \<in> {Insert, Update} \<Longrightarrow>
     may_write head_catalog t ms tab k r \<longleftrightarrow> here t (r ''workspace_id'')"
  by (elim insertE emptyE; auto simp: head_policies tenant_tables_def here_def)

lemmas head_rules = head_touch head_touch_tenant head_write head_write_tenant

text \<open>The reads, the inserts and the updates of the database model are those of the migrated policies.\<close>

lemma reads_as_migrated:
  "select_memberships t d = filter (\<lambda>m. may_touch head_catalog t [] ''workspace_memberships'' Select (membership_row m)) (db_memberships d)"
  "select_workspaces t d = filter (\<lambda>w. may_touch head_catalog t (select_memberships t d) ''workspaces'' Select (workspace_row w)) (db_workspaces d)"
  "select_documents t d = filter (\<lambda>x. may_touch head_catalog t [] ''documents'' Select (tenant_row (dcm_workspace_id x))) (db_documents d)"
  "select_versions t d = filter (\<lambda>x. may_touch head_catalog t [] ''document_versions'' Select (tenant_row (ver_workspace_id x))) (db_versions d)"
  "select_chunks t d = filter (\<lambda>x. may_touch head_catalog t [] ''document_chunks'' Select (tenant_row (row_workspace_id x))) (db_chunks d)"
  "select_jobs t d = filter (\<lambda>x. may_touch head_catalog t [] ''jobs'' Select (tenant_row (job_workspace_id x))) (db_jobs d)"
proof -
  show "select_memberships t d = filter (\<lambda>m. may_touch head_catalog t [] ''workspace_memberships'' Select (membership_row m)) (db_memberships d)"
    by (auto simp: select_memberships_def membership_visible_def head_rules membership_row_def intro!: filter_cong)
  have "holds t (select_memberships t d) (workspace_row w) (Membership_Of ''id'') \<longleftrightarrow>
      (\<exists>m \<in> set (db_memberships d). membership_visible t m \<and> mem_workspace_id m = ws_id w \<and> cur_user t = Some (mem_user_id m))" for w
    by (auto simp: list_ex_iff select_memberships_def workspace_row_def)
  then show "select_workspaces t d =
      filter (\<lambda>w. may_touch head_catalog t (select_memberships t d) ''workspaces'' Select (workspace_row w)) (db_workspaces d)"
    by (simp add: select_workspaces_def workspace_visible_def [abs_def] head_rules) (simp add: workspace_row_def)
qed (simp_all add: select_documents_def select_versions_def select_chunks_def select_jobs_def job_visible_def [abs_def]
    head_rules tenant_row_def)

lemma inserts_as_migrated:
  "insert_workspace t w d = Inl DatabaseError \<longleftrightarrow> \<not> may_write head_catalog t [] ''workspaces'' Insert (workspace_row w)"
  "insert_membership t m d = Inl DatabaseError \<longleftrightarrow> \<not> may_write head_catalog t [] ''workspace_memberships'' Insert (membership_row m)"
  "insert_version t v d = Inl DatabaseError \<longleftrightarrow> \<not> may_write head_catalog t [] ''document_versions'' Insert (tenant_row (ver_workspace_id v))"
  "insert_job t j d = Inl DatabaseError \<longleftrightarrow> \<not> may_write head_catalog t [] ''jobs'' Insert (tenant_row (job_workspace_id j))"
  "insert_document t x d = Inl DatabaseError \<longleftrightarrow>
     \<not> (active_version_valid t d x \<and> may_write head_catalog t [] ''documents'' Insert (tenant_row (dcm_workspace_id x)))"
  "insert_chunk t d y = Inl DatabaseError \<longleftrightarrow>
     \<not> (chunk_scope_valid t d y \<and> may_write head_catalog t [] ''document_chunks'' Insert (tenant_row (row_workspace_id y)))"
  by (auto simp: insert_workspace_def insert_membership_def insert_version_def insert_job_def insert_document_def
      insert_chunk_def head_rules workspace_row_def membership_row_def tenant_row_def)

lemma updates_as_migrated:
  "update_job t i f d = d\<lparr>db_jobs := update_where
     (\<lambda>j. may_touch head_catalog t [] ''jobs'' Update (tenant_row (job_workspace_id j)) \<and> job_id j = i) f (db_jobs d)\<rparr>"
  "set_version_status t i s d = d\<lparr>db_versions := update_where
     (\<lambda>v. may_touch head_catalog t [] ''document_versions'' Update (tenant_row (ver_workspace_id v)) \<and> ver_id v = i)
     (\<lambda>v. v\<lparr>ver_status := s\<rparr>) (db_versions d)\<rparr>"
  "update_membership t i g d = d\<lparr>db_memberships := update_where
     (\<lambda>m. may_touch head_catalog t [] ''workspace_memberships'' Update (membership_row m) \<and> mem_id m = i) g (db_memberships d)\<rparr>"
  "delete_membership t i d = d\<lparr>db_memberships := filter
     (\<lambda>m. \<not> (may_touch head_catalog t [] ''workspace_memberships'' Delete (membership_row m) \<and> mem_id m = i)) (db_memberships d)\<rparr>"
  by (simp_all add: update_job_def set_version_status_def update_membership_def delete_membership_def job_visible_def
      head_rules tenant_row_def membership_row_def)


text \<open>The column by which the rows of a table belong to a workspace.\<close>

definition workspace_column :: "catalog \<Rightarrow> string \<Rightarrow> string option" where
  "workspace_column c tab =
     (if tab = ''workspaces'' then Some ''id''
      else if list_ex (\<lambda>x. tab_name x = tab \<and> list_ex (\<lambda>k. col_name k = ''workspace_id'') (tab_columns x)) (cat_tables c)
        then Some ''workspace_id'' else None)"

lemma tenant_tables_have_column:
  "map tab_name (filter (\<lambda>x. list_ex (\<lambda>k. col_name k = ''workspace_id'') (tab_columns x)) (cat_tables head_catalog)) =
    [''workspace_memberships'', ''documents'', ''document_versions'', ''jobs'', ''document_chunks'']"
  unfolding head_simps by code_simp

lemma workspace_column_head:
  assumes "workspace_column head_catalog tab = Some c"
  shows "tab = ''workspaces'' \<and> c = ''id'' \<or>
    tab = ''workspace_memberships'' \<and> c = ''workspace_id'' \<or> tab = ''jobs'' \<and> c = ''workspace_id''
    \<or> tab \<in> {''documents'', ''document_versions'', ''document_chunks''} \<and> c = ''workspace_id''"
proof (cases "tab = ''workspaces''")
  case False
  with assms have "tab \<in> set (map tab_name (filter (\<lambda>x. list_ex (\<lambda>k. col_name k = ''workspace_id'') (tab_columns x)) (cat_tables head_catalog)))"
    and "c = ''workspace_id''"
    by (auto simp del: head_simps simp: workspace_column_def list_ex_iff split: if_splits)
  then show ?thesis unfolding tenant_tables_have_column list.set by (elim insertE emptyE) simp_all
qed (use assms in \<open>simp add: workspace_column_def\<close>)

text \<open>
  C27: No tenant's table is left unguarded. Every table of the head schema whose rows belong to a workspace has row security
  enabled and forced, and a session of another workspace (or of none) that is no worker cannot insert, rewrite, update or
  delete a row of it; it can read one only of the two tables that the user's own memberships open.
\<close>

theorem tenant_rows_guarded:
  assumes "workspace_column head_catalog tab = Some c" "r c = Some w" "cur_workspace t \<noteq> Some w" "cur_worker t = None"
  shows "guarded head_catalog tab \<and> \<not> may_write head_catalog t ms tab Insert r \<and> \<not> may_write head_catalog t ms tab Update r
    \<and> \<not> may_touch head_catalog t ms tab Update r \<and> \<not> may_touch head_catalog t ms tab Delete r
    \<and> (may_touch head_catalog t ms tab Select r \<longrightarrow>
        tab = ''workspaces'' \<and> list_ex (\<lambda>m. mem_workspace_id m = w \<and> cur_user t = Some (mem_user_id m)) ms
        \<or> tab = ''workspace_memberships'' \<and> cur_user t \<noteq> None \<and> r ''user_id'' = cur_user t)"
proof -
  have away: "\<not> here t (r c)"
    using assms(2,3) by (simp add: in_workspace_def)
  have guarded: "tab \<in> set tenant_tables \<Longrightarrow> guarded head_catalog tab" by (rule tenant_tables_guarded)
  from workspace_column_head [OF assms(1)] show ?thesis
  proof (elim disjE conjE)
    assume 1: "tab = ''workspaces''" "c = ''id''"
    have "list_ex (\<lambda>m. r ''id'' = Some (mem_workspace_id m) \<and> cur_user t = Some (mem_user_id m)) ms \<longleftrightarrow>
        list_ex (\<lambda>m. mem_workspace_id m = w \<and> cur_user t = Some (mem_user_id m)) ms"
      using assms(2) 1(2) by (auto simp: list_ex_iff)
    with 1 away guarded show ?thesis by (simp add: head_rules tenant_tables_def)
  next
    assume 2: "tab = ''workspace_memberships''" "c = ''workspace_id''"
    with away guarded show ?thesis by (simp add: head_rules tenant_tables_def)
  next
    assume 3: "tab = ''jobs''" "c = ''workspace_id''"
    with away guarded assms(4) show ?thesis by (simp add: head_rules tenant_tables_def)
  next
    assume 4: "tab \<in> {''documents'', ''document_versions'', ''document_chunks''}" "c = ''workspace_id''"
    then have "tab \<in> set tenant_tables" unfolding tenant_tables_def by (elim insertE emptyE) simp_all
    with 4 away guarded show ?thesis by (simp add: head_rules)
  qed
qed

theorem tenant_rows_guarded_witness:
  "let t = set_tenant_context 7 (Some 2) no_tenant in
   guarded head_catalog ''jobs'' \<and> \<not> may_write head_catalog t [] ''jobs'' Insert (tenant_row 1)
   \<and> \<not> may_touch head_catalog t [] ''jobs'' Delete (tenant_row 1)"
proof -
  have "workspace_column head_catalog ''jobs'' = Some ''workspace_id''"
    using tenant_tables_have_column by (simp add: workspace_column_def created_jobs_def required_def)
  from tenant_rows_guarded [OF this, of "tenant_row 1" 1 "set_tenant_context 7 (Some 2) no_tenant"] show ?thesis
    by (simp add: tenant_row_def Let_def)
qed

end
