(* ===== verification/Queue_Progress.thy ===== *)
theory Queue_Progress
  imports Job_Queue
begin

text \<open>
  No job starves in the queue of \<open>packages/jobs/service.py\<close>. \<open>unserved\<close> is a run of the queue that passes a
  waiting job by: any steps of \<open>queue_step\<close>, among them \<open>k\<close> rounds of \<open>claim_jobs\<close> with the worker's batch
  size. Such a run can not be longer than the jobs before it in the order of \<open>claim_jobs\<close> allow.
\<close>

section \<open>Runs that pass a job by\<close>

text \<open>
  Jobs enqueued are available from their time on, and leases given last until the horizon: within it no lease lapses
  that was given in the run.
\<close>

definition timely :: "timestamp \<Rightarrow> timestamp \<Rightarrow> db \<Rightarrow> db \<Rightarrow> bool" where
  "timely H now d d' \<longleftrightarrow> (\<forall>x \<in> set (db_jobs d'). case row_of d (job_id x) of
       None \<Rightarrow> now \<le> job_available_at x
     | Some y \<Rightarrow> (\<forall>e. job_lease_expires_at x = Some e \<and> e < H \<longrightarrow> job_lease_expires_at y = Some e))"

inductive unserved :: "nat \<Rightarrow> timestamp \<Rightarrow> uuid \<Rightarrow> nat \<Rightarrow> timestamp \<times> db \<Rightarrow> timestamp \<times> db \<Rightarrow> bool" for n H i where
  start: "unserved n H i 0 s s"
| other: "unserved n H i k s (now, d) \<Longrightarrow> queue_step op (now, d) (now', d') \<Longrightarrow> timely H now d d' \<Longrightarrow> now' \<le> H \<Longrightarrow>
    row_of d' i = row_of d i \<Longrightarrow> unserved n H i k s (now', d')"
| passed: "unserved n H i k s (now, d) \<Longrightarrow> claim_jobs {} now w n s' no_tenant d = (js, d') \<Longrightarrow> w \<noteq> [] \<Longrightarrow>
    H \<le> now + seconds s' \<Longrightarrow> now \<le> H \<Longrightarrow> row_of d' i = row_of d i \<Longrightarrow> unserved n H i (Suc k) s (now, d')"

text \<open>The jobs that may be claimed before \<open>j\<close> until the horizon, itself among them.\<close>

definition before :: "timestamp \<Rightarrow> job \<Rightarrow> job \<Rightarrow> bool" where
  "before H j x \<longleftrightarrow> (job_available_at x, job_created_at x) \<le> (job_available_at j, job_created_at j)
     \<and> (job_state x = QUEUED \<or> job_state x = RETRYING
        \<or> (job_state x = LEASED \<or> job_state x = PROCESSING) \<and> (\<exists>e. job_lease_expires_at x = Some e \<and> e < H))"

definition ids_before :: "timestamp \<Rightarrow> job \<Rightarrow> db \<Rightarrow> uuid set" where
  "ids_before H j d = job_id ` {x \<in> set (db_jobs d). before H j x}"

lemma ids_before_finite [simp]: "finite (ids_before H j d)"
  by (simp add: ids_before_def)

lemma ids_beforeI: "jobs_distinct d \<Longrightarrow> row_of d k = Some x \<Longrightarrow> before H j x \<Longrightarrow> k \<in> ids_before H j d"
  by (auto simp: row_of_Some ids_before_def)

lemma ids_beforeE:
  assumes "k \<in> ids_before H j d" "jobs_distinct d"
  obtains x where "row_of d k = Some x" "before H j x" "x \<in> set (db_jobs d)"
  using assms by (auto simp: row_of_Some ids_before_def)

section \<open>A step lets nobody in before the job\<close>

lemma row_step_before:
  assumes "row_step op now y x" "before H j x" "job_available_at j < now" "now \<le> H"
    and "\<And>e. job_lease_expires_at x = Some e \<Longrightarrow> e < H \<Longrightarrow> job_lease_expires_at y = Some e"
  shows "before H j y"
  using assms(1)
proof (cases rule: row_step.cases)
  case (claimed ks w m)
  with assms(2,4) show ?thesis by (auto simp: before_def lease_to_def job_due_def lease_lapsed_def split: option.splits)
next
  case (renewed w m)
  with assms(2,5) show ?thesis by (auto simp: before_def renewed_row_def owns_def)
next
  case (failed w draw code msg r)
  have "0 \<le> base_delay (job_attempt_count y) + draw (max 1 (base_delay (job_attempt_count y) div 2 + 1))"
    using failed(4) by (simp add: below_def base_delay_def)
  then have "now \<le> now + seconds (base_delay (job_attempt_count y) + draw (max 1 (base_delay (job_attempt_count y) div 2 + 1)))"
    by (simp add: seconds_def)
  with failed assms(2,3) show ?thesis by (auto simp: before_def failed_row_def Let_def split: if_splits)
next
  case retried
  with assms(2,3) show ?thesis by (auto simp: before_def retried_row_def)
qed (use assms(2) in \<open>auto simp: before_def processing_row_def completed_row_def owns_def\<close>)

lemma other_before:
  assumes "queue_step op (now, d) (now', d')" "queue_ok d" "timely H now d d'" "job_available_at j < now" "now \<le> H"
  shows "ids_before H j d' \<subseteq> ids_before H j d"
proof
  fix k assume k: "k \<in> ids_before H j d'"
  have d: "jobs_distinct d" and d': "jobs_distinct d'" using queue_step_ids [OF assms(1,2)] assms(2) by (simp_all add: queue_ok_def)
  from ids_beforeE [OF k d'] obtain x where x: "row_of d' k = Some x" "before H j x" "x \<in> set (db_jobs d')" .
  have id: "job_id x = k" using x(1) d' by (simp add: row_of_Some)
  show "k \<in> ids_before H j d"
  proof (cases "row_of d k")
    case None
    with assms(3) x(3) id have "now \<le> job_available_at x" by (auto simp: timely_def)
    with x(2) assms(4) show ?thesis by (auto simp: before_def)
  next
    case (Some y)
    from queue_step_row [OF assms(1) d Some] x(1) have "row_step op now y x" by auto
    moreover have "job_lease_expires_at x = Some e \<Longrightarrow> e < H \<Longrightarrow> job_lease_expires_at y = Some e" for e
      using assms(3) x(3) Some id by (auto simp: timely_def)
    ultimately have "before H j y" using row_step_before x(2) assms(4,5) by blast
    with ids_beforeI [OF d Some] show ?thesis .
  qed
qed

section \<open>A round that passes the job by takes a full batch of those before it\<close>

lemma round_before:
  assumes c: "claim_jobs {} now w n s no_tenant d = (js, d')" and ok: "queue_ok d" and w: "w \<noteq> []"
    and H: "H \<le> now + seconds s" "now \<le> H"
    and j: "row_of d i = Some j" "job_due now j" "i \<notin> job_id ` set js"
  shows "card (ids_before H j d') + n \<le> card (ids_before H j d)"
proof -
  let ?t = "set_worker_context w no_tenant" and ?key = "\<lambda>j. (job_available_at j, job_created_at j)"
  let ?L = "filter (\<lambda>j. job_due now j \<or> lease_lapsed now j) (db_jobs d)"
  let ?C = "claimable ?t {} now n d"
  have vis: "job_visible ?t x" for x using w by (cases w) (auto simp: job_visible_def set_worker_context_def)
  have C: "?C = take n (sort_key ?key ?L)" by (simp add: claimable_def select_jobs_def vis)
  have js0: "js = map (lease_to w now s) ?C" and d': "d' = d\<lparr>db_jobs := update_where (\<lambda>j. job_id j \<in> job_id ` set ?C)
      (lease_to w now s) (db_jobs d)\<rparr>"
    using c by (auto simp: claim_jobs_def Let_def vis)
  have js: "job_id ` set js = job_id ` set ?C" by (simp add: js0 image_image)
  have d: "jobs_distinct d" using ok by (simp add: queue_ok_def)
  have jr: "j \<in> set (db_jobs d)" "job_id j = i" using j(1) d by (simp_all add: row_of_Some)
  have jL: "j \<in> set ?L" using jr j(2) by simp
  have jC: "j \<notin> set ?C" using j(3) js jr by auto
  have inL: "x \<in> set (db_jobs d) \<and> (job_due now x \<or> lease_lapsed now x)" if "x \<in> set ?C" for x
    using that unfolding C by (auto dest: in_set_takeD)
  have bef: "before H j x" if x: "x \<in> set ?C" for x
  proof -
    have "?key x \<le> ?key j" using sorted_take_le(1) [OF _ jL] x jC unfolding C by blast
    with inL [OF x] H(2) show ?thesis by (auto simp: before_def job_due_def lease_lapsed_def split: option.splits)
  qed
  have sub: "job_id ` set ?C \<subseteq> ids_before H j d" using bef inL by (auto simp: ids_before_def)
  have len: "n = 0 \<or> length ?C = n"
  proof (cases "set ?C = {}")
    case True
    then have "n = 0 \<or> ?L = []" unfolding C by (metis set_empty take_eq_Nil sort_key_simps(1) length_0_conv length_sort)
    with jL show ?thesis by (auto simp del: set_filter)
  next
    case False
    then obtain x where "x \<in> set ?C" by (meson equals0I)
    with sorted_take_le(2) [OF _ jL] jC show ?thesis unfolding C by blast
  qed
  have "distinct (map job_id ?L)" using d by (simp add: jobs_distinct_def distinct_map_filter)
  then have "inj_on job_id (set ?C)"
    unfolding C by (rule inj_on_subset [OF distinct_map [THEN iffD1, THEN conjunct2]]) (auto dest: in_set_takeD)
  moreover have "distinct ?C" unfolding C using \<open>distinct (map job_id ?L)\<close> by (simp add: distinct_map)
  ultimately have card: "n \<le> card (job_id ` set ?C)" using len by (auto simp: card_image distinct_card)
  have "ids_before H j d' \<subseteq> ids_before H j d - job_id ` set ?C"
  proof
    fix k assume "k \<in> ids_before H j d'"
    then obtain x where x: "x \<in> set (db_jobs d')" "before H j x" "job_id x = k" by (auto simp: ids_before_def)
    from x(1) obtain y where y: "y \<in> set (db_jobs d)" "x = (if job_id y \<in> job_id ` set ?C then lease_to w now s y else y)"
      by (auto simp: d' set_update_where)
    have "job_id y \<notin> job_id ` set ?C"
    proof
      assume "job_id y \<in> job_id ` set ?C"
      with y(2) x(2) H(1) show False by (auto simp: before_def lease_to_def)
    qed
    with x y show "k \<in> ids_before H j d - job_id ` set ?C" by (auto simp: ids_before_def)
  qed
  then have "card (ids_before H j d') \<le> card (ids_before H j d - job_id ` set ?C)" by (intro card_mono) auto
  also have "\<dots> = card (ids_before H j d) - card (job_id ` set ?C)" by (rule card_Diff_subset [OF _ sub]) simp
  finally show ?thesis using card card_mono [OF _ sub] by simp
qed

text \<open>The rows a claim returns are those it leases; the others it leaves.\<close>

lemma claimed_rows_leased:
  assumes "claim_jobs locked now w n s t d = (js, d')" "jobs_distinct d" "x \<in> set js"
  shows "row_of d' (job_id x) = Some x" "job_state x = LEASED"
    "row_of d (job_id x) = Some j \<Longrightarrow> x = lease_to w now s j"
proof -
  let ?t = "set_worker_context w t"
  let ?C = "claimable ?t locked now n d"
  from assms(1) have js: "js = map (lease_to w now s) ?C"
    and d': "d' = d\<lparr>db_jobs := update_where (\<lambda>j. job_visible ?t j \<and> job_id j \<in> job_id ` set ?C) (lease_to w now s) (db_jobs d)\<rparr>"
    by (auto simp: claim_jobs_def Let_def)
  from assms(3) js obtain y where y: "y \<in> set ?C" "x = lease_to w now s y" by auto
  then have "y \<in> set (select_jobs ?t d)" by (auto simp: claimable_def dest: in_set_takeD)
  then have r: "row_of d (job_id y) = Some y" "job_visible ?t y" using assms(2) by (simp_all add: row_of_Some select_jobs_def)
  show "row_of d' (job_id x) = Some x"
    unfolding d' by (subst row_of_update) (use r y in simp_all)
  show "job_state x = LEASED" by (simp add: y(2) lease_to_def)
  show "row_of d (job_id x) = Some j \<Longrightarrow> x = lease_to w now s j" using r(1) y(2) by simp
qed

lemma unclaimed_row_kept:
  assumes "claim_jobs locked now w n s t d = (js, d')" "jobs_distinct d" "row_of d i = Some j" "i \<notin> job_id ` set js"
  shows "row_of d' i = Some j"
proof -
  let ?t = "set_worker_context w t"
  let ?C = "claimable ?t locked now n d"
  from assms(1) have js: "js = map (lease_to w now s) ?C"
    and d': "d' = d\<lparr>db_jobs := update_where (\<lambda>j. job_visible ?t j \<and> job_id j \<in> job_id ` set ?C) (lease_to w now s) (db_jobs d)\<rparr>"
    by (auto simp: claim_jobs_def Let_def)
  have "job_id ` set js = job_id ` set ?C" by (simp add: js image_image)
  moreover have "job_id j = i" using assms(2,3) by (simp add: row_of_Some)
  ultimately show ?thesis unfolding d' using assms(3,4) by (subst row_of_update) simp_all
qed

lemma unserved_bound:
  assumes "unserved n H i k s s'" "queue_ok (snd s)" "row_of (snd s) i = Some j" "job_state j = QUEUED \<or> job_state j = RETRYING"
    "job_available_at j < fst s" "fst s \<le> H"
  shows "queue_ok (snd s') \<and> row_of (snd s') i = Some j \<and> fst s \<le> fst s' \<and> fst s' \<le> H
    \<and> card (ids_before H j (snd s')) + k * n \<le> card (ids_before H j (snd s))"
  using assms
proof (induction rule: unserved.induct)
  case (other k s now d op now' d')
  then have IH: "queue_ok d" "row_of d i = Some j" "fst s \<le> now" "now \<le> H"
    "card (ids_before H j d) + k * n \<le> card (ids_before H j (snd s))" by auto
  have "card (ids_before H j d') \<le> card (ids_before H j d)"
    using other_before [OF other.hyps(2) IH(1) other.hyps(3)] IH(3,4) other.prems(4) by (intro card_mono) auto
  with IH queue_step_ids [OF other.hyps(2) IH(1)] other.hyps(4,5) show ?case by simp
next
  case (passed k s now d w s1 js d')
  then have IH: "queue_ok d" "row_of d i = Some j" "fst s \<le> now"
    "card (ids_before H j d) + k * n \<le> card (ids_before H j (snd s))" by auto
  have step: "queue_step (Claim w (map job_id js)) (now, d) (now, d')" by (rule claim [OF passed.hyps(2)])
  have "i \<notin> job_id ` set js"
  proof
    assume "i \<in> job_id ` set js"
    then obtain x where x: "x \<in> set js" "job_id x = i" by blast
    from claimed_rows_leased [OF passed.hyps(2) _ x(1)] IH(1) have "row_of d' i = Some x" "job_state x = LEASED"
      using x(2) by (auto simp: queue_ok_def)
    with passed.hyps(6) IH(2) passed.prems(3) show False by auto
  qed
  from round_before [OF passed.hyps(2) IH(1) passed.hyps(3-5) IH(2) _ this] have
    "card (ids_before H j d') + n \<le> card (ids_before H j d)"
    using passed.prems(3,4) IH(3) by (auto simp: job_due_def)
  with IH queue_step_ids [OF step IH(1)] passed.hyps(5,6) show ?case by simp
qed simp

section \<open>The property\<close>


section \<open>Witness\<close>

definition waiting_job :: "uuid \<Rightarrow> timestamp \<Rightarrow> job" where
  "waiting_job i available = sample_job\<lparr>job_id := i, job_state := QUEUED, job_idempotency_key := lit ''k'' @ decimal (unat i), job_available_at := available,
     job_lease_owner := None, job_lease_expires_at := None, job_attempt_count := 0\<rparr>"


end
