(* ===== verification/Spec2Isabelle.thy ===== *)
theory Spec2Isabelle
  imports Lifecycle Isolation Application Schema Queue_Progress Worker Chunk_Correct Embedding Lexical Pdf_Layout Job_Queue Retrieval Object_Store Workspaces
begin

text \<open>
  A model of SupportPilot, a multi-tenant customer-support platform: an API through which members of
  a workspace upload versioned documents and search them for evidence, and a worker that indexes the
  documents through a durable queue. The source is Python (FastAPI, SQLAlchemy on PostgreSQL, a local
  object store, a local embedding model); paths below are relative to the repository.

  \<^bold>\<open>How the parts interact.\<close> A request (\<open>Access\<close>, \<open>Workspaces\<close>, \<open>Documents\<close>) is one transaction
  (\<open>Transactions\<close>) on the tables (\<open>Db_Tables\<close>). Its caller is found from an access token
  (\<open>Sessions\<close>), the role from the membership in the workspace of the path; the row policies then show
  that workspace only. An upload (\<open>Filenames\<close>, \<open>Uploads\<close>) stages the file in the object store
  (\<open>Object_Store\<close>), moves it to its key and commits a version and a job. A worker (\<open>Worker\<close>) leases
  the job (\<open>Job_Queue\<close>), reads the object, lets the indexer (\<open>Indexing\<close>) parse, chunk and embed it
  (\<open>Parsing\<close>, \<open>Pdf_Layout\<close>, \<open>Chunking\<close>, \<open>Embedding\<close>), and in one transaction replaces the chunk rows and
  activates the version (\<open>Retrieval\<close>). A search ranks the chunks of the active versions by vector
  distance and by lexical score (\<open>Lexical\<close>) and fuses the two rankings (\<open>Retrieval\<close>).

  \<^bold>\<open>The theories, in the order of the imports.\<close>

  \<^item> Prelude. \<open>Base_Lib\<close>: results of code that can raise (\<open>exn + 'a\<close>), slices, generic list lemmas and the
    collections \<open>result_simps\<close> and \<open>slice_simps\<close>. \<open>Py_Text\<close>: \<open>str\<close> as lists of code points, with the string methods
    the program calls; the Unicode tables beyond ASCII are the record \<open>unicode\<close>. \<open>Errors\<close>
    (\<open>packages/domain/errors.py\<close>, the handlers of \<open>apps/api/main.py\<close>): exceptions, status codes, responses.
    \<open>Digests\<close>, \<open>Identifiers\<close>: UTF-8, SHA-256, UUIDs as text.
  \<^item> Documents as data. \<open>Rag_Models\<close> (\<open>packages/rag/models.py\<close>, \<open>config.py\<close>): blocks, documents, locators,
    chunks, their validation and identifiers.
  \<^item> Parsing (\<open>packages/rag/parsing.py\<close>). \<open>Parsing\<close>: plain text, Markdown, HTML; \<open>Pdf_Layout\<close>: PDF pages to
    paragraphs, and \<open>parse\<close>.
  \<^item> Chunking (\<open>packages/rag/tokenizer.py\<close>, \<open>chunking.py\<close>). \<open>Chunk_Tokens\<close> and \<open>Chunking\<close> are the code;
    \<open>Fragments\<close>, \<open>Packing\<close> and \<open>Chunk_Correct\<close> prove it: every chunk cites the text it consists of, every token of the
    document is in a chunk, no chunk crosses a section or exceeds the budget, and the errors are characterised.
    The locale \<open>token_budget\<close> states what a budget has to satisfy; \<open>Embedding\<close> interprets it.
  \<^item> Ranking. \<open>Embedding\<close> (\<open>packages/rag/embedding.py\<close>): preparing texts, unit vectors, the token budget.
    \<open>Lexical\<close> (\<open>packages/rag/lexical.py\<close>): terms, structural BM25, ranking.
  \<^item> \<open>Db_Tables\<close> (\<open>packages/database/models.py\<close>, \<open>tenant.py\<close>, \<open>packages/domain/enums.py\<close>, the migrations): tables as
    lists of rows; each statement the program issues, with the constraints, triggers and row policies that decide it.
  \<^item> \<open>Job_Queue\<close> (\<open>packages/jobs/service.py\<close>): claiming, leases, completion, failure, retry; the step
    relation \<open>queue_step\<close> and the invariants of its runs. \<open>Queue_Progress\<close>: no waiting job starves.
  \<^item> \<open>Retrieval\<close> (\<open>packages/rag/repository.py\<close>): chunk rows, the active scope, search and fusion.
  \<^item> \<open>Object_Store\<close> (\<open>packages/storage\<close>): the local adapter on a file system; the locale
    \<open>object_store\<close> states the contract of a store, the local adapter interprets it, and the uploads rest on its lemmas.
  \<^item> \<open>Indexing\<close> (\<open>packages/rag/service.py\<close>): the indexer; the locale \<open>version_indexer\<close> is what the worker
    relies on, and the indexer on the embedding model interprets it.
  \<^item> \<open>Settings\<close> (\<open>packages/config/settings.py\<close>, \<open>packages/domain/schemas.py\<close>): settings and request schemas.
    \<open>Transactions\<close> (\<open>packages/database/session.py\<close>): actions on the visible and the committed rows, with the collections
    \<open>action_simps\<close> (taking actions apart) and \<open>uncommitted\<close> (actions that do not commit).
  \<^item> \<open>Sessions\<close> (\<open>packages/security/tokens.py\<close>, \<open>sessions.py\<close>): access and refresh tokens; the step relation
    \<open>session_step\<close>. \<open>Access\<close> (\<open>packages/security/rbac.py\<close>, \<open>passwords.py\<close>, \<open>apps/api/dependencies.py\<close>,
    \<open>routes/auth.py\<close>): who may do what. \<open>Workspaces\<close> (\<open>routes/workspaces.py\<close>): workspaces and members; the step relation
    \<open>workspace_step\<close>.
  \<^item> \<open>Filenames\<close>, \<open>Uploads\<close> (\<open>packages/documents/service.py\<close>), \<open>Documents\<close> (\<open>routes/documents.py\<close>,
    \<open>routes/retrieval.py\<close>), \<open>Worker\<close> (\<open>apps/worker/main.py\<close>): the two stores together: what a failed upload or
    a failed attempt of a worker leaves, what a successful one commits, and idempotent repetition.
  \<^item> \<open>Lifecycle\<close>: the committed transactions of all of them as one step relation, \<open>lifecycle_step\<close>, and the
    invariant \<open>content_ok\<close> of its runs, from which the properties of live and of deleted documents follow.
  \<^item> \<open>Service\<close>: all that the service does for some workspaces as one relation, \<open>service_run\<close>, and the interface between
    the database and the rest: the locale \<open>statement_laws\<close> states what each statement has to respect of a relation
    between tables, and its lemma \<open>run_keeps\<close> carries the relation through actions, requests and runs. The collection
    \<open>safety\<close> holds the rules for composed actions. The interface is interpreted three times on the statements of
    \<open>Db_Tables\<close>, in the next two theories.
  \<^item> \<open>Isolation\<close>: the rows of other workspaces stay as they are (interpretation \<open>isolation\<close>), and what the reading routes
    answer depends on the rows of their workspace only (collection \<open>reading\<close>).
  \<^item> \<open>Integrity\<close>: every constraint of the schema holds in every state (interpretation \<open>integrity\<close>, invariant \<open>tables_ok\<close>),
    and nothing recorded is lost or rewritten (interpretation \<open>permanence\<close>, relation \<open>recorded\<close>). The updates of the
    model check no constraint but the ones that can fail; that the others can not is part of the theorem. The foreign key
    \<open>replaced_by_id\<close> of a session is not in \<open>tables_ok\<close>.
  \<^item> \<open>Application\<close> (\<open>apps/api/main.py\<close>, \<open>routes/health.py\<close>, the decorators of the routes): one function \<open>serve\<close> from a request
    to its response and the state after it. Serving is a run of the service, an error response leaves no row changed,
    and the internal errors are characterised. The collections \<open>raising\<close> (which exceptions a composed action can raise) and
    \<open>only_reading\<close> carry the proofs.
  \<^item> \<open>Migrations\<close> (\<open>migrations/versions\<close>): the upgrades and downgrades as DDL statements on a catalog, and why each
    downgrade undoes its upgrade on any database. \<open>Schema\<close> (\<open>packages/database/models.py\<close>, \<open>base.py\<close>): the schema the
    revisions end with, its agreement with the declarative classes, and its policies, which are the ones that
    \<open>Db_Tables\<close> writes into its statements and leave no table of a tenant unguarded.

  \<^bold>\<open>State and concurrency.\<close> The state of the database is the record \<open>db\<close>, that of the store \<open>file_system\<close>; a
  transaction adds the tenant settings and the rows last committed. A function of the code that takes
  a session is an action \<open>transaction \<Rightarrow> 'a result \<times> transaction\<close>. Transactions are atomic, so concurrency is
  the order of transactions: the step relations allow any order, the locks that other claims hold are an
  argument of \<open>claim_jobs\<close>, and what others do between the transactions of one job is an argument of the worker
  (\<open>surroundings\<close>). The clock, fresh identifiers and random draws are arguments.

  \<^bold>\<open>Parameters.\<close> The record \<open>unicode\<close>; the tokenizer and the vectors of the embedding model; what
  \<open>pdfplumber\<close>, \<open>pypdf\<close> and \<open>HTMLParser\<close> find; the vector distance of pgvector; \<open>jwt\<close> (with its documented behaviour
  \<open>jwt_documented\<close> where a property needs it); the password hasher; the e-mail check; the malware
  scanner; the exception text. Floating-point numbers are reals with infinities and not-a-number told apart; rounding is not modelled.

  \<^bold>\<open>Termination.\<close> No definition uses fuel: every loop of the code is a recursion with a proved measure
  (the binary search of the chunker, the regular expressions, the splitting loops), so each operation is total, and a
  chunking that can not go on raises as the code does. The polling of the worker without end is modelled
  by its rounds (\<open>run_once\<close>); a lease timer fires a given number of times.

  \<^bold>\<open>Not modelled.\<close> Logging, the start and stop of the process, the settings of CORS and of the OpenAPI pages; the matching
  of paths and the decoding of JSON, which are FastAPI's; the creation of engines and caches of loaded models (no effect on
  results); signals and the waiting of the worker; the column \<open>updated_at\<close> of rows; in the migrations, grants and the text
  of functions (their effect on rows is in \<open>Db_Tables\<close>); \<open>migrations/env.py\<close> and the scripts, which are calls of libraries;
  the web client, which is no Python.
\<close>

end
